(* ===== verification/Prelude.thy ===== *)
theory Prelude
  imports Main "HOL-Library.Word" "HOL-Library.Monad_Syntax"
begin

text \<open>
  Shared vocabulary of the development: the machine types, the collections that the
  component proofs draw on, and the few generic facts about lists, options and words that
  more than one component needs.

  Conventions.  A C integer whose width matters is a word (\<open>u8\<close> to \<open>u128\<close>); counters,
  time stamps and configuration values are \<open>int\<close>.  A C function that can fault (dereference
  \<open>NULL\<close>, read or write outside an object) or may not return has a result of type
  \<open>'a option\<close>, with \<open>None\<close> for the fault, and is composed with the option monad.
  The machine is little-endian, as the DPDK targets of the Makefile are.
\<close>

unbundle bit_operations_syntax

type_synonym u8 = "8 word"
type_synonym u16 = "16 word"
type_synonym u32 = "32 word"
type_synonym u64 = "64 word"
type_synonym u128 = "128 word"

named_theorems xor_algebra \<open>normalising exclusive-or expressions\<close>
named_theorems byte_order \<open>byte order conversions and their inverses\<close>

section \<open>Exclusive or\<close>

lemma xor_left_self [simp]:
  fixes x y :: "'a::len word"
  shows "x XOR (x XOR y) = y"
  by (simp flip: xor.assoc)

lemmas xor_ac [xor_algebra] = xor.assoc xor.commute xor.left_commute

section \<open>Byte order\<close>

text \<open>\<open>htonl\<close> and \<open>ntohl\<close> on a little-endian machine reverse the four bytes of a word.\<close>

definition htonl :: "u32 \<Rightarrow> u32" where
  "htonl x = push_bit 24 x OR push_bit 16 (take_bit 8 (drop_bit 8 x))
     OR push_bit 8 (take_bit 8 (drop_bit 16 x)) OR drop_bit 24 x"

definition ntohs :: "u16 \<Rightarrow> u16" where
  "ntohs x = push_bit 8 x OR drop_bit 8 x"

lemma ntohs_involution [simp, byte_order]: "ntohs (ntohs x) = x"
  by (rule bit_word_eqI) (auto simp: ntohs_def bit_simps)

lemma all_bits_32: "(\<forall>n < 32. P n) \<longleftrightarrow> list_all P [0..<32]" for P :: "nat \<Rightarrow> bool"
  by (auto simp: list_all_iff)

lemma htonl_htonl [simp, byte_order]: "htonl (htonl x) = x"
proof (rule bit_word_eqI)
  have "\<forall>n < 32. bit (htonl (htonl x)) n = bit x n"
    unfolding all_bits_32 by (simp add: upt_rec htonl_def bit_simps) (simp add: numeral_eq_Suc)
  then show "bit (htonl (htonl x)) n = bit x n" if "n < LENGTH(32)" for n
    using that by simp
qed

lemma htonl_inj [simp]: "htonl x = htonl y \<longleftrightarrow> x = y"
  by (metis htonl_htonl)

end
