(* ===== verification/Aes_Spec.thy ===== *)
theory Aes_Spec
  imports Prelude
begin

text \<open>
  The block cipher that \<^verbatim>\<open>src/rijndael.c\<close> promises, written after FIPS-197 and independently
  of the source: the field GF(256), the four transformations of a round with their inverses, the
  cipher, the inverse cipher and the key expansion.  The S-box is a parameter (locale \<open>aes_sbox\<close>
  asks for a pair of mutually inverse byte functions); \<open>Rijndael_Tables\<close> interprets the locale on
  the tables of the source and shows that they are the S-box of the standard.

  A column of the state is a \<open>col\<close>, a state four of them.  Exclusive or on columns and states is the
  addition of an abelian group in which every element is its own inverse; with the class instances
  below the group automation of the library applies to \<^verbatim>\<open>^\<close> on rows and blocks.
\<close>

section \<open>The field GF(256)\<close>

definition xtime :: "u8 \<Rightarrow> u8" where
  "xtime b = push_bit 1 b XOR (if bit b 7 then 0x1B else 0)"

primrec gmul_upto :: "nat \<Rightarrow> u8 \<Rightarrow> u8 \<Rightarrow> u8" where
  "gmul_upto 0 a b = 0"
| "gmul_upto (Suc n) a b = (if odd a then b else 0) XOR gmul_upto n (drop_bit 1 a) (xtime b)"

lemma gmul_upto_code [code]:
  "gmul_upto 0 a b = 0"
  "gmul_upto (Suc n) a b = (if bit a 0 then b else 0) XOR gmul_upto n (drop_bit 1 a) (xtime b)"
  by (simp_all add: bit_0)

definition gmul :: "u8 \<Rightarrow> u8 \<Rightarrow> u8" where
  "gmul a b = gmul_upto 8 a b"

lemma xtime_0 [simp]: "xtime 0 = 0"
  by (simp add: xtime_def)

lemma xtime_xor [xor_algebra]: "xtime (a XOR b) = xtime a XOR xtime b"
  by (rule bit_word_eqI) (auto simp: xtime_def bit_simps)

lemma gmul_upto_shifted:
  "gmul_upto (Suc n) (drop_bit k a) b =
     (if bit a k then b else 0) XOR gmul_upto n (drop_bit (Suc k) a) (xtime b)"
  by (simp add: bit_iff_odd_drop_bit)

lemma gmul_unroll:
  "gmul a b =
     (if bit a 0 then b else 0)
     XOR (if bit a 1 then xtime b else 0)
     XOR (if bit a 2 then xtime (xtime b) else 0)
     XOR (if bit a 3 then xtime (xtime (xtime b)) else 0)
     XOR gmul_upto 4 (drop_bit 4 a) (xtime (xtime (xtime (xtime b))))"
proof -
  have "gmul_upto 8 (drop_bit 0 a) b = gmul_upto (Suc (Suc (Suc (Suc 4)))) (drop_bit 0 a) b"
    by (simp add: eval_nat_numeral)
  then show ?thesis
    unfolding gmul_def gmul_upto_shifted by (simp add: numeral_2_eq_2 numeral_3_eq_3 numeral_eq_Suc)
qed

lemma gmul_upto_zero [simp]: "gmul_upto n 0 b = 0"
  by (induction n arbitrary: b) simp_all

lemma gmul_constants:
  "gmul 1 b = b"
  "gmul 2 b = xtime b"
  "gmul 3 b = b XOR xtime b"
  "gmul 9 b = b XOR xtime (xtime (xtime b))"
  "gmul 11 b = b XOR xtime b XOR xtime (xtime (xtime b))"
  "gmul 13 b = b XOR xtime (xtime b) XOR xtime (xtime (xtime b))"
  "gmul 14 b = xtime b XOR xtime (xtime b) XOR xtime (xtime (xtime b))"
  unfolding gmul_unroll by (simp_all add: xor_ac)

text \<open>The affine map of the S-box, and what it is for a byte function to be the S-box.\<close>

definition rotl8 :: "nat \<Rightarrow> u8 \<Rightarrow> u8" where
  "rotl8 n b = push_bit n b OR drop_bit (8 - n) b"

definition sbox_affine :: "u8 \<Rightarrow> u8" where
  "sbox_affine b = b XOR rotl8 1 b XOR rotl8 2 b XOR rotl8 3 b XOR rotl8 4 b XOR 0x63"

definition is_aes_sbox :: "(u8 \<Rightarrow> u8) \<Rightarrow> bool" where
  "is_aes_sbox f \<longleftrightarrow>
     f 0 = sbox_affine 0 \<and> (\<forall>b. b \<noteq> 0 \<longrightarrow> (\<exists>c. gmul b c = 1 \<and> f b = sbox_affine c))"

section \<open>Columns and states\<close>

datatype col = Col u8 u8 u8 u8
datatype block = Block col col col col

fun xor_col :: "col \<Rightarrow> col \<Rightarrow> col" where
  "xor_col (Col a b c d) (Col a' b' c' d') = Col (a XOR a') (b XOR b') (c XOR c') (d XOR d')"

fun xor_block :: "block \<Rightarrow> block \<Rightarrow> block" where
  "xor_block (Block a b c d) (Block a' b' c' d') =
     Block (xor_col a a') (xor_col b b') (xor_col c c') (xor_col d d')"

instantiation col :: ab_group_add
begin
definition zero_col :: col where "zero_col = Col 0 0 0 0"
definition plus_col :: "col \<Rightarrow> col \<Rightarrow> col" where "plus_col = xor_col"
definition minus_col :: "col \<Rightarrow> col \<Rightarrow> col" where "minus_col = xor_col"
definition uminus_col :: "col \<Rightarrow> col" where "uminus_col x = x"
instance
proof
  fix a b c :: col
  show "a + b + c = a + (b + c)"
    by (cases a; cases b; cases c) (simp add: plus_col_def xor_ac)
  show "a + b = b + a"
    by (cases a; cases b) (simp add: plus_col_def xor_ac)
  show "0 + a = a" and "- a + a = 0" and "a - b = a + - b"
    by (cases a; simp add: plus_col_def zero_col_def minus_col_def uminus_col_def)+
qed
end

lemma plus_Col [simp]:
  "Col a b c d + Col a' b' c' d' = Col (a XOR a') (b XOR b') (c XOR c') (d XOR d')"
  by (simp add: plus_col_def)

lemma xor_col_plus: "xor_col x y = x + y"
  by (simp add: plus_col_def)

lemma col_self [simp]: "x + x = 0" for x :: col
  by (cases x) (simp add: zero_col_def)

instantiation block :: ab_group_add
begin
definition zero_block :: block where "zero_block = Block 0 0 0 0"
definition plus_block :: "block \<Rightarrow> block \<Rightarrow> block" where "plus_block = xor_block"
definition minus_block :: "block \<Rightarrow> block \<Rightarrow> block" where "minus_block = xor_block"
definition uminus_block :: "block \<Rightarrow> block" where "uminus_block x = x"
instance
proof
  fix a b c :: block
  show "a + b + c = a + (b + c)"
    by (cases a; cases b; cases c) (simp add: plus_block_def xor_col_plus add.assoc)
  show "a + b = b + a"
    by (cases a; cases b) (simp add: plus_block_def xor_col_plus add.commute)
  show "0 + a = a" and "- a + a = 0" and "a - b = a + - b"
    by (cases a;
        simp add: plus_block_def zero_block_def minus_block_def uminus_block_def xor_col_plus)+
qed
end

lemma plus_Block [simp]:
  "Block a b c d + Block a' b' c' d' = Block (a + a') (b + b') (c + c') (d + d')"
  by (simp add: plus_block_def xor_col_plus)

lemma xor_block_plus: "xor_block x y = x + y"
  by (simp add: plus_block_def)

lemma block_self [simp]: "x + x = 0" for x :: block
  by (cases x) (simp add: zero_block_def)

lemma block_cancel [simp]: "x + (x + y) = y" for x y :: block
  by (simp flip: add.assoc)

lemma col_cancel [simp]: "x + (x + y) = y" for x y :: col
  by (simp flip: add.assoc)

section \<open>The transformations of a round\<close>

fun map_col :: "(u8 \<Rightarrow> u8) \<Rightarrow> col \<Rightarrow> col" where
  "map_col f (Col a b c d) = Col (f a) (f b) (f c) (f d)"

fun sub_bytes :: "(u8 \<Rightarrow> u8) \<Rightarrow> block \<Rightarrow> block" where
  "sub_bytes f (Block a b c d) = Block (map_col f a) (map_col f b) (map_col f c) (map_col f d)"

fun shift_rows :: "block \<Rightarrow> block" where
  "shift_rows (Block (Col a0 a1 a2 a3) (Col b0 b1 b2 b3) (Col c0 c1 c2 c3) (Col d0 d1 d2 d3)) =
     Block (Col a0 b1 c2 d3) (Col b0 c1 d2 a3) (Col c0 d1 a2 b3) (Col d0 a1 b2 c3)"

fun inv_shift_rows :: "block \<Rightarrow> block" where
  "inv_shift_rows (Block (Col a0 a1 a2 a3) (Col b0 b1 b2 b3) (Col c0 c1 c2 c3) (Col d0 d1 d2 d3)) =
     Block (Col a0 d1 c2 b3) (Col b0 a1 d2 c3) (Col c0 b1 a2 d3) (Col d0 c1 b2 a3)"

fun mix_col :: "col \<Rightarrow> col" where
  "mix_col (Col a b c d) = Col
     (gmul 2 a XOR gmul 3 b XOR c XOR d)
     (a XOR gmul 2 b XOR gmul 3 c XOR d)
     (a XOR b XOR gmul 2 c XOR gmul 3 d)
     (gmul 3 a XOR b XOR c XOR gmul 2 d)"

fun inv_mix_col :: "col \<Rightarrow> col" where
  "inv_mix_col (Col a b c d) = Col
     (gmul 14 a XOR gmul 11 b XOR gmul 13 c XOR gmul 9 d)
     (gmul 9 a XOR gmul 14 b XOR gmul 11 c XOR gmul 13 d)
     (gmul 13 a XOR gmul 9 b XOR gmul 14 c XOR gmul 11 d)
     (gmul 11 a XOR gmul 13 b XOR gmul 9 c XOR gmul 14 d)"

fun mix_columns :: "block \<Rightarrow> block" where
  "mix_columns (Block a b c d) = Block (mix_col a) (mix_col b) (mix_col c) (mix_col d)"

fun inv_mix_columns :: "block \<Rightarrow> block" where
  "inv_mix_columns (Block a b c d) =
     Block (inv_mix_col a) (inv_mix_col b) (inv_mix_col c) (inv_mix_col d)"

text \<open>FIPS-197, figures 5 and 12: \<open>w\<close> gives the round keys, \<open>Nr\<close> the number of rounds.\<close>

definition aes_round :: "(u8 \<Rightarrow> u8) \<Rightarrow> block \<Rightarrow> block \<Rightarrow> block" where
  "aes_round f k s = mix_columns (shift_rows (sub_bytes f s)) + k"

definition aes_cipher :: "(u8 \<Rightarrow> u8) \<Rightarrow> (nat \<Rightarrow> block) \<Rightarrow> nat \<Rightarrow> block \<Rightarrow> block" where
  "aes_cipher f w Nr s =
     shift_rows (sub_bytes f (fold (\<lambda>r. aes_round f (w r)) [1..<Nr] (s + w 0))) + w Nr"

definition inv_aes_round :: "(u8 \<Rightarrow> u8) \<Rightarrow> block \<Rightarrow> block \<Rightarrow> block" where
  "inv_aes_round g k s = inv_mix_columns (sub_bytes g (inv_shift_rows s) + k)"

definition inv_aes_cipher :: "(u8 \<Rightarrow> u8) \<Rightarrow> (nat \<Rightarrow> block) \<Rightarrow> nat \<Rightarrow> block \<Rightarrow> block" where
  "inv_aes_cipher g w Nr s =
     sub_bytes g (inv_shift_rows (fold (\<lambda>r. inv_aes_round g (w r)) (rev [1..<Nr]) (s + w Nr))) + w 0"

section \<open>The inverse transformations\<close>

lemma inv_shift_rows_inverse [simp]: "inv_shift_rows (shift_rows s) = s"
  by (cases s rule: shift_rows.cases) simp

lemma shift_rows_inverse [simp]: "shift_rows (inv_shift_rows s) = s"
  by (cases s rule: inv_shift_rows.cases) simp

lemma inv_shift_rows_sub_bytes: "inv_shift_rows (sub_bytes f s) = sub_bytes f (inv_shift_rows s)"
  by (cases s rule: shift_rows.cases) simp

lemma inv_mix_col_inverse [simp]: "inv_mix_col (mix_col c) = c"
  by (cases c) (simp add: gmul_constants xor_algebra)

lemma mix_col_inverse [simp]: "mix_col (inv_mix_col c) = c"
  by (cases c) (simp add: gmul_constants xor_algebra)

lemma inv_mix_columns_inverse [simp]: "inv_mix_columns (mix_columns s) = s"
  by (cases s) simp

lemma mix_columns_inverse [simp]: "mix_columns (inv_mix_columns s) = s"
  by (cases s) simp

lemma inv_mix_col_add [xor_algebra]: "inv_mix_col (x + y) = inv_mix_col x + inv_mix_col y"
  by (cases x; cases y) (simp add: gmul_constants xor_algebra)

lemma inv_mix_columns_add [xor_algebra]:
  "inv_mix_columns (x + y) = inv_mix_columns x + inv_mix_columns y"
  by (cases x; cases y) (simp add: inv_mix_col_add)

section \<open>Correctness of the cipher for a bijective S-box\<close>

locale aes_sbox =
  fixes sbox inv_sbox :: "u8 \<Rightarrow> u8"
  assumes inv_sbox_sbox: "inv_sbox (sbox x) = x"
    and sbox_inv_sbox: "sbox (inv_sbox x) = x"
begin

lemma inv_sub_bytes: "sub_bytes inv_sbox (sub_bytes sbox s) = s"
  by (cases s rule: shift_rows.cases) (simp add: inv_sbox_sbox)

lemma sub_bytes_inv: "sub_bytes sbox (sub_bytes inv_sbox s) = s"
  by (cases s rule: shift_rows.cases) (simp add: sbox_inv_sbox)

lemma inv_aes_round_inverse:
  "inv_aes_round inv_sbox k (shift_rows (sub_bytes sbox (aes_round sbox k s)))
     = shift_rows (sub_bytes sbox s)"
  by (simp add: inv_aes_round_def aes_round_def inv_sub_bytes add.assoc)

lemma inv_rounds_inverse:
  "fold (\<lambda>r. inv_aes_round inv_sbox (w r)) (rev rs)
     (shift_rows (sub_bytes sbox (fold (\<lambda>r. aes_round sbox (w r)) rs s)))
   = shift_rows (sub_bytes sbox s)"
  by (induction rs rule: rev_induct) (simp_all add: inv_aes_round_inverse)

lemma inv_cipher_cipher: "inv_aes_cipher inv_sbox w Nr (aes_cipher sbox w Nr s) = s"
proof -
  let ?s = "fold (\<lambda>r. aes_round sbox (w r)) [1..<Nr] (s + w 0)"
  have "aes_cipher sbox w Nr s + w Nr = shift_rows (sub_bytes sbox ?s)"
    by (simp add: aes_cipher_def add.assoc)
  then show ?thesis
    by (simp add: inv_aes_cipher_def inv_rounds_inverse inv_sub_bytes add.assoc)
qed

lemma cipher_inj: "aes_cipher sbox w Nr s = aes_cipher sbox w Nr t \<Longrightarrow> s = t"
  by (metis inv_cipher_cipher)

end

section \<open>Key expansion\<close>

text \<open>
  FIPS-197, figure 11, on the list of the words produced so far: the next word depends on the last
  one and on the one \<open>Nk\<close> places back.
\<close>

fun rot_word :: "col \<Rightarrow> col" where
  "rot_word (Col a b c d) = Col b c d a"

definition rcon_spec :: "nat \<Rightarrow> col" where
  "rcon_spec i = Col ((xtime ^^ (i - 1)) 1) 0 0 0"

definition next_key_word :: "(u8 \<Rightarrow> u8) \<Rightarrow> nat \<Rightarrow> col list \<Rightarrow> col" where
  "next_key_word f Nk ws =
     (let i = length ws; temp = ws ! (i - 1) in
      ws ! (i - Nk) +
      (if i mod Nk = 0 then map_col f (rot_word temp) + rcon_spec (i div Nk)
       else if 6 < Nk \<and> i mod Nk = 4 then map_col f temp
       else temp))"

primrec key_expansion_steps :: "(u8 \<Rightarrow> u8) \<Rightarrow> nat \<Rightarrow> nat \<Rightarrow> col list \<Rightarrow> col list" where
  "key_expansion_steps f Nk 0 ws = ws"
| "key_expansion_steps f Nk (Suc n) ws =
     key_expansion_steps f Nk n (ws @ [next_key_word f Nk ws])"

definition key_expansion :: "(u8 \<Rightarrow> u8) \<Rightarrow> nat \<Rightarrow> nat \<Rightarrow> col list \<Rightarrow> col list" where
  "key_expansion f Nk Nr key = key_expansion_steps f Nk (4 * (Nr + 1) - Nk) key"

lemma length_key_expansion_steps [simp]:
  "length (key_expansion_steps f Nk n ws) = length ws + n"
  by (induction n arbitrary: ws) simp_all

lemma key_expansion_steps_add:
  "key_expansion_steps f Nk (m + n) ws = key_expansion_steps f Nk n (key_expansion_steps f Nk m ws)"
  by (induction m arbitrary: ws) simp_all

lemma key_expansion_steps_prefix: "take (length ws) (key_expansion_steps f Nk n ws) = ws"
proof (induction n arbitrary: ws)
  case (Suc n)
  have "take (length ws) (take (length (ws @ [next_key_word f Nk ws]))
          (key_expansion_steps f Nk n (ws @ [next_key_word f Nk ws]))) = ws"
    unfolding Suc.IH by simp
  then show ?case by (simp add: min_def)
qed simp

text \<open>The cipher and its inverse for a key of \<open>Nk\<close> words.\<close>

definition schedule :: "(u8 \<Rightarrow> u8) \<Rightarrow> nat \<Rightarrow> nat \<Rightarrow> col list \<Rightarrow> nat \<Rightarrow> block" where
  "schedule f Nk Nr key r =
     (let w = key_expansion f Nk Nr key in
      Block (w ! (4 * r)) (w ! (4 * r + 1)) (w ! (4 * r + 2)) (w ! (4 * r + 3)))"

definition aes :: "(u8 \<Rightarrow> u8) \<Rightarrow> nat \<Rightarrow> nat \<Rightarrow> col list \<Rightarrow> block \<Rightarrow> block" where
  "aes f Nk Nr key = aes_cipher f (schedule f Nk Nr key) Nr"

definition inv_aes :: "(u8 \<Rightarrow> u8) \<Rightarrow> (u8 \<Rightarrow> u8) \<Rightarrow> nat \<Rightarrow> nat \<Rightarrow> col list \<Rightarrow> block \<Rightarrow> block" where
  "inv_aes f g Nk Nr key = inv_aes_cipher g (schedule f Nk Nr key) Nr"

lemma key_expansion_take:
  assumes "4 * (Nr + 1) - Nk \<le> n"
  shows "take (length key + (4 * (Nr + 1) - Nk)) (key_expansion_steps f Nk n key)
     = key_expansion f Nk Nr key"
proof -
  have "n = (4 * (Nr + 1) - Nk) + (n - (4 * (Nr + 1) - Nk))" using assms by simp
  then show ?thesis
    using key_expansion_steps_prefix [of "key_expansion f Nk Nr key"]
      key_expansion_steps_add [of f Nk "4 * (Nr + 1) - Nk"]
    by (metis key_expansion_def length_key_expansion_steps)
qed

lemma aes_cipher_cong:
  assumes "\<And>r. r \<le> Nr \<Longrightarrow> w r = w' r"
  shows "aes_cipher f w Nr a = aes_cipher f w' Nr a"
proof -
  have "fold (\<lambda>r. aes_round f (w r)) [1..<Nr] (a + w 0) = fold (\<lambda>r. aes_round f (w' r)) [1..<Nr] (a + w 0)"
    by (rule fold_cong) (simp_all add: assms)
  then show ?thesis by (simp add: aes_cipher_def assms)
qed

context aes_sbox
begin

lemma inv_aes_aes: "inv_aes sbox inv_sbox Nk Nr key (aes sbox Nk Nr key a) = a"
  by (simp add: inv_aes_def aes_def inv_cipher_cipher)

lemma aes_inj: "aes sbox Nk Nr key a = aes sbox Nk Nr key b \<Longrightarrow> a = b"
  by (metis inv_aes_aes)

end

end
