(* ===== verification/Rijndael_Tables.thy ===== *)
theory Rijndael_Tables
  imports Aes_Spec
begin

text \<open>
  The constant tables of \<^verbatim>\<open>src/rijndael.c\<close>, as \<^verbatim>\<open>init_rijndael_OP\<close> stores them in a
  \<^verbatim>\<open>struct rijndael\<close>: the S-box \<open>S\<close> and its inverse \<open>S5\<close>, the encryption tables
  \<open>T1\<close>--\<open>T4\<close>, the decryption tables \<open>T5\<close>--\<open>T8\<close>, the key conversion tables
  \<open>U1\<close>--\<open>U4\<close> and the round constants.  A row of four bytes is a \<open>col\<close>: the source reads
  rows through \<^verbatim>\<open>UINT32 *\<close> and only copies them and takes exclusive ors, which act on each of
  the four bytes separately, so the byte order of the machine does not matter here.

  The lemmas at the end replace each table by the field arithmetic it tabulates; nothing after
  this theory looks at a table entry again.
\<close>


section \<open>The tables of the source\<close>

definition S_table :: "u8 list" where
  "S_table = [
    99, 124, 119, 123, 242, 107, 111, 197, 48, 1, 103, 43, 254, 215, 171, 118, 202, 130, 201,
    125, 250, 89, 71, 240, 173, 212, 162, 175, 156, 164, 114, 192, 183, 253, 147, 38, 54, 63,
    247, 204, 52, 165, 229, 241, 113, 216, 49, 21, 4, 199, 35, 195, 24, 150, 5, 154, 7, 18,
    128, 226, 235, 39, 178, 117, 9, 131, 44, 26, 27, 110, 90, 160, 82, 59, 214, 179, 41, 227,
    47, 132, 83, 209, 0, 237, 32, 252, 177, 91, 106, 203, 190, 57, 74, 76, 88, 207, 208, 239,
    170, 251, 67, 77, 51, 133, 69, 249, 2, 127, 80, 60, 159, 168, 81, 163, 64, 143, 146, 157,
    56, 245, 188, 182, 218, 33, 16, 255, 243, 210, 205, 12, 19, 236, 95, 151, 68, 23, 196,
    167, 126, 61, 100, 93, 25, 115, 96, 129, 79, 220, 34, 42, 144, 136, 70, 238, 184, 20, 222,
    94, 11, 219, 224, 50, 58, 10, 73, 6, 36, 92, 194, 211, 172, 98, 145, 149, 228, 121, 231,
    200, 55, 109, 141, 213, 78, 169, 108, 86, 244, 234, 101, 122, 174, 8, 186, 120, 37, 46,
    28, 166, 180, 198, 232, 221, 116, 31, 75, 189, 139, 138, 112, 62, 181, 102, 72, 3, 246,
    14, 97, 53, 87, 185, 134, 193, 29, 158, 225, 248, 152, 17, 105, 217, 142, 148, 155, 30,
    135, 233, 206, 85, 40, 223, 140, 161, 137, 13, 191, 230, 66, 104, 65, 153, 45, 15, 176,
    84, 187, 22]"

definition T1_table :: "col list" where
  "T1_table = [
    Col 0xc6 0x63 0x63 0xa5, Col 0xf8 0x7c 0x7c 0x84, Col 0xee 0x77 0x77 0x99,
    Col 0xf6 0x7b 0x7b 0x8d, Col 0xff 0xf2 0xf2 0x0d, Col 0xd6 0x6b 0x6b 0xbd,
    Col 0xde 0x6f 0x6f 0xb1, Col 0x91 0xc5 0xc5 0x54, Col 0x60 0x30 0x30 0x50,
    Col 0x02 0x01 0x01 0x03, Col 0xce 0x67 0x67 0xa9, Col 0x56 0x2b 0x2b 0x7d,
    Col 0xe7 0xfe 0xfe 0x19, Col 0xb5 0xd7 0xd7 0x62, Col 0x4d 0xab 0xab 0xe6,
    Col 0xec 0x76 0x76 0x9a, Col 0x8f 0xca 0xca 0x45, Col 0x1f 0x82 0x82 0x9d,
    Col 0x89 0xc9 0xc9 0x40, Col 0xfa 0x7d 0x7d 0x87, Col 0xef 0xfa 0xfa 0x15,
    Col 0xb2 0x59 0x59 0xeb, Col 0x8e 0x47 0x47 0xc9, Col 0xfb 0xf0 0xf0 0x0b,
    Col 0x41 0xad 0xad 0xec, Col 0xb3 0xd4 0xd4 0x67, Col 0x5f 0xa2 0xa2 0xfd,
    Col 0x45 0xaf 0xaf 0xea, Col 0x23 0x9c 0x9c 0xbf, Col 0x53 0xa4 0xa4 0xf7,
    Col 0xe4 0x72 0x72 0x96, Col 0x9b 0xc0 0xc0 0x5b, Col 0x75 0xb7 0xb7 0xc2,
    Col 0xe1 0xfd 0xfd 0x1c, Col 0x3d 0x93 0x93 0xae, Col 0x4c 0x26 0x26 0x6a,
    Col 0x6c 0x36 0x36 0x5a, Col 0x7e 0x3f 0x3f 0x41, Col 0xf5 0xf7 0xf7 0x02,
    Col 0x83 0xcc 0xcc 0x4f, Col 0x68 0x34 0x34 0x5c, Col 0x51 0xa5 0xa5 0xf4,
    Col 0xd1 0xe5 0xe5 0x34, Col 0xf9 0xf1 0xf1 0x08, Col 0xe2 0x71 0x71 0x93,
    Col 0xab 0xd8 0xd8 0x73, Col 0x62 0x31 0x31 0x53, Col 0x2a 0x15 0x15 0x3f,
    Col 0x08 0x04 0x04 0x0c, Col 0x95 0xc7 0xc7 0x52, Col 0x46 0x23 0x23 0x65,
    Col 0x9d 0xc3 0xc3 0x5e, Col 0x30 0x18 0x18 0x28, Col 0x37 0x96 0x96 0xa1,
    Col 0x0a 0x05 0x05 0x0f, Col 0x2f 0x9a 0x9a 0xb5, Col 0x0e 0x07 0x07 0x09,
    Col 0x24 0x12 0x12 0x36, Col 0x1b 0x80 0x80 0x9b, Col 0xdf 0xe2 0xe2 0x3d,
    Col 0xcd 0xeb 0xeb 0x26, Col 0x4e 0x27 0x27 0x69, Col 0x7f 0xb2 0xb2 0xcd,
    Col 0xea 0x75 0x75 0x9f, Col 0x12 0x09 0x09 0x1b, Col 0x1d 0x83 0x83 0x9e,
    Col 0x58 0x2c 0x2c 0x74, Col 0x34 0x1a 0x1a 0x2e, Col 0x36 0x1b 0x1b 0x2d,
    Col 0xdc 0x6e 0x6e 0xb2, Col 0xb4 0x5a 0x5a 0xee, Col 0x5b 0xa0 0xa0 0xfb,
    Col 0xa4 0x52 0x52 0xf6, Col 0x76 0x3b 0x3b 0x4d, Col 0xb7 0xd6 0xd6 0x61,
    Col 0x7d 0xb3 0xb3 0xce, Col 0x52 0x29 0x29 0x7b, Col 0xdd 0xe3 0xe3 0x3e,
    Col 0x5e 0x2f 0x2f 0x71, Col 0x13 0x84 0x84 0x97, Col 0xa6 0x53 0x53 0xf5,
    Col 0xb9 0xd1 0xd1 0x68, Col 0x00 0x00 0x00 0x00, Col 0xc1 0xed 0xed 0x2c,
    Col 0x40 0x20 0x20 0x60, Col 0xe3 0xfc 0xfc 0x1f, Col 0x79 0xb1 0xb1 0xc8,
    Col 0xb6 0x5b 0x5b 0xed, Col 0xd4 0x6a 0x6a 0xbe, Col 0x8d 0xcb 0xcb 0x46,
    Col 0x67 0xbe 0xbe 0xd9, Col 0x72 0x39 0x39 0x4b, Col 0x94 0x4a 0x4a 0xde,
    Col 0x98 0x4c 0x4c 0xd4, Col 0xb0 0x58 0x58 0xe8, Col 0x85 0xcf 0xcf 0x4a,
    Col 0xbb 0xd0 0xd0 0x6b, Col 0xc5 0xef 0xef 0x2a, Col 0x4f 0xaa 0xaa 0xe5,
    Col 0xed 0xfb 0xfb 0x16, Col 0x86 0x43 0x43 0xc5, Col 0x9a 0x4d 0x4d 0xd7,
    Col 0x66 0x33 0x33 0x55, Col 0x11 0x85 0x85 0x94, Col 0x8a 0x45 0x45 0xcf,
    Col 0xe9 0xf9 0xf9 0x10, Col 0x04 0x02 0x02 0x06, Col 0xfe 0x7f 0x7f 0x81,
    Col 0xa0 0x50 0x50 0xf0, Col 0x78 0x3c 0x3c 0x44, Col 0x25 0x9f 0x9f 0xba,
    Col 0x4b 0xa8 0xa8 0xe3, Col 0xa2 0x51 0x51 0xf3, Col 0x5d 0xa3 0xa3 0xfe,
    Col 0x80 0x40 0x40 0xc0, Col 0x05 0x8f 0x8f 0x8a, Col 0x3f 0x92 0x92 0xad,
    Col 0x21 0x9d 0x9d 0xbc, Col 0x70 0x38 0x38 0x48, Col 0xf1 0xf5 0xf5 0x04,
    Col 0x63 0xbc 0xbc 0xdf, Col 0x77 0xb6 0xb6 0xc1, Col 0xaf 0xda 0xda 0x75,
    Col 0x42 0x21 0x21 0x63, Col 0x20 0x10 0x10 0x30, Col 0xe5 0xff 0xff 0x1a,
    Col 0xfd 0xf3 0xf3 0x0e, Col 0xbf 0xd2 0xd2 0x6d, Col 0x81 0xcd 0xcd 0x4c,
    Col 0x18 0x0c 0x0c 0x14, Col 0x26 0x13 0x13 0x35, Col 0xc3 0xec 0xec 0x2f,
    Col 0xbe 0x5f 0x5f 0xe1, Col 0x35 0x97 0x97 0xa2, Col 0x88 0x44 0x44 0xcc,
    Col 0x2e 0x17 0x17 0x39, Col 0x93 0xc4 0xc4 0x57, Col 0x55 0xa7 0xa7 0xf2,
    Col 0xfc 0x7e 0x7e 0x82, Col 0x7a 0x3d 0x3d 0x47, Col 0xc8 0x64 0x64 0xac,
    Col 0xba 0x5d 0x5d 0xe7, Col 0x32 0x19 0x19 0x2b, Col 0xe6 0x73 0x73 0x95,
    Col 0xc0 0x60 0x60 0xa0, Col 0x19 0x81 0x81 0x98, Col 0x9e 0x4f 0x4f 0xd1,
    Col 0xa3 0xdc 0xdc 0x7f, Col 0x44 0x22 0x22 0x66, Col 0x54 0x2a 0x2a 0x7e,
    Col 0x3b 0x90 0x90 0xab, Col 0x0b 0x88 0x88 0x83, Col 0x8c 0x46 0x46 0xca,
    Col 0xc7 0xee 0xee 0x29, Col 0x6b 0xb8 0xb8 0xd3, Col 0x28 0x14 0x14 0x3c,
    Col 0xa7 0xde 0xde 0x79, Col 0xbc 0x5e 0x5e 0xe2, Col 0x16 0x0b 0x0b 0x1d,
    Col 0xad 0xdb 0xdb 0x76, Col 0xdb 0xe0 0xe0 0x3b, Col 0x64 0x32 0x32 0x56,
    Col 0x74 0x3a 0x3a 0x4e, Col 0x14 0x0a 0x0a 0x1e, Col 0x92 0x49 0x49 0xdb,
    Col 0x0c 0x06 0x06 0x0a, Col 0x48 0x24 0x24 0x6c, Col 0xb8 0x5c 0x5c 0xe4,
    Col 0x9f 0xc2 0xc2 0x5d, Col 0xbd 0xd3 0xd3 0x6e, Col 0x43 0xac 0xac 0xef,
    Col 0xc4 0x62 0x62 0xa6, Col 0x39 0x91 0x91 0xa8, Col 0x31 0x95 0x95 0xa4,
    Col 0xd3 0xe4 0xe4 0x37, Col 0xf2 0x79 0x79 0x8b, Col 0xd5 0xe7 0xe7 0x32,
    Col 0x8b 0xc8 0xc8 0x43, Col 0x6e 0x37 0x37 0x59, Col 0xda 0x6d 0x6d 0xb7,
    Col 0x01 0x8d 0x8d 0x8c, Col 0xb1 0xd5 0xd5 0x64, Col 0x9c 0x4e 0x4e 0xd2,
    Col 0x49 0xa9 0xa9 0xe0, Col 0xd8 0x6c 0x6c 0xb4, Col 0xac 0x56 0x56 0xfa,
    Col 0xf3 0xf4 0xf4 0x07, Col 0xcf 0xea 0xea 0x25, Col 0xca 0x65 0x65 0xaf,
    Col 0xf4 0x7a 0x7a 0x8e, Col 0x47 0xae 0xae 0xe9, Col 0x10 0x08 0x08 0x18,
    Col 0x6f 0xba 0xba 0xd5, Col 0xf0 0x78 0x78 0x88, Col 0x4a 0x25 0x25 0x6f,
    Col 0x5c 0x2e 0x2e 0x72, Col 0x38 0x1c 0x1c 0x24, Col 0x57 0xa6 0xa6 0xf1,
    Col 0x73 0xb4 0xb4 0xc7, Col 0x97 0xc6 0xc6 0x51, Col 0xcb 0xe8 0xe8 0x23,
    Col 0xa1 0xdd 0xdd 0x7c, Col 0xe8 0x74 0x74 0x9c, Col 0x3e 0x1f 0x1f 0x21,
    Col 0x96 0x4b 0x4b 0xdd, Col 0x61 0xbd 0xbd 0xdc, Col 0x0d 0x8b 0x8b 0x86,
    Col 0x0f 0x8a 0x8a 0x85, Col 0xe0 0x70 0x70 0x90, Col 0x7c 0x3e 0x3e 0x42,
    Col 0x71 0xb5 0xb5 0xc4, Col 0xcc 0x66 0x66 0xaa, Col 0x90 0x48 0x48 0xd8,
    Col 0x06 0x03 0x03 0x05, Col 0xf7 0xf6 0xf6 0x01, Col 0x1c 0x0e 0x0e 0x12,
    Col 0xc2 0x61 0x61 0xa3, Col 0x6a 0x35 0x35 0x5f, Col 0xae 0x57 0x57 0xf9,
    Col 0x69 0xb9 0xb9 0xd0, Col 0x17 0x86 0x86 0x91, Col 0x99 0xc1 0xc1 0x58,
    Col 0x3a 0x1d 0x1d 0x27, Col 0x27 0x9e 0x9e 0xb9, Col 0xd9 0xe1 0xe1 0x38,
    Col 0xeb 0xf8 0xf8 0x13, Col 0x2b 0x98 0x98 0xb3, Col 0x22 0x11 0x11 0x33,
    Col 0xd2 0x69 0x69 0xbb, Col 0xa9 0xd9 0xd9 0x70, Col 0x07 0x8e 0x8e 0x89,
    Col 0x33 0x94 0x94 0xa7, Col 0x2d 0x9b 0x9b 0xb6, Col 0x3c 0x1e 0x1e 0x22,
    Col 0x15 0x87 0x87 0x92, Col 0xc9 0xe9 0xe9 0x20, Col 0x87 0xce 0xce 0x49,
    Col 0xaa 0x55 0x55 0xff, Col 0x50 0x28 0x28 0x78, Col 0xa5 0xdf 0xdf 0x7a,
    Col 0x03 0x8c 0x8c 0x8f, Col 0x59 0xa1 0xa1 0xf8, Col 0x09 0x89 0x89 0x80,
    Col 0x1a 0x0d 0x0d 0x17, Col 0x65 0xbf 0xbf 0xda, Col 0xd7 0xe6 0xe6 0x31,
    Col 0x84 0x42 0x42 0xc6, Col 0xd0 0x68 0x68 0xb8, Col 0x82 0x41 0x41 0xc3,
    Col 0x29 0x99 0x99 0xb0, Col 0x5a 0x2d 0x2d 0x77, Col 0x1e 0x0f 0x0f 0x11,
    Col 0x7b 0xb0 0xb0 0xcb, Col 0xa8 0x54 0x54 0xfc, Col 0x6d 0xbb 0xbb 0xd6,
    Col 0x2c 0x16 0x16 0x3a]"

definition T2_table :: "col list" where
  "T2_table = [
    Col 0xa5 0xc6 0x63 0x63, Col 0x84 0xf8 0x7c 0x7c, Col 0x99 0xee 0x77 0x77,
    Col 0x8d 0xf6 0x7b 0x7b, Col 0x0d 0xff 0xf2 0xf2, Col 0xbd 0xd6 0x6b 0x6b,
    Col 0xb1 0xde 0x6f 0x6f, Col 0x54 0x91 0xc5 0xc5, Col 0x50 0x60 0x30 0x30,
    Col 0x03 0x02 0x01 0x01, Col 0xa9 0xce 0x67 0x67, Col 0x7d 0x56 0x2b 0x2b,
    Col 0x19 0xe7 0xfe 0xfe, Col 0x62 0xb5 0xd7 0xd7, Col 0xe6 0x4d 0xab 0xab,
    Col 0x9a 0xec 0x76 0x76, Col 0x45 0x8f 0xca 0xca, Col 0x9d 0x1f 0x82 0x82,
    Col 0x40 0x89 0xc9 0xc9, Col 0x87 0xfa 0x7d 0x7d, Col 0x15 0xef 0xfa 0xfa,
    Col 0xeb 0xb2 0x59 0x59, Col 0xc9 0x8e 0x47 0x47, Col 0x0b 0xfb 0xf0 0xf0,
    Col 0xec 0x41 0xad 0xad, Col 0x67 0xb3 0xd4 0xd4, Col 0xfd 0x5f 0xa2 0xa2,
    Col 0xea 0x45 0xaf 0xaf, Col 0xbf 0x23 0x9c 0x9c, Col 0xf7 0x53 0xa4 0xa4,
    Col 0x96 0xe4 0x72 0x72, Col 0x5b 0x9b 0xc0 0xc0, Col 0xc2 0x75 0xb7 0xb7,
    Col 0x1c 0xe1 0xfd 0xfd, Col 0xae 0x3d 0x93 0x93, Col 0x6a 0x4c 0x26 0x26,
    Col 0x5a 0x6c 0x36 0x36, Col 0x41 0x7e 0x3f 0x3f, Col 0x02 0xf5 0xf7 0xf7,
    Col 0x4f 0x83 0xcc 0xcc, Col 0x5c 0x68 0x34 0x34, Col 0xf4 0x51 0xa5 0xa5,
    Col 0x34 0xd1 0xe5 0xe5, Col 0x08 0xf9 0xf1 0xf1, Col 0x93 0xe2 0x71 0x71,
    Col 0x73 0xab 0xd8 0xd8, Col 0x53 0x62 0x31 0x31, Col 0x3f 0x2a 0x15 0x15,
    Col 0x0c 0x08 0x04 0x04, Col 0x52 0x95 0xc7 0xc7, Col 0x65 0x46 0x23 0x23,
    Col 0x5e 0x9d 0xc3 0xc3, Col 0x28 0x30 0x18 0x18, Col 0xa1 0x37 0x96 0x96,
    Col 0x0f 0x0a 0x05 0x05, Col 0xb5 0x2f 0x9a 0x9a, Col 0x09 0x0e 0x07 0x07,
    Col 0x36 0x24 0x12 0x12, Col 0x9b 0x1b 0x80 0x80, Col 0x3d 0xdf 0xe2 0xe2,
    Col 0x26 0xcd 0xeb 0xeb, Col 0x69 0x4e 0x27 0x27, Col 0xcd 0x7f 0xb2 0xb2,
    Col 0x9f 0xea 0x75 0x75, Col 0x1b 0x12 0x09 0x09, Col 0x9e 0x1d 0x83 0x83,
    Col 0x74 0x58 0x2c 0x2c, Col 0x2e 0x34 0x1a 0x1a, Col 0x2d 0x36 0x1b 0x1b,
    Col 0xb2 0xdc 0x6e 0x6e, Col 0xee 0xb4 0x5a 0x5a, Col 0xfb 0x5b 0xa0 0xa0,
    Col 0xf6 0xa4 0x52 0x52, Col 0x4d 0x76 0x3b 0x3b, Col 0x61 0xb7 0xd6 0xd6,
    Col 0xce 0x7d 0xb3 0xb3, Col 0x7b 0x52 0x29 0x29, Col 0x3e 0xdd 0xe3 0xe3,
    Col 0x71 0x5e 0x2f 0x2f, Col 0x97 0x13 0x84 0x84, Col 0xf5 0xa6 0x53 0x53,
    Col 0x68 0xb9 0xd1 0xd1, Col 0x00 0x00 0x00 0x00, Col 0x2c 0xc1 0xed 0xed,
    Col 0x60 0x40 0x20 0x20, Col 0x1f 0xe3 0xfc 0xfc, Col 0xc8 0x79 0xb1 0xb1,
    Col 0xed 0xb6 0x5b 0x5b, Col 0xbe 0xd4 0x6a 0x6a, Col 0x46 0x8d 0xcb 0xcb,
    Col 0xd9 0x67 0xbe 0xbe, Col 0x4b 0x72 0x39 0x39, Col 0xde 0x94 0x4a 0x4a,
    Col 0xd4 0x98 0x4c 0x4c, Col 0xe8 0xb0 0x58 0x58, Col 0x4a 0x85 0xcf 0xcf,
    Col 0x6b 0xbb 0xd0 0xd0, Col 0x2a 0xc5 0xef 0xef, Col 0xe5 0x4f 0xaa 0xaa,
    Col 0x16 0xed 0xfb 0xfb, Col 0xc5 0x86 0x43 0x43, Col 0xd7 0x9a 0x4d 0x4d,
    Col 0x55 0x66 0x33 0x33, Col 0x94 0x11 0x85 0x85, Col 0xcf 0x8a 0x45 0x45,
    Col 0x10 0xe9 0xf9 0xf9, Col 0x06 0x04 0x02 0x02, Col 0x81 0xfe 0x7f 0x7f,
    Col 0xf0 0xa0 0x50 0x50, Col 0x44 0x78 0x3c 0x3c, Col 0xba 0x25 0x9f 0x9f,
    Col 0xe3 0x4b 0xa8 0xa8, Col 0xf3 0xa2 0x51 0x51, Col 0xfe 0x5d 0xa3 0xa3,
    Col 0xc0 0x80 0x40 0x40, Col 0x8a 0x05 0x8f 0x8f, Col 0xad 0x3f 0x92 0x92,
    Col 0xbc 0x21 0x9d 0x9d, Col 0x48 0x70 0x38 0x38, Col 0x04 0xf1 0xf5 0xf5,
    Col 0xdf 0x63 0xbc 0xbc, Col 0xc1 0x77 0xb6 0xb6, Col 0x75 0xaf 0xda 0xda,
    Col 0x63 0x42 0x21 0x21, Col 0x30 0x20 0x10 0x10, Col 0x1a 0xe5 0xff 0xff,
    Col 0x0e 0xfd 0xf3 0xf3, Col 0x6d 0xbf 0xd2 0xd2, Col 0x4c 0x81 0xcd 0xcd,
    Col 0x14 0x18 0x0c 0x0c, Col 0x35 0x26 0x13 0x13, Col 0x2f 0xc3 0xec 0xec,
    Col 0xe1 0xbe 0x5f 0x5f, Col 0xa2 0x35 0x97 0x97, Col 0xcc 0x88 0x44 0x44,
    Col 0x39 0x2e 0x17 0x17, Col 0x57 0x93 0xc4 0xc4, Col 0xf2 0x55 0xa7 0xa7,
    Col 0x82 0xfc 0x7e 0x7e, Col 0x47 0x7a 0x3d 0x3d, Col 0xac 0xc8 0x64 0x64,
    Col 0xe7 0xba 0x5d 0x5d, Col 0x2b 0x32 0x19 0x19, Col 0x95 0xe6 0x73 0x73,
    Col 0xa0 0xc0 0x60 0x60, Col 0x98 0x19 0x81 0x81, Col 0xd1 0x9e 0x4f 0x4f,
    Col 0x7f 0xa3 0xdc 0xdc, Col 0x66 0x44 0x22 0x22, Col 0x7e 0x54 0x2a 0x2a,
    Col 0xab 0x3b 0x90 0x90, Col 0x83 0x0b 0x88 0x88, Col 0xca 0x8c 0x46 0x46,
    Col 0x29 0xc7 0xee 0xee, Col 0xd3 0x6b 0xb8 0xb8, Col 0x3c 0x28 0x14 0x14,
    Col 0x79 0xa7 0xde 0xde, Col 0xe2 0xbc 0x5e 0x5e, Col 0x1d 0x16 0x0b 0x0b,
    Col 0x76 0xad 0xdb 0xdb, Col 0x3b 0xdb 0xe0 0xe0, Col 0x56 0x64 0x32 0x32,
    Col 0x4e 0x74 0x3a 0x3a, Col 0x1e 0x14 0x0a 0x0a, Col 0xdb 0x92 0x49 0x49,
    Col 0x0a 0x0c 0x06 0x06, Col 0x6c 0x48 0x24 0x24, Col 0xe4 0xb8 0x5c 0x5c,
    Col 0x5d 0x9f 0xc2 0xc2, Col 0x6e 0xbd 0xd3 0xd3, Col 0xef 0x43 0xac 0xac,
    Col 0xa6 0xc4 0x62 0x62, Col 0xa8 0x39 0x91 0x91, Col 0xa4 0x31 0x95 0x95,
    Col 0x37 0xd3 0xe4 0xe4, Col 0x8b 0xf2 0x79 0x79, Col 0x32 0xd5 0xe7 0xe7,
    Col 0x43 0x8b 0xc8 0xc8, Col 0x59 0x6e 0x37 0x37, Col 0xb7 0xda 0x6d 0x6d,
    Col 0x8c 0x01 0x8d 0x8d, Col 0x64 0xb1 0xd5 0xd5, Col 0xd2 0x9c 0x4e 0x4e,
    Col 0xe0 0x49 0xa9 0xa9, Col 0xb4 0xd8 0x6c 0x6c, Col 0xfa 0xac 0x56 0x56,
    Col 0x07 0xf3 0xf4 0xf4, Col 0x25 0xcf 0xea 0xea, Col 0xaf 0xca 0x65 0x65,
    Col 0x8e 0xf4 0x7a 0x7a, Col 0xe9 0x47 0xae 0xae, Col 0x18 0x10 0x08 0x08,
    Col 0xd5 0x6f 0xba 0xba, Col 0x88 0xf0 0x78 0x78, Col 0x6f 0x4a 0x25 0x25,
    Col 0x72 0x5c 0x2e 0x2e, Col 0x24 0x38 0x1c 0x1c, Col 0xf1 0x57 0xa6 0xa6,
    Col 0xc7 0x73 0xb4 0xb4, Col 0x51 0x97 0xc6 0xc6, Col 0x23 0xcb 0xe8 0xe8,
    Col 0x7c 0xa1 0xdd 0xdd, Col 0x9c 0xe8 0x74 0x74, Col 0x21 0x3e 0x1f 0x1f,
    Col 0xdd 0x96 0x4b 0x4b, Col 0xdc 0x61 0xbd 0xbd, Col 0x86 0x0d 0x8b 0x8b,
    Col 0x85 0x0f 0x8a 0x8a, Col 0x90 0xe0 0x70 0x70, Col 0x42 0x7c 0x3e 0x3e,
    Col 0xc4 0x71 0xb5 0xb5, Col 0xaa 0xcc 0x66 0x66, Col 0xd8 0x90 0x48 0x48,
    Col 0x05 0x06 0x03 0x03, Col 0x01 0xf7 0xf6 0xf6, Col 0x12 0x1c 0x0e 0x0e,
    Col 0xa3 0xc2 0x61 0x61, Col 0x5f 0x6a 0x35 0x35, Col 0xf9 0xae 0x57 0x57,
    Col 0xd0 0x69 0xb9 0xb9, Col 0x91 0x17 0x86 0x86, Col 0x58 0x99 0xc1 0xc1,
    Col 0x27 0x3a 0x1d 0x1d, Col 0xb9 0x27 0x9e 0x9e, Col 0x38 0xd9 0xe1 0xe1,
    Col 0x13 0xeb 0xf8 0xf8, Col 0xb3 0x2b 0x98 0x98, Col 0x33 0x22 0x11 0x11,
    Col 0xbb 0xd2 0x69 0x69, Col 0x70 0xa9 0xd9 0xd9, Col 0x89 0x07 0x8e 0x8e,
    Col 0xa7 0x33 0x94 0x94, Col 0xb6 0x2d 0x9b 0x9b, Col 0x22 0x3c 0x1e 0x1e,
    Col 0x92 0x15 0x87 0x87, Col 0x20 0xc9 0xe9 0xe9, Col 0x49 0x87 0xce 0xce,
    Col 0xff 0xaa 0x55 0x55, Col 0x78 0x50 0x28 0x28, Col 0x7a 0xa5 0xdf 0xdf,
    Col 0x8f 0x03 0x8c 0x8c, Col 0xf8 0x59 0xa1 0xa1, Col 0x80 0x09 0x89 0x89,
    Col 0x17 0x1a 0x0d 0x0d, Col 0xda 0x65 0xbf 0xbf, Col 0x31 0xd7 0xe6 0xe6,
    Col 0xc6 0x84 0x42 0x42, Col 0xb8 0xd0 0x68 0x68, Col 0xc3 0x82 0x41 0x41,
    Col 0xb0 0x29 0x99 0x99, Col 0x77 0x5a 0x2d 0x2d, Col 0x11 0x1e 0x0f 0x0f,
    Col 0xcb 0x7b 0xb0 0xb0, Col 0xfc 0xa8 0x54 0x54, Col 0xd6 0x6d 0xbb 0xbb,
    Col 0x3a 0x2c 0x16 0x16]"

definition T3_table :: "col list" where
  "T3_table = [
    Col 0x63 0xa5 0xc6 0x63, Col 0x7c 0x84 0xf8 0x7c, Col 0x77 0x99 0xee 0x77,
    Col 0x7b 0x8d 0xf6 0x7b, Col 0xf2 0x0d 0xff 0xf2, Col 0x6b 0xbd 0xd6 0x6b,
    Col 0x6f 0xb1 0xde 0x6f, Col 0xc5 0x54 0x91 0xc5, Col 0x30 0x50 0x60 0x30,
    Col 0x01 0x03 0x02 0x01, Col 0x67 0xa9 0xce 0x67, Col 0x2b 0x7d 0x56 0x2b,
    Col 0xfe 0x19 0xe7 0xfe, Col 0xd7 0x62 0xb5 0xd7, Col 0xab 0xe6 0x4d 0xab,
    Col 0x76 0x9a 0xec 0x76, Col 0xca 0x45 0x8f 0xca, Col 0x82 0x9d 0x1f 0x82,
    Col 0xc9 0x40 0x89 0xc9, Col 0x7d 0x87 0xfa 0x7d, Col 0xfa 0x15 0xef 0xfa,
    Col 0x59 0xeb 0xb2 0x59, Col 0x47 0xc9 0x8e 0x47, Col 0xf0 0x0b 0xfb 0xf0,
    Col 0xad 0xec 0x41 0xad, Col 0xd4 0x67 0xb3 0xd4, Col 0xa2 0xfd 0x5f 0xa2,
    Col 0xaf 0xea 0x45 0xaf, Col 0x9c 0xbf 0x23 0x9c, Col 0xa4 0xf7 0x53 0xa4,
    Col 0x72 0x96 0xe4 0x72, Col 0xc0 0x5b 0x9b 0xc0, Col 0xb7 0xc2 0x75 0xb7,
    Col 0xfd 0x1c 0xe1 0xfd, Col 0x93 0xae 0x3d 0x93, Col 0x26 0x6a 0x4c 0x26,
    Col 0x36 0x5a 0x6c 0x36, Col 0x3f 0x41 0x7e 0x3f, Col 0xf7 0x02 0xf5 0xf7,
    Col 0xcc 0x4f 0x83 0xcc, Col 0x34 0x5c 0x68 0x34, Col 0xa5 0xf4 0x51 0xa5,
    Col 0xe5 0x34 0xd1 0xe5, Col 0xf1 0x08 0xf9 0xf1, Col 0x71 0x93 0xe2 0x71,
    Col 0xd8 0x73 0xab 0xd8, Col 0x31 0x53 0x62 0x31, Col 0x15 0x3f 0x2a 0x15,
    Col 0x04 0x0c 0x08 0x04, Col 0xc7 0x52 0x95 0xc7, Col 0x23 0x65 0x46 0x23,
    Col 0xc3 0x5e 0x9d 0xc3, Col 0x18 0x28 0x30 0x18, Col 0x96 0xa1 0x37 0x96,
    Col 0x05 0x0f 0x0a 0x05, Col 0x9a 0xb5 0x2f 0x9a, Col 0x07 0x09 0x0e 0x07,
    Col 0x12 0x36 0x24 0x12, Col 0x80 0x9b 0x1b 0x80, Col 0xe2 0x3d 0xdf 0xe2,
    Col 0xeb 0x26 0xcd 0xeb, Col 0x27 0x69 0x4e 0x27, Col 0xb2 0xcd 0x7f 0xb2,
    Col 0x75 0x9f 0xea 0x75, Col 0x09 0x1b 0x12 0x09, Col 0x83 0x9e 0x1d 0x83,
    Col 0x2c 0x74 0x58 0x2c, Col 0x1a 0x2e 0x34 0x1a, Col 0x1b 0x2d 0x36 0x1b,
    Col 0x6e 0xb2 0xdc 0x6e, Col 0x5a 0xee 0xb4 0x5a, Col 0xa0 0xfb 0x5b 0xa0,
    Col 0x52 0xf6 0xa4 0x52, Col 0x3b 0x4d 0x76 0x3b, Col 0xd6 0x61 0xb7 0xd6,
    Col 0xb3 0xce 0x7d 0xb3, Col 0x29 0x7b 0x52 0x29, Col 0xe3 0x3e 0xdd 0xe3,
    Col 0x2f 0x71 0x5e 0x2f, Col 0x84 0x97 0x13 0x84, Col 0x53 0xf5 0xa6 0x53,
    Col 0xd1 0x68 0xb9 0xd1, Col 0x00 0x00 0x00 0x00, Col 0xed 0x2c 0xc1 0xed,
    Col 0x20 0x60 0x40 0x20, Col 0xfc 0x1f 0xe3 0xfc, Col 0xb1 0xc8 0x79 0xb1,
    Col 0x5b 0xed 0xb6 0x5b, Col 0x6a 0xbe 0xd4 0x6a, Col 0xcb 0x46 0x8d 0xcb,
    Col 0xbe 0xd9 0x67 0xbe, Col 0x39 0x4b 0x72 0x39, Col 0x4a 0xde 0x94 0x4a,
    Col 0x4c 0xd4 0x98 0x4c, Col 0x58 0xe8 0xb0 0x58, Col 0xcf 0x4a 0x85 0xcf,
    Col 0xd0 0x6b 0xbb 0xd0, Col 0xef 0x2a 0xc5 0xef, Col 0xaa 0xe5 0x4f 0xaa,
    Col 0xfb 0x16 0xed 0xfb, Col 0x43 0xc5 0x86 0x43, Col 0x4d 0xd7 0x9a 0x4d,
    Col 0x33 0x55 0x66 0x33, Col 0x85 0x94 0x11 0x85, Col 0x45 0xcf 0x8a 0x45,
    Col 0xf9 0x10 0xe9 0xf9, Col 0x02 0x06 0x04 0x02, Col 0x7f 0x81 0xfe 0x7f,
    Col 0x50 0xf0 0xa0 0x50, Col 0x3c 0x44 0x78 0x3c, Col 0x9f 0xba 0x25 0x9f,
    Col 0xa8 0xe3 0x4b 0xa8, Col 0x51 0xf3 0xa2 0x51, Col 0xa3 0xfe 0x5d 0xa3,
    Col 0x40 0xc0 0x80 0x40, Col 0x8f 0x8a 0x05 0x8f, Col 0x92 0xad 0x3f 0x92,
    Col 0x9d 0xbc 0x21 0x9d, Col 0x38 0x48 0x70 0x38, Col 0xf5 0x04 0xf1 0xf5,
    Col 0xbc 0xdf 0x63 0xbc, Col 0xb6 0xc1 0x77 0xb6, Col 0xda 0x75 0xaf 0xda,
    Col 0x21 0x63 0x42 0x21, Col 0x10 0x30 0x20 0x10, Col 0xff 0x1a 0xe5 0xff,
    Col 0xf3 0x0e 0xfd 0xf3, Col 0xd2 0x6d 0xbf 0xd2, Col 0xcd 0x4c 0x81 0xcd,
    Col 0x0c 0x14 0x18 0x0c, Col 0x13 0x35 0x26 0x13, Col 0xec 0x2f 0xc3 0xec,
    Col 0x5f 0xe1 0xbe 0x5f, Col 0x97 0xa2 0x35 0x97, Col 0x44 0xcc 0x88 0x44,
    Col 0x17 0x39 0x2e 0x17, Col 0xc4 0x57 0x93 0xc4, Col 0xa7 0xf2 0x55 0xa7,
    Col 0x7e 0x82 0xfc 0x7e, Col 0x3d 0x47 0x7a 0x3d, Col 0x64 0xac 0xc8 0x64,
    Col 0x5d 0xe7 0xba 0x5d, Col 0x19 0x2b 0x32 0x19, Col 0x73 0x95 0xe6 0x73,
    Col 0x60 0xa0 0xc0 0x60, Col 0x81 0x98 0x19 0x81, Col 0x4f 0xd1 0x9e 0x4f,
    Col 0xdc 0x7f 0xa3 0xdc, Col 0x22 0x66 0x44 0x22, Col 0x2a 0x7e 0x54 0x2a,
    Col 0x90 0xab 0x3b 0x90, Col 0x88 0x83 0x0b 0x88, Col 0x46 0xca 0x8c 0x46,
    Col 0xee 0x29 0xc7 0xee, Col 0xb8 0xd3 0x6b 0xb8, Col 0x14 0x3c 0x28 0x14,
    Col 0xde 0x79 0xa7 0xde, Col 0x5e 0xe2 0xbc 0x5e, Col 0x0b 0x1d 0x16 0x0b,
    Col 0xdb 0x76 0xad 0xdb, Col 0xe0 0x3b 0xdb 0xe0, Col 0x32 0x56 0x64 0x32,
    Col 0x3a 0x4e 0x74 0x3a, Col 0x0a 0x1e 0x14 0x0a, Col 0x49 0xdb 0x92 0x49,
    Col 0x06 0x0a 0x0c 0x06, Col 0x24 0x6c 0x48 0x24, Col 0x5c 0xe4 0xb8 0x5c,
    Col 0xc2 0x5d 0x9f 0xc2, Col 0xd3 0x6e 0xbd 0xd3, Col 0xac 0xef 0x43 0xac,
    Col 0x62 0xa6 0xc4 0x62, Col 0x91 0xa8 0x39 0x91, Col 0x95 0xa4 0x31 0x95,
    Col 0xe4 0x37 0xd3 0xe4, Col 0x79 0x8b 0xf2 0x79, Col 0xe7 0x32 0xd5 0xe7,
    Col 0xc8 0x43 0x8b 0xc8, Col 0x37 0x59 0x6e 0x37, Col 0x6d 0xb7 0xda 0x6d,
    Col 0x8d 0x8c 0x01 0x8d, Col 0xd5 0x64 0xb1 0xd5, Col 0x4e 0xd2 0x9c 0x4e,
    Col 0xa9 0xe0 0x49 0xa9, Col 0x6c 0xb4 0xd8 0x6c, Col 0x56 0xfa 0xac 0x56,
    Col 0xf4 0x07 0xf3 0xf4, Col 0xea 0x25 0xcf 0xea, Col 0x65 0xaf 0xca 0x65,
    Col 0x7a 0x8e 0xf4 0x7a, Col 0xae 0xe9 0x47 0xae, Col 0x08 0x18 0x10 0x08,
    Col 0xba 0xd5 0x6f 0xba, Col 0x78 0x88 0xf0 0x78, Col 0x25 0x6f 0x4a 0x25,
    Col 0x2e 0x72 0x5c 0x2e, Col 0x1c 0x24 0x38 0x1c, Col 0xa6 0xf1 0x57 0xa6,
    Col 0xb4 0xc7 0x73 0xb4, Col 0xc6 0x51 0x97 0xc6, Col 0xe8 0x23 0xcb 0xe8,
    Col 0xdd 0x7c 0xa1 0xdd, Col 0x74 0x9c 0xe8 0x74, Col 0x1f 0x21 0x3e 0x1f,
    Col 0x4b 0xdd 0x96 0x4b, Col 0xbd 0xdc 0x61 0xbd, Col 0x8b 0x86 0x0d 0x8b,
    Col 0x8a 0x85 0x0f 0x8a, Col 0x70 0x90 0xe0 0x70, Col 0x3e 0x42 0x7c 0x3e,
    Col 0xb5 0xc4 0x71 0xb5, Col 0x66 0xaa 0xcc 0x66, Col 0x48 0xd8 0x90 0x48,
    Col 0x03 0x05 0x06 0x03, Col 0xf6 0x01 0xf7 0xf6, Col 0x0e 0x12 0x1c 0x0e,
    Col 0x61 0xa3 0xc2 0x61, Col 0x35 0x5f 0x6a 0x35, Col 0x57 0xf9 0xae 0x57,
    Col 0xb9 0xd0 0x69 0xb9, Col 0x86 0x91 0x17 0x86, Col 0xc1 0x58 0x99 0xc1,
    Col 0x1d 0x27 0x3a 0x1d, Col 0x9e 0xb9 0x27 0x9e, Col 0xe1 0x38 0xd9 0xe1,
    Col 0xf8 0x13 0xeb 0xf8, Col 0x98 0xb3 0x2b 0x98, Col 0x11 0x33 0x22 0x11,
    Col 0x69 0xbb 0xd2 0x69, Col 0xd9 0x70 0xa9 0xd9, Col 0x8e 0x89 0x07 0x8e,
    Col 0x94 0xa7 0x33 0x94, Col 0x9b 0xb6 0x2d 0x9b, Col 0x1e 0x22 0x3c 0x1e,
    Col 0x87 0x92 0x15 0x87, Col 0xe9 0x20 0xc9 0xe9, Col 0xce 0x49 0x87 0xce,
    Col 0x55 0xff 0xaa 0x55, Col 0x28 0x78 0x50 0x28, Col 0xdf 0x7a 0xa5 0xdf,
    Col 0x8c 0x8f 0x03 0x8c, Col 0xa1 0xf8 0x59 0xa1, Col 0x89 0x80 0x09 0x89,
    Col 0x0d 0x17 0x1a 0x0d, Col 0xbf 0xda 0x65 0xbf, Col 0xe6 0x31 0xd7 0xe6,
    Col 0x42 0xc6 0x84 0x42, Col 0x68 0xb8 0xd0 0x68, Col 0x41 0xc3 0x82 0x41,
    Col 0x99 0xb0 0x29 0x99, Col 0x2d 0x77 0x5a 0x2d, Col 0x0f 0x11 0x1e 0x0f,
    Col 0xb0 0xcb 0x7b 0xb0, Col 0x54 0xfc 0xa8 0x54, Col 0xbb 0xd6 0x6d 0xbb,
    Col 0x16 0x3a 0x2c 0x16]"

definition T4_table :: "col list" where
  "T4_table = [
    Col 0x63 0x63 0xa5 0xc6, Col 0x7c 0x7c 0x84 0xf8, Col 0x77 0x77 0x99 0xee,
    Col 0x7b 0x7b 0x8d 0xf6, Col 0xf2 0xf2 0x0d 0xff, Col 0x6b 0x6b 0xbd 0xd6,
    Col 0x6f 0x6f 0xb1 0xde, Col 0xc5 0xc5 0x54 0x91, Col 0x30 0x30 0x50 0x60,
    Col 0x01 0x01 0x03 0x02, Col 0x67 0x67 0xa9 0xce, Col 0x2b 0x2b 0x7d 0x56,
    Col 0xfe 0xfe 0x19 0xe7, Col 0xd7 0xd7 0x62 0xb5, Col 0xab 0xab 0xe6 0x4d,
    Col 0x76 0x76 0x9a 0xec, Col 0xca 0xca 0x45 0x8f, Col 0x82 0x82 0x9d 0x1f,
    Col 0xc9 0xc9 0x40 0x89, Col 0x7d 0x7d 0x87 0xfa, Col 0xfa 0xfa 0x15 0xef,
    Col 0x59 0x59 0xeb 0xb2, Col 0x47 0x47 0xc9 0x8e, Col 0xf0 0xf0 0x0b 0xfb,
    Col 0xad 0xad 0xec 0x41, Col 0xd4 0xd4 0x67 0xb3, Col 0xa2 0xa2 0xfd 0x5f,
    Col 0xaf 0xaf 0xea 0x45, Col 0x9c 0x9c 0xbf 0x23, Col 0xa4 0xa4 0xf7 0x53,
    Col 0x72 0x72 0x96 0xe4, Col 0xc0 0xc0 0x5b 0x9b, Col 0xb7 0xb7 0xc2 0x75,
    Col 0xfd 0xfd 0x1c 0xe1, Col 0x93 0x93 0xae 0x3d, Col 0x26 0x26 0x6a 0x4c,
    Col 0x36 0x36 0x5a 0x6c, Col 0x3f 0x3f 0x41 0x7e, Col 0xf7 0xf7 0x02 0xf5,
    Col 0xcc 0xcc 0x4f 0x83, Col 0x34 0x34 0x5c 0x68, Col 0xa5 0xa5 0xf4 0x51,
    Col 0xe5 0xe5 0x34 0xd1, Col 0xf1 0xf1 0x08 0xf9, Col 0x71 0x71 0x93 0xe2,
    Col 0xd8 0xd8 0x73 0xab, Col 0x31 0x31 0x53 0x62, Col 0x15 0x15 0x3f 0x2a,
    Col 0x04 0x04 0x0c 0x08, Col 0xc7 0xc7 0x52 0x95, Col 0x23 0x23 0x65 0x46,
    Col 0xc3 0xc3 0x5e 0x9d, Col 0x18 0x18 0x28 0x30, Col 0x96 0x96 0xa1 0x37,
    Col 0x05 0x05 0x0f 0x0a, Col 0x9a 0x9a 0xb5 0x2f, Col 0x07 0x07 0x09 0x0e,
    Col 0x12 0x12 0x36 0x24, Col 0x80 0x80 0x9b 0x1b, Col 0xe2 0xe2 0x3d 0xdf,
    Col 0xeb 0xeb 0x26 0xcd, Col 0x27 0x27 0x69 0x4e, Col 0xb2 0xb2 0xcd 0x7f,
    Col 0x75 0x75 0x9f 0xea, Col 0x09 0x09 0x1b 0x12, Col 0x83 0x83 0x9e 0x1d,
    Col 0x2c 0x2c 0x74 0x58, Col 0x1a 0x1a 0x2e 0x34, Col 0x1b 0x1b 0x2d 0x36,
    Col 0x6e 0x6e 0xb2 0xdc, Col 0x5a 0x5a 0xee 0xb4, Col 0xa0 0xa0 0xfb 0x5b,
    Col 0x52 0x52 0xf6 0xa4, Col 0x3b 0x3b 0x4d 0x76, Col 0xd6 0xd6 0x61 0xb7,
    Col 0xb3 0xb3 0xce 0x7d, Col 0x29 0x29 0x7b 0x52, Col 0xe3 0xe3 0x3e 0xdd,
    Col 0x2f 0x2f 0x71 0x5e, Col 0x84 0x84 0x97 0x13, Col 0x53 0x53 0xf5 0xa6,
    Col 0xd1 0xd1 0x68 0xb9, Col 0x00 0x00 0x00 0x00, Col 0xed 0xed 0x2c 0xc1,
    Col 0x20 0x20 0x60 0x40, Col 0xfc 0xfc 0x1f 0xe3, Col 0xb1 0xb1 0xc8 0x79,
    Col 0x5b 0x5b 0xed 0xb6, Col 0x6a 0x6a 0xbe 0xd4, Col 0xcb 0xcb 0x46 0x8d,
    Col 0xbe 0xbe 0xd9 0x67, Col 0x39 0x39 0x4b 0x72, Col 0x4a 0x4a 0xde 0x94,
    Col 0x4c 0x4c 0xd4 0x98, Col 0x58 0x58 0xe8 0xb0, Col 0xcf 0xcf 0x4a 0x85,
    Col 0xd0 0xd0 0x6b 0xbb, Col 0xef 0xef 0x2a 0xc5, Col 0xaa 0xaa 0xe5 0x4f,
    Col 0xfb 0xfb 0x16 0xed, Col 0x43 0x43 0xc5 0x86, Col 0x4d 0x4d 0xd7 0x9a,
    Col 0x33 0x33 0x55 0x66, Col 0x85 0x85 0x94 0x11, Col 0x45 0x45 0xcf 0x8a,
    Col 0xf9 0xf9 0x10 0xe9, Col 0x02 0x02 0x06 0x04, Col 0x7f 0x7f 0x81 0xfe,
    Col 0x50 0x50 0xf0 0xa0, Col 0x3c 0x3c 0x44 0x78, Col 0x9f 0x9f 0xba 0x25,
    Col 0xa8 0xa8 0xe3 0x4b, Col 0x51 0x51 0xf3 0xa2, Col 0xa3 0xa3 0xfe 0x5d,
    Col 0x40 0x40 0xc0 0x80, Col 0x8f 0x8f 0x8a 0x05, Col 0x92 0x92 0xad 0x3f,
    Col 0x9d 0x9d 0xbc 0x21, Col 0x38 0x38 0x48 0x70, Col 0xf5 0xf5 0x04 0xf1,
    Col 0xbc 0xbc 0xdf 0x63, Col 0xb6 0xb6 0xc1 0x77, Col 0xda 0xda 0x75 0xaf,
    Col 0x21 0x21 0x63 0x42, Col 0x10 0x10 0x30 0x20, Col 0xff 0xff 0x1a 0xe5,
    Col 0xf3 0xf3 0x0e 0xfd, Col 0xd2 0xd2 0x6d 0xbf, Col 0xcd 0xcd 0x4c 0x81,
    Col 0x0c 0x0c 0x14 0x18, Col 0x13 0x13 0x35 0x26, Col 0xec 0xec 0x2f 0xc3,
    Col 0x5f 0x5f 0xe1 0xbe, Col 0x97 0x97 0xa2 0x35, Col 0x44 0x44 0xcc 0x88,
    Col 0x17 0x17 0x39 0x2e, Col 0xc4 0xc4 0x57 0x93, Col 0xa7 0xa7 0xf2 0x55,
    Col 0x7e 0x7e 0x82 0xfc, Col 0x3d 0x3d 0x47 0x7a, Col 0x64 0x64 0xac 0xc8,
    Col 0x5d 0x5d 0xe7 0xba, Col 0x19 0x19 0x2b 0x32, Col 0x73 0x73 0x95 0xe6,
    Col 0x60 0x60 0xa0 0xc0, Col 0x81 0x81 0x98 0x19, Col 0x4f 0x4f 0xd1 0x9e,
    Col 0xdc 0xdc 0x7f 0xa3, Col 0x22 0x22 0x66 0x44, Col 0x2a 0x2a 0x7e 0x54,
    Col 0x90 0x90 0xab 0x3b, Col 0x88 0x88 0x83 0x0b, Col 0x46 0x46 0xca 0x8c,
    Col 0xee 0xee 0x29 0xc7, Col 0xb8 0xb8 0xd3 0x6b, Col 0x14 0x14 0x3c 0x28,
    Col 0xde 0xde 0x79 0xa7, Col 0x5e 0x5e 0xe2 0xbc, Col 0x0b 0x0b 0x1d 0x16,
    Col 0xdb 0xdb 0x76 0xad, Col 0xe0 0xe0 0x3b 0xdb, Col 0x32 0x32 0x56 0x64,
    Col 0x3a 0x3a 0x4e 0x74, Col 0x0a 0x0a 0x1e 0x14, Col 0x49 0x49 0xdb 0x92,
    Col 0x06 0x06 0x0a 0x0c, Col 0x24 0x24 0x6c 0x48, Col 0x5c 0x5c 0xe4 0xb8,
    Col 0xc2 0xc2 0x5d 0x9f, Col 0xd3 0xd3 0x6e 0xbd, Col 0xac 0xac 0xef 0x43,
    Col 0x62 0x62 0xa6 0xc4, Col 0x91 0x91 0xa8 0x39, Col 0x95 0x95 0xa4 0x31,
    Col 0xe4 0xe4 0x37 0xd3, Col 0x79 0x79 0x8b 0xf2, Col 0xe7 0xe7 0x32 0xd5,
    Col 0xc8 0xc8 0x43 0x8b, Col 0x37 0x37 0x59 0x6e, Col 0x6d 0x6d 0xb7 0xda,
    Col 0x8d 0x8d 0x8c 0x01, Col 0xd5 0xd5 0x64 0xb1, Col 0x4e 0x4e 0xd2 0x9c,
    Col 0xa9 0xa9 0xe0 0x49, Col 0x6c 0x6c 0xb4 0xd8, Col 0x56 0x56 0xfa 0xac,
    Col 0xf4 0xf4 0x07 0xf3, Col 0xea 0xea 0x25 0xcf, Col 0x65 0x65 0xaf 0xca,
    Col 0x7a 0x7a 0x8e 0xf4, Col 0xae 0xae 0xe9 0x47, Col 0x08 0x08 0x18 0x10,
    Col 0xba 0xba 0xd5 0x6f, Col 0x78 0x78 0x88 0xf0, Col 0x25 0x25 0x6f 0x4a,
    Col 0x2e 0x2e 0x72 0x5c, Col 0x1c 0x1c 0x24 0x38, Col 0xa6 0xa6 0xf1 0x57,
    Col 0xb4 0xb4 0xc7 0x73, Col 0xc6 0xc6 0x51 0x97, Col 0xe8 0xe8 0x23 0xcb,
    Col 0xdd 0xdd 0x7c 0xa1, Col 0x74 0x74 0x9c 0xe8, Col 0x1f 0x1f 0x21 0x3e,
    Col 0x4b 0x4b 0xdd 0x96, Col 0xbd 0xbd 0xdc 0x61, Col 0x8b 0x8b 0x86 0x0d,
    Col 0x8a 0x8a 0x85 0x0f, Col 0x70 0x70 0x90 0xe0, Col 0x3e 0x3e 0x42 0x7c,
    Col 0xb5 0xb5 0xc4 0x71, Col 0x66 0x66 0xaa 0xcc, Col 0x48 0x48 0xd8 0x90,
    Col 0x03 0x03 0x05 0x06, Col 0xf6 0xf6 0x01 0xf7, Col 0x0e 0x0e 0x12 0x1c,
    Col 0x61 0x61 0xa3 0xc2, Col 0x35 0x35 0x5f 0x6a, Col 0x57 0x57 0xf9 0xae,
    Col 0xb9 0xb9 0xd0 0x69, Col 0x86 0x86 0x91 0x17, Col 0xc1 0xc1 0x58 0x99,
    Col 0x1d 0x1d 0x27 0x3a, Col 0x9e 0x9e 0xb9 0x27, Col 0xe1 0xe1 0x38 0xd9,
    Col 0xf8 0xf8 0x13 0xeb, Col 0x98 0x98 0xb3 0x2b, Col 0x11 0x11 0x33 0x22,
    Col 0x69 0x69 0xbb 0xd2, Col 0xd9 0xd9 0x70 0xa9, Col 0x8e 0x8e 0x89 0x07,
    Col 0x94 0x94 0xa7 0x33, Col 0x9b 0x9b 0xb6 0x2d, Col 0x1e 0x1e 0x22 0x3c,
    Col 0x87 0x87 0x92 0x15, Col 0xe9 0xe9 0x20 0xc9, Col 0xce 0xce 0x49 0x87,
    Col 0x55 0x55 0xff 0xaa, Col 0x28 0x28 0x78 0x50, Col 0xdf 0xdf 0x7a 0xa5,
    Col 0x8c 0x8c 0x8f 0x03, Col 0xa1 0xa1 0xf8 0x59, Col 0x89 0x89 0x80 0x09,
    Col 0x0d 0x0d 0x17 0x1a, Col 0xbf 0xbf 0xda 0x65, Col 0xe6 0xe6 0x31 0xd7,
    Col 0x42 0x42 0xc6 0x84, Col 0x68 0x68 0xb8 0xd0, Col 0x41 0x41 0xc3 0x82,
    Col 0x99 0x99 0xb0 0x29, Col 0x2d 0x2d 0x77 0x5a, Col 0x0f 0x0f 0x11 0x1e,
    Col 0xb0 0xb0 0xcb 0x7b, Col 0x54 0x54 0xfc 0xa8, Col 0xbb 0xbb 0xd6 0x6d,
    Col 0x16 0x16 0x3a 0x2c]"

definition T5_table :: "col list" where
  "T5_table = [
    Col 0x51 0xf4 0xa7 0x50, Col 0x7e 0x41 0x65 0x53, Col 0x1a 0x17 0xa4 0xc3,
    Col 0x3a 0x27 0x5e 0x96, Col 0x3b 0xab 0x6b 0xcb, Col 0x1f 0x9d 0x45 0xf1,
    Col 0xac 0xfa 0x58 0xab, Col 0x4b 0xe3 0x03 0x93, Col 0x20 0x30 0xfa 0x55,
    Col 0xad 0x76 0x6d 0xf6, Col 0x88 0xcc 0x76 0x91, Col 0xf5 0x02 0x4c 0x25,
    Col 0x4f 0xe5 0xd7 0xfc, Col 0xc5 0x2a 0xcb 0xd7, Col 0x26 0x35 0x44 0x80,
    Col 0xb5 0x62 0xa3 0x8f, Col 0xde 0xb1 0x5a 0x49, Col 0x25 0xba 0x1b 0x67,
    Col 0x45 0xea 0x0e 0x98, Col 0x5d 0xfe 0xc0 0xe1, Col 0xc3 0x2f 0x75 0x02,
    Col 0x81 0x4c 0xf0 0x12, Col 0x8d 0x46 0x97 0xa3, Col 0x6b 0xd3 0xf9 0xc6,
    Col 0x03 0x8f 0x5f 0xe7, Col 0x15 0x92 0x9c 0x95, Col 0xbf 0x6d 0x7a 0xeb,
    Col 0x95 0x52 0x59 0xda, Col 0xd4 0xbe 0x83 0x2d, Col 0x58 0x74 0x21 0xd3,
    Col 0x49 0xe0 0x69 0x29, Col 0x8e 0xc9 0xc8 0x44, Col 0x75 0xc2 0x89 0x6a,
    Col 0xf4 0x8e 0x79 0x78, Col 0x99 0x58 0x3e 0x6b, Col 0x27 0xb9 0x71 0xdd,
    Col 0xbe 0xe1 0x4f 0xb6, Col 0xf0 0x88 0xad 0x17, Col 0xc9 0x20 0xac 0x66,
    Col 0x7d 0xce 0x3a 0xb4, Col 0x63 0xdf 0x4a 0x18, Col 0xe5 0x1a 0x31 0x82,
    Col 0x97 0x51 0x33 0x60, Col 0x62 0x53 0x7f 0x45, Col 0xb1 0x64 0x77 0xe0,
    Col 0xbb 0x6b 0xae 0x84, Col 0xfe 0x81 0xa0 0x1c, Col 0xf9 0x08 0x2b 0x94,
    Col 0x70 0x48 0x68 0x58, Col 0x8f 0x45 0xfd 0x19, Col 0x94 0xde 0x6c 0x87,
    Col 0x52 0x7b 0xf8 0xb7, Col 0xab 0x73 0xd3 0x23, Col 0x72 0x4b 0x02 0xe2,
    Col 0xe3 0x1f 0x8f 0x57, Col 0x66 0x55 0xab 0x2a, Col 0xb2 0xeb 0x28 0x07,
    Col 0x2f 0xb5 0xc2 0x03, Col 0x86 0xc5 0x7b 0x9a, Col 0xd3 0x37 0x08 0xa5,
    Col 0x30 0x28 0x87 0xf2, Col 0x23 0xbf 0xa5 0xb2, Col 0x02 0x03 0x6a 0xba,
    Col 0xed 0x16 0x82 0x5c, Col 0x8a 0xcf 0x1c 0x2b, Col 0xa7 0x79 0xb4 0x92,
    Col 0xf3 0x07 0xf2 0xf0, Col 0x4e 0x69 0xe2 0xa1, Col 0x65 0xda 0xf4 0xcd,
    Col 0x06 0x05 0xbe 0xd5, Col 0xd1 0x34 0x62 0x1f, Col 0xc4 0xa6 0xfe 0x8a,
    Col 0x34 0x2e 0x53 0x9d, Col 0xa2 0xf3 0x55 0xa0, Col 0x05 0x8a 0xe1 0x32,
    Col 0xa4 0xf6 0xeb 0x75, Col 0x0b 0x83 0xec 0x39, Col 0x40 0x60 0xef 0xaa,
    Col 0x5e 0x71 0x9f 0x06, Col 0xbd 0x6e 0x10 0x51, Col 0x3e 0x21 0x8a 0xf9,
    Col 0x96 0xdd 0x06 0x3d, Col 0xdd 0x3e 0x05 0xae, Col 0x4d 0xe6 0xbd 0x46,
    Col 0x91 0x54 0x8d 0xb5, Col 0x71 0xc4 0x5d 0x05, Col 0x04 0x06 0xd4 0x6f,
    Col 0x60 0x50 0x15 0xff, Col 0x19 0x98 0xfb 0x24, Col 0xd6 0xbd 0xe9 0x97,
    Col 0x89 0x40 0x43 0xcc, Col 0x67 0xd9 0x9e 0x77, Col 0xb0 0xe8 0x42 0xbd,
    Col 0x07 0x89 0x8b 0x88, Col 0xe7 0x19 0x5b 0x38, Col 0x79 0xc8 0xee 0xdb,
    Col 0xa1 0x7c 0x0a 0x47, Col 0x7c 0x42 0x0f 0xe9, Col 0xf8 0x84 0x1e 0xc9,
    Col 0x00 0x00 0x00 0x00, Col 0x09 0x80 0x86 0x83, Col 0x32 0x2b 0xed 0x48,
    Col 0x1e 0x11 0x70 0xac, Col 0x6c 0x5a 0x72 0x4e, Col 0xfd 0x0e 0xff 0xfb,
    Col 0x0f 0x85 0x38 0x56, Col 0x3d 0xae 0xd5 0x1e, Col 0x36 0x2d 0x39 0x27,
    Col 0x0a 0x0f 0xd9 0x64, Col 0x68 0x5c 0xa6 0x21, Col 0x9b 0x5b 0x54 0xd1,
    Col 0x24 0x36 0x2e 0x3a, Col 0x0c 0x0a 0x67 0xb1, Col 0x93 0x57 0xe7 0x0f,
    Col 0xb4 0xee 0x96 0xd2, Col 0x1b 0x9b 0x91 0x9e, Col 0x80 0xc0 0xc5 0x4f,
    Col 0x61 0xdc 0x20 0xa2, Col 0x5a 0x77 0x4b 0x69, Col 0x1c 0x12 0x1a 0x16,
    Col 0xe2 0x93 0xba 0x0a, Col 0xc0 0xa0 0x2a 0xe5, Col 0x3c 0x22 0xe0 0x43,
    Col 0x12 0x1b 0x17 0x1d, Col 0x0e 0x09 0x0d 0x0b, Col 0xf2 0x8b 0xc7 0xad,
    Col 0x2d 0xb6 0xa8 0xb9, Col 0x14 0x1e 0xa9 0xc8, Col 0x57 0xf1 0x19 0x85,
    Col 0xaf 0x75 0x07 0x4c, Col 0xee 0x99 0xdd 0xbb, Col 0xa3 0x7f 0x60 0xfd,
    Col 0xf7 0x01 0x26 0x9f, Col 0x5c 0x72 0xf5 0xbc, Col 0x44 0x66 0x3b 0xc5,
    Col 0x5b 0xfb 0x7e 0x34, Col 0x8b 0x43 0x29 0x76, Col 0xcb 0x23 0xc6 0xdc,
    Col 0xb6 0xed 0xfc 0x68, Col 0xb8 0xe4 0xf1 0x63, Col 0xd7 0x31 0xdc 0xca,
    Col 0x42 0x63 0x85 0x10, Col 0x13 0x97 0x22 0x40, Col 0x84 0xc6 0x11 0x20,
    Col 0x85 0x4a 0x24 0x7d, Col 0xd2 0xbb 0x3d 0xf8, Col 0xae 0xf9 0x32 0x11,
    Col 0xc7 0x29 0xa1 0x6d, Col 0x1d 0x9e 0x2f 0x4b, Col 0xdc 0xb2 0x30 0xf3,
    Col 0x0d 0x86 0x52 0xec, Col 0x77 0xc1 0xe3 0xd0, Col 0x2b 0xb3 0x16 0x6c,
    Col 0xa9 0x70 0xb9 0x99, Col 0x11 0x94 0x48 0xfa, Col 0x47 0xe9 0x64 0x22,
    Col 0xa8 0xfc 0x8c 0xc4, Col 0xa0 0xf0 0x3f 0x1a, Col 0x56 0x7d 0x2c 0xd8,
    Col 0x22 0x33 0x90 0xef, Col 0x87 0x49 0x4e 0xc7, Col 0xd9 0x38 0xd1 0xc1,
    Col 0x8c 0xca 0xa2 0xfe, Col 0x98 0xd4 0x0b 0x36, Col 0xa6 0xf5 0x81 0xcf,
    Col 0xa5 0x7a 0xde 0x28, Col 0xda 0xb7 0x8e 0x26, Col 0x3f 0xad 0xbf 0xa4,
    Col 0x2c 0x3a 0x9d 0xe4, Col 0x50 0x78 0x92 0x0d, Col 0x6a 0x5f 0xcc 0x9b,
    Col 0x54 0x7e 0x46 0x62, Col 0xf6 0x8d 0x13 0xc2, Col 0x90 0xd8 0xb8 0xe8,
    Col 0x2e 0x39 0xf7 0x5e, Col 0x82 0xc3 0xaf 0xf5, Col 0x9f 0x5d 0x80 0xbe,
    Col 0x69 0xd0 0x93 0x7c, Col 0x6f 0xd5 0x2d 0xa9, Col 0xcf 0x25 0x12 0xb3,
    Col 0xc8 0xac 0x99 0x3b, Col 0x10 0x18 0x7d 0xa7, Col 0xe8 0x9c 0x63 0x6e,
    Col 0xdb 0x3b 0xbb 0x7b, Col 0xcd 0x26 0x78 0x09, Col 0x6e 0x59 0x18 0xf4,
    Col 0xec 0x9a 0xb7 0x01, Col 0x83 0x4f 0x9a 0xa8, Col 0xe6 0x95 0x6e 0x65,
    Col 0xaa 0xff 0xe6 0x7e, Col 0x21 0xbc 0xcf 0x08, Col 0xef 0x15 0xe8 0xe6,
    Col 0xba 0xe7 0x9b 0xd9, Col 0x4a 0x6f 0x36 0xce, Col 0xea 0x9f 0x09 0xd4,
    Col 0x29 0xb0 0x7c 0xd6, Col 0x31 0xa4 0xb2 0xaf, Col 0x2a 0x3f 0x23 0x31,
    Col 0xc6 0xa5 0x94 0x30, Col 0x35 0xa2 0x66 0xc0, Col 0x74 0x4e 0xbc 0x37,
    Col 0xfc 0x82 0xca 0xa6, Col 0xe0 0x90 0xd0 0xb0, Col 0x33 0xa7 0xd8 0x15,
    Col 0xf1 0x04 0x98 0x4a, Col 0x41 0xec 0xda 0xf7, Col 0x7f 0xcd 0x50 0x0e,
    Col 0x17 0x91 0xf6 0x2f, Col 0x76 0x4d 0xd6 0x8d, Col 0x43 0xef 0xb0 0x4d,
    Col 0xcc 0xaa 0x4d 0x54, Col 0xe4 0x96 0x04 0xdf, Col 0x9e 0xd1 0xb5 0xe3,
    Col 0x4c 0x6a 0x88 0x1b, Col 0xc1 0x2c 0x1f 0xb8, Col 0x46 0x65 0x51 0x7f,
    Col 0x9d 0x5e 0xea 0x04, Col 0x01 0x8c 0x35 0x5d, Col 0xfa 0x87 0x74 0x73,
    Col 0xfb 0x0b 0x41 0x2e, Col 0xb3 0x67 0x1d 0x5a, Col 0x92 0xdb 0xd2 0x52,
    Col 0xe9 0x10 0x56 0x33, Col 0x6d 0xd6 0x47 0x13, Col 0x9a 0xd7 0x61 0x8c,
    Col 0x37 0xa1 0x0c 0x7a, Col 0x59 0xf8 0x14 0x8e, Col 0xeb 0x13 0x3c 0x89,
    Col 0xce 0xa9 0x27 0xee, Col 0xb7 0x61 0xc9 0x35, Col 0xe1 0x1c 0xe5 0xed,
    Col 0x7a 0x47 0xb1 0x3c, Col 0x9c 0xd2 0xdf 0x59, Col 0x55 0xf2 0x73 0x3f,
    Col 0x18 0x14 0xce 0x79, Col 0x73 0xc7 0x37 0xbf, Col 0x53 0xf7 0xcd 0xea,
    Col 0x5f 0xfd 0xaa 0x5b, Col 0xdf 0x3d 0x6f 0x14, Col 0x78 0x44 0xdb 0x86,
    Col 0xca 0xaf 0xf3 0x81, Col 0xb9 0x68 0xc4 0x3e, Col 0x38 0x24 0x34 0x2c,
    Col 0xc2 0xa3 0x40 0x5f, Col 0x16 0x1d 0xc3 0x72, Col 0xbc 0xe2 0x25 0x0c,
    Col 0x28 0x3c 0x49 0x8b, Col 0xff 0x0d 0x95 0x41, Col 0x39 0xa8 0x01 0x71,
    Col 0x08 0x0c 0xb3 0xde, Col 0xd8 0xb4 0xe4 0x9c, Col 0x64 0x56 0xc1 0x90,
    Col 0x7b 0xcb 0x84 0x61, Col 0xd5 0x32 0xb6 0x70, Col 0x48 0x6c 0x5c 0x74,
    Col 0xd0 0xb8 0x57 0x42]"

definition T6_table :: "col list" where
  "T6_table = [
    Col 0x50 0x51 0xf4 0xa7, Col 0x53 0x7e 0x41 0x65, Col 0xc3 0x1a 0x17 0xa4,
    Col 0x96 0x3a 0x27 0x5e, Col 0xcb 0x3b 0xab 0x6b, Col 0xf1 0x1f 0x9d 0x45,
    Col 0xab 0xac 0xfa 0x58, Col 0x93 0x4b 0xe3 0x03, Col 0x55 0x20 0x30 0xfa,
    Col 0xf6 0xad 0x76 0x6d, Col 0x91 0x88 0xcc 0x76, Col 0x25 0xf5 0x02 0x4c,
    Col 0xfc 0x4f 0xe5 0xd7, Col 0xd7 0xc5 0x2a 0xcb, Col 0x80 0x26 0x35 0x44,
    Col 0x8f 0xb5 0x62 0xa3, Col 0x49 0xde 0xb1 0x5a, Col 0x67 0x25 0xba 0x1b,
    Col 0x98 0x45 0xea 0x0e, Col 0xe1 0x5d 0xfe 0xc0, Col 0x02 0xc3 0x2f 0x75,
    Col 0x12 0x81 0x4c 0xf0, Col 0xa3 0x8d 0x46 0x97, Col 0xc6 0x6b 0xd3 0xf9,
    Col 0xe7 0x03 0x8f 0x5f, Col 0x95 0x15 0x92 0x9c, Col 0xeb 0xbf 0x6d 0x7a,
    Col 0xda 0x95 0x52 0x59, Col 0x2d 0xd4 0xbe 0x83, Col 0xd3 0x58 0x74 0x21,
    Col 0x29 0x49 0xe0 0x69, Col 0x44 0x8e 0xc9 0xc8, Col 0x6a 0x75 0xc2 0x89,
    Col 0x78 0xf4 0x8e 0x79, Col 0x6b 0x99 0x58 0x3e, Col 0xdd 0x27 0xb9 0x71,
    Col 0xb6 0xbe 0xe1 0x4f, Col 0x17 0xf0 0x88 0xad, Col 0x66 0xc9 0x20 0xac,
    Col 0xb4 0x7d 0xce 0x3a, Col 0x18 0x63 0xdf 0x4a, Col 0x82 0xe5 0x1a 0x31,
    Col 0x60 0x97 0x51 0x33, Col 0x45 0x62 0x53 0x7f, Col 0xe0 0xb1 0x64 0x77,
    Col 0x84 0xbb 0x6b 0xae, Col 0x1c 0xfe 0x81 0xa0, Col 0x94 0xf9 0x08 0x2b,
    Col 0x58 0x70 0x48 0x68, Col 0x19 0x8f 0x45 0xfd, Col 0x87 0x94 0xde 0x6c,
    Col 0xb7 0x52 0x7b 0xf8, Col 0x23 0xab 0x73 0xd3, Col 0xe2 0x72 0x4b 0x02,
    Col 0x57 0xe3 0x1f 0x8f, Col 0x2a 0x66 0x55 0xab, Col 0x07 0xb2 0xeb 0x28,
    Col 0x03 0x2f 0xb5 0xc2, Col 0x9a 0x86 0xc5 0x7b, Col 0xa5 0xd3 0x37 0x08,
    Col 0xf2 0x30 0x28 0x87, Col 0xb2 0x23 0xbf 0xa5, Col 0xba 0x02 0x03 0x6a,
    Col 0x5c 0xed 0x16 0x82, Col 0x2b 0x8a 0xcf 0x1c, Col 0x92 0xa7 0x79 0xb4,
    Col 0xf0 0xf3 0x07 0xf2, Col 0xa1 0x4e 0x69 0xe2, Col 0xcd 0x65 0xda 0xf4,
    Col 0xd5 0x06 0x05 0xbe, Col 0x1f 0xd1 0x34 0x62, Col 0x8a 0xc4 0xa6 0xfe,
    Col 0x9d 0x34 0x2e 0x53, Col 0xa0 0xa2 0xf3 0x55, Col 0x32 0x05 0x8a 0xe1,
    Col 0x75 0xa4 0xf6 0xeb, Col 0x39 0x0b 0x83 0xec, Col 0xaa 0x40 0x60 0xef,
    Col 0x06 0x5e 0x71 0x9f, Col 0x51 0xbd 0x6e 0x10, Col 0xf9 0x3e 0x21 0x8a,
    Col 0x3d 0x96 0xdd 0x06, Col 0xae 0xdd 0x3e 0x05, Col 0x46 0x4d 0xe6 0xbd,
    Col 0xb5 0x91 0x54 0x8d, Col 0x05 0x71 0xc4 0x5d, Col 0x6f 0x04 0x06 0xd4,
    Col 0xff 0x60 0x50 0x15, Col 0x24 0x19 0x98 0xfb, Col 0x97 0xd6 0xbd 0xe9,
    Col 0xcc 0x89 0x40 0x43, Col 0x77 0x67 0xd9 0x9e, Col 0xbd 0xb0 0xe8 0x42,
    Col 0x88 0x07 0x89 0x8b, Col 0x38 0xe7 0x19 0x5b, Col 0xdb 0x79 0xc8 0xee,
    Col 0x47 0xa1 0x7c 0x0a, Col 0xe9 0x7c 0x42 0x0f, Col 0xc9 0xf8 0x84 0x1e,
    Col 0x00 0x00 0x00 0x00, Col 0x83 0x09 0x80 0x86, Col 0x48 0x32 0x2b 0xed,
    Col 0xac 0x1e 0x11 0x70, Col 0x4e 0x6c 0x5a 0x72, Col 0xfb 0xfd 0x0e 0xff,
    Col 0x56 0x0f 0x85 0x38, Col 0x1e 0x3d 0xae 0xd5, Col 0x27 0x36 0x2d 0x39,
    Col 0x64 0x0a 0x0f 0xd9, Col 0x21 0x68 0x5c 0xa6, Col 0xd1 0x9b 0x5b 0x54,
    Col 0x3a 0x24 0x36 0x2e, Col 0xb1 0x0c 0x0a 0x67, Col 0x0f 0x93 0x57 0xe7,
    Col 0xd2 0xb4 0xee 0x96, Col 0x9e 0x1b 0x9b 0x91, Col 0x4f 0x80 0xc0 0xc5,
    Col 0xa2 0x61 0xdc 0x20, Col 0x69 0x5a 0x77 0x4b, Col 0x16 0x1c 0x12 0x1a,
    Col 0x0a 0xe2 0x93 0xba, Col 0xe5 0xc0 0xa0 0x2a, Col 0x43 0x3c 0x22 0xe0,
    Col 0x1d 0x12 0x1b 0x17, Col 0x0b 0x0e 0x09 0x0d, Col 0xad 0xf2 0x8b 0xc7,
    Col 0xb9 0x2d 0xb6 0xa8, Col 0xc8 0x14 0x1e 0xa9, Col 0x85 0x57 0xf1 0x19,
    Col 0x4c 0xaf 0x75 0x07, Col 0xbb 0xee 0x99 0xdd, Col 0xfd 0xa3 0x7f 0x60,
    Col 0x9f 0xf7 0x01 0x26, Col 0xbc 0x5c 0x72 0xf5, Col 0xc5 0x44 0x66 0x3b,
    Col 0x34 0x5b 0xfb 0x7e, Col 0x76 0x8b 0x43 0x29, Col 0xdc 0xcb 0x23 0xc6,
    Col 0x68 0xb6 0xed 0xfc, Col 0x63 0xb8 0xe4 0xf1, Col 0xca 0xd7 0x31 0xdc,
    Col 0x10 0x42 0x63 0x85, Col 0x40 0x13 0x97 0x22, Col 0x20 0x84 0xc6 0x11,
    Col 0x7d 0x85 0x4a 0x24, Col 0xf8 0xd2 0xbb 0x3d, Col 0x11 0xae 0xf9 0x32,
    Col 0x6d 0xc7 0x29 0xa1, Col 0x4b 0x1d 0x9e 0x2f, Col 0xf3 0xdc 0xb2 0x30,
    Col 0xec 0x0d 0x86 0x52, Col 0xd0 0x77 0xc1 0xe3, Col 0x6c 0x2b 0xb3 0x16,
    Col 0x99 0xa9 0x70 0xb9, Col 0xfa 0x11 0x94 0x48, Col 0x22 0x47 0xe9 0x64,
    Col 0xc4 0xa8 0xfc 0x8c, Col 0x1a 0xa0 0xf0 0x3f, Col 0xd8 0x56 0x7d 0x2c,
    Col 0xef 0x22 0x33 0x90, Col 0xc7 0x87 0x49 0x4e, Col 0xc1 0xd9 0x38 0xd1,
    Col 0xfe 0x8c 0xca 0xa2, Col 0x36 0x98 0xd4 0x0b, Col 0xcf 0xa6 0xf5 0x81,
    Col 0x28 0xa5 0x7a 0xde, Col 0x26 0xda 0xb7 0x8e, Col 0xa4 0x3f 0xad 0xbf,
    Col 0xe4 0x2c 0x3a 0x9d, Col 0x0d 0x50 0x78 0x92, Col 0x9b 0x6a 0x5f 0xcc,
    Col 0x62 0x54 0x7e 0x46, Col 0xc2 0xf6 0x8d 0x13, Col 0xe8 0x90 0xd8 0xb8,
    Col 0x5e 0x2e 0x39 0xf7, Col 0xf5 0x82 0xc3 0xaf, Col 0xbe 0x9f 0x5d 0x80,
    Col 0x7c 0x69 0xd0 0x93, Col 0xa9 0x6f 0xd5 0x2d, Col 0xb3 0xcf 0x25 0x12,
    Col 0x3b 0xc8 0xac 0x99, Col 0xa7 0x10 0x18 0x7d, Col 0x6e 0xe8 0x9c 0x63,
    Col 0x7b 0xdb 0x3b 0xbb, Col 0x09 0xcd 0x26 0x78, Col 0xf4 0x6e 0x59 0x18,
    Col 0x01 0xec 0x9a 0xb7, Col 0xa8 0x83 0x4f 0x9a, Col 0x65 0xe6 0x95 0x6e,
    Col 0x7e 0xaa 0xff 0xe6, Col 0x08 0x21 0xbc 0xcf, Col 0xe6 0xef 0x15 0xe8,
    Col 0xd9 0xba 0xe7 0x9b, Col 0xce 0x4a 0x6f 0x36, Col 0xd4 0xea 0x9f 0x09,
    Col 0xd6 0x29 0xb0 0x7c, Col 0xaf 0x31 0xa4 0xb2, Col 0x31 0x2a 0x3f 0x23,
    Col 0x30 0xc6 0xa5 0x94, Col 0xc0 0x35 0xa2 0x66, Col 0x37 0x74 0x4e 0xbc,
    Col 0xa6 0xfc 0x82 0xca, Col 0xb0 0xe0 0x90 0xd0, Col 0x15 0x33 0xa7 0xd8,
    Col 0x4a 0xf1 0x04 0x98, Col 0xf7 0x41 0xec 0xda, Col 0x0e 0x7f 0xcd 0x50,
    Col 0x2f 0x17 0x91 0xf6, Col 0x8d 0x76 0x4d 0xd6, Col 0x4d 0x43 0xef 0xb0,
    Col 0x54 0xcc 0xaa 0x4d, Col 0xdf 0xe4 0x96 0x04, Col 0xe3 0x9e 0xd1 0xb5,
    Col 0x1b 0x4c 0x6a 0x88, Col 0xb8 0xc1 0x2c 0x1f, Col 0x7f 0x46 0x65 0x51,
    Col 0x04 0x9d 0x5e 0xea, Col 0x5d 0x01 0x8c 0x35, Col 0x73 0xfa 0x87 0x74,
    Col 0x2e 0xfb 0x0b 0x41, Col 0x5a 0xb3 0x67 0x1d, Col 0x52 0x92 0xdb 0xd2,
    Col 0x33 0xe9 0x10 0x56, Col 0x13 0x6d 0xd6 0x47, Col 0x8c 0x9a 0xd7 0x61,
    Col 0x7a 0x37 0xa1 0x0c, Col 0x8e 0x59 0xf8 0x14, Col 0x89 0xeb 0x13 0x3c,
    Col 0xee 0xce 0xa9 0x27, Col 0x35 0xb7 0x61 0xc9, Col 0xed 0xe1 0x1c 0xe5,
    Col 0x3c 0x7a 0x47 0xb1, Col 0x59 0x9c 0xd2 0xdf, Col 0x3f 0x55 0xf2 0x73,
    Col 0x79 0x18 0x14 0xce, Col 0xbf 0x73 0xc7 0x37, Col 0xea 0x53 0xf7 0xcd,
    Col 0x5b 0x5f 0xfd 0xaa, Col 0x14 0xdf 0x3d 0x6f, Col 0x86 0x78 0x44 0xdb,
    Col 0x81 0xca 0xaf 0xf3, Col 0x3e 0xb9 0x68 0xc4, Col 0x2c 0x38 0x24 0x34,
    Col 0x5f 0xc2 0xa3 0x40, Col 0x72 0x16 0x1d 0xc3, Col 0x0c 0xbc 0xe2 0x25,
    Col 0x8b 0x28 0x3c 0x49, Col 0x41 0xff 0x0d 0x95, Col 0x71 0x39 0xa8 0x01,
    Col 0xde 0x08 0x0c 0xb3, Col 0x9c 0xd8 0xb4 0xe4, Col 0x90 0x64 0x56 0xc1,
    Col 0x61 0x7b 0xcb 0x84, Col 0x70 0xd5 0x32 0xb6, Col 0x74 0x48 0x6c 0x5c,
    Col 0x42 0xd0 0xb8 0x57]"

definition T7_table :: "col list" where
  "T7_table = [
    Col 0xa7 0x50 0x51 0xf4, Col 0x65 0x53 0x7e 0x41, Col 0xa4 0xc3 0x1a 0x17,
    Col 0x5e 0x96 0x3a 0x27, Col 0x6b 0xcb 0x3b 0xab, Col 0x45 0xf1 0x1f 0x9d,
    Col 0x58 0xab 0xac 0xfa, Col 0x03 0x93 0x4b 0xe3, Col 0xfa 0x55 0x20 0x30,
    Col 0x6d 0xf6 0xad 0x76, Col 0x76 0x91 0x88 0xcc, Col 0x4c 0x25 0xf5 0x02,
    Col 0xd7 0xfc 0x4f 0xe5, Col 0xcb 0xd7 0xc5 0x2a, Col 0x44 0x80 0x26 0x35,
    Col 0xa3 0x8f 0xb5 0x62, Col 0x5a 0x49 0xde 0xb1, Col 0x1b 0x67 0x25 0xba,
    Col 0x0e 0x98 0x45 0xea, Col 0xc0 0xe1 0x5d 0xfe, Col 0x75 0x02 0xc3 0x2f,
    Col 0xf0 0x12 0x81 0x4c, Col 0x97 0xa3 0x8d 0x46, Col 0xf9 0xc6 0x6b 0xd3,
    Col 0x5f 0xe7 0x03 0x8f, Col 0x9c 0x95 0x15 0x92, Col 0x7a 0xeb 0xbf 0x6d,
    Col 0x59 0xda 0x95 0x52, Col 0x83 0x2d 0xd4 0xbe, Col 0x21 0xd3 0x58 0x74,
    Col 0x69 0x29 0x49 0xe0, Col 0xc8 0x44 0x8e 0xc9, Col 0x89 0x6a 0x75 0xc2,
    Col 0x79 0x78 0xf4 0x8e, Col 0x3e 0x6b 0x99 0x58, Col 0x71 0xdd 0x27 0xb9,
    Col 0x4f 0xb6 0xbe 0xe1, Col 0xad 0x17 0xf0 0x88, Col 0xac 0x66 0xc9 0x20,
    Col 0x3a 0xb4 0x7d 0xce, Col 0x4a 0x18 0x63 0xdf, Col 0x31 0x82 0xe5 0x1a,
    Col 0x33 0x60 0x97 0x51, Col 0x7f 0x45 0x62 0x53, Col 0x77 0xe0 0xb1 0x64,
    Col 0xae 0x84 0xbb 0x6b, Col 0xa0 0x1c 0xfe 0x81, Col 0x2b 0x94 0xf9 0x08,
    Col 0x68 0x58 0x70 0x48, Col 0xfd 0x19 0x8f 0x45, Col 0x6c 0x87 0x94 0xde,
    Col 0xf8 0xb7 0x52 0x7b, Col 0xd3 0x23 0xab 0x73, Col 0x02 0xe2 0x72 0x4b,
    Col 0x8f 0x57 0xe3 0x1f, Col 0xab 0x2a 0x66 0x55, Col 0x28 0x07 0xb2 0xeb,
    Col 0xc2 0x03 0x2f 0xb5, Col 0x7b 0x9a 0x86 0xc5, Col 0x08 0xa5 0xd3 0x37,
    Col 0x87 0xf2 0x30 0x28, Col 0xa5 0xb2 0x23 0xbf, Col 0x6a 0xba 0x02 0x03,
    Col 0x82 0x5c 0xed 0x16, Col 0x1c 0x2b 0x8a 0xcf, Col 0xb4 0x92 0xa7 0x79,
    Col 0xf2 0xf0 0xf3 0x07, Col 0xe2 0xa1 0x4e 0x69, Col 0xf4 0xcd 0x65 0xda,
    Col 0xbe 0xd5 0x06 0x05, Col 0x62 0x1f 0xd1 0x34, Col 0xfe 0x8a 0xc4 0xa6,
    Col 0x53 0x9d 0x34 0x2e, Col 0x55 0xa0 0xa2 0xf3, Col 0xe1 0x32 0x05 0x8a,
    Col 0xeb 0x75 0xa4 0xf6, Col 0xec 0x39 0x0b 0x83, Col 0xef 0xaa 0x40 0x60,
    Col 0x9f 0x06 0x5e 0x71, Col 0x10 0x51 0xbd 0x6e, Col 0x8a 0xf9 0x3e 0x21,
    Col 0x06 0x3d 0x96 0xdd, Col 0x05 0xae 0xdd 0x3e, Col 0xbd 0x46 0x4d 0xe6,
    Col 0x8d 0xb5 0x91 0x54, Col 0x5d 0x05 0x71 0xc4, Col 0xd4 0x6f 0x04 0x06,
    Col 0x15 0xff 0x60 0x50, Col 0xfb 0x24 0x19 0x98, Col 0xe9 0x97 0xd6 0xbd,
    Col 0x43 0xcc 0x89 0x40, Col 0x9e 0x77 0x67 0xd9, Col 0x42 0xbd 0xb0 0xe8,
    Col 0x8b 0x88 0x07 0x89, Col 0x5b 0x38 0xe7 0x19, Col 0xee 0xdb 0x79 0xc8,
    Col 0x0a 0x47 0xa1 0x7c, Col 0x0f 0xe9 0x7c 0x42, Col 0x1e 0xc9 0xf8 0x84,
    Col 0x00 0x00 0x00 0x00, Col 0x86 0x83 0x09 0x80, Col 0xed 0x48 0x32 0x2b,
    Col 0x70 0xac 0x1e 0x11, Col 0x72 0x4e 0x6c 0x5a, Col 0xff 0xfb 0xfd 0x0e,
    Col 0x38 0x56 0x0f 0x85, Col 0xd5 0x1e 0x3d 0xae, Col 0x39 0x27 0x36 0x2d,
    Col 0xd9 0x64 0x0a 0x0f, Col 0xa6 0x21 0x68 0x5c, Col 0x54 0xd1 0x9b 0x5b,
    Col 0x2e 0x3a 0x24 0x36, Col 0x67 0xb1 0x0c 0x0a, Col 0xe7 0x0f 0x93 0x57,
    Col 0x96 0xd2 0xb4 0xee, Col 0x91 0x9e 0x1b 0x9b, Col 0xc5 0x4f 0x80 0xc0,
    Col 0x20 0xa2 0x61 0xdc, Col 0x4b 0x69 0x5a 0x77, Col 0x1a 0x16 0x1c 0x12,
    Col 0xba 0x0a 0xe2 0x93, Col 0x2a 0xe5 0xc0 0xa0, Col 0xe0 0x43 0x3c 0x22,
    Col 0x17 0x1d 0x12 0x1b, Col 0x0d 0x0b 0x0e 0x09, Col 0xc7 0xad 0xf2 0x8b,
    Col 0xa8 0xb9 0x2d 0xb6, Col 0xa9 0xc8 0x14 0x1e, Col 0x19 0x85 0x57 0xf1,
    Col 0x07 0x4c 0xaf 0x75, Col 0xdd 0xbb 0xee 0x99, Col 0x60 0xfd 0xa3 0x7f,
    Col 0x26 0x9f 0xf7 0x01, Col 0xf5 0xbc 0x5c 0x72, Col 0x3b 0xc5 0x44 0x66,
    Col 0x7e 0x34 0x5b 0xfb, Col 0x29 0x76 0x8b 0x43, Col 0xc6 0xdc 0xcb 0x23,
    Col 0xfc 0x68 0xb6 0xed, Col 0xf1 0x63 0xb8 0xe4, Col 0xdc 0xca 0xd7 0x31,
    Col 0x85 0x10 0x42 0x63, Col 0x22 0x40 0x13 0x97, Col 0x11 0x20 0x84 0xc6,
    Col 0x24 0x7d 0x85 0x4a, Col 0x3d 0xf8 0xd2 0xbb, Col 0x32 0x11 0xae 0xf9,
    Col 0xa1 0x6d 0xc7 0x29, Col 0x2f 0x4b 0x1d 0x9e, Col 0x30 0xf3 0xdc 0xb2,
    Col 0x52 0xec 0x0d 0x86, Col 0xe3 0xd0 0x77 0xc1, Col 0x16 0x6c 0x2b 0xb3,
    Col 0xb9 0x99 0xa9 0x70, Col 0x48 0xfa 0x11 0x94, Col 0x64 0x22 0x47 0xe9,
    Col 0x8c 0xc4 0xa8 0xfc, Col 0x3f 0x1a 0xa0 0xf0, Col 0x2c 0xd8 0x56 0x7d,
    Col 0x90 0xef 0x22 0x33, Col 0x4e 0xc7 0x87 0x49, Col 0xd1 0xc1 0xd9 0x38,
    Col 0xa2 0xfe 0x8c 0xca, Col 0x0b 0x36 0x98 0xd4, Col 0x81 0xcf 0xa6 0xf5,
    Col 0xde 0x28 0xa5 0x7a, Col 0x8e 0x26 0xda 0xb7, Col 0xbf 0xa4 0x3f 0xad,
    Col 0x9d 0xe4 0x2c 0x3a, Col 0x92 0x0d 0x50 0x78, Col 0xcc 0x9b 0x6a 0x5f,
    Col 0x46 0x62 0x54 0x7e, Col 0x13 0xc2 0xf6 0x8d, Col 0xb8 0xe8 0x90 0xd8,
    Col 0xf7 0x5e 0x2e 0x39, Col 0xaf 0xf5 0x82 0xc3, Col 0x80 0xbe 0x9f 0x5d,
    Col 0x93 0x7c 0x69 0xd0, Col 0x2d 0xa9 0x6f 0xd5, Col 0x12 0xb3 0xcf 0x25,
    Col 0x99 0x3b 0xc8 0xac, Col 0x7d 0xa7 0x10 0x18, Col 0x63 0x6e 0xe8 0x9c,
    Col 0xbb 0x7b 0xdb 0x3b, Col 0x78 0x09 0xcd 0x26, Col 0x18 0xf4 0x6e 0x59,
    Col 0xb7 0x01 0xec 0x9a, Col 0x9a 0xa8 0x83 0x4f, Col 0x6e 0x65 0xe6 0x95,
    Col 0xe6 0x7e 0xaa 0xff, Col 0xcf 0x08 0x21 0xbc, Col 0xe8 0xe6 0xef 0x15,
    Col 0x9b 0xd9 0xba 0xe7, Col 0x36 0xce 0x4a 0x6f, Col 0x09 0xd4 0xea 0x9f,
    Col 0x7c 0xd6 0x29 0xb0, Col 0xb2 0xaf 0x31 0xa4, Col 0x23 0x31 0x2a 0x3f,
    Col 0x94 0x30 0xc6 0xa5, Col 0x66 0xc0 0x35 0xa2, Col 0xbc 0x37 0x74 0x4e,
    Col 0xca 0xa6 0xfc 0x82, Col 0xd0 0xb0 0xe0 0x90, Col 0xd8 0x15 0x33 0xa7,
    Col 0x98 0x4a 0xf1 0x04, Col 0xda 0xf7 0x41 0xec, Col 0x50 0x0e 0x7f 0xcd,
    Col 0xf6 0x2f 0x17 0x91, Col 0xd6 0x8d 0x76 0x4d, Col 0xb0 0x4d 0x43 0xef,
    Col 0x4d 0x54 0xcc 0xaa, Col 0x04 0xdf 0xe4 0x96, Col 0xb5 0xe3 0x9e 0xd1,
    Col 0x88 0x1b 0x4c 0x6a, Col 0x1f 0xb8 0xc1 0x2c, Col 0x51 0x7f 0x46 0x65,
    Col 0xea 0x04 0x9d 0x5e, Col 0x35 0x5d 0x01 0x8c, Col 0x74 0x73 0xfa 0x87,
    Col 0x41 0x2e 0xfb 0x0b, Col 0x1d 0x5a 0xb3 0x67, Col 0xd2 0x52 0x92 0xdb,
    Col 0x56 0x33 0xe9 0x10, Col 0x47 0x13 0x6d 0xd6, Col 0x61 0x8c 0x9a 0xd7,
    Col 0x0c 0x7a 0x37 0xa1, Col 0x14 0x8e 0x59 0xf8, Col 0x3c 0x89 0xeb 0x13,
    Col 0x27 0xee 0xce 0xa9, Col 0xc9 0x35 0xb7 0x61, Col 0xe5 0xed 0xe1 0x1c,
    Col 0xb1 0x3c 0x7a 0x47, Col 0xdf 0x59 0x9c 0xd2, Col 0x73 0x3f 0x55 0xf2,
    Col 0xce 0x79 0x18 0x14, Col 0x37 0xbf 0x73 0xc7, Col 0xcd 0xea 0x53 0xf7,
    Col 0xaa 0x5b 0x5f 0xfd, Col 0x6f 0x14 0xdf 0x3d, Col 0xdb 0x86 0x78 0x44,
    Col 0xf3 0x81 0xca 0xaf, Col 0xc4 0x3e 0xb9 0x68, Col 0x34 0x2c 0x38 0x24,
    Col 0x40 0x5f 0xc2 0xa3, Col 0xc3 0x72 0x16 0x1d, Col 0x25 0x0c 0xbc 0xe2,
    Col 0x49 0x8b 0x28 0x3c, Col 0x95 0x41 0xff 0x0d, Col 0x01 0x71 0x39 0xa8,
    Col 0xb3 0xde 0x08 0x0c, Col 0xe4 0x9c 0xd8 0xb4, Col 0xc1 0x90 0x64 0x56,
    Col 0x84 0x61 0x7b 0xcb, Col 0xb6 0x70 0xd5 0x32, Col 0x5c 0x74 0x48 0x6c,
    Col 0x57 0x42 0xd0 0xb8]"

definition T8_table :: "col list" where
  "T8_table = [
    Col 0xf4 0xa7 0x50 0x51, Col 0x41 0x65 0x53 0x7e, Col 0x17 0xa4 0xc3 0x1a,
    Col 0x27 0x5e 0x96 0x3a, Col 0xab 0x6b 0xcb 0x3b, Col 0x9d 0x45 0xf1 0x1f,
    Col 0xfa 0x58 0xab 0xac, Col 0xe3 0x03 0x93 0x4b, Col 0x30 0xfa 0x55 0x20,
    Col 0x76 0x6d 0xf6 0xad, Col 0xcc 0x76 0x91 0x88, Col 0x02 0x4c 0x25 0xf5,
    Col 0xe5 0xd7 0xfc 0x4f, Col 0x2a 0xcb 0xd7 0xc5, Col 0x35 0x44 0x80 0x26,
    Col 0x62 0xa3 0x8f 0xb5, Col 0xb1 0x5a 0x49 0xde, Col 0xba 0x1b 0x67 0x25,
    Col 0xea 0x0e 0x98 0x45, Col 0xfe 0xc0 0xe1 0x5d, Col 0x2f 0x75 0x02 0xc3,
    Col 0x4c 0xf0 0x12 0x81, Col 0x46 0x97 0xa3 0x8d, Col 0xd3 0xf9 0xc6 0x6b,
    Col 0x8f 0x5f 0xe7 0x03, Col 0x92 0x9c 0x95 0x15, Col 0x6d 0x7a 0xeb 0xbf,
    Col 0x52 0x59 0xda 0x95, Col 0xbe 0x83 0x2d 0xd4, Col 0x74 0x21 0xd3 0x58,
    Col 0xe0 0x69 0x29 0x49, Col 0xc9 0xc8 0x44 0x8e, Col 0xc2 0x89 0x6a 0x75,
    Col 0x8e 0x79 0x78 0xf4, Col 0x58 0x3e 0x6b 0x99, Col 0xb9 0x71 0xdd 0x27,
    Col 0xe1 0x4f 0xb6 0xbe, Col 0x88 0xad 0x17 0xf0, Col 0x20 0xac 0x66 0xc9,
    Col 0xce 0x3a 0xb4 0x7d, Col 0xdf 0x4a 0x18 0x63, Col 0x1a 0x31 0x82 0xe5,
    Col 0x51 0x33 0x60 0x97, Col 0x53 0x7f 0x45 0x62, Col 0x64 0x77 0xe0 0xb1,
    Col 0x6b 0xae 0x84 0xbb, Col 0x81 0xa0 0x1c 0xfe, Col 0x08 0x2b 0x94 0xf9,
    Col 0x48 0x68 0x58 0x70, Col 0x45 0xfd 0x19 0x8f, Col 0xde 0x6c 0x87 0x94,
    Col 0x7b 0xf8 0xb7 0x52, Col 0x73 0xd3 0x23 0xab, Col 0x4b 0x02 0xe2 0x72,
    Col 0x1f 0x8f 0x57 0xe3, Col 0x55 0xab 0x2a 0x66, Col 0xeb 0x28 0x07 0xb2,
    Col 0xb5 0xc2 0x03 0x2f, Col 0xc5 0x7b 0x9a 0x86, Col 0x37 0x08 0xa5 0xd3,
    Col 0x28 0x87 0xf2 0x30, Col 0xbf 0xa5 0xb2 0x23, Col 0x03 0x6a 0xba 0x02,
    Col 0x16 0x82 0x5c 0xed, Col 0xcf 0x1c 0x2b 0x8a, Col 0x79 0xb4 0x92 0xa7,
    Col 0x07 0xf2 0xf0 0xf3, Col 0x69 0xe2 0xa1 0x4e, Col 0xda 0xf4 0xcd 0x65,
    Col 0x05 0xbe 0xd5 0x06, Col 0x34 0x62 0x1f 0xd1, Col 0xa6 0xfe 0x8a 0xc4,
    Col 0x2e 0x53 0x9d 0x34, Col 0xf3 0x55 0xa0 0xa2, Col 0x8a 0xe1 0x32 0x05,
    Col 0xf6 0xeb 0x75 0xa4, Col 0x83 0xec 0x39 0x0b, Col 0x60 0xef 0xaa 0x40,
    Col 0x71 0x9f 0x06 0x5e, Col 0x6e 0x10 0x51 0xbd, Col 0x21 0x8a 0xf9 0x3e,
    Col 0xdd 0x06 0x3d 0x96, Col 0x3e 0x05 0xae 0xdd, Col 0xe6 0xbd 0x46 0x4d,
    Col 0x54 0x8d 0xb5 0x91, Col 0xc4 0x5d 0x05 0x71, Col 0x06 0xd4 0x6f 0x04,
    Col 0x50 0x15 0xff 0x60, Col 0x98 0xfb 0x24 0x19, Col 0xbd 0xe9 0x97 0xd6,
    Col 0x40 0x43 0xcc 0x89, Col 0xd9 0x9e 0x77 0x67, Col 0xe8 0x42 0xbd 0xb0,
    Col 0x89 0x8b 0x88 0x07, Col 0x19 0x5b 0x38 0xe7, Col 0xc8 0xee 0xdb 0x79,
    Col 0x7c 0x0a 0x47 0xa1, Col 0x42 0x0f 0xe9 0x7c, Col 0x84 0x1e 0xc9 0xf8,
    Col 0x00 0x00 0x00 0x00, Col 0x80 0x86 0x83 0x09, Col 0x2b 0xed 0x48 0x32,
    Col 0x11 0x70 0xac 0x1e, Col 0x5a 0x72 0x4e 0x6c, Col 0x0e 0xff 0xfb 0xfd,
    Col 0x85 0x38 0x56 0x0f, Col 0xae 0xd5 0x1e 0x3d, Col 0x2d 0x39 0x27 0x36,
    Col 0x0f 0xd9 0x64 0x0a, Col 0x5c 0xa6 0x21 0x68, Col 0x5b 0x54 0xd1 0x9b,
    Col 0x36 0x2e 0x3a 0x24, Col 0x0a 0x67 0xb1 0x0c, Col 0x57 0xe7 0x0f 0x93,
    Col 0xee 0x96 0xd2 0xb4, Col 0x9b 0x91 0x9e 0x1b, Col 0xc0 0xc5 0x4f 0x80,
    Col 0xdc 0x20 0xa2 0x61, Col 0x77 0x4b 0x69 0x5a, Col 0x12 0x1a 0x16 0x1c,
    Col 0x93 0xba 0x0a 0xe2, Col 0xa0 0x2a 0xe5 0xc0, Col 0x22 0xe0 0x43 0x3c,
    Col 0x1b 0x17 0x1d 0x12, Col 0x09 0x0d 0x0b 0x0e, Col 0x8b 0xc7 0xad 0xf2,
    Col 0xb6 0xa8 0xb9 0x2d, Col 0x1e 0xa9 0xc8 0x14, Col 0xf1 0x19 0x85 0x57,
    Col 0x75 0x07 0x4c 0xaf, Col 0x99 0xdd 0xbb 0xee, Col 0x7f 0x60 0xfd 0xa3,
    Col 0x01 0x26 0x9f 0xf7, Col 0x72 0xf5 0xbc 0x5c, Col 0x66 0x3b 0xc5 0x44,
    Col 0xfb 0x7e 0x34 0x5b, Col 0x43 0x29 0x76 0x8b, Col 0x23 0xc6 0xdc 0xcb,
    Col 0xed 0xfc 0x68 0xb6, Col 0xe4 0xf1 0x63 0xb8, Col 0x31 0xdc 0xca 0xd7,
    Col 0x63 0x85 0x10 0x42, Col 0x97 0x22 0x40 0x13, Col 0xc6 0x11 0x20 0x84,
    Col 0x4a 0x24 0x7d 0x85, Col 0xbb 0x3d 0xf8 0xd2, Col 0xf9 0x32 0x11 0xae,
    Col 0x29 0xa1 0x6d 0xc7, Col 0x9e 0x2f 0x4b 0x1d, Col 0xb2 0x30 0xf3 0xdc,
    Col 0x86 0x52 0xec 0x0d, Col 0xc1 0xe3 0xd0 0x77, Col 0xb3 0x16 0x6c 0x2b,
    Col 0x70 0xb9 0x99 0xa9, Col 0x94 0x48 0xfa 0x11, Col 0xe9 0x64 0x22 0x47,
    Col 0xfc 0x8c 0xc4 0xa8, Col 0xf0 0x3f 0x1a 0xa0, Col 0x7d 0x2c 0xd8 0x56,
    Col 0x33 0x90 0xef 0x22, Col 0x49 0x4e 0xc7 0x87, Col 0x38 0xd1 0xc1 0xd9,
    Col 0xca 0xa2 0xfe 0x8c, Col 0xd4 0x0b 0x36 0x98, Col 0xf5 0x81 0xcf 0xa6,
    Col 0x7a 0xde 0x28 0xa5, Col 0xb7 0x8e 0x26 0xda, Col 0xad 0xbf 0xa4 0x3f,
    Col 0x3a 0x9d 0xe4 0x2c, Col 0x78 0x92 0x0d 0x50, Col 0x5f 0xcc 0x9b 0x6a,
    Col 0x7e 0x46 0x62 0x54, Col 0x8d 0x13 0xc2 0xf6, Col 0xd8 0xb8 0xe8 0x90,
    Col 0x39 0xf7 0x5e 0x2e, Col 0xc3 0xaf 0xf5 0x82, Col 0x5d 0x80 0xbe 0x9f,
    Col 0xd0 0x93 0x7c 0x69, Col 0xd5 0x2d 0xa9 0x6f, Col 0x25 0x12 0xb3 0xcf,
    Col 0xac 0x99 0x3b 0xc8, Col 0x18 0x7d 0xa7 0x10, Col 0x9c 0x63 0x6e 0xe8,
    Col 0x3b 0xbb 0x7b 0xdb, Col 0x26 0x78 0x09 0xcd, Col 0x59 0x18 0xf4 0x6e,
    Col 0x9a 0xb7 0x01 0xec, Col 0x4f 0x9a 0xa8 0x83, Col 0x95 0x6e 0x65 0xe6,
    Col 0xff 0xe6 0x7e 0xaa, Col 0xbc 0xcf 0x08 0x21, Col 0x15 0xe8 0xe6 0xef,
    Col 0xe7 0x9b 0xd9 0xba, Col 0x6f 0x36 0xce 0x4a, Col 0x9f 0x09 0xd4 0xea,
    Col 0xb0 0x7c 0xd6 0x29, Col 0xa4 0xb2 0xaf 0x31, Col 0x3f 0x23 0x31 0x2a,
    Col 0xa5 0x94 0x30 0xc6, Col 0xa2 0x66 0xc0 0x35, Col 0x4e 0xbc 0x37 0x74,
    Col 0x82 0xca 0xa6 0xfc, Col 0x90 0xd0 0xb0 0xe0, Col 0xa7 0xd8 0x15 0x33,
    Col 0x04 0x98 0x4a 0xf1, Col 0xec 0xda 0xf7 0x41, Col 0xcd 0x50 0x0e 0x7f,
    Col 0x91 0xf6 0x2f 0x17, Col 0x4d 0xd6 0x8d 0x76, Col 0xef 0xb0 0x4d 0x43,
    Col 0xaa 0x4d 0x54 0xcc, Col 0x96 0x04 0xdf 0xe4, Col 0xd1 0xb5 0xe3 0x9e,
    Col 0x6a 0x88 0x1b 0x4c, Col 0x2c 0x1f 0xb8 0xc1, Col 0x65 0x51 0x7f 0x46,
    Col 0x5e 0xea 0x04 0x9d, Col 0x8c 0x35 0x5d 0x01, Col 0x87 0x74 0x73 0xfa,
    Col 0x0b 0x41 0x2e 0xfb, Col 0x67 0x1d 0x5a 0xb3, Col 0xdb 0xd2 0x52 0x92,
    Col 0x10 0x56 0x33 0xe9, Col 0xd6 0x47 0x13 0x6d, Col 0xd7 0x61 0x8c 0x9a,
    Col 0xa1 0x0c 0x7a 0x37, Col 0xf8 0x14 0x8e 0x59, Col 0x13 0x3c 0x89 0xeb,
    Col 0xa9 0x27 0xee 0xce, Col 0x61 0xc9 0x35 0xb7, Col 0x1c 0xe5 0xed 0xe1,
    Col 0x47 0xb1 0x3c 0x7a, Col 0xd2 0xdf 0x59 0x9c, Col 0xf2 0x73 0x3f 0x55,
    Col 0x14 0xce 0x79 0x18, Col 0xc7 0x37 0xbf 0x73, Col 0xf7 0xcd 0xea 0x53,
    Col 0xfd 0xaa 0x5b 0x5f, Col 0x3d 0x6f 0x14 0xdf, Col 0x44 0xdb 0x86 0x78,
    Col 0xaf 0xf3 0x81 0xca, Col 0x68 0xc4 0x3e 0xb9, Col 0x24 0x34 0x2c 0x38,
    Col 0xa3 0x40 0x5f 0xc2, Col 0x1d 0xc3 0x72 0x16, Col 0xe2 0x25 0x0c 0xbc,
    Col 0x3c 0x49 0x8b 0x28, Col 0x0d 0x95 0x41 0xff, Col 0xa8 0x01 0x71 0x39,
    Col 0x0c 0xb3 0xde 0x08, Col 0xb4 0xe4 0x9c 0xd8, Col 0x56 0xc1 0x90 0x64,
    Col 0xcb 0x84 0x61 0x7b, Col 0x32 0xb6 0x70 0xd5, Col 0x6c 0x5c 0x74 0x48,
    Col 0xb8 0x57 0x42 0xd0]"

definition S5_table :: "u8 list" where
  "S5_table = [
    82, 9, 106, 213, 48, 54, 165, 56, 191, 64, 163, 158, 129, 243, 215, 251, 124, 227, 57,
    130, 155, 47, 255, 135, 52, 142, 67, 68, 196, 222, 233, 203, 84, 123, 148, 50, 166, 194,
    35, 61, 238, 76, 149, 11, 66, 250, 195, 78, 8, 46, 161, 102, 40, 217, 36, 178, 118, 91,
    162, 73, 109, 139, 209, 37, 114, 248, 246, 100, 134, 104, 152, 22, 212, 164, 92, 204, 93,
    101, 182, 146, 108, 112, 72, 80, 253, 237, 185, 218, 94, 21, 70, 87, 167, 141, 157, 132,
    144, 216, 171, 0, 140, 188, 211, 10, 247, 228, 88, 5, 184, 179, 69, 6, 208, 44, 30, 143,
    202, 63, 15, 2, 193, 175, 189, 3, 1, 19, 138, 107, 58, 145, 17, 65, 79, 103, 220, 234,
    151, 242, 207, 206, 240, 180, 230, 115, 150, 172, 116, 34, 231, 173, 53, 133, 226, 249,
    55, 232, 28, 117, 223, 110, 71, 241, 26, 113, 29, 41, 197, 137, 111, 183, 98, 14, 170, 24,
    190, 27, 252, 86, 62, 75, 198, 210, 121, 32, 154, 219, 192, 254, 120, 205, 90, 244, 31,
    221, 168, 51, 136, 7, 199, 49, 177, 18, 16, 89, 39, 128, 236, 95, 96, 81, 127, 169, 25,
    181, 74, 13, 45, 229, 122, 159, 147, 201, 156, 239, 160, 224, 59, 77, 174, 42, 245, 176,
    200, 235, 187, 60, 131, 83, 153, 97, 23, 43, 4, 126, 186, 119, 214, 38, 225, 105, 20, 99,
    85, 33, 12, 125]"

definition U1_table :: "col list" where
  "U1_table = [
    Col 0x00 0x00 0x00 0x00, Col 0x0e 0x09 0x0d 0x0b, Col 0x1c 0x12 0x1a 0x16,
    Col 0x12 0x1b 0x17 0x1d, Col 0x38 0x24 0x34 0x2c, Col 0x36 0x2d 0x39 0x27,
    Col 0x24 0x36 0x2e 0x3a, Col 0x2a 0x3f 0x23 0x31, Col 0x70 0x48 0x68 0x58,
    Col 0x7e 0x41 0x65 0x53, Col 0x6c 0x5a 0x72 0x4e, Col 0x62 0x53 0x7f 0x45,
    Col 0x48 0x6c 0x5c 0x74, Col 0x46 0x65 0x51 0x7f, Col 0x54 0x7e 0x46 0x62,
    Col 0x5a 0x77 0x4b 0x69, Col 0xe0 0x90 0xd0 0xb0, Col 0xee 0x99 0xdd 0xbb,
    Col 0xfc 0x82 0xca 0xa6, Col 0xf2 0x8b 0xc7 0xad, Col 0xd8 0xb4 0xe4 0x9c,
    Col 0xd6 0xbd 0xe9 0x97, Col 0xc4 0xa6 0xfe 0x8a, Col 0xca 0xaf 0xf3 0x81,
    Col 0x90 0xd8 0xb8 0xe8, Col 0x9e 0xd1 0xb5 0xe3, Col 0x8c 0xca 0xa2 0xfe,
    Col 0x82 0xc3 0xaf 0xf5, Col 0xa8 0xfc 0x8c 0xc4, Col 0xa6 0xf5 0x81 0xcf,
    Col 0xb4 0xee 0x96 0xd2, Col 0xba 0xe7 0x9b 0xd9, Col 0xdb 0x3b 0xbb 0x7b,
    Col 0xd5 0x32 0xb6 0x70, Col 0xc7 0x29 0xa1 0x6d, Col 0xc9 0x20 0xac 0x66,
    Col 0xe3 0x1f 0x8f 0x57, Col 0xed 0x16 0x82 0x5c, Col 0xff 0x0d 0x95 0x41,
    Col 0xf1 0x04 0x98 0x4a, Col 0xab 0x73 0xd3 0x23, Col 0xa5 0x7a 0xde 0x28,
    Col 0xb7 0x61 0xc9 0x35, Col 0xb9 0x68 0xc4 0x3e, Col 0x93 0x57 0xe7 0x0f,
    Col 0x9d 0x5e 0xea 0x04, Col 0x8f 0x45 0xfd 0x19, Col 0x81 0x4c 0xf0 0x12,
    Col 0x3b 0xab 0x6b 0xcb, Col 0x35 0xa2 0x66 0xc0, Col 0x27 0xb9 0x71 0xdd,
    Col 0x29 0xb0 0x7c 0xd6, Col 0x03 0x8f 0x5f 0xe7, Col 0x0d 0x86 0x52 0xec,
    Col 0x1f 0x9d 0x45 0xf1, Col 0x11 0x94 0x48 0xfa, Col 0x4b 0xe3 0x03 0x93,
    Col 0x45 0xea 0x0e 0x98, Col 0x57 0xf1 0x19 0x85, Col 0x59 0xf8 0x14 0x8e,
    Col 0x73 0xc7 0x37 0xbf, Col 0x7d 0xce 0x3a 0xb4, Col 0x6f 0xd5 0x2d 0xa9,
    Col 0x61 0xdc 0x20 0xa2, Col 0xad 0x76 0x6d 0xf6, Col 0xa3 0x7f 0x60 0xfd,
    Col 0xb1 0x64 0x77 0xe0, Col 0xbf 0x6d 0x7a 0xeb, Col 0x95 0x52 0x59 0xda,
    Col 0x9b 0x5b 0x54 0xd1, Col 0x89 0x40 0x43 0xcc, Col 0x87 0x49 0x4e 0xc7,
    Col 0xdd 0x3e 0x05 0xae, Col 0xd3 0x37 0x08 0xa5, Col 0xc1 0x2c 0x1f 0xb8,
    Col 0xcf 0x25 0x12 0xb3, Col 0xe5 0x1a 0x31 0x82, Col 0xeb 0x13 0x3c 0x89,
    Col 0xf9 0x08 0x2b 0x94, Col 0xf7 0x01 0x26 0x9f, Col 0x4d 0xe6 0xbd 0x46,
    Col 0x43 0xef 0xb0 0x4d, Col 0x51 0xf4 0xa7 0x50, Col 0x5f 0xfd 0xaa 0x5b,
    Col 0x75 0xc2 0x89 0x6a, Col 0x7b 0xcb 0x84 0x61, Col 0x69 0xd0 0x93 0x7c,
    Col 0x67 0xd9 0x9e 0x77, Col 0x3d 0xae 0xd5 0x1e, Col 0x33 0xa7 0xd8 0x15,
    Col 0x21 0xbc 0xcf 0x08, Col 0x2f 0xb5 0xc2 0x03, Col 0x05 0x8a 0xe1 0x32,
    Col 0x0b 0x83 0xec 0x39, Col 0x19 0x98 0xfb 0x24, Col 0x17 0x91 0xf6 0x2f,
    Col 0x76 0x4d 0xd6 0x8d, Col 0x78 0x44 0xdb 0x86, Col 0x6a 0x5f 0xcc 0x9b,
    Col 0x64 0x56 0xc1 0x90, Col 0x4e 0x69 0xe2 0xa1, Col 0x40 0x60 0xef 0xaa,
    Col 0x52 0x7b 0xf8 0xb7, Col 0x5c 0x72 0xf5 0xbc, Col 0x06 0x05 0xbe 0xd5,
    Col 0x08 0x0c 0xb3 0xde, Col 0x1a 0x17 0xa4 0xc3, Col 0x14 0x1e 0xa9 0xc8,
    Col 0x3e 0x21 0x8a 0xf9, Col 0x30 0x28 0x87 0xf2, Col 0x22 0x33 0x90 0xef,
    Col 0x2c 0x3a 0x9d 0xe4, Col 0x96 0xdd 0x06 0x3d, Col 0x98 0xd4 0x0b 0x36,
    Col 0x8a 0xcf 0x1c 0x2b, Col 0x84 0xc6 0x11 0x20, Col 0xae 0xf9 0x32 0x11,
    Col 0xa0 0xf0 0x3f 0x1a, Col 0xb2 0xeb 0x28 0x07, Col 0xbc 0xe2 0x25 0x0c,
    Col 0xe6 0x95 0x6e 0x65, Col 0xe8 0x9c 0x63 0x6e, Col 0xfa 0x87 0x74 0x73,
    Col 0xf4 0x8e 0x79 0x78, Col 0xde 0xb1 0x5a 0x49, Col 0xd0 0xb8 0x57 0x42,
    Col 0xc2 0xa3 0x40 0x5f, Col 0xcc 0xaa 0x4d 0x54, Col 0x41 0xec 0xda 0xf7,
    Col 0x4f 0xe5 0xd7 0xfc, Col 0x5d 0xfe 0xc0 0xe1, Col 0x53 0xf7 0xcd 0xea,
    Col 0x79 0xc8 0xee 0xdb, Col 0x77 0xc1 0xe3 0xd0, Col 0x65 0xda 0xf4 0xcd,
    Col 0x6b 0xd3 0xf9 0xc6, Col 0x31 0xa4 0xb2 0xaf, Col 0x3f 0xad 0xbf 0xa4,
    Col 0x2d 0xb6 0xa8 0xb9, Col 0x23 0xbf 0xa5 0xb2, Col 0x09 0x80 0x86 0x83,
    Col 0x07 0x89 0x8b 0x88, Col 0x15 0x92 0x9c 0x95, Col 0x1b 0x9b 0x91 0x9e,
    Col 0xa1 0x7c 0x0a 0x47, Col 0xaf 0x75 0x07 0x4c, Col 0xbd 0x6e 0x10 0x51,
    Col 0xb3 0x67 0x1d 0x5a, Col 0x99 0x58 0x3e 0x6b, Col 0x97 0x51 0x33 0x60,
    Col 0x85 0x4a 0x24 0x7d, Col 0x8b 0x43 0x29 0x76, Col 0xd1 0x34 0x62 0x1f,
    Col 0xdf 0x3d 0x6f 0x14, Col 0xcd 0x26 0x78 0x09, Col 0xc3 0x2f 0x75 0x02,
    Col 0xe9 0x10 0x56 0x33, Col 0xe7 0x19 0x5b 0x38, Col 0xf5 0x02 0x4c 0x25,
    Col 0xfb 0x0b 0x41 0x2e, Col 0x9a 0xd7 0x61 0x8c, Col 0x94 0xde 0x6c 0x87,
    Col 0x86 0xc5 0x7b 0x9a, Col 0x88 0xcc 0x76 0x91, Col 0xa2 0xf3 0x55 0xa0,
    Col 0xac 0xfa 0x58 0xab, Col 0xbe 0xe1 0x4f 0xb6, Col 0xb0 0xe8 0x42 0xbd,
    Col 0xea 0x9f 0x09 0xd4, Col 0xe4 0x96 0x04 0xdf, Col 0xf6 0x8d 0x13 0xc2,
    Col 0xf8 0x84 0x1e 0xc9, Col 0xd2 0xbb 0x3d 0xf8, Col 0xdc 0xb2 0x30 0xf3,
    Col 0xce 0xa9 0x27 0xee, Col 0xc0 0xa0 0x2a 0xe5, Col 0x7a 0x47 0xb1 0x3c,
    Col 0x74 0x4e 0xbc 0x37, Col 0x66 0x55 0xab 0x2a, Col 0x68 0x5c 0xa6 0x21,
    Col 0x42 0x63 0x85 0x10, Col 0x4c 0x6a 0x88 0x1b, Col 0x5e 0x71 0x9f 0x06,
    Col 0x50 0x78 0x92 0x0d, Col 0x0a 0x0f 0xd9 0x64, Col 0x04 0x06 0xd4 0x6f,
    Col 0x16 0x1d 0xc3 0x72, Col 0x18 0x14 0xce 0x79, Col 0x32 0x2b 0xed 0x48,
    Col 0x3c 0x22 0xe0 0x43, Col 0x2e 0x39 0xf7 0x5e, Col 0x20 0x30 0xfa 0x55,
    Col 0xec 0x9a 0xb7 0x01, Col 0xe2 0x93 0xba 0x0a, Col 0xf0 0x88 0xad 0x17,
    Col 0xfe 0x81 0xa0 0x1c, Col 0xd4 0xbe 0x83 0x2d, Col 0xda 0xb7 0x8e 0x26,
    Col 0xc8 0xac 0x99 0x3b, Col 0xc6 0xa5 0x94 0x30, Col 0x9c 0xd2 0xdf 0x59,
    Col 0x92 0xdb 0xd2 0x52, Col 0x80 0xc0 0xc5 0x4f, Col 0x8e 0xc9 0xc8 0x44,
    Col 0xa4 0xf6 0xeb 0x75, Col 0xaa 0xff 0xe6 0x7e, Col 0xb8 0xe4 0xf1 0x63,
    Col 0xb6 0xed 0xfc 0x68, Col 0x0c 0x0a 0x67 0xb1, Col 0x02 0x03 0x6a 0xba,
    Col 0x10 0x18 0x7d 0xa7, Col 0x1e 0x11 0x70 0xac, Col 0x34 0x2e 0x53 0x9d,
    Col 0x3a 0x27 0x5e 0x96, Col 0x28 0x3c 0x49 0x8b, Col 0x26 0x35 0x44 0x80,
    Col 0x7c 0x42 0x0f 0xe9, Col 0x72 0x4b 0x02 0xe2, Col 0x60 0x50 0x15 0xff,
    Col 0x6e 0x59 0x18 0xf4, Col 0x44 0x66 0x3b 0xc5, Col 0x4a 0x6f 0x36 0xce,
    Col 0x58 0x74 0x21 0xd3, Col 0x56 0x7d 0x2c 0xd8, Col 0x37 0xa1 0x0c 0x7a,
    Col 0x39 0xa8 0x01 0x71, Col 0x2b 0xb3 0x16 0x6c, Col 0x25 0xba 0x1b 0x67,
    Col 0x0f 0x85 0x38 0x56, Col 0x01 0x8c 0x35 0x5d, Col 0x13 0x97 0x22 0x40,
    Col 0x1d 0x9e 0x2f 0x4b, Col 0x47 0xe9 0x64 0x22, Col 0x49 0xe0 0x69 0x29,
    Col 0x5b 0xfb 0x7e 0x34, Col 0x55 0xf2 0x73 0x3f, Col 0x7f 0xcd 0x50 0x0e,
    Col 0x71 0xc4 0x5d 0x05, Col 0x63 0xdf 0x4a 0x18, Col 0x6d 0xd6 0x47 0x13,
    Col 0xd7 0x31 0xdc 0xca, Col 0xd9 0x38 0xd1 0xc1, Col 0xcb 0x23 0xc6 0xdc,
    Col 0xc5 0x2a 0xcb 0xd7, Col 0xef 0x15 0xe8 0xe6, Col 0xe1 0x1c 0xe5 0xed,
    Col 0xf3 0x07 0xf2 0xf0, Col 0xfd 0x0e 0xff 0xfb, Col 0xa7 0x79 0xb4 0x92,
    Col 0xa9 0x70 0xb9 0x99, Col 0xbb 0x6b 0xae 0x84, Col 0xb5 0x62 0xa3 0x8f,
    Col 0x9f 0x5d 0x80 0xbe, Col 0x91 0x54 0x8d 0xb5, Col 0x83 0x4f 0x9a 0xa8,
    Col 0x8d 0x46 0x97 0xa3]"

definition U2_table :: "col list" where
  "U2_table = [
    Col 0x00 0x00 0x00 0x00, Col 0x0b 0x0e 0x09 0x0d, Col 0x16 0x1c 0x12 0x1a,
    Col 0x1d 0x12 0x1b 0x17, Col 0x2c 0x38 0x24 0x34, Col 0x27 0x36 0x2d 0x39,
    Col 0x3a 0x24 0x36 0x2e, Col 0x31 0x2a 0x3f 0x23, Col 0x58 0x70 0x48 0x68,
    Col 0x53 0x7e 0x41 0x65, Col 0x4e 0x6c 0x5a 0x72, Col 0x45 0x62 0x53 0x7f,
    Col 0x74 0x48 0x6c 0x5c, Col 0x7f 0x46 0x65 0x51, Col 0x62 0x54 0x7e 0x46,
    Col 0x69 0x5a 0x77 0x4b, Col 0xb0 0xe0 0x90 0xd0, Col 0xbb 0xee 0x99 0xdd,
    Col 0xa6 0xfc 0x82 0xca, Col 0xad 0xf2 0x8b 0xc7, Col 0x9c 0xd8 0xb4 0xe4,
    Col 0x97 0xd6 0xbd 0xe9, Col 0x8a 0xc4 0xa6 0xfe, Col 0x81 0xca 0xaf 0xf3,
    Col 0xe8 0x90 0xd8 0xb8, Col 0xe3 0x9e 0xd1 0xb5, Col 0xfe 0x8c 0xca 0xa2,
    Col 0xf5 0x82 0xc3 0xaf, Col 0xc4 0xa8 0xfc 0x8c, Col 0xcf 0xa6 0xf5 0x81,
    Col 0xd2 0xb4 0xee 0x96, Col 0xd9 0xba 0xe7 0x9b, Col 0x7b 0xdb 0x3b 0xbb,
    Col 0x70 0xd5 0x32 0xb6, Col 0x6d 0xc7 0x29 0xa1, Col 0x66 0xc9 0x20 0xac,
    Col 0x57 0xe3 0x1f 0x8f, Col 0x5c 0xed 0x16 0x82, Col 0x41 0xff 0x0d 0x95,
    Col 0x4a 0xf1 0x04 0x98, Col 0x23 0xab 0x73 0xd3, Col 0x28 0xa5 0x7a 0xde,
    Col 0x35 0xb7 0x61 0xc9, Col 0x3e 0xb9 0x68 0xc4, Col 0x0f 0x93 0x57 0xe7,
    Col 0x04 0x9d 0x5e 0xea, Col 0x19 0x8f 0x45 0xfd, Col 0x12 0x81 0x4c 0xf0,
    Col 0xcb 0x3b 0xab 0x6b, Col 0xc0 0x35 0xa2 0x66, Col 0xdd 0x27 0xb9 0x71,
    Col 0xd6 0x29 0xb0 0x7c, Col 0xe7 0x03 0x8f 0x5f, Col 0xec 0x0d 0x86 0x52,
    Col 0xf1 0x1f 0x9d 0x45, Col 0xfa 0x11 0x94 0x48, Col 0x93 0x4b 0xe3 0x03,
    Col 0x98 0x45 0xea 0x0e, Col 0x85 0x57 0xf1 0x19, Col 0x8e 0x59 0xf8 0x14,
    Col 0xbf 0x73 0xc7 0x37, Col 0xb4 0x7d 0xce 0x3a, Col 0xa9 0x6f 0xd5 0x2d,
    Col 0xa2 0x61 0xdc 0x20, Col 0xf6 0xad 0x76 0x6d, Col 0xfd 0xa3 0x7f 0x60,
    Col 0xe0 0xb1 0x64 0x77, Col 0xeb 0xbf 0x6d 0x7a, Col 0xda 0x95 0x52 0x59,
    Col 0xd1 0x9b 0x5b 0x54, Col 0xcc 0x89 0x40 0x43, Col 0xc7 0x87 0x49 0x4e,
    Col 0xae 0xdd 0x3e 0x05, Col 0xa5 0xd3 0x37 0x08, Col 0xb8 0xc1 0x2c 0x1f,
    Col 0xb3 0xcf 0x25 0x12, Col 0x82 0xe5 0x1a 0x31, Col 0x89 0xeb 0x13 0x3c,
    Col 0x94 0xf9 0x08 0x2b, Col 0x9f 0xf7 0x01 0x26, Col 0x46 0x4d 0xe6 0xbd,
    Col 0x4d 0x43 0xef 0xb0, Col 0x50 0x51 0xf4 0xa7, Col 0x5b 0x5f 0xfd 0xaa,
    Col 0x6a 0x75 0xc2 0x89, Col 0x61 0x7b 0xcb 0x84, Col 0x7c 0x69 0xd0 0x93,
    Col 0x77 0x67 0xd9 0x9e, Col 0x1e 0x3d 0xae 0xd5, Col 0x15 0x33 0xa7 0xd8,
    Col 0x08 0x21 0xbc 0xcf, Col 0x03 0x2f 0xb5 0xc2, Col 0x32 0x05 0x8a 0xe1,
    Col 0x39 0x0b 0x83 0xec, Col 0x24 0x19 0x98 0xfb, Col 0x2f 0x17 0x91 0xf6,
    Col 0x8d 0x76 0x4d 0xd6, Col 0x86 0x78 0x44 0xdb, Col 0x9b 0x6a 0x5f 0xcc,
    Col 0x90 0x64 0x56 0xc1, Col 0xa1 0x4e 0x69 0xe2, Col 0xaa 0x40 0x60 0xef,
    Col 0xb7 0x52 0x7b 0xf8, Col 0xbc 0x5c 0x72 0xf5, Col 0xd5 0x06 0x05 0xbe,
    Col 0xde 0x08 0x0c 0xb3, Col 0xc3 0x1a 0x17 0xa4, Col 0xc8 0x14 0x1e 0xa9,
    Col 0xf9 0x3e 0x21 0x8a, Col 0xf2 0x30 0x28 0x87, Col 0xef 0x22 0x33 0x90,
    Col 0xe4 0x2c 0x3a 0x9d, Col 0x3d 0x96 0xdd 0x06, Col 0x36 0x98 0xd4 0x0b,
    Col 0x2b 0x8a 0xcf 0x1c, Col 0x20 0x84 0xc6 0x11, Col 0x11 0xae 0xf9 0x32,
    Col 0x1a 0xa0 0xf0 0x3f, Col 0x07 0xb2 0xeb 0x28, Col 0x0c 0xbc 0xe2 0x25,
    Col 0x65 0xe6 0x95 0x6e, Col 0x6e 0xe8 0x9c 0x63, Col 0x73 0xfa 0x87 0x74,
    Col 0x78 0xf4 0x8e 0x79, Col 0x49 0xde 0xb1 0x5a, Col 0x42 0xd0 0xb8 0x57,
    Col 0x5f 0xc2 0xa3 0x40, Col 0x54 0xcc 0xaa 0x4d, Col 0xf7 0x41 0xec 0xda,
    Col 0xfc 0x4f 0xe5 0xd7, Col 0xe1 0x5d 0xfe 0xc0, Col 0xea 0x53 0xf7 0xcd,
    Col 0xdb 0x79 0xc8 0xee, Col 0xd0 0x77 0xc1 0xe3, Col 0xcd 0x65 0xda 0xf4,
    Col 0xc6 0x6b 0xd3 0xf9, Col 0xaf 0x31 0xa4 0xb2, Col 0xa4 0x3f 0xad 0xbf,
    Col 0xb9 0x2d 0xb6 0xa8, Col 0xb2 0x23 0xbf 0xa5, Col 0x83 0x09 0x80 0x86,
    Col 0x88 0x07 0x89 0x8b, Col 0x95 0x15 0x92 0x9c, Col 0x9e 0x1b 0x9b 0x91,
    Col 0x47 0xa1 0x7c 0x0a, Col 0x4c 0xaf 0x75 0x07, Col 0x51 0xbd 0x6e 0x10,
    Col 0x5a 0xb3 0x67 0x1d, Col 0x6b 0x99 0x58 0x3e, Col 0x60 0x97 0x51 0x33,
    Col 0x7d 0x85 0x4a 0x24, Col 0x76 0x8b 0x43 0x29, Col 0x1f 0xd1 0x34 0x62,
    Col 0x14 0xdf 0x3d 0x6f, Col 0x09 0xcd 0x26 0x78, Col 0x02 0xc3 0x2f 0x75,
    Col 0x33 0xe9 0x10 0x56, Col 0x38 0xe7 0x19 0x5b, Col 0x25 0xf5 0x02 0x4c,
    Col 0x2e 0xfb 0x0b 0x41, Col 0x8c 0x9a 0xd7 0x61, Col 0x87 0x94 0xde 0x6c,
    Col 0x9a 0x86 0xc5 0x7b, Col 0x91 0x88 0xcc 0x76, Col 0xa0 0xa2 0xf3 0x55,
    Col 0xab 0xac 0xfa 0x58, Col 0xb6 0xbe 0xe1 0x4f, Col 0xbd 0xb0 0xe8 0x42,
    Col 0xd4 0xea 0x9f 0x09, Col 0xdf 0xe4 0x96 0x04, Col 0xc2 0xf6 0x8d 0x13,
    Col 0xc9 0xf8 0x84 0x1e, Col 0xf8 0xd2 0xbb 0x3d, Col 0xf3 0xdc 0xb2 0x30,
    Col 0xee 0xce 0xa9 0x27, Col 0xe5 0xc0 0xa0 0x2a, Col 0x3c 0x7a 0x47 0xb1,
    Col 0x37 0x74 0x4e 0xbc, Col 0x2a 0x66 0x55 0xab, Col 0x21 0x68 0x5c 0xa6,
    Col 0x10 0x42 0x63 0x85, Col 0x1b 0x4c 0x6a 0x88, Col 0x06 0x5e 0x71 0x9f,
    Col 0x0d 0x50 0x78 0x92, Col 0x64 0x0a 0x0f 0xd9, Col 0x6f 0x04 0x06 0xd4,
    Col 0x72 0x16 0x1d 0xc3, Col 0x79 0x18 0x14 0xce, Col 0x48 0x32 0x2b 0xed,
    Col 0x43 0x3c 0x22 0xe0, Col 0x5e 0x2e 0x39 0xf7, Col 0x55 0x20 0x30 0xfa,
    Col 0x01 0xec 0x9a 0xb7, Col 0x0a 0xe2 0x93 0xba, Col 0x17 0xf0 0x88 0xad,
    Col 0x1c 0xfe 0x81 0xa0, Col 0x2d 0xd4 0xbe 0x83, Col 0x26 0xda 0xb7 0x8e,
    Col 0x3b 0xc8 0xac 0x99, Col 0x30 0xc6 0xa5 0x94, Col 0x59 0x9c 0xd2 0xdf,
    Col 0x52 0x92 0xdb 0xd2, Col 0x4f 0x80 0xc0 0xc5, Col 0x44 0x8e 0xc9 0xc8,
    Col 0x75 0xa4 0xf6 0xeb, Col 0x7e 0xaa 0xff 0xe6, Col 0x63 0xb8 0xe4 0xf1,
    Col 0x68 0xb6 0xed 0xfc, Col 0xb1 0x0c 0x0a 0x67, Col 0xba 0x02 0x03 0x6a,
    Col 0xa7 0x10 0x18 0x7d, Col 0xac 0x1e 0x11 0x70, Col 0x9d 0x34 0x2e 0x53,
    Col 0x96 0x3a 0x27 0x5e, Col 0x8b 0x28 0x3c 0x49, Col 0x80 0x26 0x35 0x44,
    Col 0xe9 0x7c 0x42 0x0f, Col 0xe2 0x72 0x4b 0x02, Col 0xff 0x60 0x50 0x15,
    Col 0xf4 0x6e 0x59 0x18, Col 0xc5 0x44 0x66 0x3b, Col 0xce 0x4a 0x6f 0x36,
    Col 0xd3 0x58 0x74 0x21, Col 0xd8 0x56 0x7d 0x2c, Col 0x7a 0x37 0xa1 0x0c,
    Col 0x71 0x39 0xa8 0x01, Col 0x6c 0x2b 0xb3 0x16, Col 0x67 0x25 0xba 0x1b,
    Col 0x56 0x0f 0x85 0x38, Col 0x5d 0x01 0x8c 0x35, Col 0x40 0x13 0x97 0x22,
    Col 0x4b 0x1d 0x9e 0x2f, Col 0x22 0x47 0xe9 0x64, Col 0x29 0x49 0xe0 0x69,
    Col 0x34 0x5b 0xfb 0x7e, Col 0x3f 0x55 0xf2 0x73, Col 0x0e 0x7f 0xcd 0x50,
    Col 0x05 0x71 0xc4 0x5d, Col 0x18 0x63 0xdf 0x4a, Col 0x13 0x6d 0xd6 0x47,
    Col 0xca 0xd7 0x31 0xdc, Col 0xc1 0xd9 0x38 0xd1, Col 0xdc 0xcb 0x23 0xc6,
    Col 0xd7 0xc5 0x2a 0xcb, Col 0xe6 0xef 0x15 0xe8, Col 0xed 0xe1 0x1c 0xe5,
    Col 0xf0 0xf3 0x07 0xf2, Col 0xfb 0xfd 0x0e 0xff, Col 0x92 0xa7 0x79 0xb4,
    Col 0x99 0xa9 0x70 0xb9, Col 0x84 0xbb 0x6b 0xae, Col 0x8f 0xb5 0x62 0xa3,
    Col 0xbe 0x9f 0x5d 0x80, Col 0xb5 0x91 0x54 0x8d, Col 0xa8 0x83 0x4f 0x9a,
    Col 0xa3 0x8d 0x46 0x97]"

definition U3_table :: "col list" where
  "U3_table = [
    Col 0x00 0x00 0x00 0x00, Col 0x0d 0x0b 0x0e 0x09, Col 0x1a 0x16 0x1c 0x12,
    Col 0x17 0x1d 0x12 0x1b, Col 0x34 0x2c 0x38 0x24, Col 0x39 0x27 0x36 0x2d,
    Col 0x2e 0x3a 0x24 0x36, Col 0x23 0x31 0x2a 0x3f, Col 0x68 0x58 0x70 0x48,
    Col 0x65 0x53 0x7e 0x41, Col 0x72 0x4e 0x6c 0x5a, Col 0x7f 0x45 0x62 0x53,
    Col 0x5c 0x74 0x48 0x6c, Col 0x51 0x7f 0x46 0x65, Col 0x46 0x62 0x54 0x7e,
    Col 0x4b 0x69 0x5a 0x77, Col 0xd0 0xb0 0xe0 0x90, Col 0xdd 0xbb 0xee 0x99,
    Col 0xca 0xa6 0xfc 0x82, Col 0xc7 0xad 0xf2 0x8b, Col 0xe4 0x9c 0xd8 0xb4,
    Col 0xe9 0x97 0xd6 0xbd, Col 0xfe 0x8a 0xc4 0xa6, Col 0xf3 0x81 0xca 0xaf,
    Col 0xb8 0xe8 0x90 0xd8, Col 0xb5 0xe3 0x9e 0xd1, Col 0xa2 0xfe 0x8c 0xca,
    Col 0xaf 0xf5 0x82 0xc3, Col 0x8c 0xc4 0xa8 0xfc, Col 0x81 0xcf 0xa6 0xf5,
    Col 0x96 0xd2 0xb4 0xee, Col 0x9b 0xd9 0xba 0xe7, Col 0xbb 0x7b 0xdb 0x3b,
    Col 0xb6 0x70 0xd5 0x32, Col 0xa1 0x6d 0xc7 0x29, Col 0xac 0x66 0xc9 0x20,
    Col 0x8f 0x57 0xe3 0x1f, Col 0x82 0x5c 0xed 0x16, Col 0x95 0x41 0xff 0x0d,
    Col 0x98 0x4a 0xf1 0x04, Col 0xd3 0x23 0xab 0x73, Col 0xde 0x28 0xa5 0x7a,
    Col 0xc9 0x35 0xb7 0x61, Col 0xc4 0x3e 0xb9 0x68, Col 0xe7 0x0f 0x93 0x57,
    Col 0xea 0x04 0x9d 0x5e, Col 0xfd 0x19 0x8f 0x45, Col 0xf0 0x12 0x81 0x4c,
    Col 0x6b 0xcb 0x3b 0xab, Col 0x66 0xc0 0x35 0xa2, Col 0x71 0xdd 0x27 0xb9,
    Col 0x7c 0xd6 0x29 0xb0, Col 0x5f 0xe7 0x03 0x8f, Col 0x52 0xec 0x0d 0x86,
    Col 0x45 0xf1 0x1f 0x9d, Col 0x48 0xfa 0x11 0x94, Col 0x03 0x93 0x4b 0xe3,
    Col 0x0e 0x98 0x45 0xea, Col 0x19 0x85 0x57 0xf1, Col 0x14 0x8e 0x59 0xf8,
    Col 0x37 0xbf 0x73 0xc7, Col 0x3a 0xb4 0x7d 0xce, Col 0x2d 0xa9 0x6f 0xd5,
    Col 0x20 0xa2 0x61 0xdc, Col 0x6d 0xf6 0xad 0x76, Col 0x60 0xfd 0xa3 0x7f,
    Col 0x77 0xe0 0xb1 0x64, Col 0x7a 0xeb 0xbf 0x6d, Col 0x59 0xda 0x95 0x52,
    Col 0x54 0xd1 0x9b 0x5b, Col 0x43 0xcc 0x89 0x40, Col 0x4e 0xc7 0x87 0x49,
    Col 0x05 0xae 0xdd 0x3e, Col 0x08 0xa5 0xd3 0x37, Col 0x1f 0xb8 0xc1 0x2c,
    Col 0x12 0xb3 0xcf 0x25, Col 0x31 0x82 0xe5 0x1a, Col 0x3c 0x89 0xeb 0x13,
    Col 0x2b 0x94 0xf9 0x08, Col 0x26 0x9f 0xf7 0x01, Col 0xbd 0x46 0x4d 0xe6,
    Col 0xb0 0x4d 0x43 0xef, Col 0xa7 0x50 0x51 0xf4, Col 0xaa 0x5b 0x5f 0xfd,
    Col 0x89 0x6a 0x75 0xc2, Col 0x84 0x61 0x7b 0xcb, Col 0x93 0x7c 0x69 0xd0,
    Col 0x9e 0x77 0x67 0xd9, Col 0xd5 0x1e 0x3d 0xae, Col 0xd8 0x15 0x33 0xa7,
    Col 0xcf 0x08 0x21 0xbc, Col 0xc2 0x03 0x2f 0xb5, Col 0xe1 0x32 0x05 0x8a,
    Col 0xec 0x39 0x0b 0x83, Col 0xfb 0x24 0x19 0x98, Col 0xf6 0x2f 0x17 0x91,
    Col 0xd6 0x8d 0x76 0x4d, Col 0xdb 0x86 0x78 0x44, Col 0xcc 0x9b 0x6a 0x5f,
    Col 0xc1 0x90 0x64 0x56, Col 0xe2 0xa1 0x4e 0x69, Col 0xef 0xaa 0x40 0x60,
    Col 0xf8 0xb7 0x52 0x7b, Col 0xf5 0xbc 0x5c 0x72, Col 0xbe 0xd5 0x06 0x05,
    Col 0xb3 0xde 0x08 0x0c, Col 0xa4 0xc3 0x1a 0x17, Col 0xa9 0xc8 0x14 0x1e,
    Col 0x8a 0xf9 0x3e 0x21, Col 0x87 0xf2 0x30 0x28, Col 0x90 0xef 0x22 0x33,
    Col 0x9d 0xe4 0x2c 0x3a, Col 0x06 0x3d 0x96 0xdd, Col 0x0b 0x36 0x98 0xd4,
    Col 0x1c 0x2b 0x8a 0xcf, Col 0x11 0x20 0x84 0xc6, Col 0x32 0x11 0xae 0xf9,
    Col 0x3f 0x1a 0xa0 0xf0, Col 0x28 0x07 0xb2 0xeb, Col 0x25 0x0c 0xbc 0xe2,
    Col 0x6e 0x65 0xe6 0x95, Col 0x63 0x6e 0xe8 0x9c, Col 0x74 0x73 0xfa 0x87,
    Col 0x79 0x78 0xf4 0x8e, Col 0x5a 0x49 0xde 0xb1, Col 0x57 0x42 0xd0 0xb8,
    Col 0x40 0x5f 0xc2 0xa3, Col 0x4d 0x54 0xcc 0xaa, Col 0xda 0xf7 0x41 0xec,
    Col 0xd7 0xfc 0x4f 0xe5, Col 0xc0 0xe1 0x5d 0xfe, Col 0xcd 0xea 0x53 0xf7,
    Col 0xee 0xdb 0x79 0xc8, Col 0xe3 0xd0 0x77 0xc1, Col 0xf4 0xcd 0x65 0xda,
    Col 0xf9 0xc6 0x6b 0xd3, Col 0xb2 0xaf 0x31 0xa4, Col 0xbf 0xa4 0x3f 0xad,
    Col 0xa8 0xb9 0x2d 0xb6, Col 0xa5 0xb2 0x23 0xbf, Col 0x86 0x83 0x09 0x80,
    Col 0x8b 0x88 0x07 0x89, Col 0x9c 0x95 0x15 0x92, Col 0x91 0x9e 0x1b 0x9b,
    Col 0x0a 0x47 0xa1 0x7c, Col 0x07 0x4c 0xaf 0x75, Col 0x10 0x51 0xbd 0x6e,
    Col 0x1d 0x5a 0xb3 0x67, Col 0x3e 0x6b 0x99 0x58, Col 0x33 0x60 0x97 0x51,
    Col 0x24 0x7d 0x85 0x4a, Col 0x29 0x76 0x8b 0x43, Col 0x62 0x1f 0xd1 0x34,
    Col 0x6f 0x14 0xdf 0x3d, Col 0x78 0x09 0xcd 0x26, Col 0x75 0x02 0xc3 0x2f,
    Col 0x56 0x33 0xe9 0x10, Col 0x5b 0x38 0xe7 0x19, Col 0x4c 0x25 0xf5 0x02,
    Col 0x41 0x2e 0xfb 0x0b, Col 0x61 0x8c 0x9a 0xd7, Col 0x6c 0x87 0x94 0xde,
    Col 0x7b 0x9a 0x86 0xc5, Col 0x76 0x91 0x88 0xcc, Col 0x55 0xa0 0xa2 0xf3,
    Col 0x58 0xab 0xac 0xfa, Col 0x4f 0xb6 0xbe 0xe1, Col 0x42 0xbd 0xb0 0xe8,
    Col 0x09 0xd4 0xea 0x9f, Col 0x04 0xdf 0xe4 0x96, Col 0x13 0xc2 0xf6 0x8d,
    Col 0x1e 0xc9 0xf8 0x84, Col 0x3d 0xf8 0xd2 0xbb, Col 0x30 0xf3 0xdc 0xb2,
    Col 0x27 0xee 0xce 0xa9, Col 0x2a 0xe5 0xc0 0xa0, Col 0xb1 0x3c 0x7a 0x47,
    Col 0xbc 0x37 0x74 0x4e, Col 0xab 0x2a 0x66 0x55, Col 0xa6 0x21 0x68 0x5c,
    Col 0x85 0x10 0x42 0x63, Col 0x88 0x1b 0x4c 0x6a, Col 0x9f 0x06 0x5e 0x71,
    Col 0x92 0x0d 0x50 0x78, Col 0xd9 0x64 0x0a 0x0f, Col 0xd4 0x6f 0x04 0x06,
    Col 0xc3 0x72 0x16 0x1d, Col 0xce 0x79 0x18 0x14, Col 0xed 0x48 0x32 0x2b,
    Col 0xe0 0x43 0x3c 0x22, Col 0xf7 0x5e 0x2e 0x39, Col 0xfa 0x55 0x20 0x30,
    Col 0xb7 0x01 0xec 0x9a, Col 0xba 0x0a 0xe2 0x93, Col 0xad 0x17 0xf0 0x88,
    Col 0xa0 0x1c 0xfe 0x81, Col 0x83 0x2d 0xd4 0xbe, Col 0x8e 0x26 0xda 0xb7,
    Col 0x99 0x3b 0xc8 0xac, Col 0x94 0x30 0xc6 0xa5, Col 0xdf 0x59 0x9c 0xd2,
    Col 0xd2 0x52 0x92 0xdb, Col 0xc5 0x4f 0x80 0xc0, Col 0xc8 0x44 0x8e 0xc9,
    Col 0xeb 0x75 0xa4 0xf6, Col 0xe6 0x7e 0xaa 0xff, Col 0xf1 0x63 0xb8 0xe4,
    Col 0xfc 0x68 0xb6 0xed, Col 0x67 0xb1 0x0c 0x0a, Col 0x6a 0xba 0x02 0x03,
    Col 0x7d 0xa7 0x10 0x18, Col 0x70 0xac 0x1e 0x11, Col 0x53 0x9d 0x34 0x2e,
    Col 0x5e 0x96 0x3a 0x27, Col 0x49 0x8b 0x28 0x3c, Col 0x44 0x80 0x26 0x35,
    Col 0x0f 0xe9 0x7c 0x42, Col 0x02 0xe2 0x72 0x4b, Col 0x15 0xff 0x60 0x50,
    Col 0x18 0xf4 0x6e 0x59, Col 0x3b 0xc5 0x44 0x66, Col 0x36 0xce 0x4a 0x6f,
    Col 0x21 0xd3 0x58 0x74, Col 0x2c 0xd8 0x56 0x7d, Col 0x0c 0x7a 0x37 0xa1,
    Col 0x01 0x71 0x39 0xa8, Col 0x16 0x6c 0x2b 0xb3, Col 0x1b 0x67 0x25 0xba,
    Col 0x38 0x56 0x0f 0x85, Col 0x35 0x5d 0x01 0x8c, Col 0x22 0x40 0x13 0x97,
    Col 0x2f 0x4b 0x1d 0x9e, Col 0x64 0x22 0x47 0xe9, Col 0x69 0x29 0x49 0xe0,
    Col 0x7e 0x34 0x5b 0xfb, Col 0x73 0x3f 0x55 0xf2, Col 0x50 0x0e 0x7f 0xcd,
    Col 0x5d 0x05 0x71 0xc4, Col 0x4a 0x18 0x63 0xdf, Col 0x47 0x13 0x6d 0xd6,
    Col 0xdc 0xca 0xd7 0x31, Col 0xd1 0xc1 0xd9 0x38, Col 0xc6 0xdc 0xcb 0x23,
    Col 0xcb 0xd7 0xc5 0x2a, Col 0xe8 0xe6 0xef 0x15, Col 0xe5 0xed 0xe1 0x1c,
    Col 0xf2 0xf0 0xf3 0x07, Col 0xff 0xfb 0xfd 0x0e, Col 0xb4 0x92 0xa7 0x79,
    Col 0xb9 0x99 0xa9 0x70, Col 0xae 0x84 0xbb 0x6b, Col 0xa3 0x8f 0xb5 0x62,
    Col 0x80 0xbe 0x9f 0x5d, Col 0x8d 0xb5 0x91 0x54, Col 0x9a 0xa8 0x83 0x4f,
    Col 0x97 0xa3 0x8d 0x46]"

definition U4_table :: "col list" where
  "U4_table = [
    Col 0x00 0x00 0x00 0x00, Col 0x09 0x0d 0x0b 0x0e, Col 0x12 0x1a 0x16 0x1c,
    Col 0x1b 0x17 0x1d 0x12, Col 0x24 0x34 0x2c 0x38, Col 0x2d 0x39 0x27 0x36,
    Col 0x36 0x2e 0x3a 0x24, Col 0x3f 0x23 0x31 0x2a, Col 0x48 0x68 0x58 0x70,
    Col 0x41 0x65 0x53 0x7e, Col 0x5a 0x72 0x4e 0x6c, Col 0x53 0x7f 0x45 0x62,
    Col 0x6c 0x5c 0x74 0x48, Col 0x65 0x51 0x7f 0x46, Col 0x7e 0x46 0x62 0x54,
    Col 0x77 0x4b 0x69 0x5a, Col 0x90 0xd0 0xb0 0xe0, Col 0x99 0xdd 0xbb 0xee,
    Col 0x82 0xca 0xa6 0xfc, Col 0x8b 0xc7 0xad 0xf2, Col 0xb4 0xe4 0x9c 0xd8,
    Col 0xbd 0xe9 0x97 0xd6, Col 0xa6 0xfe 0x8a 0xc4, Col 0xaf 0xf3 0x81 0xca,
    Col 0xd8 0xb8 0xe8 0x90, Col 0xd1 0xb5 0xe3 0x9e, Col 0xca 0xa2 0xfe 0x8c,
    Col 0xc3 0xaf 0xf5 0x82, Col 0xfc 0x8c 0xc4 0xa8, Col 0xf5 0x81 0xcf 0xa6,
    Col 0xee 0x96 0xd2 0xb4, Col 0xe7 0x9b 0xd9 0xba, Col 0x3b 0xbb 0x7b 0xdb,
    Col 0x32 0xb6 0x70 0xd5, Col 0x29 0xa1 0x6d 0xc7, Col 0x20 0xac 0x66 0xc9,
    Col 0x1f 0x8f 0x57 0xe3, Col 0x16 0x82 0x5c 0xed, Col 0x0d 0x95 0x41 0xff,
    Col 0x04 0x98 0x4a 0xf1, Col 0x73 0xd3 0x23 0xab, Col 0x7a 0xde 0x28 0xa5,
    Col 0x61 0xc9 0x35 0xb7, Col 0x68 0xc4 0x3e 0xb9, Col 0x57 0xe7 0x0f 0x93,
    Col 0x5e 0xea 0x04 0x9d, Col 0x45 0xfd 0x19 0x8f, Col 0x4c 0xf0 0x12 0x81,
    Col 0xab 0x6b 0xcb 0x3b, Col 0xa2 0x66 0xc0 0x35, Col 0xb9 0x71 0xdd 0x27,
    Col 0xb0 0x7c 0xd6 0x29, Col 0x8f 0x5f 0xe7 0x03, Col 0x86 0x52 0xec 0x0d,
    Col 0x9d 0x45 0xf1 0x1f, Col 0x94 0x48 0xfa 0x11, Col 0xe3 0x03 0x93 0x4b,
    Col 0xea 0x0e 0x98 0x45, Col 0xf1 0x19 0x85 0x57, Col 0xf8 0x14 0x8e 0x59,
    Col 0xc7 0x37 0xbf 0x73, Col 0xce 0x3a 0xb4 0x7d, Col 0xd5 0x2d 0xa9 0x6f,
    Col 0xdc 0x20 0xa2 0x61, Col 0x76 0x6d 0xf6 0xad, Col 0x7f 0x60 0xfd 0xa3,
    Col 0x64 0x77 0xe0 0xb1, Col 0x6d 0x7a 0xeb 0xbf, Col 0x52 0x59 0xda 0x95,
    Col 0x5b 0x54 0xd1 0x9b, Col 0x40 0x43 0xcc 0x89, Col 0x49 0x4e 0xc7 0x87,
    Col 0x3e 0x05 0xae 0xdd, Col 0x37 0x08 0xa5 0xd3, Col 0x2c 0x1f 0xb8 0xc1,
    Col 0x25 0x12 0xb3 0xcf, Col 0x1a 0x31 0x82 0xe5, Col 0x13 0x3c 0x89 0xeb,
    Col 0x08 0x2b 0x94 0xf9, Col 0x01 0x26 0x9f 0xf7, Col 0xe6 0xbd 0x46 0x4d,
    Col 0xef 0xb0 0x4d 0x43, Col 0xf4 0xa7 0x50 0x51, Col 0xfd 0xaa 0x5b 0x5f,
    Col 0xc2 0x89 0x6a 0x75, Col 0xcb 0x84 0x61 0x7b, Col 0xd0 0x93 0x7c 0x69,
    Col 0xd9 0x9e 0x77 0x67, Col 0xae 0xd5 0x1e 0x3d, Col 0xa7 0xd8 0x15 0x33,
    Col 0xbc 0xcf 0x08 0x21, Col 0xb5 0xc2 0x03 0x2f, Col 0x8a 0xe1 0x32 0x05,
    Col 0x83 0xec 0x39 0x0b, Col 0x98 0xfb 0x24 0x19, Col 0x91 0xf6 0x2f 0x17,
    Col 0x4d 0xd6 0x8d 0x76, Col 0x44 0xdb 0x86 0x78, Col 0x5f 0xcc 0x9b 0x6a,
    Col 0x56 0xc1 0x90 0x64, Col 0x69 0xe2 0xa1 0x4e, Col 0x60 0xef 0xaa 0x40,
    Col 0x7b 0xf8 0xb7 0x52, Col 0x72 0xf5 0xbc 0x5c, Col 0x05 0xbe 0xd5 0x06,
    Col 0x0c 0xb3 0xde 0x08, Col 0x17 0xa4 0xc3 0x1a, Col 0x1e 0xa9 0xc8 0x14,
    Col 0x21 0x8a 0xf9 0x3e, Col 0x28 0x87 0xf2 0x30, Col 0x33 0x90 0xef 0x22,
    Col 0x3a 0x9d 0xe4 0x2c, Col 0xdd 0x06 0x3d 0x96, Col 0xd4 0x0b 0x36 0x98,
    Col 0xcf 0x1c 0x2b 0x8a, Col 0xc6 0x11 0x20 0x84, Col 0xf9 0x32 0x11 0xae,
    Col 0xf0 0x3f 0x1a 0xa0, Col 0xeb 0x28 0x07 0xb2, Col 0xe2 0x25 0x0c 0xbc,
    Col 0x95 0x6e 0x65 0xe6, Col 0x9c 0x63 0x6e 0xe8, Col 0x87 0x74 0x73 0xfa,
    Col 0x8e 0x79 0x78 0xf4, Col 0xb1 0x5a 0x49 0xde, Col 0xb8 0x57 0x42 0xd0,
    Col 0xa3 0x40 0x5f 0xc2, Col 0xaa 0x4d 0x54 0xcc, Col 0xec 0xda 0xf7 0x41,
    Col 0xe5 0xd7 0xfc 0x4f, Col 0xfe 0xc0 0xe1 0x5d, Col 0xf7 0xcd 0xea 0x53,
    Col 0xc8 0xee 0xdb 0x79, Col 0xc1 0xe3 0xd0 0x77, Col 0xda 0xf4 0xcd 0x65,
    Col 0xd3 0xf9 0xc6 0x6b, Col 0xa4 0xb2 0xaf 0x31, Col 0xad 0xbf 0xa4 0x3f,
    Col 0xb6 0xa8 0xb9 0x2d, Col 0xbf 0xa5 0xb2 0x23, Col 0x80 0x86 0x83 0x09,
    Col 0x89 0x8b 0x88 0x07, Col 0x92 0x9c 0x95 0x15, Col 0x9b 0x91 0x9e 0x1b,
    Col 0x7c 0x0a 0x47 0xa1, Col 0x75 0x07 0x4c 0xaf, Col 0x6e 0x10 0x51 0xbd,
    Col 0x67 0x1d 0x5a 0xb3, Col 0x58 0x3e 0x6b 0x99, Col 0x51 0x33 0x60 0x97,
    Col 0x4a 0x24 0x7d 0x85, Col 0x43 0x29 0x76 0x8b, Col 0x34 0x62 0x1f 0xd1,
    Col 0x3d 0x6f 0x14 0xdf, Col 0x26 0x78 0x09 0xcd, Col 0x2f 0x75 0x02 0xc3,
    Col 0x10 0x56 0x33 0xe9, Col 0x19 0x5b 0x38 0xe7, Col 0x02 0x4c 0x25 0xf5,
    Col 0x0b 0x41 0x2e 0xfb, Col 0xd7 0x61 0x8c 0x9a, Col 0xde 0x6c 0x87 0x94,
    Col 0xc5 0x7b 0x9a 0x86, Col 0xcc 0x76 0x91 0x88, Col 0xf3 0x55 0xa0 0xa2,
    Col 0xfa 0x58 0xab 0xac, Col 0xe1 0x4f 0xb6 0xbe, Col 0xe8 0x42 0xbd 0xb0,
    Col 0x9f 0x09 0xd4 0xea, Col 0x96 0x04 0xdf 0xe4, Col 0x8d 0x13 0xc2 0xf6,
    Col 0x84 0x1e 0xc9 0xf8, Col 0xbb 0x3d 0xf8 0xd2, Col 0xb2 0x30 0xf3 0xdc,
    Col 0xa9 0x27 0xee 0xce, Col 0xa0 0x2a 0xe5 0xc0, Col 0x47 0xb1 0x3c 0x7a,
    Col 0x4e 0xbc 0x37 0x74, Col 0x55 0xab 0x2a 0x66, Col 0x5c 0xa6 0x21 0x68,
    Col 0x63 0x85 0x10 0x42, Col 0x6a 0x88 0x1b 0x4c, Col 0x71 0x9f 0x06 0x5e,
    Col 0x78 0x92 0x0d 0x50, Col 0x0f 0xd9 0x64 0x0a, Col 0x06 0xd4 0x6f 0x04,
    Col 0x1d 0xc3 0x72 0x16, Col 0x14 0xce 0x79 0x18, Col 0x2b 0xed 0x48 0x32,
    Col 0x22 0xe0 0x43 0x3c, Col 0x39 0xf7 0x5e 0x2e, Col 0x30 0xfa 0x55 0x20,
    Col 0x9a 0xb7 0x01 0xec, Col 0x93 0xba 0x0a 0xe2, Col 0x88 0xad 0x17 0xf0,
    Col 0x81 0xa0 0x1c 0xfe, Col 0xbe 0x83 0x2d 0xd4, Col 0xb7 0x8e 0x26 0xda,
    Col 0xac 0x99 0x3b 0xc8, Col 0xa5 0x94 0x30 0xc6, Col 0xd2 0xdf 0x59 0x9c,
    Col 0xdb 0xd2 0x52 0x92, Col 0xc0 0xc5 0x4f 0x80, Col 0xc9 0xc8 0x44 0x8e,
    Col 0xf6 0xeb 0x75 0xa4, Col 0xff 0xe6 0x7e 0xaa, Col 0xe4 0xf1 0x63 0xb8,
    Col 0xed 0xfc 0x68 0xb6, Col 0x0a 0x67 0xb1 0x0c, Col 0x03 0x6a 0xba 0x02,
    Col 0x18 0x7d 0xa7 0x10, Col 0x11 0x70 0xac 0x1e, Col 0x2e 0x53 0x9d 0x34,
    Col 0x27 0x5e 0x96 0x3a, Col 0x3c 0x49 0x8b 0x28, Col 0x35 0x44 0x80 0x26,
    Col 0x42 0x0f 0xe9 0x7c, Col 0x4b 0x02 0xe2 0x72, Col 0x50 0x15 0xff 0x60,
    Col 0x59 0x18 0xf4 0x6e, Col 0x66 0x3b 0xc5 0x44, Col 0x6f 0x36 0xce 0x4a,
    Col 0x74 0x21 0xd3 0x58, Col 0x7d 0x2c 0xd8 0x56, Col 0xa1 0x0c 0x7a 0x37,
    Col 0xa8 0x01 0x71 0x39, Col 0xb3 0x16 0x6c 0x2b, Col 0xba 0x1b 0x67 0x25,
    Col 0x85 0x38 0x56 0x0f, Col 0x8c 0x35 0x5d 0x01, Col 0x97 0x22 0x40 0x13,
    Col 0x9e 0x2f 0x4b 0x1d, Col 0xe9 0x64 0x22 0x47, Col 0xe0 0x69 0x29 0x49,
    Col 0xfb 0x7e 0x34 0x5b, Col 0xf2 0x73 0x3f 0x55, Col 0xcd 0x50 0x0e 0x7f,
    Col 0xc4 0x5d 0x05 0x71, Col 0xdf 0x4a 0x18 0x63, Col 0xd6 0x47 0x13 0x6d,
    Col 0x31 0xdc 0xca 0xd7, Col 0x38 0xd1 0xc1 0xd9, Col 0x23 0xc6 0xdc 0xcb,
    Col 0x2a 0xcb 0xd7 0xc5, Col 0x15 0xe8 0xe6 0xef, Col 0x1c 0xe5 0xed 0xe1,
    Col 0x07 0xf2 0xf0 0xf3, Col 0x0e 0xff 0xfb 0xfd, Col 0x79 0xb4 0x92 0xa7,
    Col 0x70 0xb9 0x99 0xa9, Col 0x6b 0xae 0x84 0xbb, Col 0x62 0xa3 0x8f 0xb5,
    Col 0x5d 0x80 0xbe 0x9f, Col 0x54 0x8d 0xb5 0x91, Col 0x4f 0x9a 0xa8 0x83,
    Col 0x46 0x97 0xa3 0x8d]"

definition rcon_table :: "u32 list" where
  "rcon_table = [
    0x01, 0x02, 0x04, 0x08, 0x10, 0x20, 0x40, 0x80, 0x1b, 0x36, 0x6c, 0xd8, 0xab, 0x4d, 0x9a,
    0x2f, 0x5e, 0xbc, 0x63, 0xc6, 0x97, 0x35, 0x6a, 0xd4, 0xb3, 0x7d, 0xfa, 0xef, 0xc5, 0x91]"

section \<open>What the tables contain\<close>

lemma length_tables [simp]:
  "length S_table = 256" "length S5_table = 256"
  by (simp_all add: S_table_def S5_table_def)

lemma unat_u8_less [simp]: "unat (x :: u8) < 256"
  using unsigned_less [of x] by simp

lemma T1_table_eq:
  "T1_table = map (\<lambda>s. Col (xtime s) s s (s XOR xtime s)) S_table"
  by (simp add: T1_table_def S_table_def xtime_def)

text \<open>The other encryption tables are the rows of \<open>T1\<close>, rotated by one, two and three bytes.\<close>

fun rot_right :: "col \<Rightarrow> col" where
  "rot_right (Col a b c d) = Col d a b c"

lemma T2_table_rot: "T2_table = map rot_right T1_table"
  by (simp add: T1_table_def T2_table_def)

lemma T3_table_rot: "T3_table = map rot_right T2_table"
  by (simp add: T2_table_def T3_table_def)

lemma T4_table_rot: "T4_table = map rot_right T3_table"
  by (simp add: T3_table_def T4_table_def)

text \<open>The column of inverse \<open>MixColumns\<close> that one byte contributes, for \<open>T5\<close> and \<open>U1\<close>.\<close>

definition inv_mix_byte :: "u8 \<Rightarrow> col" where
  "inv_mix_byte b = Col (gmul 14 b) (gmul 9 b) (gmul 13 b) (gmul 11 b)"

lemma inv_mix_byte_rows:
  "inv_mix_byte b =
     (let b2 = xtime b; b4 = xtime b2; b8 = xtime b4 in
      Col (b2 XOR b4 XOR b8) (b XOR b8) (b XOR b4 XOR b8) (b XOR b2 XOR b8))"
  by (simp add: inv_mix_byte_def gmul_constants Let_def)

lemma T5_table_eq: "T5_table = map inv_mix_byte S5_table"
  by (simp add: T5_table_def S5_table_def inv_mix_byte_rows Let_def xtime_def)

lemma T6_table_rot: "T6_table = map rot_right T5_table"
  by (simp add: T5_table_def T6_table_def)

lemma T7_table_rot: "T7_table = map rot_right T6_table"
  by (simp add: T6_table_def T7_table_def)

lemma T8_table_rot: "T8_table = map rot_right T7_table"
  by (simp add: T7_table_def T8_table_def)

definition all_bytes :: "u8 list" where
  "all_bytes = map of_nat [0..<256]"

lemma length_all_bytes [simp]: "length all_bytes = 256"
  by (simp add: all_bytes_def)

lemma all_bytes_nth [simp]: "all_bytes ! unat b = b"
  by (simp add: all_bytes_def)

lemma all_bytes_unfold: "all_bytes = map word_of_int [0..255]"
  by (rule nth_equalityI) (simp_all add: all_bytes_def)

lemma U1_table_eq: "U1_table = map inv_mix_byte all_bytes"
  unfolding all_bytes_unfold
  by (simp add: U1_table_def inv_mix_byte_rows Let_def xtime_def upto_rec1)

lemma U2_table_rot: "U2_table = map rot_right U1_table"
  by (simp add: U1_table_def U2_table_def)

lemma U3_table_rot: "U3_table = map rot_right U2_table"
  by (simp add: U2_table_def U3_table_def)

lemma U4_table_rot: "U4_table = map rot_right U3_table"
  by (simp add: U3_table_def U4_table_def)

section \<open>The S-box\<close>

definition sbox :: "u8 \<Rightarrow> u8" where "sbox b = S_table ! unat b"
definition inv_sbox :: "u8 \<Rightarrow> u8" where "inv_sbox b = S5_table ! unat b"

lemma S5_S: "map inv_sbox S_table = all_bytes"
  unfolding all_bytes_unfold
  by (simp add: S_table_def inv_sbox_def S5_table_def upto_rec1)

lemma S_S5: "map sbox S5_table = all_bytes"
  unfolding all_bytes_unfold
  by (simp add: S5_table_def sbox_def S_table_def upto_rec1)

lemma inv_sbox_sbox [simp]: "inv_sbox (sbox x) = x"
proof -
  have "map inv_sbox S_table ! unat x = all_bytes ! unat x" by (simp only: S5_S)
  then show ?thesis by (simp add: sbox_def)
qed

lemma sbox_inv_sbox [simp]: "sbox (inv_sbox x) = x"
proof -
  have "map sbox S5_table ! unat x = all_bytes ! unat x" by (simp only: S_S5)
  then show ?thesis by (simp add: inv_sbox_def)
qed

definition inv_affine :: "u8 \<Rightarrow> u8" where
  "inv_affine b = rotl8 1 b XOR rotl8 3 b XOR rotl8 6 b XOR 0x05"

lemma S_affine: "map (sbox_affine \<circ> inv_affine) S_table = S_table"
  by (simp add: S_table_def sbox_affine_def inv_affine_def rotl8_def)

definition horner_step :: "u8 \<Rightarrow> u8 \<Rightarrow> nat \<Rightarrow> u8 \<Rightarrow> u8" where
  "horner_step a b i acc = xtime acc XOR (if bit a i then b else 0)"

lemma gmul_upto_xtime: "gmul_upto n a (xtime b) = xtime (gmul_upto n a b)"
  by (induction n arbitrary: a b) (simp_all add: xtime_xor)

lemma gmul_upto_horner: "gmul_upto n a b = foldr (horner_step a b) [0..<n] 0"
proof (induction n arbitrary: a)
  case (Suc n)
  have "horner_step a b \<circ> Suc = horner_step (drop_bit 1 a) b"
    by (simp add: fun_eq_iff horner_step_def bit_simps)
  then have "foldr (horner_step a b) (map Suc [0..<n]) 0 = gmul_upto n (drop_bit 1 a) b"
    by (simp add: Suc.IH foldr_map)
  then show ?case
    by (simp add: upt_conv_Cons map_Suc_upt [symmetric] horner_step_def [of a b 0] gmul_upto_xtime bit_0 xor.commute
             del: upt_Suc)
qed simp

lemma gmul_horner: "gmul a b = foldr (horner_step a b) [0, 1, 2, 3, 4, 5, 6, 7] 0"
proof -
  have "[0..<8] = [0, 1, 2, 3, 4, 5, 6, 7 :: nat]" by (simp add: upt_rec)
  then show ?thesis by (simp add: gmul_def gmul_upto_horner)
qed

fun inverse_ok :: "u8 \<times> u8 \<Rightarrow> bool" where
  "inverse_ok (b, s) \<longleftrightarrow> gmul b (inv_affine s) = 1"

lemma S_inverse: "list_all inverse_ok (tl (zip all_bytes S_table))"
  unfolding all_bytes_unfold
  by (simp add: S_table_def gmul_horner inv_affine_def rotl8_def horner_step_def xtime_def upto_rec1)

lemma S_table_is_aes_sbox: "is_aes_sbox sbox"
  unfolding is_aes_sbox_def
proof (intro conjI allI impI)
  show "sbox 0 = sbox_affine 0"
    by (simp add: sbox_def S_table_def sbox_affine_def rotl8_def)
  fix b :: u8
  assume "b \<noteq> 0"
  then have "0 < unat b" by (simp add: unat_gt_0)
  then obtain i where i: "unat b = Suc i" by (cases "unat b") auto
  have len: "i < length (tl (zip all_bytes S_table))"
    using unat_u8_less [of b] i by simp
  have "inverse_ok (tl (zip all_bytes S_table) ! i)"
    using S_inverse len by (simp add: list_all_length)
  also have "tl (zip all_bytes S_table) ! i = (all_bytes ! unat b, S_table ! unat b)"
    using len i by (simp add: nth_tl)
  finally have "gmul b (inv_affine (sbox b)) = 1"
    by (simp add: sbox_def)
  moreover have "map (sbox_affine \<circ> inv_affine) S_table ! unat b = S_table ! unat b"
    by (simp only: S_affine)
  ultimately show "\<exists>c. gmul b c = 1 \<and> sbox b = sbox_affine c"
    by (intro exI [of _ "inv_affine (sbox b)"]) (simp add: sbox_def)
qed
interpretation aes: aes_sbox sbox inv_sbox
  by unfold_locales simp_all

section \<open>Table lookups as field arithmetic\<close>

lemma T_lookup:
  "T1_table ! unat b = Col (xtime (sbox b)) (sbox b) (sbox b) (sbox b XOR xtime (sbox b))"
  "T2_table ! unat b = Col (sbox b XOR xtime (sbox b)) (xtime (sbox b)) (sbox b) (sbox b)"
  "T3_table ! unat b = Col (sbox b) (sbox b XOR xtime (sbox b)) (xtime (sbox b)) (sbox b)"
  "T4_table ! unat b = Col (sbox b) (sbox b) (sbox b XOR xtime (sbox b)) (xtime (sbox b))"
  by (simp_all add: T4_table_rot T3_table_rot T2_table_rot T1_table_eq sbox_def)

lemma T_inv_lookup:
  "T5_table ! unat b = inv_mix_byte (inv_sbox b)"
  "T6_table ! unat b = rot_right (inv_mix_byte (inv_sbox b))"
  "T7_table ! unat b = rot_right (rot_right (inv_mix_byte (inv_sbox b)))"
  "T8_table ! unat b = rot_right (rot_right (rot_right (inv_mix_byte (inv_sbox b))))"
  by (simp_all add: T8_table_rot T7_table_rot T6_table_rot T5_table_eq inv_sbox_def)

lemma U_lookup:
  "U1_table ! unat b = inv_mix_byte b"
  "U2_table ! unat b = rot_right (inv_mix_byte b)"
  "U3_table ! unat b = rot_right (rot_right (inv_mix_byte b))"
  "U4_table ! unat b = rot_right (rot_right (rot_right (inv_mix_byte b)))"
  by (simp_all add: U4_table_rot U3_table_rot U2_table_rot U1_table_eq)

lemma inv_mix_col_bytes:
  "inv_mix_col (Col a b c d) =
     inv_mix_byte a + rot_right (inv_mix_byte b) + rot_right (rot_right (inv_mix_byte c))
     + rot_right (rot_right (rot_right (inv_mix_byte d)))"
  by (simp add: inv_mix_byte_def xor.assoc)

primrec xtime_powers :: "nat \<Rightarrow> u8 \<Rightarrow> u8 list" where
  "xtime_powers 0 x = []"
| "xtime_powers (Suc n) x = x # xtime_powers n (xtime x)"

lemma xtime_powers_nth: "i < n \<Longrightarrow> xtime_powers n x ! i = (xtime ^^ i) x"
proof (induction n arbitrary: i x)
  case (Suc n)
  then show ?case by (cases i) (simp_all add: funpow_swap1)
qed simp

lemma xtime_powers_numeral:
  "xtime_powers (numeral k) x = x # xtime_powers (pred_numeral k) (xtime x)"
  by (simp add: numeral_eq_Suc)

lemma rcon_table_powers: "map ucast rcon_table = xtime_powers 30 1"
  by (simp add: rcon_table_def xtime_powers_numeral xtime_def)

lemma rcon_table_nth:
  assumes "i < 30"
  shows "ucast (rcon_table ! i) = (xtime ^^ i) 1"
proof -
  have "i < length rcon_table" using assms by (simp add: rcon_table_def)
  then have "ucast (rcon_table ! i) = (map ucast rcon_table :: u8 list) ! i" by simp
  then show ?thesis using assms by (simp add: rcon_table_powers xtime_powers_nth)
qed

end
