(* ===== verification/Rijndael.thy ===== *)
theory Rijndael
  imports Rijndael_Tables
begin

text \<open>
  The cipher of \<^verbatim>\<open>src/rijndael.c\<close> and \<^verbatim>\<open>src/rijndael.h\<close>: the context
  \<^verbatim>\<open>struct rijndael\<close>, its initialisation, the key schedule and its conversion for decryption,
  and the block functions \<^verbatim>\<open>r_encrypt\<close> and \<^verbatim>\<open>r_decrypt\<close> with the drivers
  \<^verbatim>\<open>blockEncrypt\<close> and \<^verbatim>\<open>blockDecrypt\<close>.

  A 16-byte buffer is a \<open>block\<close>; \<^verbatim>\<open>tempb[4*c+r]\<close> of the source is byte \<open>r\<close> of column \<open>c\<close>.
  The enumerators of the header are its integers: the source passes \<^verbatim>\<open>ECB\<close> where a
  \<^verbatim>\<open>Mode\<close> is declared and \<^verbatim>\<open>Encrypt\<close> where a \<^verbatim>\<open>Direction\<close> is (the two typedef names are
  exchanged), which only the integer reading of C's enumerations makes sense of.
\<close>

section \<open>The context\<close>

definition Encrypt :: int where "Encrypt = 0"
definition Decrypt :: int where "Decrypt = 1"
definition ECB :: int where "ECB = 0"
definition CBC :: int where "CBC = 1"
definition CFB1 :: int where "CFB1 = 2"
definition Key16Bytes :: int where "Key16Bytes = 0"
definition Key24Bytes :: int where "Key24Bytes = 1"
definition Key32Bytes :: int where "Key32Bytes = 2"
definition Valid :: int where "Valid = 0"
definition Invalid :: int where "Invalid = 1"

definition RIJNDAEL_SUCCESS :: int where "RIJNDAEL_SUCCESS = 0"
definition RIJNDAEL_UNSUPPORTED_MODE :: int where "RIJNDAEL_UNSUPPORTED_MODE = -1"
definition RIJNDAEL_UNSUPPORTED_DIRECTION :: int where "RIJNDAEL_UNSUPPORTED_DIRECTION = -2"
definition RIJNDAEL_UNSUPPORTED_KEY_LENGTH :: int where "RIJNDAEL_UNSUPPORTED_KEY_LENGTH = -3"
definition RIJNDAEL_BAD_KEY :: int where "RIJNDAEL_BAD_KEY = -4"
definition RIJNDAEL_NOT_INITIALIZED :: int where "RIJNDAEL_NOT_INITIALIZED = -5"
definition RIJNDAEL_BAD_DIRECTION :: int where "RIJNDAEL_BAD_DIRECTION = -6"

lemmas rijndael_enums =
  Encrypt_def Decrypt_def ECB_def CBC_def CFB1_def Key16Bytes_def Key24Bytes_def Key32Bytes_def
  Valid_def Invalid_def

lemmas rijndael_codes =
  RIJNDAEL_SUCCESS_def RIJNDAEL_UNSUPPORTED_MODE_def RIJNDAEL_UNSUPPORTED_DIRECTION_def
  RIJNDAEL_UNSUPPORTED_KEY_LENGTH_def RIJNDAEL_BAD_KEY_def RIJNDAEL_NOT_INITIALIZED_def
  RIJNDAEL_BAD_DIRECTION_def

record rijndael =
  m_state :: int
  m_mode :: int
  m_direction :: int
  m_initVector :: block
  m_uRounds :: nat
  m_expandedKey :: "col list list"
  tab_S :: "u8 list"
  tab_T1 :: "col list"
  tab_T2 :: "col list"
  tab_T3 :: "col list"
  tab_T4 :: "col list"
  tab_T5 :: "col list"
  tab_T6 :: "col list"
  tab_T7 :: "col list"
  tab_T8 :: "col list"
  tab_S5 :: "u8 list"
  tab_U1 :: "col list"
  tab_U2 :: "col list"
  tab_U3 :: "col list"
  tab_U4 :: "col list"
  tab_rcon :: "u32 list"

definition init_rijndael_OP :: "rijndael \<Rightarrow> rijndael" where
  "init_rijndael_OP self = self\<lparr>
     tab_S := S_table, tab_T1 := T1_table, tab_T2 := T2_table, tab_T3 := T3_table,
     tab_T4 := T4_table, tab_T5 := T5_table, tab_T6 := T6_table, tab_T7 := T7_table,
     tab_T8 := T8_table, tab_S5 := S5_table, tab_U1 := U1_table, tab_U2 := U2_table,
     tab_U3 := U3_table, tab_U4 := U4_table, tab_rcon := rcon_table\<rparr>"

text \<open>The memory of a static context before any call is zero; \<^verbatim>\<open>rijndael_OP\<close> is such an array.\<close>

definition zero_rijndael :: rijndael where
  "zero_rijndael = \<lparr>
     m_state = 0, m_mode = 0, m_direction = 0, m_initVector = 0, m_uRounds = 0,
     m_expandedKey = replicate 15 (replicate 4 (Col 0 0 0 0)),
     tab_S = replicate 256 0, tab_T1 = replicate 256 0, tab_T2 = replicate 256 0,
     tab_T3 = replicate 256 0, tab_T4 = replicate 256 0, tab_T5 = replicate 256 0,
     tab_T6 = replicate 256 0, tab_T7 = replicate 256 0, tab_T8 = replicate 256 0,
     tab_S5 = replicate 256 0, tab_U1 = replicate 256 0, tab_U2 = replicate 256 0,
     tab_U3 = replicate 256 0, tab_U4 = replicate 256 0, tab_rcon = replicate 30 0\<rparr>"

definition tables_loaded :: "rijndael \<Rightarrow> bool" where
  "tables_loaded self \<longleftrightarrow>
     tab_S self = S_table \<and> tab_T1 self = T1_table \<and> tab_T2 self = T2_table
     \<and> tab_T3 self = T3_table \<and> tab_T4 self = T4_table \<and> tab_T5 self =
     T5_table \<and> tab_T6 self = T6_table \<and> tab_T7 self = T7_table \<and> tab_T8
     self = T8_table \<and> tab_S5 self = S5_table \<and> tab_U1 self = U1_table \<and>
     tab_U2 self = U2_table \<and> tab_U3 self = U3_table \<and> tab_U4 self = U4_table
     \<and> tab_rcon self = rcon_table"

lemma tables_loaded_init [simp]: "tables_loaded (init_rijndael_OP self)"
  by (simp add: tables_loaded_def init_rijndael_OP_def)

lemma tables_loadedD:
  assumes "tables_loaded self"
  shows "tab_S self = S_table" "tab_T1 self = T1_table" "tab_T2 self = T2_table"
    "tab_T3 self = T3_table" "tab_T4 self = T4_table" "tab_T5 self = T5_table"
    "tab_T6 self = T6_table" "tab_T7 self = T7_table" "tab_T8 self = T8_table"
    "tab_S5 self = S5_table" "tab_U1 self = U1_table" "tab_U2 self = U2_table"
    "tab_U3 self = U3_table" "tab_U4 self = U4_table" "tab_rcon self = rcon_table"
  using assms by (simp_all add: tables_loaded_def)

lemma tables_loaded_update [simp]:
  "tables_loaded (self\<lparr>m_state := st\<rparr>) = tables_loaded self"
  "tables_loaded (self\<lparr>m_mode := st\<rparr>) = tables_loaded self"
  "tables_loaded (self\<lparr>m_direction := st\<rparr>) = tables_loaded self"
  "tables_loaded (self\<lparr>m_initVector := iv\<rparr>) = tables_loaded self"
  "tables_loaded (self\<lparr>m_uRounds := n\<rparr>) = tables_loaded self"
  "tables_loaded (self\<lparr>m_expandedKey := ek\<rparr>) = tables_loaded self"
  by (simp_all add: tables_loaded_def)

section \<open>One block\<close>

definition round_key :: "rijndael \<Rightarrow> nat \<Rightarrow> block" where
  "round_key self r =
     (let k = m_expandedKey self ! r in Block (k ! 0) (k ! 1) (k ! 2) (k ! 3))"

definition encrypt_b_from_T :: "rijndael \<Rightarrow> u8 \<Rightarrow> u8 \<Rightarrow> u8 \<Rightarrow> u8 \<Rightarrow> col" where
  "encrypt_b_from_T self ind1 ind2 ind3 ind4 =
     xor_col (xor_col (xor_col (tab_T1 self ! unat ind1) (tab_T2 self ! unat ind2))
       (tab_T3 self ! unat ind3)) (tab_T4 self ! unat ind4)"

definition decrypt_b_from_T :: "rijndael \<Rightarrow> u8 \<Rightarrow> u8 \<Rightarrow> u8 \<Rightarrow> u8 \<Rightarrow> col" where
  "decrypt_b_from_T self ind1 ind2 ind3 ind4 =
     xor_col (xor_col (xor_col (tab_T5 self ! unat ind1) (tab_T6 self ! unat ind2))
       (tab_T7 self ! unat ind3)) (tab_T8 self ! unat ind4)"

text \<open>The four assignments to \<^verbatim>\<open>b32[0..3]\<close> that both functions repeat in every round.\<close>

fun encrypt_columns :: "rijndael \<Rightarrow> block \<Rightarrow> block" where
  "encrypt_columns self
     (Block (Col t0 t1 t2 t3) (Col t4 t5 t6 t7) (Col t8 t9 t10 t11) (Col t12 t13 t14 t15)) =
     Block (encrypt_b_from_T self t0 t5 t10 t15) (encrypt_b_from_T self t4 t9 t14 t3)
       (encrypt_b_from_T self t8 t13 t2 t7) (encrypt_b_from_T self t12 t1 t6 t11)"

fun decrypt_columns :: "rijndael \<Rightarrow> block \<Rightarrow> block" where
  "decrypt_columns self
     (Block (Col t0 t1 t2 t3) (Col t4 t5 t6 t7) (Col t8 t9 t10 t11) (Col t12 t13 t14 t15)) =
     Block (decrypt_b_from_T self t0 t13 t10 t7) (decrypt_b_from_T self t4 t1 t14 t11)
       (decrypt_b_from_T self t8 t5 t2 t15) (decrypt_b_from_T self t12 t9 t6 t3)"

text \<open>The last round reads the S-box out of the second byte of the rows of \<^verbatim>\<open>T1\<close>.\<close>

fun snd_byte :: "col \<Rightarrow> u8" where
  "snd_byte (Col a b c d) = b"

fun encrypt_last :: "rijndael \<Rightarrow> block \<Rightarrow> block" where
  "encrypt_last self
     (Block (Col t0 t1 t2 t3) (Col t4 t5 t6 t7) (Col t8 t9 t10 t11) (Col t12 t13 t14 t15)) =
     (let b = (\<lambda>t. snd_byte (tab_T1 self ! unat t)) in
      Block (Col (b t0) (b t5) (b t10) (b t15)) (Col (b t4) (b t9) (b t14) (b t3))
        (Col (b t8) (b t13) (b t2) (b t7)) (Col (b t12) (b t1) (b t6) (b t11)))"

fun decrypt_last :: "rijndael \<Rightarrow> block \<Rightarrow> block" where
  "decrypt_last self
     (Block (Col t0 t1 t2 t3) (Col t4 t5 t6 t7) (Col t8 t9 t10 t11) (Col t12 t13 t14 t15)) =
     (let b = (\<lambda>t. tab_S5 self ! unat t) in
      Block (Col (b t0) (b t13) (b t10) (b t7)) (Col (b t4) (b t1) (b t14) (b t11))
        (Col (b t8) (b t5) (b t2) (b t15)) (Col (b t12) (b t9) (b t6) (b t3)))"

definition r_encrypt :: "rijndael \<Rightarrow> block \<Rightarrow> block" where
  "r_encrypt self a =
     (let b = encrypt_columns self (xor_block a (round_key self 0));
          b = fold (\<lambda>r b. encrypt_columns self (xor_block b (round_key self r)))
                [1..<m_uRounds self - 1] b;
          b = encrypt_last self (xor_block b (round_key self (m_uRounds self - 1)))
      in xor_block b (round_key self (m_uRounds self)))"

definition r_decrypt :: "rijndael \<Rightarrow> block \<Rightarrow> block" where
  "r_decrypt self a =
     (let b = decrypt_columns self (xor_block a (round_key self (m_uRounds self)));
          b = fold (\<lambda>r b. decrypt_columns self (xor_block b (round_key self r)))
                (rev [2..<m_uRounds self]) b;
          b = decrypt_last self (xor_block b (round_key self 1))
      in xor_block b (round_key self 0))"

section \<open>The key schedule\<close>

text \<open>
  \<^verbatim>\<open>copy_words\<close> is the pair of nested copying loops of \<^verbatim>\<open>keySched\<close>, one word per step:
  \<^verbatim>\<open>m_expandedKey[r][t] = tempKey[j]\<close>, advancing \<open>t\<close> and, after four words, \<open>r\<close>, until the
  words are used up or \<open>r\<close> passes the last round.  The list is the part of \<^verbatim>\<open>tempKey\<close>
  from \<open>j\<close> on.
\<close>

fun copy_words ::
  "nat \<Rightarrow> col list \<Rightarrow> col list list \<times> nat \<times> nat \<Rightarrow> col list list \<times> nat \<times> nat" where
  "copy_words rounds [] (ek, r, t) = (ek, r, t)"
| "copy_words rounds (w # ws) (ek, r, t) =
     (if r \<le> rounds then
        let ek' = ek[r := (ek ! r)[t := w]] in
        if Suc t = 4 then copy_words rounds ws (ek', Suc r, 0)
        else copy_words rounds ws (ek', r, Suc t)
      else (ek, r, t))"

text \<open>\<^verbatim>\<open>for (j = a; j < b; j++) tempKey[j] ^= tempKey[j-1]\<close>, on four bytes at a time.\<close>

definition xor_chain :: "nat \<Rightarrow> nat \<Rightarrow> col list \<Rightarrow> col list" where
  "xor_chain a b tk = fold (\<lambda>j tk. tk[j := xor_col (tk ! j) (tk ! (j - 1))]) [a..<b] tk"

fun sub_rot :: "rijndael \<Rightarrow> u32 \<Rightarrow> col \<Rightarrow> col" where
  "sub_rot self rc (Col k0 k1 k2 k3) =
     (let S = (\<lambda>b. tab_S self ! unat b) in Col (S k1 XOR ucast rc) (S k2) (S k3) (S k0))"

text \<open>The update of \<^verbatim>\<open>tempKey\<close> in one iteration of the \<^verbatim>\<open>while\<close> loop.\<close>

definition next_tempKey :: "rijndael \<Rightarrow> nat \<Rightarrow> col list \<Rightarrow> col list" where
  "next_tempKey self rconpointer tk =
     (let n = length tk;
          tk = tk[0 := xor_col (tk ! 0) (sub_rot self (tab_rcon self ! rconpointer) (tk ! (n - 1)))]
      in if n \<noteq> 8 then xor_chain 1 n tk
         else
           let tk = xor_chain 1 (n div 2) tk;
               tk = tk[n div 2 := xor_col (tk ! (n div 2))
                 (map_col (\<lambda>b. tab_S self ! unat b) (tk ! (n div 2 - 1)))]
           in xor_chain (n div 2 + 1) n tk)"

partial_function (option) keySched_loop ::
  "rijndael \<Rightarrow> nat \<Rightarrow> col list \<Rightarrow> col list list \<times> nat \<times> nat \<Rightarrow> col list list option" where
  "keySched_loop self rconpointer tk st =
     (if fst (snd st) \<le> m_uRounds self then
        keySched_loop self (Suc rconpointer) (next_tempKey self rconpointer tk)
          (copy_words (m_uRounds self) (next_tempKey self rconpointer tk) st)
      else Some (fst st))"

definition keySched :: "rijndael \<Rightarrow> col list \<Rightarrow> rijndael option" where
  "keySched self key = do {
     let tempKey = take (m_uRounds self - 6) key;
     ek \<leftarrow> keySched_loop self 0 tempKey
       (copy_words (m_uRounds self) tempKey (m_expandedKey self, 0, 0));
     Some (self\<lparr>m_expandedKey := ek\<rparr>)
   }"

fun dec_key_word :: "rijndael \<Rightarrow> col \<Rightarrow> col" where
  "dec_key_word self (Col w0 w1 w2 w3) =
     xor_col (xor_col (xor_col (tab_U1 self ! unat w0) (tab_U2 self ! unat w1))
       (tab_U3 self ! unat w2)) (tab_U4 self ! unat w3)"

definition keyEncToDec :: "rijndael \<Rightarrow> rijndael" where
  "keyEncToDec self =
     fold (\<lambda>r self. self\<lparr>m_expandedKey := (m_expandedKey self)[r :=
         map (dec_key_word self) (m_expandedKey self ! r)]\<rparr>)
       [1..<m_uRounds self] self"

section \<open>Initialisation\<close>

text \<open>
  The bytes of the key fill a matrix of four-byte rows.  A key buffer shorter than the key length
  asks for is read out of bounds: \<open>None\<close>.  The result pairs the context with the return code.
\<close>

definition key_matrix :: "u8 list \<Rightarrow> nat \<Rightarrow> col list" where
  "key_matrix key n =
     map (\<lambda>i. Col (key ! (4 * i)) (key ! (4 * i + 1)) (key ! (4 * i + 2)) (key ! (4 * i + 3))) [0..<n]"

definition key_length_of :: "int \<Rightarrow> (nat \<times> nat) option" where
  "key_length_of keyLen =
     (if keyLen = Key16Bytes then Some (16, 10)
      else if keyLen = Key24Bytes then Some (24, 12)
      else if keyLen = Key32Bytes then Some (32, 14)
      else None)"

definition rijndael_init ::
  "rijndael \<Rightarrow> int \<Rightarrow> int \<Rightarrow> u8 list option \<Rightarrow> int \<Rightarrow> block option \<Rightarrow> (rijndael \<times> int) option" where
  "rijndael_init self mode dir key keyLen initVector =
     (let self = self\<lparr>m_state := Invalid\<rparr> in
      if mode \<noteq> CBC \<and> mode \<noteq> ECB \<and> mode \<noteq> CFB1 then Some (self, RIJNDAEL_UNSUPPORTED_MODE)
      else let self = self\<lparr>m_mode := mode\<rparr> in
      if dir \<noteq> Encrypt \<and> dir \<noteq> Decrypt then Some (self, RIJNDAEL_UNSUPPORTED_DIRECTION)
      else let self = self\<lparr>m_direction := dir,
          m_initVector := (case initVector of Some iv \<Rightarrow> iv | None \<Rightarrow> 0)\<rparr> in
      case key_length_of keyLen of
        None \<Rightarrow> Some (self, RIJNDAEL_UNSUPPORTED_KEY_LENGTH)
      | Some (uKeyLenInBytes, rounds) \<Rightarrow>
          let self = self\<lparr>m_uRounds := rounds\<rparr> in
          (case key of
            None \<Rightarrow> Some (self, RIJNDAEL_BAD_KEY)
          | Some key \<Rightarrow>
              if length key < uKeyLenInBytes then None
              else (case keySched self (key_matrix key (uKeyLenInBytes div 4)) of
                  None \<Rightarrow> None
                | Some self \<Rightarrow>
                    let self = (if m_direction self = Decrypt then keyEncToDec self else self) in
                    Some (self\<lparr>m_state := Valid\<rparr>, RIJNDAEL_SUCCESS))))"

section \<open>Buffers\<close>

text \<open>
  \<^verbatim>\<open>inputLen\<close> counts bits.  The input is \<open>None\<close> for a null pointer and otherwise the blocks of
  the buffer; \<open>outBuffer\<close> is the list of blocks the output buffer holds.  Reading or writing past
  either list is a fault, and so is a number of rounds whose keys lie outside
  \<^verbatim>\<open>m_expandedKey[15]\<close>.  The result pairs the return code with the new output buffer.
\<close>

definition rounds_ok :: "rijndael \<Rightarrow> bool" where
  "rounds_ok self \<longleftrightarrow> 1 \<le> m_uRounds self \<and> m_uRounds self \<le> 14"

fun col_bytes :: "col \<Rightarrow> u8 list" where
  "col_bytes (Col a b c d) = [a, b, c, d]"

fun block_bytes :: "block \<Rightarrow> u8 list" where
  "block_bytes (Block a b c d) = col_bytes a @ col_bytes b @ col_bytes c @ col_bytes d"

definition bytes_block :: "u8 list \<Rightarrow> block" where
  "bytes_block bs = (case key_matrix bs 4 of
     [a, b, c, d] \<Rightarrow> Block a b c d
   | _ \<Rightarrow> 0)"

text \<open>
  The loop of mode CBC.  \<^verbatim>\<open>input32\<close>, the list here, still points at the first block when the
  loop is entered, while the first block has been consumed already.
\<close>

fun cbc_chain :: "rijndael \<Rightarrow> block \<Rightarrow> nat \<Rightarrow> block list \<Rightarrow> block list" where
  "cbc_chain self prev (Suc n) (p # ps) =
     (let c = r_encrypt self (xor_block prev p) in c # cbc_chain self c n ps)"
| "cbc_chain self prev _ _ = []"

text \<open>One bit of mode CFB1; \<^verbatim>\<open>ivb\<close> is shifted left by one bit and \<open>b\<close> enters on the right.\<close>

definition shift_iv :: "u8 list \<Rightarrow> u8 \<Rightarrow> u8 list" where
  "shift_iv ivb b =
     map2 (\<lambda>x y. push_bit 1 x OR drop_bit 7 y) ivb (tl ivb) @ [push_bit 1 (last ivb) OR b]"

definition cfb1_key_bit :: "rijndael \<Rightarrow> u8 list \<Rightarrow> nat \<Rightarrow> u8" where
  "cfb1_key_bit self ivb k =
     drop_bit (k mod 8) (hd (block_bytes (r_encrypt self (bytes_block ivb))) AND 0x80)"

definition cfb1_encrypt_bit :: "rijndael \<Rightarrow> nat \<Rightarrow> u8 list \<times> u8 list \<Rightarrow> u8 list \<times> u8 list" where
  "cfb1_encrypt_bit self k st =
     (case st of (ivb, out) \<Rightarrow>
       let out = out[k div 8 := out ! (k div 8) XOR cfb1_key_bit self ivb k]
       in (shift_iv ivb (drop_bit (7 - k mod 8) (out ! (k div 8)) AND 1), out))"

definition cfb1_decrypt_bit ::
  "rijndael \<Rightarrow> u8 list \<Rightarrow> nat \<Rightarrow> u8 list \<times> u8 list \<Rightarrow> u8 list \<times> u8 list" where
  "cfb1_decrypt_bit self input k st =
     (case st of (ivb, out) \<Rightarrow>
       (shift_iv ivb (drop_bit (7 - k mod 8) (input ! (k div 8)) AND 1),
        out[k div 8 := out ! (k div 8) XOR cfb1_key_bit self ivb k]))"

definition blockEncrypt ::
  "rijndael \<Rightarrow> block list option \<Rightarrow> int \<Rightarrow> block list \<Rightarrow> (int \<times> block list) option" where
  "blockEncrypt self input inputLen outBuffer =
     (if m_state self \<noteq> Valid then Some (RIJNDAEL_NOT_INITIALIZED, outBuffer)
      else if m_direction self \<noteq> Encrypt then Some (RIJNDAEL_BAD_DIRECTION, outBuffer)
      else case input of None \<Rightarrow> Some (0, outBuffer) | Some blocks \<Rightarrow>
      if inputLen \<le> 0 then Some (0, outBuffer)
      else let numBlocks = nat (inputLen div 128) in
      if m_mode self = ECB then
        (if length blocks < numBlocks \<or> length outBuffer < numBlocks
            \<or> 0 < numBlocks \<and> \<not> rounds_ok self then None
         else Some (128 * int numBlocks,
           map (r_encrypt self) (take numBlocks blocks) @ drop numBlocks outBuffer))
      else if m_mode self = CBC then
        (if blocks = [] \<or> outBuffer = [] \<or> \<not> rounds_ok self
            \<or> length blocks < numBlocks - 1 \<or> length outBuffer < numBlocks then None
         else
           let c = r_encrypt self (xor_block (m_initVector self) (hd blocks));
               cs = c # cbc_chain self c (numBlocks - 1) blocks
           in Some (128 * int numBlocks, cs @ drop (length cs) outBuffer))
      else if m_mode self = CFB1 then
        (if numBlocks = 0 then Some (0, outBuffer)
         else if outBuffer = [] \<or> \<not> rounds_ok self then None
         else
           let (iv, out) = fold (\<lambda>_. fold (cfb1_encrypt_bit self) [0..<128]) [0..<numBlocks]
                 (block_bytes (m_initVector self), block_bytes (hd outBuffer))
           in Some (128 * int numBlocks, bytes_block out # tl outBuffer))
      else Some (-1, outBuffer))"

text \<open>
  \<^verbatim>\<open>blockDecrypt\<close>.  In mode CBC the source advances \<^verbatim>\<open>input32\<close> by sixteen words, that is four
  blocks, per block decrypted: block \<open>i\<close> leaves block \<open>4 * i\<close> of the input as the next vector.
\<close>

definition cbc_decrypt_step ::
  "rijndael \<Rightarrow> block list \<Rightarrow> nat \<Rightarrow> (block \<times> block list) option \<Rightarrow> (block \<times> block list) option" where
  "cbc_decrypt_step self input i st = do {
     (iv, out) \<leftarrow> st;
     if length input \<le> i \<or> length input \<le> 4 * i then None
     else Some (input ! (4 * i), out @ [xor_block (r_decrypt self (input ! i)) iv])
   }"

definition blockDecrypt ::
  "rijndael \<Rightarrow> block list option \<Rightarrow> int \<Rightarrow> block list \<Rightarrow> (int \<times> block list) option" where
  "blockDecrypt self input inputLen outBuffer =
     (if m_state self \<noteq> Valid then Some (RIJNDAEL_NOT_INITIALIZED, outBuffer)
      else if m_mode self \<noteq> CFB1 \<and> m_direction self = Encrypt then
        Some (RIJNDAEL_BAD_DIRECTION, outBuffer)
      else case input of None \<Rightarrow> Some (0, outBuffer) | Some blocks \<Rightarrow>
      if inputLen \<le> 0 then Some (0, outBuffer)
      else let numBlocks = nat (inputLen div 128) in
      if m_mode self = ECB then
        (if length blocks < numBlocks \<or> length outBuffer < numBlocks
            \<or> 0 < numBlocks \<and> \<not> rounds_ok self then None
         else Some (128 * int numBlocks,
           map (r_decrypt self) (take numBlocks blocks) @ drop numBlocks outBuffer))
      else if m_mode self = CBC then
        (if length outBuffer < numBlocks \<or> 0 < numBlocks \<and> \<not> rounds_ok self then None
         else do {
           (iv, out) \<leftarrow> fold (cbc_decrypt_step self blocks) [0..<numBlocks]
             (Some (m_initVector self, []));
           Some (128 * int numBlocks, out @ drop numBlocks outBuffer)
         })
      else if m_mode self = CFB1 then
        (if numBlocks = 0 then Some (0, outBuffer)
         else if blocks = [] \<or> outBuffer = [] \<or> \<not> rounds_ok self then None
         else
           let (iv, out) = fold (\<lambda>_. fold (cfb1_decrypt_bit self (block_bytes (hd blocks))) [0..<128])
                 [0..<numBlocks] (block_bytes (m_initVector self), block_bytes (hd outBuffer))
           in Some (128 * int numBlocks, bytes_block out # tl outBuffer))
      else Some (-1, outBuffer))"

end
