(* ===== verification/Rijndael_Correct.thy ===== *)
theory Rijndael_Correct
  imports Rijndael
begin

text \<open>
  \<^verbatim>\<open>src/rijndael.c\<close> implements the cipher of \<open>Aes_Spec\<close>: the table driven rounds are the
  rounds of the standard, \<^verbatim>\<open>r_decrypt\<close> under the converted key schedule is the inverse
  cipher, and \<^verbatim>\<open>keySched\<close> is the key expansion.  The last part describes the drivers
  \<^verbatim>\<open>blockEncrypt\<close> and \<^verbatim>\<open>blockDecrypt\<close>.
\<close>

section \<open>Rounds\<close>

named_theorems rijndael_tables \<open>table driven steps as transformations of the standard\<close>

lemma xor4_rearrange:
  "a XOR b XOR c XOR d = c XOR d XOR a XOR b" for a b c d :: u8
  by (simp add: xor_ac)

lemma encrypt_b_from_T_mix [rijndael_tables]:
  "tables_loaded self \<Longrightarrow>
     encrypt_b_from_T self a b c d = mix_col (Col (sbox a) (sbox b) (sbox c) (sbox d))"
  by (simp add: encrypt_b_from_T_def xor_col_plus tables_loadedD T_lookup gmul_constants xor_ac)

lemma decrypt_b_from_T_mix [rijndael_tables]:
  "tables_loaded self \<Longrightarrow>
     decrypt_b_from_T self a b c d
       = inv_mix_col (Col (inv_sbox a) (inv_sbox b) (inv_sbox c) (inv_sbox d))"
  by (simp only: decrypt_b_from_T_def xor_col_plus tables_loadedD T_inv_lookup inv_mix_col_bytes)

lemma encrypt_columns_round [rijndael_tables]:
  "tables_loaded self \<Longrightarrow> encrypt_columns self s = mix_columns (shift_rows (sub_bytes sbox s))"
  by (cases s rule: shift_rows.cases) (simp add: encrypt_b_from_T_mix del: mix_col.simps)

lemma decrypt_columns_round [rijndael_tables]:
  "tables_loaded self \<Longrightarrow>
     decrypt_columns self s = inv_mix_columns (sub_bytes inv_sbox (inv_shift_rows s))"
  by (cases s rule: shift_rows.cases) (simp add: decrypt_b_from_T_mix del: inv_mix_col.simps)

lemma encrypt_last_round [rijndael_tables]:
  "tables_loaded self \<Longrightarrow> encrypt_last self s = shift_rows (sub_bytes sbox s)"
  by (cases s rule: shift_rows.cases) (simp add: tables_loadedD T_lookup)

lemma decrypt_last_round [rijndael_tables]:
  "tables_loaded self \<Longrightarrow> decrypt_last self s = sub_bytes inv_sbox (inv_shift_rows s)"
  by (cases s rule: shift_rows.cases) (simp add: tables_loadedD inv_sbox_def)

text \<open>
  The source adds a round key before the round function, the standard after it; the sequences
  agree when the last key is split off.
\<close>

lemma fold_keys_shift:
  fixes F :: "block \<Rightarrow> block"
  assumes "rs @ [l] = ls"
  shows "fold (\<lambda>r b. F (b + w r)) rs (F x) + w l = fold (\<lambda>r s. F s + w r) ls x"
  unfolding assms [symmetric] by (induction rs arbitrary: x) simp_all

lemma upt_last: "m < n \<Longrightarrow> [m..<n - 1] @ [n - 1] = [m..<n]"
  by (cases n) simp_all

lemma rev_upt_first: "m < n \<Longrightarrow> rev [Suc m..<n] @ [m] = rev [m..<n]"
  by (simp add: upt_conv_Cons)

lemma r_encrypt_aes:
  assumes "tables_loaded self" and "2 \<le> m_uRounds self"
  shows "r_encrypt self a = aes_cipher sbox (round_key self) (m_uRounds self) a"
proof -
  let ?F = "\<lambda>s. mix_columns (shift_rows (sub_bytes sbox s))" and ?n = "m_uRounds self"
  have "fold (\<lambda>r b. ?F (b + round_key self r)) [1..<?n - 1] (?F (a + round_key self 0))
          + round_key self (?n - 1)
      = fold (\<lambda>r s. ?F s + round_key self r) [1..<?n] (a + round_key self 0)"
    by (rule fold_keys_shift, rule upt_last) (use assms(2) in simp)
  then show ?thesis
    using assms(1)
    by (simp only: r_encrypt_def Let_def xor_block_plus rijndael_tables aes_cipher_def aes_round_def [abs_def])
qed

lemma r_decrypt_inv_aes:
  assumes "tables_loaded self" and "2 \<le> m_uRounds self"
    and w0: "round_key self 0 = w 0" and wN: "round_key self (m_uRounds self) = w (m_uRounds self)"
    and wr: "\<And>r. 0 < r \<Longrightarrow> r < m_uRounds self \<Longrightarrow> round_key self r = inv_mix_columns (w r)"
  shows "r_decrypt self a = inv_aes_cipher inv_sbox w (m_uRounds self) a"
proof -
  let ?F = "\<lambda>s. inv_mix_columns (sub_bytes inv_sbox (inv_shift_rows s))" and ?n = "m_uRounds self"
  have "fold (\<lambda>r b. ?F (b + round_key self r)) (rev [2..<?n]) (?F (a + w ?n)) + round_key self 1
      = fold (\<lambda>r s. ?F s + round_key self r) (rev [1..<?n]) (a + w ?n)"
    by (rule fold_keys_shift, unfold numeral_2_eq_2 One_nat_def, rule rev_upt_first)
      (use assms(2) in simp)
  also have "... = fold (\<lambda>r. inv_aes_round inv_sbox (w r)) (rev [1..<?n]) (a + w ?n)"
    by (rule fold_cong) (simp_all add: wr inv_aes_round_def [abs_def] inv_mix_columns_add)
  finally show ?thesis
    using assms(1)
    by (simp only: r_decrypt_def Let_def xor_block_plus rijndael_tables inv_aes_cipher_def w0 wN)
qed

section \<open>Conversion of the key schedule\<close>

lemma dec_key_word_inv_mix [rijndael_tables]:
  "tables_loaded self \<Longrightarrow> dec_key_word self w = inv_mix_col w"
  by (cases w) (simp only: dec_key_word.simps xor_col_plus tables_loadedD U_lookup inv_mix_col_bytes)

lemma dec_key_word_expandedKey [simp]:
  "dec_key_word (self\<lparr>m_expandedKey := e\<rparr>) = dec_key_word self"
proof
  show "dec_key_word (self\<lparr>m_expandedKey := e\<rparr>) w = dec_key_word self w" for w
    by (cases w) simp
qed

lemma convert_rows:
  assumes "distinct rs" and "\<forall>r \<in> set rs. r < length (m_expandedKey self)"
  shows "\<exists>ek. fold (\<lambda>r self. self\<lparr>m_expandedKey := (m_expandedKey self)[r :=
               map (dec_key_word self) (m_expandedKey self ! r)]\<rparr>) rs self
           = self\<lparr>m_expandedKey := ek\<rparr>
         \<and> length ek = length (m_expandedKey self)
         \<and> (\<forall>r < length ek. ek ! r = (if r \<in> set rs then map (dec_key_word self) (m_expandedKey self ! r)
               else m_expandedKey self ! r))"
  using assms
proof (induction rs arbitrary: self)
  case Nil
  then show ?case by (intro exI [of _ "m_expandedKey self"]) simp
next
  case (Cons r rs)
  let ?self = "self\<lparr>m_expandedKey := (m_expandedKey self)[r :=
                  map (dec_key_word self) (m_expandedKey self ! r)]\<rparr>"
  from Cons.prems obtain ek where ek:
    "fold (\<lambda>r self. self\<lparr>m_expandedKey := (m_expandedKey self)[r :=
         map (dec_key_word self) (m_expandedKey self ! r)]\<rparr>) rs ?self = ?self\<lparr>m_expandedKey := ek\<rparr>"
    "length ek = length (m_expandedKey ?self)"
    "\<forall>r' < length ek. ek ! r' = (if r' \<in> set rs then map (dec_key_word ?self) (m_expandedKey ?self ! r')
         else m_expandedKey ?self ! r')"
    using Cons.IH [of ?self] by auto
  then show ?case
    using Cons.prems by (intro exI [of _ ek]) (auto simp: nth_list_update)
qed

lemma round_key_converted:
  assumes "tables_loaded self" and "length (m_expandedKey self ! r) = 4"
    and "m_expandedKey self' ! r = map (dec_key_word self) (m_expandedKey self ! r)"
  shows "round_key self' r = inv_mix_columns (round_key self r)"
  using assms by (simp add: round_key_def Let_def dec_key_word_inv_mix)

definition shaped :: "col list list \<Rightarrow> bool" where
  "shaped ek \<longleftrightarrow> length ek = 15 \<and> (\<forall>r < 15. length (ek ! r) = 4)"

lemma keyEncToDec_round_keys:
  assumes "tables_loaded self" and "shaped (m_expandedKey self)" and "m_uRounds self \<le> 14"
  obtains ek where "keyEncToDec self = self\<lparr>m_expandedKey := ek\<rparr>" and "shaped ek"
    and "\<And>r. r \<le> m_uRounds self \<Longrightarrow> round_key (keyEncToDec self) r =
           (if 0 < r \<and> r < m_uRounds self then inv_mix_columns (round_key self r)
            else round_key self r)"
proof -
  have "\<forall>r \<in> set [1..<m_uRounds self]. r < length (m_expandedKey self)"
    using assms(2,3) by (auto simp: shaped_def)
  then obtain ek where ek: "keyEncToDec self = self\<lparr>m_expandedKey := ek\<rparr>"
      "length ek = length (m_expandedKey self)"
      "\<forall>r < length ek. ek ! r = (if r \<in> set [1..<m_uRounds self]
         then map (dec_key_word self) (m_expandedKey self ! r) else m_expandedKey self ! r)"
    using convert_rows [of "[1..<m_uRounds self]" self]
    by (auto simp: keyEncToDec_def)
  then have "shaped ek" using assms(2) by (auto simp: shaped_def)
  moreover have "round_key (keyEncToDec self) r =
      (if 0 < r \<and> r < m_uRounds self then inv_mix_columns (round_key self r) else round_key self r)"
    if "r \<le> m_uRounds self" for r
    using that assms ek
    by (auto simp: shaped_def round_key_def Let_def dec_key_word_inv_mix)
  ultimately show ?thesis using that ek(1) by blast
qed

text \<open>The two contexts that one key gives, one per direction, invert each other.\<close>

lemma r_decrypt_r_encrypt:
  assumes "tables_loaded self" and "shaped (m_expandedKey self)"
    and "2 \<le> m_uRounds self" and "m_uRounds self \<le> 14"
  shows "r_decrypt (keyEncToDec self) (r_encrypt self a) = a"
proof -
  obtain ek where ek: "keyEncToDec self = self\<lparr>m_expandedKey := ek\<rparr>"
    and rk: "\<And>r. r \<le> m_uRounds self \<Longrightarrow> round_key (keyEncToDec self) r =
           (if 0 < r \<and> r < m_uRounds self then inv_mix_columns (round_key self r)
            else round_key self r)"
    using keyEncToDec_round_keys [OF assms(1,2,4)] by blast
  have n: "m_uRounds (keyEncToDec self) = m_uRounds self" by (simp add: ek)
  have t: "tables_loaded (keyEncToDec self)"
    using assms(1) by (simp add: ek)
  have "r_decrypt (keyEncToDec self) (r_encrypt self a)
      = inv_aes_cipher inv_sbox (round_key self) (m_uRounds self) (r_encrypt self a)"
    using r_decrypt_inv_aes [OF t, of "round_key self"] assms(3) rk by (simp add: n)
  then show ?thesis
    by (simp add: r_encrypt_aes [OF assms(1,3)] aes.inv_cipher_cipher)
qed

section \<open>The key schedule is the key expansion of the standard\<close>

lemma sub_rot_spec:
  "tables_loaded self \<Longrightarrow> sub_rot self rc w = map_col sbox (rot_word w) + Col (ucast rc) 0 0 0"
  by (cases w) (simp add: tables_loadedD sbox_def Let_def xor.commute)

lemma S_lookup_sbox: "tables_loaded self \<Longrightarrow> map_col (\<lambda>b. tab_S self ! unat b) w = map_col sbox w"
  by (cases w) (simp add: tables_loadedD sbox_def)

lemma next_key_word_at:
  assumes "length pre = m * Nk" and "Nk \<le> length cur" and "length cur < 2 * Nk"
  shows "next_key_word f Nk (pre @ cur) = cur ! (length cur - Nk) +
     (if length cur = Nk then map_col f (rot_word (cur ! (Nk - 1))) + rcon_spec (m + 1)
      else if 6 < Nk \<and> length cur = Nk + 4 then map_col f (cur ! (length cur - 1))
      else cur ! (length cur - 1))"
proof -
  obtain j where j: "length cur = Nk + j" "j < Nk"
    using assms(2,3) by (metis add_diff_inverse_nat less_diff_conv2 mult_2 not_le)
  have len: "length (pre @ cur) = Nk * (m + 1) + j" using assms j by (simp add: algebra_simps)
  have idx: "length (pre @ cur) - Nk = length pre + j"
    "length (pre @ cur) - 1 = length pre + (length cur - 1)"
    using assms j by simp_all
  have dm: "length (pre @ cur) mod Nk = j" "length (pre @ cur) div Nk = m + 1"
    unfolding len using j by (simp_all del: mult_Suc_right)
  show ?thesis
    unfolding next_key_word_def Let_def idx dm nth_append_length_plus using j by simp
qed

lemma key_expansion_steps_list:
  assumes "\<And>i. i < length ns \<Longrightarrow> next_key_word f Nk (ws @ take i ns) = ns ! i"
  shows "key_expansion_steps f Nk (length ns) ws = ws @ ns"
  using assms
proof (induction ns arbitrary: ws)
  case (Cons n ns)
  have "next_key_word f Nk ws = n" using Cons.prems [of 0] by simp
  moreover have "key_expansion_steps f Nk (length ns) (ws @ [n]) = (ws @ [n]) @ ns"
    using Cons.prems [of "Suc _"] by (intro Cons.IH) simp
  ultimately show ?case by simp
qed simp

lemma rcon_rot_word:
  assumes "tables_loaded self" and "m < 30"
  shows "Col (ucast (tab_rcon self ! m)) 0 0 0 = rcon_spec (m + 1)"
  using assms by (simp add: tables_loadedD rcon_spec_def rcon_table_nth)

text \<open>The words of one pass through the loop, for the three key lengths.\<close>

lemma next_tempKey_4:
  assumes "tables_loaded self" and "m < 30" and "length pre = m * 4" and "length tk = 4"
  shows "key_expansion_steps sbox 4 4 (pre @ tk) = pre @ tk @ next_tempKey self m tk"
proof -
  obtain c0 c1 c2 c3 where tk: "tk = [c0, c1, c2, c3]"
    using assms(4) by (auto simp: numeral_eq_Suc length_Suc_conv)
  define n0 where n0: "n0 = c0 + (map_col sbox (rot_word c3) + rcon_spec (m + 1))"
  define n1 where n1: "n1 = c1 + n0"
  define n2 where n2: "n2 = c2 + n1"
  define n3 where n3: "n3 = c3 + n2"
  note ns = n0 n1 n2 n3
  have "next_tempKey self m tk = [n0, n1, n2, n3]"
    by (simp add: tk next_tempKey_def Let_def xor_chain_def xor_col_plus sub_rot_spec [OF assms(1)]
        S_lookup_sbox [OF assms(1)] rcon_rot_word [OF assms(1,2)] upt_rec ns)
  moreover have len: "length [n0, n1, n2, n3] = 4" by simp
  moreover have "key_expansion_steps sbox 4 (length [n0, n1, n2, n3]) (pre @ tk)
      = (pre @ tk) @ [n0, n1, n2, n3]"
  proof (rule key_expansion_steps_list)
    fix i assume "i < length [n0, n1, n2, n3]"
    then consider "i = 0" | "i = 1" | "i = 2" | "i = 3" by fastforce
    then show "next_key_word sbox 4 ((pre @ tk) @ take i [n0, n1, n2, n3]) = [n0, n1, n2, n3] ! i"
      by cases (simp_all add: next_key_word_at [OF assms(3)] tk ns)
  qed
  ultimately show ?thesis by (simp only: append_assoc)
qed

lemma next_tempKey_6:
  assumes "tables_loaded self" and "m < 30" and "length pre = m * 6" and "length tk = 6"
  shows "key_expansion_steps sbox 6 6 (pre @ tk) = pre @ tk @ next_tempKey self m tk"
proof -
  obtain c0 c1 c2 c3 c4 c5 where tk: "tk = [c0, c1, c2, c3, c4, c5]"
    using assms(4) by (auto simp: numeral_eq_Suc length_Suc_conv)
  define n0 where n0: "n0 = c0 + (map_col sbox (rot_word c5) + rcon_spec (m + 1))"
  define n1 where n1: "n1 = c1 + n0"
  define n2 where n2: "n2 = c2 + n1"
  define n3 where n3: "n3 = c3 + n2"
  define n4 where n4: "n4 = c4 + n3"
  define n5 where n5: "n5 = c5 + n4"
  note ns = n0 n1 n2 n3 n4 n5
  have "next_tempKey self m tk = [n0, n1, n2, n3, n4, n5]"
    by (simp add: tk next_tempKey_def Let_def xor_chain_def xor_col_plus sub_rot_spec [OF assms(1)]
        S_lookup_sbox [OF assms(1)] rcon_rot_word [OF assms(1,2)] upt_rec ns)
  moreover have len: "length [n0, n1, n2, n3, n4, n5] = 6" by simp
  moreover have "key_expansion_steps sbox 6 (length [n0, n1, n2, n3, n4, n5]) (pre @ tk)
      = (pre @ tk) @ [n0, n1, n2, n3, n4, n5]"
  proof (rule key_expansion_steps_list)
    fix i assume "i < length [n0, n1, n2, n3, n4, n5]"
    then consider "i = 0" | "i = 1" | "i = 2" | "i = 3" | "i = 4" | "i = 5" by fastforce
    then show "next_key_word sbox 6 ((pre @ tk) @ take i [n0, n1, n2, n3, n4, n5]) = [n0, n1, n2, n3, n4, n5] ! i"
      by cases (simp_all add: next_key_word_at [OF assms(3)] tk ns)
  qed
  ultimately show ?thesis by (simp only: append_assoc)
qed

lemma next_tempKey_8:
  assumes "tables_loaded self" and "m < 30" and "length pre = m * 8" and "length tk = 8"
  shows "key_expansion_steps sbox 8 8 (pre @ tk) = pre @ tk @ next_tempKey self m tk"
proof -
  obtain c0 c1 c2 c3 c4 c5 c6 c7 where tk: "tk = [c0, c1, c2, c3, c4, c5, c6, c7]"
    using assms(4) by (auto simp: numeral_eq_Suc length_Suc_conv)
  define n0 where n0: "n0 = c0 + (map_col sbox (rot_word c7) + rcon_spec (m + 1))"
  define n1 where n1: "n1 = c1 + n0"
  define n2 where n2: "n2 = c2 + n1"
  define n3 where n3: "n3 = c3 + n2"
  define n4 where n4: "n4 = c4 + map_col sbox n3"
  define n5 where n5: "n5 = c5 + n4"
  define n6 where n6: "n6 = c6 + n5"
  define n7 where n7: "n7 = c7 + n6"
  note ns = n0 n1 n2 n3 n4 n5 n6 n7
  have "next_tempKey self m tk = [n0, n1, n2, n3, n4, n5, n6, n7]"
    by (simp add: tk next_tempKey_def Let_def xor_chain_def xor_col_plus sub_rot_spec [OF assms(1)]
        S_lookup_sbox [OF assms(1)] rcon_rot_word [OF assms(1,2)] upt_rec ns)
  moreover have len: "length [n0, n1, n2, n3, n4, n5, n6, n7] = 8" by simp
  moreover have "key_expansion_steps sbox 8 (length [n0, n1, n2, n3, n4, n5, n6, n7]) (pre @ tk)
      = (pre @ tk) @ [n0, n1, n2, n3, n4, n5, n6, n7]"
  proof (rule key_expansion_steps_list)
    fix i assume "i < length [n0, n1, n2, n3, n4, n5, n6, n7]"
    then consider "i = 0" | "i = 1" | "i = 2" | "i = 3" | "i = 4" | "i = 5" | "i = 6" | "i = 7" by fastforce
    then show "next_key_word sbox 8 ((pre @ tk) @ take i [n0, n1, n2, n3, n4, n5, n6, n7]) = [n0, n1, n2, n3, n4, n5, n6, n7] ! i"
      by cases (simp_all add: next_key_word_at [OF assms(3)] tk ns)
  qed
  ultimately show ?thesis by (simp only: append_assoc)
qed

lemma length_next_tempKey [simp]: "length (next_tempKey self m tk) = length tk"
proof -
  have "length (fold (\<lambda>j tk. tk[j := xor_col (tk ! j) (tk ! (j - 1))]) js tk) = length tk" for js tk
    by (induction js arbitrary: tk) simp_all
  then show ?thesis by (simp add: next_tempKey_def Let_def xor_chain_def)
qed

lemma next_tempKey_steps:
  assumes "tables_loaded self" and "m < 30" and "length pre = m * Nk" and "length tk = Nk"
    and "Nk \<in> {4, 6, 8}"
  shows "key_expansion_steps sbox Nk Nk (pre @ tk) = (pre @ tk) @ next_tempKey self m tk"
  using assms next_tempKey_4 next_tempKey_6 next_tempKey_8 by auto

text \<open>
  Word \<open>q\<close> of the schedule, and the state of the copying loops: the words produced so far fill
  the schedule up to the last round.
\<close>

definition key_word :: "col list list \<Rightarrow> nat \<Rightarrow> col" where
  "key_word ek q = ek ! (q div 4) ! (q mod 4)"

fun filled :: "nat \<Rightarrow> col list \<Rightarrow> col list list \<times> nat \<times> nat \<Rightarrow> bool" where
  "filled rounds ws (ek, r, t) \<longleftrightarrow>
     shaped ek \<and> t < 4 \<and> 4 * r + t = min (length ws) (4 * (rounds + 1))
     \<and> (\<forall>q < 4 * r + t. key_word ek q = ws ! q)"

lemma key_word_update:
  assumes "shaped ek" and "r < 15" and "t < 4" and "q < 60"
  shows "key_word (ek[r := (ek ! r)[t := w]]) q = (if q = 4 * r + t then w else key_word ek q)"
proof -
  have "(q div 4 = r \<and> q mod 4 = t) = (q = 4 * r + t)" using assms(3) by auto
  then show ?thesis
    using assms by (auto simp: key_word_def shaped_def nth_list_update)
qed

lemma shaped_update [simp]: "shaped ek \<Longrightarrow> shaped (ek[r := (ek ! r)[t := w]])"
  unfolding shaped_def by (metis length_list_update nth_list_update_eq nth_list_update_neq)

lemma filled_step:
  assumes "filled rounds ws (ek, r, t)" and "r \<le> rounds" and "rounds \<le> 14"
  shows "filled rounds (ws @ [w])
    (ek[r := (ek ! r)[t := w]], if Suc t = 4 then Suc r else r, if Suc t = 4 then 0 else Suc t)"
proof -
  have len: "length ws = 4 * r + t" using assms by (auto simp: min_def split: if_splits)
  have "key_word (ek[r := (ek ! r)[t := w]]) q = (ws @ [w]) ! q" if "q \<le> 4 * r + t" for q
    using that assms len by (auto simp: key_word_update nth_append)
  then show ?thesis using assms len by auto
qed

lemma filled_done:
  assumes "filled rounds ws (ek, r, t)" and "rounds < r"
  shows "filled rounds (ws @ vs) (ek, r, t)"
proof -
  have "4 * r + t = 4 * (rounds + 1)" and "4 * (rounds + 1) \<le> length ws"
    using assms by (auto simp: min_def split: if_splits)
  then show ?thesis using assms by (auto simp: nth_append)
qed

lemma filled_copy_words:
  assumes "filled rounds ws st" and "rounds \<le> 14"
  shows "filled rounds (ws @ vs) (copy_words rounds vs st)"
  using assms
proof (induction rounds vs st arbitrary: ws rule: copy_words.induct)
  case (2 rounds w vs ek r t)
  show ?case
  proof (cases "r \<le> rounds")
    case True
    show ?thesis
      using filled_step [OF "2.prems"(1) True "2.prems"(2), of w] "2.prems"(2) True
        "2.IH" [OF True refl, of "ws @ [w]"]
      by (cases "Suc t = 4") (simp_all add: Let_def del: filled.simps)
  next
    case False
    then show ?thesis using filled_done [OF "2.prems"(1), of "w # vs"] by (simp del: filled.simps)
  qed
qed simp

lemma keySched_loop_fills:
  assumes "tables_loaded self" and "m_uRounds self \<le> 14" and Nk: "Nk \<in> {4, 6, 8}"
    and "filled (m_uRounds self) ws st" and "ws = pre @ tk" and "length pre = m * Nk"
    and "length tk = Nk"
  shows "\<exists>ek r t n. keySched_loop self m tk st = Some ek
    \<and> filled (m_uRounds self) (key_expansion_steps sbox Nk n ws) (ek, r, t)
    \<and> m_uRounds self < r"
  using assms(4-7)
proof (induction "4 * (m_uRounds self + 1) - length ws" arbitrary: ws pre tk m st rule: less_induct)
  case less
  obtain ek r t where st: "st = (ek, r, t)" by (cases st)
  let ?tk = "next_tempKey self m tk" and ?n = "m_uRounds self"
  show ?case
  proof (cases "r \<le> ?n")
    case True
    then have lt: "length ws < 4 * (?n + 1)"
      using less.prems(1) st by (auto simp: min_def split: if_splits)
    have "(m + 1) * 4 \<le> length ws" using less.prems Nk by auto
    then have m: "m < 30" using lt assms(2) by simp
    have steps: "ws @ ?tk = key_expansion_steps sbox Nk Nk ws"
      using next_tempKey_steps [OF assms(1) m less.prems(3,4) Nk] less.prems(2) by simp
    have "filled ?n (ws @ ?tk) (copy_words ?n ?tk st)"
      by (rule filled_copy_words) (use less.prems(1) assms(2) in auto)
    then have "\<exists>ek r t n. keySched_loop self (Suc m) ?tk (copy_words ?n ?tk st) = Some ek
        \<and> filled ?n (key_expansion_steps sbox Nk n (ws @ ?tk)) (ek, r, t) \<and> ?n < r"
      by (intro less.hyps [where pre = "pre @ tk"]) (use less.prems lt Nk in auto)
    then show ?thesis
      unfolding steps key_expansion_steps_add [symmetric]
      using True st by (subst keySched_loop.simps) (auto simp del: filled.simps)
  next
    case False
    then have "keySched_loop self m tk st = Some ek"
      by (subst keySched_loop.simps) (simp add: st)
    moreover have "filled ?n (key_expansion_steps sbox Nk 0 ws) (ek, r, t)"
      using less.prems(1) st by simp
    ultimately show ?thesis using False by (meson not_le)
  qed
qed

section \<open>Initialisation\<close>

lemma keySched_expansion:
  assumes "tables_loaded self" and "shaped (m_expandedKey self)" and "m_uRounds self \<in> {10, 12, 14}"
    and len: "length key = m_uRounds self - 6"
  obtains ek where "keySched self key = Some (self\<lparr>m_expandedKey := ek\<rparr>)" and "shaped ek"
    and "\<And>r. r \<le> m_uRounds self \<Longrightarrow> round_key (self\<lparr>m_expandedKey := ek\<rparr>) r
      = schedule sbox (m_uRounds self - 6) (m_uRounds self) key r"
proof -
  let ?Nr = "m_uRounds self" and ?Nk = "m_uRounds self - 6"
  have Nk: "?Nk \<in> {4, 6, 8}" "?Nr \<le> 14" "?Nr = ?Nk + 6" using assms(3) by auto
  have "filled ?Nr key (copy_words ?Nr key (m_expandedKey self, 0, 0))"
    using filled_copy_words [of ?Nr "[]" "(m_expandedKey self, 0, 0)" key] assms(2) Nk by simp
  then have "\<exists>ek r t n. keySched_loop self 0 key (copy_words ?Nr key (m_expandedKey self, 0, 0)) = Some ek
      \<and> filled ?Nr (key_expansion_steps sbox ?Nk n key) (ek, r, t) \<and> ?Nr < r"
    by (intro keySched_loop_fills [OF assms(1) Nk(2,1), where pre = "[]"]) (simp_all add: len)
  then obtain ek r t n where ek:
    "keySched_loop self 0 key (copy_words ?Nr key (m_expandedKey self, 0, 0)) = Some ek"
    "filled ?Nr (key_expansion_steps sbox ?Nk n key) (ek, r, t)" "?Nr < r"
    by blast
  have sched: "keySched self key = Some (self\<lparr>m_expandedKey := ek\<rparr>)"
    using ek(1) len by (simp add: keySched_def)
  have full: "4 * r + t = 4 * (?Nr + 1)" "4 * (?Nr + 1) \<le> ?Nk + n"
    using ek(2,3) len by (auto simp: min_def split: if_splits)
  have w: "key_word ek q = key_expansion sbox ?Nk ?Nr key ! q" if "q < 4 * (?Nr + 1)" for q
  proof -
    have "key_word ek q = take (4 * (?Nr + 1)) (key_expansion_steps sbox ?Nk n key) ! q"
      using ek(2) full that by simp
    also have "4 * (?Nr + 1) = length key + (4 * (?Nr + 1) - ?Nk)" using len Nk by auto
    finally show ?thesis using key_expansion_take [of ?Nr ?Nk n key sbox] full len by simp
  qed
  have "round_key (self\<lparr>m_expandedKey := ek\<rparr>) r' = schedule sbox ?Nk ?Nr key r'" if "r' \<le> ?Nr" for r'
  proof -
    have "key_word ek (4 * r' + i) = ek ! r' ! i" if "i < 4" for i
      using that by (simp add: key_word_def)
    from this [of 0] this [of 1] this [of 2] this [of 3]
    show ?thesis using that w [of "4 * r'"] w [of "4 * r' + 1"] w [of "4 * r' + 2"] w [of "4 * r' + 3"]
      by (simp add: round_key_def schedule_def Let_def)
  qed
  then show ?thesis using that [OF sched] ek(2) by simp
qed

lemma key_length_of_cases:
  "key_length_of keyLen = Some (n, Nr) \<Longrightarrow> (n, Nr) \<in> {(16, 10), (24, 12), (32, 14)}"
  by (auto simp: key_length_of_def split: if_splits)

definition keyed :: "rijndael \<Rightarrow> nat \<Rightarrow> nat \<Rightarrow> u8 list \<Rightarrow> bool" where
  "keyed self n Nr key \<longleftrightarrow> m_state self = Valid \<and> m_uRounds self = Nr \<and> tables_loaded self
     \<and> shaped (m_expandedKey self)
     \<and> (m_direction self = Encrypt \<longrightarrow>
          (\<forall>a. r_encrypt self a = aes sbox (n div 4) Nr (key_matrix key (n div 4)) a))
     \<and> (m_direction self = Decrypt \<longrightarrow>
          (\<forall>a. r_decrypt self a = inv_aes sbox inv_sbox (n div 4) Nr (key_matrix key (n div 4)) a))"

lemma keyed_encrypt:
  assumes "tables_loaded self" and "shaped (m_expandedKey self)" and "m_state self = Valid"
    and "m_direction self = Encrypt" and "2 \<le> m_uRounds self"
    and "\<And>r. r \<le> m_uRounds self \<Longrightarrow> round_key self r = schedule sbox (n div 4) (m_uRounds self) (key_matrix key (n div 4)) r"
  shows "keyed self n (m_uRounds self) key"
  using assms aes_cipher_cong [of "m_uRounds self" "round_key self"]
  by (simp add: keyed_def r_encrypt_aes aes_def rijndael_enums)

lemma keyed_decrypt:
  assumes "tables_loaded self" and "shaped (m_expandedKey self)" and "2 \<le> m_uRounds self"
    and "m_uRounds self \<le> 14" and "m_direction self = Decrypt"
    and rk: "\<And>r. r \<le> m_uRounds self \<Longrightarrow> round_key self r = schedule sbox (n div 4) (m_uRounds self) (key_matrix key (n div 4)) r"
  shows "keyed (keyEncToDec self\<lparr>m_state := Valid\<rparr>) n (m_uRounds self) key"
    and "m_mode (keyEncToDec self) = m_mode self" and "m_initVector (keyEncToDec self) = m_initVector self"
    and "m_direction (keyEncToDec self) = m_direction self"
proof -
  obtain ek where ek: "keyEncToDec self = self\<lparr>m_expandedKey := ek\<rparr>" "shaped ek"
    "\<And>r. r \<le> m_uRounds self \<Longrightarrow> round_key (keyEncToDec self) r =
           (if 0 < r \<and> r < m_uRounds self then inv_mix_columns (round_key self r) else round_key self r)"
    using keyEncToDec_round_keys [OF assms(1,2,4)] by blast
  let ?d = "keyEncToDec self\<lparr>m_state := Valid\<rparr>" and ?w = "schedule sbox (n div 4) (m_uRounds self) (key_matrix key (n div 4))"
  have "round_key ?d r = round_key (keyEncToDec self) r" for r by (simp add: round_key_def)
  then have "r_decrypt ?d a = inv_aes_cipher inv_sbox ?w (m_uRounds self) a" for a
    using r_decrypt_inv_aes [of ?d ?w a] ek rk assms by simp
  then show "keyed ?d n (m_uRounds self) key"
    using ek assms by (simp add: keyed_def inv_aes_def rijndael_enums)
  show "m_mode (keyEncToDec self) = m_mode self" "m_initVector (keyEncToDec self) = m_initVector self"
    "m_direction (keyEncToDec self) = m_direction self"
    by (simp_all add: ek)
qed

lemma rijndael_init_keyed:
  assumes "tables_loaded self" and "shaped (m_expandedKey self)" and "mode \<in> {ECB, CBC, CFB1}"
    and "dir \<in> {Encrypt, Decrypt}" and kl: "key_length_of keyLen = Some (n, Nr)" and "n \<le> length key"
  obtains self' where "rijndael_init self mode dir (Some key) keyLen iv = Some (self', RIJNDAEL_SUCCESS)"
    and "keyed self' n Nr key" and "m_mode self' = mode" and "m_direction self' = dir"
    and "m_initVector self' = (case iv of Some v \<Rightarrow> v | None \<Rightarrow> 0)"
proof -
  let ?s = "self\<lparr>m_state := Invalid, m_mode := mode, m_direction := dir,
    m_initVector := (case iv of Some v \<Rightarrow> v | None \<Rightarrow> 0), m_uRounds := Nr\<rparr>"
  note n = key_length_of_cases [OF kl]
  have nk: "n div 4 = Nr - 6" "2 \<le> Nr" "Nr \<le> 14" using n by auto
  obtain ek where ek: "keySched ?s (key_matrix key (n div 4)) = Some (?s\<lparr>m_expandedKey := ek\<rparr>)" "shaped ek"
      "\<And>r. r \<le> Nr \<Longrightarrow> round_key (?s\<lparr>m_expandedKey := ek\<rparr>) r
        = schedule sbox (n div 4) Nr (key_matrix key (n div 4)) r"
    by (rule keySched_expansion [of ?s "key_matrix key (n div 4)"])
      (use assms(1,2) n in \<open>auto simp: key_matrix_def\<close>)
  let ?k = "?s\<lparr>m_expandedKey := ek\<rparr>"
  let ?r = "if dir = Decrypt then keyEncToDec ?k else ?k"
  have "keyed (?r\<lparr>m_state := Valid\<rparr>) n Nr key \<and> m_mode ?r = mode \<and> m_direction ?r = dir
      \<and> m_initVector ?r = (case iv of Some v \<Rightarrow> v | None \<Rightarrow> 0)"
  proof (cases "dir = Decrypt")
    case True
    then show ?thesis using keyed_decrypt [of ?k n key] ek assms(1) nk by simp
  next
    case False
    have "round_key (?k\<lparr>m_state := Valid\<rparr>) = round_key ?k" by (simp add: round_key_def fun_eq_iff)
    then show ?thesis using keyed_encrypt [of "?k\<lparr>m_state := Valid\<rparr>" n key] ek assms(1,4) nk False by simp
  qed
  moreover have "rijndael_init self mode dir (Some key) keyLen iv = Some (?r\<lparr>m_state := Valid\<rparr>, RIJNDAEL_SUCCESS)"
  proof -
    have "\<not> (mode \<noteq> CBC \<and> mode \<noteq> ECB \<and> mode \<noteq> CFB1)" "\<not> (dir \<noteq> Encrypt \<and> dir \<noteq> Decrypt)"
      "\<not> length key < n"
      using assms(3,4,6) by auto
    then show ?thesis by (simp only: rijndael_init_def Let_def if_False option.case kl prod.case) (simp add: ek(1))
  qed
  ultimately show ?thesis using that [of "?r\<lparr>m_state := Valid\<rparr>"] by simp
qed

section \<open>The drivers\<close>

lemma keyed_rounds_ok: "keyed self n Nr key \<Longrightarrow> key_length_of keyLen = Some (n, Nr) \<Longrightarrow> rounds_ok self"
  using key_length_of_cases by (fastforce simp: keyed_def rounds_ok_def)

lemma blockEncrypt_ecb:
  assumes "keyed self n Nr key" and "rounds_ok self" and "m_mode self = ECB" and "m_direction self = Encrypt"
    and "0 < k" and "k \<le> length blocks" and "k \<le> length out"
  shows "blockEncrypt self (Some blocks) (128 * int k) out = Some (128 * int k,
    map (aes sbox (n div 4) Nr (key_matrix key (n div 4))) (take k blocks) @ drop k out)"
  using assms by (simp add: blockEncrypt_def keyed_def)

lemma blockDecrypt_ecb:
  assumes "keyed self n Nr key" and "rounds_ok self" and "m_mode self = ECB" and "m_direction self = Decrypt"
    and "0 < k" and "k \<le> length blocks" and "k \<le> length out"
  shows "blockDecrypt self (Some blocks) (128 * int k) out = Some (128 * int k,
    map (inv_aes sbox inv_sbox (n div 4) Nr (key_matrix key (n div 4))) (take k blocks) @ drop k out)"
  using assms by (simp add: blockDecrypt_def keyed_def rijndael_enums)

lemma rijndael_init_failure:
  assumes "rijndael_init self mode dir key keyLen iv = Some (self', rc)" and "rc \<noteq> RIJNDAEL_SUCCESS"
  shows "m_state self' = Invalid"
  using assms by (auto simp: rijndael_init_def Let_def split: if_splits option.splits)

lemma cbc_chain_prefix: "n \<le> length ps \<Longrightarrow> cbc_chain self c n (ps @ qs) = cbc_chain self c n ps"
  by (induction self c n ps rule: cbc_chain.induct) simp_all

end
