(* ===== verification/Cipher_Properties.thy ===== *)
theory Cipher_Properties
  imports Rijndael_Correct
begin

text \<open>
  The properties of the cipher of \<^verbatim>\<open>src/rijndael.c\<close>, with the vector of FIPS-197,
  appendix B/C.1, evaluated on the specification.
\<close>

section \<open>The vector of the standard\<close>

definition fips_key :: "u8 list" where "fips_key = [0,1,2,3,4,5,6,7,8,9,10,11,12,13,14,15]"
definition fips_plain :: block where
  "fips_plain = bytes_block
     [0x00,0x11,0x22,0x33,0x44,0x55,0x66,0x77,0x88,0x99,0xaa,0xbb,0xcc,0xdd,0xee,0xff]"

definition fips_cipher :: block where
  "fips_cipher = bytes_block
     [0x69,0xc4,0xe0,0xd8,0x6a,0x7b,0x04,0x30,0xd8,0xcd,0xb7,0x80,0x70,0xb4,0xc5,0x5a]"

definition fips_schedule :: "col list" where
  "fips_schedule = [Col 0x00 0x01 0x02 0x03, Col 0x04 0x05 0x06 0x07, Col 0x08 0x09 0x0a 0x0b,
   Col 0x0c 0x0d 0x0e 0x0f, Col 0xd6 0xaa 0x74 0xfd, Col 0xd2 0xaf 0x72 0xfa,
   Col 0xda 0xa6 0x78 0xf1, Col 0xd6 0xab 0x76 0xfe, Col 0xb6 0x92 0xcf 0x0b,
   Col 0x64 0x3d 0xbd 0xf1, Col 0xbe 0x9b 0xc5 0x00, Col 0x68 0x30 0xb3 0xfe,
   Col 0xb6 0xff 0x74 0x4e, Col 0xd2 0xc2 0xc9 0xbf, Col 0x6c 0x59 0x0c 0xbf,
   Col 0x04 0x69 0xbf 0x41, Col 0x47 0xf7 0xf7 0xbc, Col 0x95 0x35 0x3e 0x03,
   Col 0xf9 0x6c 0x32 0xbc, Col 0xfd 0x05 0x8d 0xfd, Col 0x3c 0xaa 0xa3 0xe8,
   Col 0xa9 0x9f 0x9d 0xeb, Col 0x50 0xf3 0xaf 0x57, Col 0xad 0xf6 0x22 0xaa,
   Col 0x5e 0x39 0x0f 0x7d, Col 0xf7 0xa6 0x92 0x96, Col 0xa7 0x55 0x3d 0xc1,
   Col 0x0a 0xa3 0x1f 0x6b, Col 0x14 0xf9 0x70 0x1a, Col 0xe3 0x5f 0xe2 0x8c,
   Col 0x44 0x0a 0xdf 0x4d, Col 0x4e 0xa9 0xc0 0x26, Col 0x47 0x43 0x87 0x35,
   Col 0xa4 0x1c 0x65 0xb9, Col 0xe0 0x16 0xba 0xf4, Col 0xae 0xbf 0x7a 0xd2,
   Col 0x54 0x99 0x32 0xd1, Col 0xf0 0x85 0x57 0x68, Col 0x10 0x93 0xed 0x9c,
   Col 0xbe 0x2c 0x97 0x4e, Col 0x13 0x11 0x1d 0x7f, Col 0xe3 0x94 0x4a 0x17,
   Col 0xf3 0x07 0xa7 0x8b, Col 0x4d 0x2b 0x30 0xc5]"
lemma fips_expansion:
  "key_expansion sbox 4 10 (key_matrix fips_key 4) = fips_schedule"
  by code_simp
definition fips_block :: "nat \<Rightarrow> block" where
 "fips_block r = (let w = fips_schedule in Block (w ! (4 * r)) (w ! (4 * r + 1)) (w ! (4 * r + 2)) (w ! (4 * r + 3)))"
lemma fips_rounds: "aes_cipher sbox fips_block 10 fips_plain = fips_cipher"
  by code_simp

lemma fips_197: "aes sbox 4 10 (key_matrix fips_key 4) fips_plain = fips_cipher"
  unfolding aes_def schedule_def fips_expansion Let_def
  using fips_rounds by (simp only: fips_block_def [abs_def] Let_def)

lemma shaped_zero: "shaped (m_expandedKey (init_rijndael_OP zero_rijndael))"
  by (simp add: shaped_def zero_rijndael_def init_rijndael_OP_def)

section \<open>Properties\<close>

text \<open>
  C16.  For every key length, a context that \<^verbatim>\<open>rijndael_init\<close> sets up for encryption in mode ECB
  makes \<^verbatim>\<open>blockEncrypt\<close> apply the cipher of FIPS-197, under the standard's key expansion of the
  given key bytes, to each of the first \<open>k\<close> blocks of the input, returning the number of bits
  and leaving the rest of the output buffer as it was.
\<close>

theorem ecb_encrypts_with_aes:
  assumes "tables_loaded self" and "shaped (m_expandedKey self)"
    and "key_length_of keyLen = Some (n, Nr)" and "n \<le> length key"
    and "0 < k" and "k \<le> length blocks" and "k \<le> length out"
  shows "\<exists>self'. rijndael_init self ECB Encrypt (Some key) keyLen iv = Some (self', RIJNDAEL_SUCCESS)
    \<and> blockEncrypt self' (Some blocks) (128 * int k) out = Some (128 * int k,
        map (aes sbox (n div 4) Nr (key_matrix key (n div 4))) (take k blocks) @ drop k out)"
proof -
  obtain self' where "rijndael_init self ECB Encrypt (Some key) keyLen iv = Some (self', RIJNDAEL_SUCCESS)"
    "keyed self' n Nr key" "m_mode self' = ECB" "m_direction self' = Encrypt"
    using rijndael_init_keyed [OF assms(1,2), of ECB Encrypt keyLen n Nr key iv] assms(3,4)
    by (metis insertI1)
  then show ?thesis
    using blockEncrypt_ecb keyed_rounds_ok assms by blast
qed

theorem ecb_encrypts_with_aes_witness:
  "\<exists>self'. rijndael_init (init_rijndael_OP zero_rijndael) ECB Encrypt (Some fips_key) Key16Bytes None
       = Some (self', RIJNDAEL_SUCCESS)
     \<and> blockEncrypt self' (Some [fips_plain]) 128 [0, fips_plain] = Some (128, [fips_cipher, fips_plain])"
  using ecb_encrypts_with_aes [OF tables_loaded_init shaped_zero, where keyLen = Key16Bytes
      and n = 16 and Nr = 10 and key = fips_key and k = 1 and blocks = "[fips_plain]"
      and out = "[0, fips_plain]" and iv = None]
  by (simp add: fips_197 key_length_of_def) (simp add: fips_key_def)

text \<open>
  C17.  Round trip: for every key length, the context initialised with \<^verbatim>\<open>Decrypt\<close> restores
  every buffer that the context initialised with \<^verbatim>\<open>Encrypt\<close> and the same key produced.
\<close>

theorem ecb_round_trip:
  assumes "tables_loaded s1" and "shaped (m_expandedKey s1)"
    and "tables_loaded s2" and "shaped (m_expandedKey s2)"
    and "key_length_of keyLen = Some (n, Nr)" and "n \<le> length key"
    and "blocks \<noteq> []" and "length out = length blocks" and "length out' = length blocks"
  shows "\<exists>e d cipher bits.
    rijndael_init s1 ECB Encrypt (Some key) keyLen iv = Some (e, RIJNDAEL_SUCCESS)
    \<and> rijndael_init s2 ECB Decrypt (Some key) keyLen iv' = Some (d, RIJNDAEL_SUCCESS)
    \<and> bits = 128 * int (length blocks)
    \<and> blockEncrypt e (Some blocks) bits out = Some (bits, cipher)
    \<and> blockDecrypt d (Some cipher) bits out' = Some (bits, blocks)"
proof -
  obtain e where e: "rijndael_init s1 ECB Encrypt (Some key) keyLen iv = Some (e, RIJNDAEL_SUCCESS)"
    "keyed e n Nr key" "m_mode e = ECB" "m_direction e = Encrypt"
    using rijndael_init_keyed [OF assms(1,2), of ECB Encrypt keyLen n Nr key iv] assms(5,6)
    by (metis insertI1)
  obtain d where d: "rijndael_init s2 ECB Decrypt (Some key) keyLen iv' = Some (d, RIJNDAEL_SUCCESS)"
    "keyed d n Nr key" "m_mode d = ECB" "m_direction d = Decrypt"
    using rijndael_init_keyed [OF assms(3,4), of ECB Decrypt keyLen n Nr key iv'] assms(5,6)
    by (metis insertI1 insertI2)
  note r = keyed_rounds_ok [OF e(2) assms(5)] keyed_rounds_ok [OF d(2) assms(5)]
  show ?thesis
    using e(1) d(1) assms(7-9)
      blockEncrypt_ecb [OF e(2) r(1) e(3,4), of "length blocks" blocks out]
      blockDecrypt_ecb [OF d(2) r(2) d(3,4), of "length blocks" _ out']
    by (simp add: comp_def aes.inv_aes_aes)
qed

theorem ecb_round_trip_witness:
  "\<exists>e d cipher bits.
    rijndael_init (init_rijndael_OP zero_rijndael) ECB Encrypt (Some (replicate 32 7)) Key32Bytes None
      = Some (e, RIJNDAEL_SUCCESS)
    \<and> rijndael_init (init_rijndael_OP zero_rijndael) ECB Decrypt (Some (replicate 32 7)) Key32Bytes None
      = Some (d, RIJNDAEL_SUCCESS)
    \<and> bits = 128 * int (length [fips_plain, fips_cipher])
    \<and> blockEncrypt e (Some [fips_plain, fips_cipher]) bits [0, 0] = Some (bits, cipher)
    \<and> blockDecrypt d (Some cipher) bits [0, 0] = Some (bits, [fips_plain, fips_cipher])"
  by (rule ecb_round_trip [OF tables_loaded_init shaped_zero tables_loaded_init shaped_zero,
        where n = 32 and Nr = 14]) (simp_all add: key_length_of_def rijndael_enums)

text \<open>
  The 256 entries of the table \<^verbatim>\<open>S\<close> of \<^verbatim>\<open>init_rijndael_OP\<close> are the S-box of the standard:
  the affine image of the inverse in the field of \<^verbatim>\<open>0x11b\<close>.  \<^verbatim>\<open>S5\<close> inverts it.
\<close>

theorem tables_are_the_sbox:
  "is_aes_sbox (\<lambda>b. tab_S (init_rijndael_OP self) ! unat b)
   \<and> map (\<lambda>b. tab_S5 (init_rijndael_OP self) ! unat b) (tab_S (init_rijndael_OP self)) = all_bytes"
  using S_table_is_aes_sbox S5_S by (simp add: init_rijndael_OP_def inv_sbox_def [abs_def] sbox_def [abs_def])

text \<open>
  Whatever the arguments, when \<^verbatim>\<open>rijndael_init\<close> reports an error the context is unusable:
  both drivers then return \<^verbatim>\<open>RIJNDAEL_NOT_INITIALIZED\<close> and do not touch the output.
\<close>

theorem failed_init_disables:
  assumes "rijndael_init self mode dir key keyLen iv = Some (self', rc)" and "rc \<noteq> RIJNDAEL_SUCCESS"
  shows "blockEncrypt self' input len out = Some (RIJNDAEL_NOT_INITIALIZED, out)
    \<and> blockDecrypt self' input len out = Some (RIJNDAEL_NOT_INITIALIZED, out)"
  using rijndael_init_failure [OF assms] by (simp add: blockEncrypt_def blockDecrypt_def rijndael_enums)

theorem failed_init_disables_witness:
  "\<exists>self'. rijndael_init (init_rijndael_OP zero_rijndael) ECB Encrypt None Key16Bytes None
      = Some (self', RIJNDAEL_BAD_KEY)
    \<and> blockEncrypt self' (Some [fips_plain]) 128 [0] = Some (RIJNDAEL_NOT_INITIALIZED, [0])
    \<and> blockDecrypt self' (Some [fips_plain]) 128 [0] = Some (RIJNDAEL_NOT_INITIALIZED, [0])"
proof -
  obtain self' where s: "rijndael_init (init_rijndael_OP zero_rijndael) ECB Encrypt None Key16Bytes None
      = Some (self', RIJNDAEL_BAD_KEY)"
    by (simp add: rijndael_init_def rijndael_enums key_length_of_def)
  then show ?thesis
    using failed_init_disables [OF s, of "Some [fips_plain]" 128 "[0]"] by (simp add: rijndael_codes)
qed

text \<open>
  Mode CBC ignores its last block: \<^verbatim>\<open>input32\<close> is not advanced with the first block, so from
  the second on each output block chains the previous plaintext block, and two messages that
  differ only in the last of at least two blocks have the same ciphertext.
\<close>

theorem cbc_ignores_last_block:
  assumes "m_state self = Valid" and "m_direction self = Encrypt" and "m_mode self = CBC"
    and "rounds_ok self" and "bs \<noteq> []" and "length out = length bs + 1"
  shows "blockEncrypt self (Some (bs @ [x])) (128 * int (length bs + 1)) out \<noteq> None
    \<and> blockEncrypt self (Some (bs @ [x])) (128 * int (length bs + 1)) out
      = blockEncrypt self (Some (bs @ [y])) (128 * int (length bs + 1)) out"
proof -
  have *: "nat (128 * (1 + int (length bs)) div 128) = Suc (length bs)" by simp
  show ?thesis
    using assms by (auto simp: blockEncrypt_def Let_def cbc_chain_prefix rijndael_enums * add.commute)
qed

theorem cbc_ignores_last_block_witness:
  "\<exists>self. blockEncrypt self (Some ([0] @ [fips_plain])) (128 * int (length [0::block] + 1)) [0, 0] \<noteq> None
    \<and> blockEncrypt self (Some ([0] @ [fips_plain])) (128 * int (length [0::block] + 1)) [0, 0]
      = blockEncrypt self (Some ([0] @ [fips_cipher])) (128 * int (length [0::block] + 1)) [0, 0]"
  by (rule exI, rule cbc_ignores_last_block [where self = "zero_rijndael\<lparr>m_mode := CBC, m_uRounds := 10\<rparr>"])
    (simp_all add: zero_rijndael_def rijndael_enums rounds_ok_def)

text \<open>
  The state enumeration makes zero mean \<^verbatim>\<open>Valid\<close>: a static context on which no
  initialisation ever ran passes the check of \<^verbatim>\<open>blockEncrypt\<close> and, with no rounds, reads outside
  the key schedule instead of being refused.
\<close>

theorem zero_context_not_refused:
  "blockEncrypt zero_rijndael (Some [b]) 128 [c] = None"
  by (simp add: blockEncrypt_def zero_rijndael_def rijndael_enums rounds_ok_def)

end
