(* ===== verification/Base64.thy ===== *)
theory Base64
  imports Prelude
begin

text \<open>
  The coder of \<^verbatim>\<open>src/base64.h\<close>, through which the key of an interface is read from the
  configuration.  Characters are bytes and a C string is the list of them before the terminator.
\<close>

section \<open>Alphabet\<close>

definition b64 :: "u8 list" where
  "b64 = [65, 66, 67, 68, 69, 70, 71, 72, 73, 74, 75, 76, 77, 78, 79, 80, 81, 82, 83, 84,
     85, 86, 87, 88, 89, 90, 97, 98, 99, 100, 101, 102, 103, 104, 105, 106, 107, 108, 109, 110,
     111, 112, 113, 114, 115, 116, 117, 118, 119, 120, 121, 122, 48, 49, 50, 51, 52, 53, 54, 55,
     56, 57, 43, 47]"

definition unb64 :: "u8 list" where
  "unb64 = [0, 0, 0, 0, 0, 0, 0, 0, 0, 0, 0, 0, 0, 0, 0, 0, 0, 0, 0, 0,
     0, 0, 0, 0, 0, 0, 0, 0, 0, 0, 0, 0, 0, 0, 0, 0, 0, 0, 0, 0,
     0, 0, 0, 62, 0, 0, 0, 63, 52, 53, 54, 55, 56, 57, 58, 59, 60, 61, 0, 0,
     0, 0, 0, 0, 0, 0, 1, 2, 3, 4, 5, 6, 7, 8, 9, 10, 11, 12, 13, 14,
     15, 16, 17, 18, 19, 20, 21, 22, 23, 24, 25, 0, 0, 0, 0, 0, 0, 26, 27, 28,
     29, 30, 31, 32, 33, 34, 35, 36, 37, 38, 39, 40, 41, 42, 43, 44, 45, 46, 47, 48,
     49, 50, 51, 0, 0, 0, 0, 0, 0, 0, 0, 0, 0, 0, 0, 0, 0, 0, 0, 0,
     0, 0, 0, 0, 0, 0, 0, 0, 0, 0, 0, 0, 0, 0, 0, 0, 0, 0, 0, 0,
     0, 0, 0, 0, 0, 0, 0, 0, 0, 0, 0, 0, 0, 0, 0, 0, 0, 0, 0, 0,
     0, 0, 0, 0, 0, 0, 0, 0, 0, 0, 0, 0, 0, 0, 0, 0, 0, 0, 0, 0,
     0, 0, 0, 0, 0, 0, 0, 0, 0, 0, 0, 0, 0, 0, 0, 0, 0, 0, 0, 0,
     0, 0, 0, 0, 0, 0, 0, 0, 0, 0, 0, 0, 0, 0, 0, 0, 0, 0, 0, 0,
     0, 0, 0, 0, 0, 0, 0, 0, 0, 0, 0, 0, 0, 0, 0, 0]"

definition b64_char :: "u8 \<Rightarrow> u8" where "b64_char i = b64 ! unat i"
definition unb64_char :: "u8 \<Rightarrow> u8" where "unb64_char c = unb64 ! unat c"

section \<open>Encoding\<close>

text \<open>The clauses are the loop over groups of three bytes and the tails for \<open>pad\<close> 0, 2 and 1.\<close>

fun base64 :: "u8 list \<Rightarrow> u8 list" where
  "base64 (b0 # b1 # b2 # bs) =
     b64_char (drop_bit 2 b0) # b64_char (push_bit 4 (0x3 AND b0) + drop_bit 4 b1)
     # b64_char (push_bit 2 (0x0f AND b1) + drop_bit 6 b2) # b64_char (0x3f AND b2) # base64 bs"
| "base64 [b0, b1] =
     [b64_char (drop_bit 2 b0), b64_char (push_bit 4 (0x3 AND b0) + drop_bit 4 b1),
      b64_char (push_bit 2 (0x0f AND b1)), 61]"
| "base64 [b0] = [b64_char (drop_bit 2 b0), b64_char (push_bit 4 (0x3 AND b0)), 61, 61]"
| "base64 [] = []"

section \<open>Decoding\<close>

text \<open>
  \<^verbatim>\<open>charNo <= len - 4 - pad\<close> says that at least \<open>4 + pad\<close> characters remain.  The result is
  the bytes written and the characters from \<^verbatim>\<open>charNo\<close> on.
\<close>

fun unb64_loop :: "nat \<Rightarrow> u8 list \<Rightarrow> u8 list \<times> u8 list" where
  "unb64_loop pad (a # b # c # d # cs) =
     (if pad \<le> length cs then
        let (bin, rest) = unb64_loop pad cs;
            A = unb64_char a; B = unb64_char b; C = unb64_char c; D = unb64_char d
        in ((push_bit 2 A OR drop_bit 4 B) # (push_bit 4 B OR drop_bit 2 C) # (push_bit 6 C OR D) # bin,
            rest)
      else ([], a # b # c # d # cs))"
| "unb64_loop pad cs = ([], cs)"

text \<open>
  The tail reads the terminator when the characters run out by one; further out is a fault.
\<close>

definition unb64_tail :: "nat \<Rightarrow> u8 list \<Rightarrow> u8 list option" where
  "unb64_tail pad rest =
     (case (pad, map unb64_char (rest @ [0])) of
        (Suc 0, A # B # C # _) \<Rightarrow> Some [push_bit 2 A OR drop_bit 4 B, push_bit 4 B OR drop_bit 2 C]
      | (Suc 0, _) \<Rightarrow> None
      | (Suc (Suc 0), A # B # _) \<Rightarrow> Some [push_bit 2 A OR drop_bit 4 B]
      | (Suc (Suc 0), _) \<Rightarrow> None
      | _ \<Rightarrow> Some [])"

text \<open>
  The result is the pointer, \<open>None\<close> being \<^verbatim>\<open>NULL\<close>, with the bytes written behind it, and
  \<^verbatim>\<open>*flen\<close>.  A negative length makes \<^verbatim>\<open>malloc\<close> fail; writing more bytes than were
  allocated is a fault.  Fewer bytes may be written than allocated, which the list shows.
\<close>

definition unbase64 :: "u8 list \<Rightarrow> (u8 list option \<times> int) option" where
  "unbase64 ascii =
     (let len = length ascii in
      if len < 2 then Some (None, 0)
      else
        let pad = (if ascii ! (len - 1) = 61 then 1 else 0) + (if ascii ! (len - 2) = 61 then 1 else 0);
            flen = int (3 * len div 4) - int pad
        in if flen < 0 then Some (None, flen)
           else do {
             let (bin, rest) = unb64_loop pad ascii;
             tl \<leftarrow> unb64_tail pad rest;
             if flen < int (length (bin @ tl)) then None else Some (Some (bin @ tl), flen)
           })"

section \<open>Round trip\<close>

lemma b64_alphabet:
  "list_all (\<lambda>i. unb64_char (b64_char i) = i \<and> b64_char i \<noteq> 61) (map of_nat [0..<64])"
  by code_simp

lemma drop_bit_6_u8: "drop_bit 6 x = 0 \<Longrightarrow> unat x < 64" for x :: u8
proof -
  assume "drop_bit 6 x = 0"
  then have "unat (drop_bit 6 x) = 0" by simp
  then show ?thesis unfolding unat_drop_bit_eq by (simp add: drop_bit_eq_div)
qed

lemma b64_inverse:
  assumes "drop_bit 6 x = 0"
  shows "unb64_char (b64_char x) = x" and "b64_char x \<noteq> 61"
proof -
  have "unat x < 64" using drop_bit_6_u8 [OF assms] .
  then have "x \<in> set (map of_nat [0..<64])"
    by (auto intro!: image_eqI [of _ _ "unat x"])
  then show "unb64_char (b64_char x) = x" "b64_char x \<noteq> 61"
    using b64_alphabet by (auto simp only: list_all_iff)
qed

lemma sextet_or:
  "push_bit 4 (0x3 AND x) + drop_bit 4 y = push_bit 4 (0x3 AND x) OR drop_bit 4 y"
  "push_bit 2 (0x0f AND x) + drop_bit 6 y = push_bit 2 (0x0f AND x) OR drop_bit 6 y" for x y :: u8
   by (rule disjunctive_add; auto simp: bit_simps dest: bit_imp_le_length)+

lemma sextets [simp]:
  "drop_bit 6 (drop_bit 2 x) = 0"
  "drop_bit 6 (push_bit 4 (0x3 AND x) OR drop_bit 4 y) = 0"
  "drop_bit 6 (push_bit 4 (0x3 AND x)) = 0"
  "drop_bit 6 (push_bit 2 (0x0f AND x) OR drop_bit 6 y) = 0"
  "drop_bit 6 (push_bit 2 (0x0f AND x)) = 0"
  "drop_bit 6 (0x3f AND x) = 0" for x y :: u8
  by (rule bit_word_eqI; auto simp: bit_simps bit_numeral_rec less_Suc_eq numeral_eq_Suc)+


lemma all_bits_8: "(\<forall>n < 8. P n) \<longleftrightarrow> list_all P [0..<8]" for P :: "nat \<Rightarrow> bool"
  by (auto simp: list_all_iff)

lemma u8_bits: "list_all (\<lambda>n. bit x n = bit y n) [0..<8] \<Longrightarrow> x = y" for x y :: u8
  by (rule bit_word_eqI) (simp flip: all_bits_8)

lemma octets [simp]:
  "push_bit 2 (drop_bit 2 x) OR drop_bit 4 (push_bit 4 (0x3 AND x) OR drop_bit 4 y) = x"
  "push_bit 2 (drop_bit 2 x) OR drop_bit 4 (push_bit 4 (0x3 AND x)) = x"
  "push_bit 4 (push_bit 4 (0x3 AND x) OR drop_bit 4 y)
     OR drop_bit 2 (push_bit 2 (0x0f AND y) OR drop_bit 6 z) = y"
  "push_bit 4 (push_bit 4 (0x3 AND x) OR drop_bit 4 y) OR drop_bit 2 (push_bit 2 (0x0f AND y)) = y"
  "push_bit 6 (push_bit 2 (0x0f AND y) OR drop_bit 6 z) OR (0x3f AND z) = z"
  "push_bit 4 (drop_bit 4 y) OR drop_bit 2 (push_bit 2 (0x0f AND y)) = y"
  "push_bit 6 (drop_bit 6 z) OR (0x3f AND z) = z"
  for x y z :: u8
  by (rule u8_bits; simp add: upt_rec bit_simps bit_numeral_rec; (simp add: numeral_eq_Suc)?)+

lemma length_base64: "length (base64 bs) = 4 * ((length bs + 2) div 3)"
proof (induction bs rule: base64.induct)
  case (1 b0 b1 b2 bs)
  have "(length (b0 # b1 # b2 # bs) + 2) div 3 = Suc ((length bs + 2) div 3)" by simp
  then show ?case using 1 by simp
qed simp_all

lemma base64_end:
  "length bs mod 3 = 1 \<Longrightarrow> \<exists>cs. base64 bs = cs @ [61, 61]"
  "length bs mod 3 = 2 \<Longrightarrow> \<exists>cs c. base64 bs = cs @ [c, 61] \<and> c \<noteq> 61"
  "length bs mod 3 = 0 \<Longrightarrow> bs \<noteq> [] \<Longrightarrow> \<exists>cs c d. base64 bs = cs @ [c, d] \<and> c \<noteq> 61 \<and> d \<noteq> 61"
proof (induction bs rule: base64.induct)
  case (1 b0 b1 b2 bs)
  let ?g = "[b64_char (drop_bit 2 b0), b64_char (push_bit 4 (0x3 AND b0) + drop_bit 4 b1),
     b64_char (push_bit 2 (0x0f AND b1) + drop_bit 6 b2), b64_char (0x3f AND b2)]"
  have g: "base64 (b0 # b1 # b2 # bs) = ?g @ base64 bs" by simp
  { case 1 then obtain cs where "base64 bs = cs @ [61, 61]" using "1.IH"(1) by auto
    then show ?case unfolding g by (metis append_assoc) }
  { case 2 then obtain cs c where "base64 bs = cs @ [c, 61]" "c \<noteq> 61" using "1.IH"(2) by auto
    then show ?case unfolding g by (metis append_assoc) }
  { case 3
    show ?case
    proof (cases "bs = []")
      case True
      then show ?thesis
        by (intro exI [of _ "take 2 ?g"]) (simp add: b64_inverse sextet_or del: push_bit_and)
    next
      case False
      then obtain cs c d where "base64 bs = cs @ [c, d]" "c \<noteq> 61" "d \<noteq> 61"
        using "1.IH"(3) 3 by auto
      then show ?thesis unfolding g by (metis append_assoc)
    qed }
qed (simp_all add: b64_inverse sextet_or del: push_bit_and)

lemma groups_of_three: "(n + 2) div 3 = n div 3 + (if n mod 3 = 0 then 0 else 1)" for n :: nat
proof -
  have *: "(3 * q + r + 2) div 3 = q + (if r = 0 then 0 else 1)" if "r < 3" for q r :: nat
  proof -
    consider "r = 0" | "r = 1" | "r = 2" using \<open>r < 3\<close> by linarith
    then show ?thesis by cases simp_all
  qed
  show ?thesis using * [of "n mod 3" "n div 3"] by simp
qed

lemma take_three:
  "take (3 + n) (a # b # c # xs) = a # b # c # take n xs"
  "drop (3 + n) (a # b # c # xs) = drop n xs"
  by (simp_all add: numeral_3_eq_3)

lemma base64_loop:
  assumes "pad = (if length bs mod 3 = 0 then 0 else 3 - length bs mod 3)"
  shows "unb64_loop pad (base64 bs)
     = (take (3 * (length bs div 3)) bs, base64 (drop (3 * (length bs div 3)) bs))"
  using assms
proof (induction bs rule: base64.induct)
  case (1 b0 b1 b2 bs)
  have pad: "pad = (if length bs mod 3 = 0 then 0 else 3 - length bs mod 3)"
    using "1.prems" by simp
  then have "pad \<le> length (base64 bs)"
    by (cases bs) (auto simp: length_base64)
  moreover have "(3 + length bs) div 3 = Suc (length bs div 3)" by presburger
  ultimately show ?case
    using "1.IH" [OF pad] by (simp add: b64_inverse sextet_or Let_def take_three del: push_bit_and)
qed simp_all


lemma short_cases:
  fixes xs :: "'a list"
  obtains "length xs mod 3 = 0" "drop (3 * (length xs div 3)) xs = []"
  | b where "length xs mod 3 = 1" "drop (3 * (length xs div 3)) xs = [b]"
  | b c where "length xs mod 3 = 2" "drop (3 * (length xs div 3)) xs = [b, c]"
proof -
  let ?r = "drop (3 * (length xs div 3)) xs"
  have len: "length ?r = length xs mod 3" by (simp add: minus_mult_div_eq_mod)
  moreover have "length xs mod 3 < 3" by simp
  ultimately consider "length xs mod 3 = 0" "?r = []" | "length xs mod 3 = 1" "length ?r = 1"
    | "length xs mod 3 = 2" "length ?r = 2"
    by (metis One_nat_def less_Suc_eq length_0_conv less_one numeral_2_eq_2 numeral_3_eq_3)
  then show ?thesis
  proof cases
    case 2
    then obtain b where "?r = [b]" by (metis One_nat_def length_0_conv length_Suc_conv)
    then show ?thesis using that(2) 2 by blast
  next
    case 3
    then obtain b c where "?r = [b, c]" by (metis length_0_conv length_Suc_conv numeral_2_eq_2)
    then show ?thesis using that(3) 3 by blast
  qed (rule that(1))
qed

lemma unbase64_intro:
  assumes "ascii = cs @ [c, d]"
    and "pad = (if d = 61 then 1 else 0) + (if c = 61 then 1 else 0)"
    and "unb64_loop pad ascii = (bin, rest)" and "unb64_tail pad rest = Some end'"
    and "length bin + length end' + pad = 3 * length ascii div 4"
  shows "unbase64 ascii = Some (Some (bin @ end'), int (length (bin @ end')))"
proof -
  have "\<not> length ascii < 2" "ascii ! (length ascii - 1) = d" "ascii ! (length ascii - 2) = c"
    by (simp_all add: assms(1) nth_append)
  then have "unbase64 ascii = (let flen = int (3 * length ascii div 4) - int pad in
      if flen < 0 then Some (None, flen)
      else if flen < int (length (bin @ end')) then None else Some (Some (bin @ end'), flen))"
    unfolding unbase64_def Let_def by (simp only: assms(2) [symmetric] assms(3)) (simp add: assms(4))
  then show ?thesis unfolding assms(5) [symmetric] by simp
qed

lemma unbase64_base64:
  assumes "bs \<noteq> []"
  shows "unbase64 (base64 bs) = Some (Some bs, int (length bs))"
proof -
  let ?n = "length bs" and ?k = "length bs div 3"
  have n: "?n = 3 * ?k + ?n mod 3" by simp
  have t: "length (take (3 * ?k) bs) = 3 * ?k" by simp
  have split: "take (3 * ?k) bs @ drop (3 * ?k) bs = bs" by simp
  show ?thesis
  proof (rule short_cases [of bs])
    assume m: "?n mod 3 = 0" and r: "drop (3 * ?k) bs = []"
    obtain cs c d where e: "base64 bs = cs @ [c, d]" "c \<noteq> 61" "d \<noteq> 61"
      using base64_end(3) [OF m assms] by blast
    have l: "length (base64 bs) = 4 * ?k" by (simp only: length_base64 groups_of_three m) simp
    have "unbase64 (base64 bs) = Some (Some (bs @ []), int (length (bs @ [])))"
      by (rule unbase64_intro [OF e(1), of 0])
        (use e(2,3) base64_loop [of 0 bs] m n l r in \<open>simp_all add: unb64_tail_def\<close>)
    then show ?thesis by simp
  next
    fix b assume m: "?n mod 3 = 1" and r: "drop (3 * ?k) bs = [b]"
    obtain cs where e: "base64 bs = cs @ [61, 61]" using base64_end(1) [OF m] by blast
    have l: "length (base64 bs) = 4 * ?k + 4" by (simp only: length_base64 groups_of_three m) simp
    have u: "unb64_loop 2 (base64 bs) = (take (3 * ?k) bs, base64 [b])"
      using base64_loop [of 2 bs] m r by simp
    have "unbase64 (base64 bs) = Some (Some (take (3 * ?k) bs @ [b]), int (length (take (3 * ?k) bs @ [b])))"
    proof (rule unbase64_intro [OF e _ u])
      show "unb64_tail 2 (base64 [b]) = Some [b]"
        by (simp add: unb64_tail_def b64_inverse del: push_bit_and)
      show "length (take (3 * ?k) bs) + length [b] + 2 = 3 * length (base64 bs) div 4"
        unfolding t l by simp
    qed simp
    then show ?thesis using split unfolding r by (simp only:)
  next
    fix b c assume m: "?n mod 3 = 2" and r: "drop (3 * ?k) bs = [b, c]"
    obtain cs d where e: "base64 bs = cs @ [d, 61]" "d \<noteq> 61" using base64_end(2) [OF m] by blast
    have l: "length (base64 bs) = 4 * ?k + 4" by (simp only: length_base64 groups_of_three m) simp
    have u: "unb64_loop 1 (base64 bs) = (take (3 * ?k) bs, base64 [b, c])"
      using base64_loop [of 1 bs] m r by simp
    have "unbase64 (base64 bs) = Some (Some (take (3 * ?k) bs @ [b, c]), int (length (take (3 * ?k) bs @ [b, c])))"
    proof (rule unbase64_intro [OF e(1) _ u])
      show "unb64_tail 1 (base64 [b, c]) = Some [b, c]"
        by (simp add: unb64_tail_def b64_inverse sextet_or del: push_bit_and)
      show "length (take (3 * ?k) bs) + length [b, c] + 1 = 3 * length (base64 bs) div 4"
        unfolding t l by simp
    qed (use e(2) in simp)
    then show ?thesis using split unfolding r by (simp only:)
  qed
qed

end
