(* ===== verification/Crypto_Ip.thy ===== *)
theory Crypto_Ip
  imports Rijndael_Correct Base64
begin

text \<open>
  The prefix preserving address anonymisation of \<^verbatim>\<open>src/crypto_ip.c\<close>: the Crypto-PAn
  transformation with its two caches, and the two tables of addresses that were translated.

  A \<^verbatim>\<open>crypto_ip\<close> works with the entry \<^verbatim>\<open>rijndael_OP[core][id]\<close> of a global array that no
  other operation touches; that entry is the argument \<open>rj\<close>.  A table of \<^verbatim>\<open>uthash.h\<close> is the
  list of its entries in order of insertion, the order in which \<^verbatim>\<open>HASH_ITER\<close> visits them.
\<close>

section \<open>State\<close>

text \<open>The four words of an IPv6 address as they lie in memory, \<^verbatim>\<open>s6_addr32[0..3]\<close>.\<close>

datatype in6_addr = In6 u32 u32 u32 u32

definition MAX_CRYPTIO_CACHE_SIZE :: nat where "MAX_CRYPTIO_CACHE_SIZE = 130000"
definition MAX_INTERFACES :: nat where "MAX_INTERFACES = 64"
definition CACHEBITS :: nat where "CACHEBITS = 20"
definition KEY_SIZE :: nat where "KEY_SIZE = 32"
definition CRYPTO_IPV6_MASK_0 :: u32 where "CRYPTO_IPV6_MASK_0 = 0xffffffff"
definition CRYPTO_IPV6_MASK_1 :: u32 where "CRYPTO_IPV6_MASK_1 = 0xf0f0f0f0"
definition CRYPTO_IPV6_MASK_2 :: u32 where "CRYPTO_IPV6_MASK_2 = 0x0f0f0f0f"
definition CRYPTO_IPV6_MASK_3 :: u32 where "CRYPTO_IPV6_MASK_3 = 0x00000000"

text \<open>
  \<^verbatim>\<open>enc_cache\<close> is \<^verbatim>\<open>NULL\<close> or an array of \<open>2 ^ 20\<close> words; it is only indexed by the twenty
  leading bits of an address.  \<^verbatim>\<open>fullcache\<close> is its two rows.
\<close>

record crypto_ip =
  address_hash :: "(u32 \<times> u32) list"
  address6_hash :: "(in6_addr \<times> in6_addr) list"
  crypto_total_hit :: int
  crypto_total_insert :: int
  crypto_total_miss :: int
  crypto_total_hit_ipv6 :: int
  crypto_total_insert_ipv6 :: int
  crypto_total_miss_ipv6 :: int
  m_key :: "nat \<Rightarrow> u8 list"
  m_pad :: block
  enc_cache :: "(nat \<Rightarrow> u32) option"
  fullcache :: "(u32 \<times> u32) \<times> (u32 \<times> u32)"

section \<open>The tables of translated addresses\<close>

text \<open>
  \<^verbatim>\<open>HASH_ADD\<close> appends an entry, \<^verbatim>\<open>HASH_FIND\<close> yields the entry added last among those with
  the key, \<^verbatim>\<open>HASH_DELETE\<close> removes the entry that was found.
\<close>

definition hash_find :: "'k \<Rightarrow> ('k \<times> 'v) list \<Rightarrow> ('k \<times> 'v) option" where
  "hash_find k h = find (\<lambda>e. fst e = k) (rev h)"

definition hash_add :: "'k \<times> 'v \<Rightarrow> ('k \<times> 'v) list \<Rightarrow> ('k \<times> 'v) list" where
  "hash_add e h = h @ [e]"

definition hash_delete :: "'k \<times> 'v \<Rightarrow> ('k \<times> 'v) list \<Rightarrow> ('k \<times> 'v) list" where
  "hash_delete e h = rev (remove1 e (rev h))"

text \<open>The common text of \<^verbatim>\<open>add_address\<close> and \<^verbatim>\<open>add_address6\<close>, and of the two searches.\<close>

definition lru_add :: "'k \<Rightarrow> 'v \<Rightarrow> ('k \<times> 'v) list \<Rightarrow> ('k \<times> 'v) list" where
  "lru_add k v h =
     (let h = hash_add (k, v) h in if MAX_CRYPTIO_CACHE_SIZE < length h then tl h else h)"

definition lru_find :: "'k \<Rightarrow> ('k \<times> 'v) list \<Rightarrow> ('k \<times> 'v) list \<times> 'v option" where
  "lru_find k h =
     (case hash_find k h of
        None \<Rightarrow> (h, None)
      | Some s \<Rightarrow> (hash_add s (hash_delete s h), Some (snd s)))"

definition add_address :: "crypto_ip \<Rightarrow> u32 \<Rightarrow> u32 \<Rightarrow> crypto_ip" where
  "add_address self src cpan_addr =
     self\<lparr>address_hash := lru_add src cpan_addr (address_hash self)\<rparr>"

definition add_address6 :: "crypto_ip \<Rightarrow> in6_addr \<Rightarrow> in6_addr \<Rightarrow> crypto_ip" where
  "add_address6 self src cpan_addr =
     self\<lparr>address6_hash := lru_add src cpan_addr (address6_hash self)\<rparr>"

definition find_address :: "crypto_ip \<Rightarrow> u32 \<Rightarrow> crypto_ip \<times> u32 option" where
  "find_address self src =
     (let (h, s) = lru_find src (address_hash self) in (self\<lparr>address_hash := h\<rparr>, s))"

definition find_address6 :: "crypto_ip \<Rightarrow> in6_addr \<Rightarrow> crypto_ip \<times> in6_addr option" where
  "find_address6 self src =
     (let (h, s) = lru_find src (address6_hash self) in (self\<lparr>address6_hash := h\<rparr>, s))"

section \<open>Crypto-PAn\<close>

text \<open>
  One call of \<^verbatim>\<open>blockEncrypt\<close> on 128 bits.  The callers ignore the return code; where it is an
  error the output buffer was never written, and reading it is a fault.
\<close>

definition encrypt_block :: "rijndael \<Rightarrow> block \<Rightarrow> block option" where
  "encrypt_block rj b =
     (case blockEncrypt rj (Some [b]) 128 [0] of
        Some (rc, [out]) \<Rightarrow> if rc = 128 then Some out else None
      | _ \<Rightarrow> None)"

fun first4bytes_pad :: "block \<Rightarrow> u32" where
  "first4bytes_pad (Block (Col p0 p1 p2 p3) _ _ _) =
     push_bit 24 (ucast p0) + push_bit 16 (ucast p1) + push_bit 8 (ucast p2) + ucast p3"

definition first4bytes_input :: "block \<Rightarrow> u32 \<Rightarrow> nat \<Rightarrow> u32" where
  "first4bytes_input pad orig_addr pos =
     (if pos = 0 then first4bytes_pad pad
      else push_bit (32 - pos) (drop_bit (32 - pos) orig_addr)
        OR drop_bit pos (push_bit pos (first4bytes_pad pad)))"

fun rin_input :: "block \<Rightarrow> u32 \<Rightarrow> block" where
  "rin_input (Block _ b c d) w =
     Block (Col (ucast (drop_bit 24 w)) (ucast (drop_bit 24 (push_bit 8 w)))
         (ucast (drop_bit 24 (push_bit 16 w))) (ucast (drop_bit 24 (push_bit 24 w)))) b c d"

fun first_byte :: "block \<Rightarrow> u8" where
  "first_byte (Block (Col b0 _ _ _) _ _ _) = b0"

text \<open>
  The loop over bit positions that \<^verbatim>\<open>cache_update\<close>, \<^verbatim>\<open>pp_anonymize\<close> and \<^verbatim>\<open>cpp_anonymize\<close>
  repeat over different ranges.
\<close>

fun pad_loop :: "rijndael \<Rightarrow> block \<Rightarrow> u32 \<Rightarrow> nat list \<Rightarrow> u32 \<Rightarrow> u32 option" where
  "pad_loop rj pad orig_addr [] result = Some result"
| "pad_loop rj pad orig_addr (pos # ps) result = do {
     rin_output \<leftarrow> encrypt_block rj (rin_input pad (first4bytes_input pad orig_addr pos));
     pad_loop rj pad orig_addr ps
       (result OR push_bit (31 - pos) (ucast (drop_bit 7 (first_byte rin_output))))
   }"

definition panon_init_cache :: "crypto_ip \<Rightarrow> crypto_ip" where
  "panon_init_cache self = self\<lparr>enc_cache := Some (\<lambda>_. 0), fullcache := ((0, 0), (0, 0))\<rparr>"

definition cache_update :: "crypto_ip \<Rightarrow> rijndael \<Rightarrow> u32 \<Rightarrow> crypto_ip option" where
  "cache_update self rj scan = do {
     let orig_addr = push_bit (32 - CACHEBITS) scan;
     result \<leftarrow> pad_loop rj (m_pad self) orig_addr [0..<CACHEBITS] 0;
     cache \<leftarrow> enc_cache self;
     Some (self\<lparr>enc_cache := Some (cache(unat scan := drop_bit (32 - CACHEBITS) result))\<rparr>)
   }"

definition lookup_cache :: "crypto_ip \<Rightarrow> rijndael \<Rightarrow> u32 \<Rightarrow> (crypto_ip \<times> u32) option" where
  "lookup_cache self rj orig_addr = do {
     let lookup_addr = drop_bit (32 - CACHEBITS) orig_addr;
     cache \<leftarrow> enc_cache self;
     self \<leftarrow> (if cache (unat lookup_addr) = 0 then cache_update self rj lookup_addr else Some self);
     cache \<leftarrow> enc_cache self;
     Some (self, cache (unat lookup_addr))
   }"

definition panon_init ::
  "crypto_ip \<Rightarrow> rijndael \<Rightarrow> u8 list \<Rightarrow> nat \<Rightarrow> (crypto_ip \<times> rijndael) option" where
  "panon_init self rj key ifc = (if length key < 32 \<or> MAX_INTERFACES \<le> ifc then None else do {
     let self = self\<lparr>m_key := (m_key self)(ifc := take 16 key)\<rparr>;
     (rj, rc) \<leftarrow> rijndael_init rj ECB Encrypt (Some key) Key16Bytes None;
     (rc, out) \<leftarrow> blockEncrypt rj (Some [bytes_block (drop 16 key)]) 128 [m_pad self];
     Some (panon_init_cache (self\<lparr>m_pad := hd out\<rparr>), rj)
   })"

definition panon_init_decrypt ::
  "crypto_ip \<Rightarrow> rijndael \<Rightarrow> u8 list \<Rightarrow> nat \<Rightarrow> (crypto_ip \<times> rijndael) option" where
  "panon_init_decrypt self rj key ifc = (if length key < 32 then None else do {
     let self = self\<lparr>m_key := (m_key self)(0 := take 16 key)\<rparr>;
     (rj, rc) \<leftarrow> rijndael_init rj ECB Decrypt (Some key) Key16Bytes None;
     (rc, out) \<leftarrow> blockEncrypt rj (Some [bytes_block (drop 16 key)]) 128 [m_pad self];
     Some (self\<lparr>m_pad := hd out\<rparr>, rj)
   })"

definition pp_anonymize :: "crypto_ip \<Rightarrow> rijndael \<Rightarrow> u32 \<Rightarrow> u32 option" where
  "pp_anonymize self rj orig_addr = do {
     result \<leftarrow> pad_loop rj (m_pad self) orig_addr [0..<32] 0;
     Some (result XOR orig_addr)
   }"

definition cpp_anonymize :: "crypto_ip \<Rightarrow> rijndael \<Rightarrow> u32 \<Rightarrow> (crypto_ip \<times> u32) option" where
  "cpp_anonymize self rj orig_addr =
     (let (e0, e1) = fullcache self in
      if fst e0 = orig_addr then Some (self, snd e0)
      else if fst e1 = orig_addr then
        let tmp = snd e1 in Some (self\<lparr>fullcache := ((orig_addr, tmp), e0)\<rparr>, tmp)
      else do {
        (self, firstbits) \<leftarrow> lookup_cache self rj orig_addr;
        result \<leftarrow> pad_loop rj (m_pad self) orig_addr [CACHEBITS..<32]
          (push_bit (32 - CACHEBITS) firstbits);
        Some (self\<lparr>fullcache := ((orig_addr, result XOR orig_addr), fst (fullcache self))\<rparr>,
          result XOR orig_addr)
      })"

text \<open>\<^verbatim>\<open>anonymize\<close>, the first four bytes of one encryption; it is declared but not called.\<close>

definition anonymize :: "crypto_ip \<Rightarrow> rijndael \<Rightarrow> u32 \<Rightarrow> u32 option" where
  "anonymize self rj orig_addr =
     map_option first4bytes_pad (encrypt_block rj (rin_input (m_pad self) orig_addr))"

definition encrypt_ip :: "crypto_ip \<Rightarrow> rijndael \<Rightarrow> u32 \<Rightarrow> (crypto_ip \<times> u32) option" where
  "encrypt_ip self rj orig_addr = cpp_anonymize self rj orig_addr"

definition encrypt_init ::
  "crypto_ip \<Rightarrow> rijndael \<Rightarrow> u8 list \<Rightarrow> nat \<Rightarrow> nat \<Rightarrow> (crypto_ip \<times> rijndael) option" where
  "encrypt_init self rj key keysize ifc =
     panon_init self rj (take 32 (take keysize key @ replicate 32 0)) ifc"

section \<open>Translation of addresses\<close>

definition store_crypto_ip :: "crypto_ip \<Rightarrow> rijndael \<Rightarrow> u32 \<Rightarrow> crypto_ip option" where
  "store_crypto_ip self rj address =
     (case find_address self address of
        (self, None) \<Rightarrow> do {
          (self, enc) \<leftarrow> encrypt_ip self rj (htonl address);
          let self = add_address self address (htonl enc);
          Some (self\<lparr>crypto_total_insert := crypto_total_insert self + 1\<rparr>)
        }
      | (self, Some _) \<Rightarrow> Some (self\<lparr>crypto_total_hit := crypto_total_hit self + 1\<rparr>))"

definition retrieve_crypto_ip :: "crypto_ip \<Rightarrow> rijndael \<Rightarrow> u32 \<Rightarrow> (crypto_ip \<times> u32) option" where
  "retrieve_crypto_ip self rj address =
     (case find_address self address of
        (self, None) \<Rightarrow> do {
          (self, enc) \<leftarrow> encrypt_ip self rj (htonl address);
          let ip_entry = htonl enc;
          let self = add_address self address ip_entry;
          Some (self\<lparr>crypto_total_insert := crypto_total_insert self + 1,
              crypto_total_miss := crypto_total_miss self + 1\<rparr>, ip_entry)
        }
      | (self, Some cpan_addr) \<Rightarrow> Some (self, cpan_addr))"

fun encrypt_ipv6 :: "crypto_ip \<Rightarrow> rijndael \<Rightarrow> in6_addr \<Rightarrow> (crypto_ip \<times> in6_addr) option" where
  "encrypt_ipv6 self rj (In6 a0 a1 a2 a3) = do {
     (self, e0) \<leftarrow> encrypt_ip self rj (htonl (a0 XOR CRYPTO_IPV6_MASK_0));
     (self, e1) \<leftarrow> encrypt_ip self rj (htonl (a1 XOR CRYPTO_IPV6_MASK_1));
     (self, e2) \<leftarrow> encrypt_ip self rj (htonl (a2 XOR CRYPTO_IPV6_MASK_2));
     (self, e3) \<leftarrow> encrypt_ip self rj (htonl (a3 XOR CRYPTO_IPV6_MASK_3));
     Some (self, In6 (htonl e0) (htonl e1) (htonl e2) (htonl e3))
   }"

definition store_crypto_ipv6 :: "crypto_ip \<Rightarrow> rijndael \<Rightarrow> in6_addr \<Rightarrow> crypto_ip option" where
  "store_crypto_ipv6 self rj address =
     (case find_address6 self address of
        (self, None) \<Rightarrow> do {
          (self, ip6_entry) \<leftarrow> encrypt_ipv6 self rj address;
          let self = add_address6 self address ip6_entry;
          Some (self\<lparr>crypto_total_insert_ipv6 := crypto_total_insert_ipv6 self + 1\<rparr>)
        }
      | (self, Some _) \<Rightarrow> Some (self\<lparr>crypto_total_hit_ipv6 := crypto_total_hit_ipv6 self + 1\<rparr>))"

definition retrieve_crypto_ipv6 ::
  "crypto_ip \<Rightarrow> rijndael \<Rightarrow> in6_addr \<Rightarrow> (crypto_ip \<times> in6_addr) option" where
  "retrieve_crypto_ipv6 self rj address =
     (case find_address6 self address of
        (self, None) \<Rightarrow> do {
          (self, ip6_entry) \<leftarrow> encrypt_ipv6 self rj address;
          let self = add_address6 self address ip6_entry;
          Some (self\<lparr>crypto_total_insert_ipv6 := crypto_total_insert_ipv6 self + 1,
              crypto_total_miss_ipv6 := crypto_total_miss_ipv6 self + 1\<rparr>, ip6_entry)
        }
      | (self, Some cpan_addr) \<Rightarrow> Some (self, cpan_addr))"

section \<open>Initialisation\<close>

text \<open>
  \<^verbatim>\<open>initialize_crypto\<close> frees the pointer \<^verbatim>\<open>enc_key\<close>, which it never assigned: \<open>enc_key\<close> is
  the value that the stack happened to hold, and anything but \<^verbatim>\<open>NULL\<close> (zero) is a fault.
  A missing key ends the process, which is \<open>None\<close> as well.  \<open>copy_key\<close> is the copy of at most
  \<^verbatim>\<open>KEY_SIZE\<close> decoded bytes into the zeroed key; \<^verbatim>\<open>unbase64\<close> can announce more bytes than it
  wrote, and copying those is a fault, as is a negative length.
\<close>

definition copy_key :: "u8 list option \<Rightarrow> int \<Rightarrow> u8 list option" where
  "copy_key decoded_key flen =
     (let n = (if int KEY_SIZE < flen then KEY_SIZE else nat flen) in
      if flen < 0 then None
      else case decoded_key of
        None \<Rightarrow> if n = 0 then Some (replicate KEY_SIZE 0) else None
      | Some bin \<Rightarrow>
          if length bin < n then None else Some (take n bin @ replicate (KEY_SIZE - n) 0))"

definition initialize_crypto ::
  "nat \<Rightarrow> crypto_ip \<Rightarrow> rijndael \<Rightarrow> u8 list option \<Rightarrow> nat \<Rightarrow> (crypto_ip \<times> rijndael) option" where
  "initialize_crypto enc_key self rj value ifc = do {
     let rj = init_rijndael_OP rj;
     let self = self\<lparr>address_hash := [], address6_hash := [], enc_cache := None\<rparr>;
     value \<leftarrow> value;
     (decoded_key, flen) \<leftarrow> unbase64 value;
     key \<leftarrow> copy_key decoded_key flen;
     (self, rj) \<leftarrow> encrypt_init self rj key KEY_SIZE ifc;
     (self, _) \<leftarrow> encrypt_ip self rj 1;
     (self, _) \<leftarrow> encrypt_ip self rj 2;
     let ip1 = 0;
     (self, enc) \<leftarrow> encrypt_ip self rj (htonl ip1);
     let self = add_address self ip1 (htonl enc);
     let self = self\<lparr>crypto_total_hit := 0, crypto_total_insert := 1, crypto_total_miss := 0\<rparr>;
     let ip6_1 = In6 0 0 0 0;
     (self, ip6_2) \<leftarrow> encrypt_ipv6 self rj ip6_1;
     let self = add_address6 self ip6_1 ip6_2;
     let self = self\<lparr>crypto_total_hit_ipv6 := 0, crypto_total_insert_ipv6 := 1,
       crypto_total_miss_ipv6 := 0\<rparr>;
     if enc_key \<noteq> 0 then None else Some (self, rj)
   }"

end
