(* ===== verification/Crypto_Ip_Correct.thy ===== *)
theory Crypto_Ip_Correct
  imports Crypto_Ip "HOL-Library.Multiset"
begin

text \<open>
  \<^verbatim>\<open>src/crypto_ip.c\<close> computes the Crypto-PAn transformation: the inputs of the cipher are a
  prefix of the address completed by the pad, the two caches never change a result once they are
  warm, and the tables of addresses return what the transformation would.  A locale states what a
  prefix dependent pad gives (prefixes and distinctness are preserved), another what the
  translation needs from a table; both are interpreted on the definitions of \<open>Crypto_Ip\<close>.
\<close>

section \<open>Bits of addresses and blocks\<close>

text \<open>Bit \<open>pos\<close> of an address counts from the most significant one, as prefixes do.\<close>

definition word_bits :: "u32 \<Rightarrow> bool list" where
  "word_bits a = map (\<lambda>pos. bit a (31 - pos)) [0..<32]"

definition byte_bits :: "u8 \<Rightarrow> bool list" where
  "byte_bits b = map (\<lambda>pos. bit b (7 - pos)) [0..<8]"

definition block_bits :: "block \<Rightarrow> bool list" where
  "block_bits b = concat (map byte_bits (block_bytes b))"

lemma length_word_bits [simp]: "length (word_bits a) = 32"
  by (simp add: word_bits_def)

lemma length_byte_bits [simp]: "length (byte_bits a) = 8"
  by (simp add: byte_bits_def)

lemma nth_word_bits [simp]: "pos < 32 \<Longrightarrow> word_bits a ! pos = bit a (31 - pos)"
  by (simp add: word_bits_def)

lemma word_bits_inj: "word_bits a = word_bits b \<longleftrightarrow> a = b"
proof
  assume eq: "word_bits a = word_bits b"
  have "bit a n = bit b n" if "n < 32" for n
  proof -
    have "word_bits a ! (31 - n) = word_bits b ! (31 - n)" using eq by simp
    then show ?thesis using that by simp
  qed
  then show "a = b" by (intro bit_word_eqI) simp
qed simp

lemma block_bits_rin_input: "block_bits (rin_input pad w) = word_bits w @ drop 32 (block_bits pad)"
proof (cases pad)
  case (Block c0 c1 c2 c3)
  have "word_bits w = byte_bits (ucast (drop_bit 24 w)) @ byte_bits (ucast (drop_bit 24 (push_bit 8 w)))
      @ byte_bits (ucast (drop_bit 24 (push_bit 16 w))) @ byte_bits (ucast (drop_bit 24 (push_bit 24 w)))"
    by (simp add: word_bits_def byte_bits_def upt_rec bit_simps)
  then show ?thesis
    by (cases c0) (simp add: Block block_bits_def)
qed

lemma bit_u8_high: "8 \<le> n \<Longrightarrow> bit x n = False" for x :: u8
  using bit_imp_le_length [of x n] by auto

lemma word_bits_pad: "word_bits (first4bytes_pad pad) = take 32 (block_bits pad)"
proof (cases pad rule: first4bytes_pad.cases)
  case (1 p0 p1 p2 p3 c1 c2 c3)
  have "push_bit 24 (ucast p0) + push_bit 16 (ucast p1) + push_bit 8 (ucast p2) + ucast p3
     = push_bit 24 (ucast p0) OR push_bit 16 (ucast p1) OR push_bit 8 (ucast p2) OR (ucast p3 :: u32)"
    by (subst disjunctive_add, (auto simp: bit_simps dest: bit_imp_le_length)[1])+ (simp add: or.assoc)
  then show ?thesis
    by (simp add: 1 block_bits_def word_bits_def byte_bits_def upt_rec bit_simps bit_u8_high)
qed

lemma word_bits_input:
  assumes "pos < 32"
  shows "word_bits (first4bytes_input pad a pos) = take pos (word_bits a) @ drop pos (take 32 (block_bits pad))"
  unfolding word_bits_pad [symmetric]
  by (rule nth_equalityI)
    (use assms in \<open>auto simp: word_bits_def first4bytes_input_def nth_append bit_simps\<close>)

lemma rin_input_bits:
  assumes "pos < 32"
  shows "block_bits (rin_input pad (first4bytes_input pad a pos))
     = take pos (word_bits a) @ drop pos (block_bits pad)"
proof -
  have len: "32 \<le> length (block_bits pad)"
    by (cases pad; cases "case pad of Block a b c d \<Rightarrow> a") (simp add: block_bits_def)
  have "drop pos (block_bits pad) = drop pos (take 32 (block_bits pad) @ drop 32 (block_bits pad))" by simp
  also have "... = drop pos (take 32 (block_bits pad)) @ drop 32 (block_bits pad)"
    using assms len by (simp only: drop_append) simp
  finally show ?thesis
    using assms by (simp add: block_bits_rin_input word_bits_input)
qed

section \<open>Crypto-PAn\<close>

text \<open>
  The transformation: bit \<open>pos\<close> of an address is flipped when the cipher \<open>E\<close>, given the first
  \<open>pos\<close> bits of the address followed by the rest of the pad, answers with a leading one.
\<close>

definition cpan_bit :: "(block \<Rightarrow> block) \<Rightarrow> block \<Rightarrow> u32 \<Rightarrow> nat \<Rightarrow> bool" where
  "cpan_bit E pad a pos = bit (first_byte (E (rin_input pad (first4bytes_input pad a pos)))) 7"

definition set_pads :: "(nat \<Rightarrow> bool) \<Rightarrow> nat list \<Rightarrow> u32 \<Rightarrow> u32" where
  "set_pads f ps r = fold (\<lambda>pos r. r OR push_bit (31 - pos) (of_bool (f pos))) ps r"

definition cryptopan :: "(block \<Rightarrow> block) \<Rightarrow> block \<Rightarrow> u32 \<Rightarrow> u32" where
  "cryptopan E pad a = set_pads (cpan_bit E pad a) [0..<32] 0 XOR a"

lemma bit_set_pads:
  "\<forall>pos \<in> set ps. pos < 32 \<Longrightarrow>
     bit (set_pads f ps r) n = (bit r n \<or> n < 32 \<and> 31 - n \<in> set ps \<and> f (31 - n))"
proof (induction ps arbitrary: r)
  case (Cons pos ps)
  have "bit (push_bit (31 - pos) (of_bool (f pos)) :: u32) n = (n < 32 \<and> 31 - n = pos \<and> f pos)"
    using Cons.prems by (cases "f pos") (auto simp: bit_simps)
  then show ?case
    using Cons by (simp add: set_pads_def) (auto simp: bit_simps)
qed (simp add: set_pads_def)

lemma bit_cryptopan:
  "pos < 32 \<Longrightarrow> bit (cryptopan E pad a) (31 - pos) = (bit a (31 - pos) \<noteq> cpan_bit E pad a pos)"
  by (auto simp: cryptopan_def bit_set_pads bit_simps)

text \<open>Two addresses with a common prefix of \<open>k\<close> bits.\<close>

definition agree :: "nat \<Rightarrow> u32 \<Rightarrow> u32 \<Rightarrow> bool" where
  "agree k a b \<longleftrightarrow> take k (word_bits a) = take k (word_bits b)"

lemma agree_0 [simp]: "agree 0 a b"
  by (simp add: agree_def)

lemma agree_Suc: "k < 32 \<Longrightarrow> agree (Suc k) a b \<longleftrightarrow> agree k a b \<and> bit a (31 - k) = bit b (31 - k)"
  by (simp add: agree_def take_Suc_conv_app_nth)

lemma agree_mono: "agree k a b \<Longrightarrow> l \<le> k \<Longrightarrow> agree l a b"
  unfolding agree_def by (metis min.absorb1 take_take)

lemma agree_32 [simp]: "agree 32 a b \<longleftrightarrow> a = b"
  by (simp add: agree_def word_bits_inj)

locale prefix_pad =
  fixes anon :: "u32 \<Rightarrow> u32" and pad_bit :: "u32 \<Rightarrow> nat \<Rightarrow> bool"
  assumes anon_bit: "pos < 32 \<Longrightarrow> bit (anon a) (31 - pos) = (bit a (31 - pos) \<noteq> pad_bit a pos)"
    and pad_prefix: "pos < 32 \<Longrightarrow> agree pos a b \<Longrightarrow> pad_bit a pos = pad_bit b pos"
begin

lemma agree_anon: "k \<le> 32 \<Longrightarrow> agree k (anon a) (anon b) \<longleftrightarrow> agree k a b"
proof (induction k)
  case (Suc k)
  then show ?case using pad_prefix [of k a b] by (auto simp: agree_Suc anon_bit)
qed simp

lemma anon_inj: "anon a = anon b \<longleftrightarrow> a = b"
  using agree_anon [of 32 a b] by simp

end

lemma cpan_bit_prefix: "pos < 32 \<Longrightarrow> agree pos a b \<Longrightarrow> cpan_bit E pad a pos = cpan_bit E pad b pos"
proof -
  assume "pos < 32" and "agree pos a b"
  then have "word_bits (first4bytes_input pad a pos) = word_bits (first4bytes_input pad b pos)"
    by (simp add: word_bits_input agree_def)
  then show ?thesis by (simp add: cpan_bit_def word_bits_inj)
qed

interpretation cpan: prefix_pad "cryptopan E pad" "cpan_bit E pad" for E pad
  by unfold_locales (simp_all add: bit_cryptopan cpan_bit_prefix)

section \<open>The loops\<close>

definition ready :: "rijndael \<Rightarrow> bool" where
  "ready rj \<longleftrightarrow> m_state rj = Valid \<and> m_direction rj = Encrypt \<and> m_mode rj = ECB \<and> rounds_ok rj"

lemma encrypt_block_ready: "ready rj \<Longrightarrow> encrypt_block rj b = Some (r_encrypt rj b)"
  by (simp add: ready_def encrypt_block_def blockEncrypt_def)

lemma top_bit: "ucast (drop_bit 7 b) = (of_bool (bit b 7) :: u32)" for b :: u8
proof (rule bit_word_eqI)
  show "bit (ucast (drop_bit 7 b) :: u32) n = bit (of_bool (bit b 7) :: u32) n" for n
    by (cases "n = 0") (auto simp: bit_simps bit_u8_high)
qed

lemma pad_loop_ready:
  "ready rj \<Longrightarrow>
     pad_loop rj pad a ps r = Some (set_pads (cpan_bit (r_encrypt rj) pad a) ps r)"
  by (induction rj pad a ps r rule: pad_loop.induct)
    (simp_all add: set_pads_def encrypt_block_ready top_bit cpan_bit_def)

lemma pp_anonymize_cryptopan:
  "ready rj \<Longrightarrow> pp_anonymize self rj a = Some (cryptopan (r_encrypt rj) (m_pad self) a)"
  by (simp add: pp_anonymize_def pad_loop_ready cryptopan_def)


section \<open>The caches\<close>

text \<open>
  An entry of \<^verbatim>\<open>enc_cache\<close> is zero or the pad of its twenty bits; \<^verbatim>\<open>fullcache\<close> holds two
  addresses with their images.
\<close>

definition cache_ok :: "crypto_ip \<Rightarrow> rijndael \<Rightarrow> bool" where
  "cache_ok self rj \<longleftrightarrow> (\<exists>c. enc_cache self = Some c \<and>
     (\<forall>a. c (unat (drop_bit 12 a)) \<noteq> 0 \<longrightarrow> c (unat (drop_bit 12 a))
        = drop_bit 12 (set_pads (cpan_bit (r_encrypt rj) (m_pad self) a) [0..<20] 0)))"

definition entry_ok :: "crypto_ip \<Rightarrow> rijndael \<Rightarrow> u32 \<times> u32 \<Rightarrow> bool" where
  "entry_ok self rj e \<longleftrightarrow> snd e = cryptopan (r_encrypt rj) (m_pad self) (fst e)"

definition warm :: "crypto_ip \<Rightarrow> rijndael \<Rightarrow> bool" where
  "warm self rj \<longleftrightarrow> ready rj \<and> cache_ok self rj
     \<and> entry_ok self rj (fst (fullcache self)) \<and> entry_ok self rj (snd (fullcache self))"

lemma agree_leading: "agree 20 (push_bit 12 (drop_bit 12 a)) a"
  unfolding agree_def by (rule nth_equalityI) (auto simp: bit_simps)

lemma agree_drop_bit: "drop_bit 12 a = drop_bit 12 b \<Longrightarrow> agree 20 a b"
  by (metis agree_def agree_leading)

lemma set_pads_cong:
  "(\<And>pos. pos \<in> set ps \<Longrightarrow> f pos = g pos) \<Longrightarrow> set_pads f ps r = set_pads g ps r"
  unfolding set_pads_def by (rule fold_cong) simp_all

lemma set_pads_agree:
  "agree 20 a b \<Longrightarrow> set_pads (cpan_bit E pad a) [0..<20] r = set_pads (cpan_bit E pad b) [0..<20] r"
  by (rule set_pads_cong) (auto intro!: cpan_bit_prefix agree_mono [of 20])

lemma low_bits_zero:
  "push_bit 12 (drop_bit 12 (set_pads f [0..<20] 0)) = set_pads f [0..<20] 0"
proof (rule bit_word_eqI)
  show "bit (push_bit 12 (drop_bit 12 (set_pads f [0..<20] 0))) n = bit (set_pads f [0..<20] 0) n"
    if "n < LENGTH(32)" for n
    using that by (cases "12 \<le> n") (auto simp: bit_simps bit_set_pads)
qed

lemma set_pads_split: "set_pads f [20..<32] (set_pads f [0..<20] r) = set_pads f [0..<32] r"
proof -
  have "[0..<32] = [0..<20] @ [20..<32]" using upt_add_eq_append [of 0 20 12] by simp
  then show ?thesis by (simp only: set_pads_def fold_append) simp
qed

text \<open>The part of the state that the cipher depends on, and what the caches may change.\<close>

definition same_pad :: "crypto_ip \<Rightarrow> crypto_ip \<Rightarrow> bool" where
  "same_pad self self' \<longleftrightarrow> m_pad self' = m_pad self \<and> address_hash self' = address_hash self
     \<and> address6_hash self' = address6_hash self"

lemma memo_update:
  assumes "\<And>a. c (k a) \<noteq> 0 \<Longrightarrow> c (k a) = v a" and "\<And>b. k b = k a \<Longrightarrow> v b = v a"
  shows "\<forall>b. (c(k a := v a)) (k b) \<noteq> 0 \<longrightarrow> (c(k a := v a)) (k b) = v b"
proof (intro allI impI)
  fix b assume "(c(k a := v a)) (k b) \<noteq> 0"
  then show "(c(k a := v a)) (k b) = v b"
    using assms(1) [of b] assms(2) [of b] by (cases "k b = k a") simp_all
qed

lemma lookup_cache_ok:
  assumes "ready rj" and "cache_ok self rj"
  obtains self' where "lookup_cache self rj a = Some (self',
      drop_bit 12 (set_pads (cpan_bit (r_encrypt rj) (m_pad self) a) [0..<20] 0))"
    and "cache_ok self' rj" and "same_pad self self'" and "fullcache self' = fullcache self"
proof -
  obtain c where c: "enc_cache self = Some c"
    "\<And>a. c (unat (drop_bit 12 a)) \<noteq> 0 \<Longrightarrow> c (unat (drop_bit 12 a))
       = drop_bit 12 (set_pads (cpan_bit (r_encrypt rj) (m_pad self) a) [0..<20] 0)"
    using assms(2) by (auto simp: cache_ok_def)
  let ?v = "\<lambda>a. drop_bit 12 (set_pads (cpan_bit (r_encrypt rj) (m_pad self) a) [0..<20] 0)"
  show ?thesis
  proof (cases "c (unat (drop_bit 12 a)) = 0")
    case True
    let ?s = "self\<lparr>enc_cache := Some (c(unat (drop_bit 12 a) := ?v a))\<rparr>"
    have "cache_update self rj (drop_bit 12 a) = Some ?s"
      using assms(1) c(1) set_pads_agree [OF agree_leading, of "r_encrypt rj" "m_pad self" a 0]
      by (simp add: cache_update_def pad_loop_ready CACHEBITS_def)
    moreover have veq: "?v b = ?v a" if "unat (drop_bit 12 b) = unat (drop_bit 12 a)" for b
      by (rule arg_cong [OF set_pads_agree [OF agree_drop_bit]]) (use that in \<open>simp only: word_unat_eq_iff\<close>)
    have "\<forall>b. (c(unat (drop_bit 12 a) := ?v a)) (unat (drop_bit 12 b)) \<noteq> 0 \<longrightarrow>
        (c(unat (drop_bit 12 a) := ?v a)) (unat (drop_bit 12 b)) = ?v b"
      by (intro memo_update [of c "\<lambda>a. unat (drop_bit 12 a)" ?v a]; erule c(2) veq)
    then have c': "cache_ok ?s rj"
      unfolding cache_ok_def by (intro exI [of _ "c(unat (drop_bit 12 a) := ?v a)"]) simp
    ultimately show ?thesis
      using that [of ?s] c(1) c' True by (simp add: lookup_cache_def CACHEBITS_def same_pad_def)
  next
    case False
    then show ?thesis
      using that [of self] assms(2) c by (simp add: lookup_cache_def CACHEBITS_def same_pad_def)
  qed
qed

lemma cache_ok_fullcache [simp]: "cache_ok (self\<lparr>fullcache := f\<rparr>) rj = cache_ok self rj"
  by (simp add: cache_ok_def)

lemma cpp_anonymize_miss:
  assumes "ready rj" and "cache_ok self rj"
    and "fst (fst (fullcache self)) \<noteq> a" and "fst (snd (fullcache self)) \<noteq> a"
  obtains self' where "cpp_anonymize self rj a = Some (self', cryptopan (r_encrypt rj) (m_pad self) a)"
    and "cache_ok self' rj" and "same_pad self self'"
    and "fullcache self' = ((a, cryptopan (r_encrypt rj) (m_pad self) a), fst (fullcache self))"
proof -
  obtain self1 where l: "lookup_cache self rj a = Some (self1,
      drop_bit 12 (set_pads (cpan_bit (r_encrypt rj) (m_pad self) a) [0..<20] 0))"
    "cache_ok self1 rj" "same_pad self self1" "fullcache self1 = fullcache self"
    by (rule lookup_cache_ok [OF assms(1,2)])
  have pad: "m_pad self1 = m_pad self" using l(3) by (simp add: same_pad_def)
  let ?s = "self1\<lparr>fullcache := ((a, cryptopan (r_encrypt rj) (m_pad self) a), fst (fullcache self))\<rparr>"
  have "cpp_anonymize self rj a = Some (?s, cryptopan (r_encrypt rj) (m_pad self) a)"
    using assms l by (auto simp: cpp_anonymize_def CACHEBITS_def pad_loop_ready low_bits_zero
        set_pads_split pad cryptopan_def split: prod.splits simp del: upt_rec_numeral)
  then show ?thesis using that [of ?s] l by (simp add: same_pad_def)
qed

lemma cpp_anonymize_warm:
  assumes "warm self rj"
  obtains self' where "cpp_anonymize self rj a = Some (self', cryptopan (r_encrypt rj) (m_pad self) a)"
    and "warm self' rj" and "same_pad self self'"
proof -
  obtain e0 e1 where fc: "fullcache self = (e0, e1)" by (cases "fullcache self")
  consider "fst e0 = a" | "fst e0 \<noteq> a" "fst e1 = a" | "fst e0 \<noteq> a" "fst e1 \<noteq> a" by blast
  then show ?thesis
  proof cases
    case 1
    then show ?thesis using that [of self] assms fc
      by (auto simp: cpp_anonymize_def warm_def entry_ok_def same_pad_def)
  next
    case 2
    then show ?thesis using that [of "self\<lparr>fullcache := ((a, snd e1), e0)\<rparr>"] assms fc
      by (auto simp: Let_def cpp_anonymize_def warm_def entry_ok_def same_pad_def)
  next
    case 3
    have "ready rj" "cache_ok self rj" using assms by (auto simp: warm_def)
    then show ?thesis
      by (rule cpp_anonymize_miss [of rj self a])
        (use 3 fc assms that in \<open>auto simp: warm_def entry_ok_def same_pad_def\<close>)
  qed
qed

section \<open>The tables of translated addresses\<close>

text \<open>A table of distinct keys with at most the bounded number of entries, all images under \<open>f\<close>.\<close>

definition sound_table :: "('k \<Rightarrow> 'v) \<Rightarrow> ('k \<times> 'v) list \<Rightarrow> bool" where
  "sound_table f h \<longleftrightarrow> (\<forall>(k, v) \<in> set h. v = f k) \<and> distinct (map fst h)
     \<and> length h \<le> MAX_CRYPTIO_CACHE_SIZE"

lemma sound_table_Nil [simp]: "sound_table f []"
  by (simp add: sound_table_def)

lemma hash_find_Some:
  "hash_find k h = Some s \<Longrightarrow> s \<in> set h \<and> fst s = k"
proof -
  assume "hash_find k h = Some s"
  then obtain i where "i < length (rev h)" "fst (rev h ! i) = k" "s = rev h ! i"
    unfolding hash_find_def find_Some_iff by blast
  then show ?thesis using nth_mem [of i "rev h"] by simp
qed

lemma hash_find_None: "hash_find k h = None \<Longrightarrow> k \<notin> fst ` set h"
  by (auto simp: hash_find_def find_None_iff)

lemma lru_find_perm:
  assumes "lru_find k h = (h', r)"
  shows "mset h' = mset h"
proof (cases "hash_find k h")
  case (Some s)
  then have "s \<in># mset h" using hash_find_Some by fastforce
  then show ?thesis
    using assms Some by (auto simp: lru_find_def hash_add_def hash_delete_def)
qed (use assms in \<open>simp add: lru_find_def\<close>)

lemma sound_table_perm:
  assumes "mset h' = mset h" and "sound_table f h"
  shows "sound_table f h'"
proof -
  have "set h' = set h" "length h' = length h" "mset (map fst h') = mset (map fst h)"
    using assms(1) by (auto dest: mset_eq_setD mset_eq_length)
  then show ?thesis
    using assms(2) mset_eq_imp_distinct_iff [of "map fst h'" "map fst h"] by (simp add: sound_table_def)
qed

lemma lru_find_sound:
  "lru_find k h = (h', r) \<Longrightarrow> sound_table f h \<Longrightarrow> sound_table f h'"
  by (rule sound_table_perm [OF lru_find_perm])

lemma lru_find_hit: "lru_find k h = (h', Some v) \<Longrightarrow> sound_table f h \<Longrightarrow> v = f k"
  using hash_find_Some [of k h] by (fastforce simp: lru_find_def sound_table_def split: option.splits)

lemma lru_find_miss: "lru_find k h = (h', None) \<Longrightarrow> (k, v) \<notin> set h'"
  using hash_find_None [of k h] by (force simp: lru_find_def split: option.splits)

lemma lru_add_sound:
  assumes "sound_table f h" and "k \<notin> fst ` set h"
  shows "sound_table f (lru_add k (f k) h)"
proof -
  let ?h = "h @ [(k, f k)]"
  have h: "(\<forall>(k, v) \<in> set ?h. v = f k)" "distinct (map fst ?h)" "length ?h \<le> MAX_CRYPTIO_CACHE_SIZE + 1"
    using assms by (auto simp: sound_table_def)
  then have "sound_table f (tl ?h)" if "MAX_CRYPTIO_CACHE_SIZE < length ?h"
    unfolding sound_table_def by (cases ?h) (simp_all del: append_is_Nil_conv)
  then show ?thesis using h by (auto simp: lru_add_def hash_add_def sound_table_def Let_def)
qed

locale translation_table =
  fixes find :: "'s \<Rightarrow> 'k \<Rightarrow> 's \<times> 'v option" and add :: "'s \<Rightarrow> 'k \<Rightarrow> 'v \<Rightarrow> 's"
    and entries :: "'s \<Rightarrow> ('k \<times> 'v) list"
  assumes find_sound: "find s k = (s', r) \<Longrightarrow> sound_table f (entries s) \<Longrightarrow> sound_table f (entries s')"
    and find_hit: "find s k = (s', Some v) \<Longrightarrow> sound_table f (entries s) \<Longrightarrow> v = f k"
    and find_miss: "find s k = (s', None) \<Longrightarrow> k \<notin> fst ` set (entries s')"
    and add_sound: "sound_table f (entries s) \<Longrightarrow> k \<notin> fst ` set (entries s) \<Longrightarrow>
        sound_table f (entries (add s k (f k)))"
begin

lemma miss_add:
  "find s k = (s', None) \<Longrightarrow> sound_table f (entries s) \<Longrightarrow> entries s'' = entries s' \<Longrightarrow>
     sound_table f (entries (add s'' k (f k)))"
  using find_miss [of s k s'] find_sound [of s k s' None f] add_sound [of f s'' k] by simp

end

lemma find_address_iff:
  "find_address self k = (self', r) \<longleftrightarrow>
     (\<exists>h. lru_find k (address_hash self) = (h, r) \<and> self' = self\<lparr>address_hash := h\<rparr>)"
  by (auto simp: find_address_def split: prod.splits)

lemma find_address6_iff:
  "find_address6 self k = (self', r) \<longleftrightarrow>
     (\<exists>h. lru_find k (address6_hash self) = (h, r) \<and> self' = self\<lparr>address6_hash := h\<rparr>)"
  by (auto simp: find_address6_def split: prod.splits)

lemmas lru_laws = lru_find_sound lru_find_hit lru_find_miss

interpretation addr4: translation_table find_address add_address address_hash
  by unfold_locales (auto simp: find_address_iff add_address_def dest: lru_laws intro: lru_add_sound)

interpretation addr6: translation_table find_address6 add_address6 address6_hash
  by unfold_locales (auto simp: find_address6_iff add_address6_def dest: lru_laws intro: lru_add_sound)


section \<open>Translation\<close>

definition translate :: "rijndael \<Rightarrow> block \<Rightarrow> u32 \<Rightarrow> u32" where
  "translate rj pad a = htonl (cryptopan (r_encrypt rj) pad (htonl a))"

fun translate6 :: "rijndael \<Rightarrow> block \<Rightarrow> in6_addr \<Rightarrow> in6_addr" where
  "translate6 rj pad (In6 a0 a1 a2 a3) =
     In6 (translate rj pad (a0 XOR CRYPTO_IPV6_MASK_0)) (translate rj pad (a1 XOR CRYPTO_IPV6_MASK_1))
       (translate rj pad (a2 XOR CRYPTO_IPV6_MASK_2)) (translate rj pad (a3 XOR CRYPTO_IPV6_MASK_3))"

text \<open>The state in which the program translates packets: warm caches and sound tables.\<close>

definition operational :: "crypto_ip \<Rightarrow> rijndael \<Rightarrow> bool" where
  "operational self rj \<longleftrightarrow> warm self rj
     \<and> sound_table (translate rj (m_pad self)) (address_hash self)
     \<and> sound_table (translate6 rj (m_pad self)) (address6_hash self)"

lemma warm_update [simp]:
  "warm (self\<lparr>address_hash := h\<rparr>) rj = warm self rj"
  "warm (self\<lparr>address6_hash := h6\<rparr>) rj = warm self rj"
  "warm (self\<lparr>crypto_total_hit := n\<rparr>) rj = warm self rj"
  "warm (self\<lparr>crypto_total_insert := n\<rparr>) rj = warm self rj"
  "warm (self\<lparr>crypto_total_miss := n\<rparr>) rj = warm self rj"
  "warm (self\<lparr>crypto_total_hit_ipv6 := n\<rparr>) rj = warm self rj"
  "warm (self\<lparr>crypto_total_insert_ipv6 := n\<rparr>) rj = warm self rj"
  "warm (self\<lparr>crypto_total_miss_ipv6 := n\<rparr>) rj = warm self rj"
  by (simp_all add: warm_def cache_ok_def entry_ok_def)

lemma encrypt_ip_warm:
  assumes "warm self rj"
  obtains self' where "encrypt_ip self rj a = Some (self', cryptopan (r_encrypt rj) (m_pad self) a)"
    and "warm self' rj" and "same_pad self self'"
  using cpp_anonymize_warm [OF assms, of a] by (auto simp: encrypt_ip_def)

lemma encrypt_ipv6_warm:
  assumes "warm self rj"
  obtains self' where "encrypt_ipv6 self rj a = Some (self', translate6 rj (m_pad self) a)"
    and "warm self' rj" and "same_pad self self'"
proof -
  obtain a0 a1 a2 a3 where a: "a = In6 a0 a1 a2 a3" by (cases a)
  let ?E = "cryptopan (r_encrypt rj) (m_pad self)"
  obtain s0 where 0: "encrypt_ip self rj (htonl (a0 XOR CRYPTO_IPV6_MASK_0))
      = Some (s0, ?E (htonl (a0 XOR CRYPTO_IPV6_MASK_0)))" "warm s0 rj" "same_pad self s0"
    by (rule encrypt_ip_warm [OF assms])
  obtain s1 where 1: "encrypt_ip s0 rj (htonl (a1 XOR CRYPTO_IPV6_MASK_1))
      = Some (s1, ?E (htonl (a1 XOR CRYPTO_IPV6_MASK_1)))" "warm s1 rj" "same_pad self s1"
    by (rule encrypt_ip_warm [OF 0(2)]) (use 0(3) in \<open>auto simp: same_pad_def\<close>)
  obtain s2 where 2: "encrypt_ip s1 rj (htonl (a2 XOR CRYPTO_IPV6_MASK_2))
      = Some (s2, ?E (htonl (a2 XOR CRYPTO_IPV6_MASK_2)))" "warm s2 rj" "same_pad self s2"
    by (rule encrypt_ip_warm [OF 1(2)]) (use 1(3) in \<open>auto simp: same_pad_def\<close>)
  obtain s3 where 3: "encrypt_ip s2 rj (htonl (a3 XOR CRYPTO_IPV6_MASK_3))
      = Some (s3, ?E (htonl (a3 XOR CRYPTO_IPV6_MASK_3)))" "warm s3 rj" "same_pad self s3"
    by (rule encrypt_ip_warm [OF 2(2)]) (use 2(3) in \<open>auto simp: same_pad_def\<close>)
  show ?thesis
    using that [OF _ 3(2,3)] by (simp add: a 0(1) 1(1) 2(1) 3(1) translate_def)
qed

lemma find_address_frame:
  "find_address self k = (self', r) \<Longrightarrow> warm self' rj = warm self rj \<and> m_pad self' = m_pad self
     \<and> address6_hash self' = address6_hash self"
  by (auto simp: find_address_iff)

lemma find_address6_frame:
  "find_address6 self k = (self', r) \<Longrightarrow> warm self' rj = warm self rj \<and> m_pad self' = m_pad self
     \<and> address_hash self' = address_hash self"
  by (auto simp: find_address6_iff)

lemma retrieve_crypto_ip_operational:
  assumes "operational self rj"
  obtains self' where "retrieve_crypto_ip self rj a = Some (self', translate rj (m_pad self) a)"
    and "operational self' rj" and "m_pad self' = m_pad self"
proof -
  obtain s r where find: "find_address self a = (s, r)" by (cases "find_address self a")
  note frame = find_address_frame [OF find]
  have sound: "warm s rj" "sound_table (translate rj (m_pad self)) (address_hash s)"
      "sound_table (translate6 rj (m_pad self)) (address6_hash s)"
    using assms frame addr4.find_sound [OF find] by (auto simp: operational_def)
  show ?thesis
  proof (cases r)
    case (Some v)
    then have "v = translate rj (m_pad self) a"
      using assms find addr4.find_hit [of self a s v] by (simp add: operational_def)
    then show ?thesis
      using that [of s] sound frame find Some by (simp add: retrieve_crypto_ip_def operational_def)
  next
    case None
    obtain s1 where s1: "encrypt_ip s rj (htonl a)
        = Some (s1, cryptopan (r_encrypt rj) (m_pad s) (htonl a))" "warm s1 rj" "same_pad s s1"
      by (rule encrypt_ip_warm [OF sound(1)])
    let ?t = "translate rj (m_pad self) a"
    let ?s2 = "add_address s1 a ?t"
    let ?s = "?s2\<lparr>crypto_total_insert := crypto_total_insert ?s2 + 1,
        crypto_total_miss := crypto_total_miss ?s2 + 1\<rparr>"
    have "retrieve_crypto_ip self rj a = Some (?s, ?t)"
      using find None s1(1) frame by (simp add: retrieve_crypto_ip_def Let_def translate_def)
    moreover have "sound_table (translate rj (m_pad self)) (address_hash ?s2)"
      by (rule addr4.miss_add [OF find [unfolded None]])
        (use assms s1(3) in \<open>simp_all add: operational_def same_pad_def\<close>)
    ultimately show ?thesis
      using that [of ?s] sound s1 frame by (auto simp: operational_def same_pad_def add_address_def)
  qed
qed

lemma store_crypto_ip_operational:
  assumes "operational self rj"
  obtains self' where "store_crypto_ip self rj a = Some self'"
    and "operational self' rj" and "m_pad self' = m_pad self"
proof -
  obtain s r where find: "find_address self a = (s, r)" by (cases "find_address self a")
  note frame = find_address_frame [OF find]
  have sound: "warm s rj" "sound_table (translate rj (m_pad self)) (address_hash s)"
      "sound_table (translate6 rj (m_pad self)) (address6_hash s)"
    using assms frame addr4.find_sound [OF find] by (auto simp: operational_def)
  show ?thesis
  proof (cases r)
    case (Some v)
    then show ?thesis
      using that [of "s\<lparr>crypto_total_hit := crypto_total_hit s + 1\<rparr>"] sound frame find
      by (simp add: store_crypto_ip_def operational_def)
  next
    case None
    obtain s1 where s1: "encrypt_ip s rj (htonl a)
        = Some (s1, cryptopan (r_encrypt rj) (m_pad s) (htonl a))" "warm s1 rj" "same_pad s s1"
      by (rule encrypt_ip_warm [OF sound(1)])
    let ?s2 = "add_address s1 a (translate rj (m_pad self) a)"
    let ?s = "?s2\<lparr>crypto_total_insert := crypto_total_insert ?s2 + 1\<rparr>"
    have "store_crypto_ip self rj a = Some ?s"
      using find None s1(1) frame by (simp add: store_crypto_ip_def Let_def translate_def)
    moreover have "sound_table (translate rj (m_pad self)) (address_hash ?s2)"
      by (rule addr4.miss_add [OF find [unfolded None]])
        (use assms s1(3) in \<open>simp_all add: operational_def same_pad_def\<close>)
    ultimately show ?thesis
      using that [of ?s] sound s1 frame by (auto simp: operational_def same_pad_def add_address_def)
  qed
qed

lemma retrieve_crypto_ipv6_operational:
  assumes "operational self rj"
  obtains self' where "retrieve_crypto_ipv6 self rj a = Some (self', translate6 rj (m_pad self) a)"
    and "operational self' rj" and "m_pad self' = m_pad self"
proof -
  obtain s r where find: "find_address6 self a = (s, r)" by (cases "find_address6 self a")
  note frame = find_address6_frame [OF find]
  have sound: "warm s rj" "sound_table (translate rj (m_pad self)) (address_hash s)"
      "sound_table (translate6 rj (m_pad self)) (address6_hash s)"
    using assms frame addr6.find_sound [OF find] by (auto simp: operational_def)
  show ?thesis
  proof (cases r)
    case (Some v)
    then have "v = translate6 rj (m_pad self) a"
      using assms find addr6.find_hit [of self a s v] by (simp add: operational_def)
    then show ?thesis
      using that [of s] sound frame find Some by (simp add: retrieve_crypto_ipv6_def operational_def)
  next
    case None
    obtain s1 where s1: "encrypt_ipv6 s rj a = Some (s1, translate6 rj (m_pad s) a)" "warm s1 rj" "same_pad s s1"
      by (rule encrypt_ipv6_warm [OF sound(1)])
    let ?t = "translate6 rj (m_pad self) a"
    let ?s2 = "add_address6 s1 a ?t"
    let ?s = "?s2\<lparr>crypto_total_insert_ipv6 := crypto_total_insert_ipv6 ?s2 + 1,
        crypto_total_miss_ipv6 := crypto_total_miss_ipv6 ?s2 + 1\<rparr>"
    have "retrieve_crypto_ipv6 self rj a = Some (?s, ?t)"
      using find None s1(1) frame by (simp add: retrieve_crypto_ipv6_def Let_def)
    moreover have "sound_table (translate6 rj (m_pad self)) (address6_hash ?s2)"
      by (rule addr6.miss_add [OF find [unfolded None]])
        (use assms s1(3) in \<open>simp_all add: operational_def same_pad_def\<close>)
    ultimately show ?thesis
      using that [of ?s] sound s1 frame by (auto simp: operational_def same_pad_def add_address6_def)
  qed
qed

lemma store_crypto_ipv6_operational:
  assumes "operational self rj"
  obtains self' where "store_crypto_ipv6 self rj a = Some self'"
    and "operational self' rj" and "m_pad self' = m_pad self"
proof -
  obtain s r where find: "find_address6 self a = (s, r)" by (cases "find_address6 self a")
  note frame = find_address6_frame [OF find]
  have sound: "warm s rj" "sound_table (translate rj (m_pad self)) (address_hash s)"
      "sound_table (translate6 rj (m_pad self)) (address6_hash s)"
    using assms frame addr6.find_sound [OF find] by (auto simp: operational_def)
  show ?thesis
  proof (cases r)
    case (Some v)
    then show ?thesis
      using that [of "s\<lparr>crypto_total_hit_ipv6 := crypto_total_hit_ipv6 s + 1\<rparr>"] sound frame find
      by (simp add: store_crypto_ipv6_def operational_def)
  next
    case None
    obtain s1 where s1: "encrypt_ipv6 s rj a = Some (s1, translate6 rj (m_pad s) a)" "warm s1 rj" "same_pad s s1"
      by (rule encrypt_ipv6_warm [OF sound(1)])
    let ?s2 = "add_address6 s1 a (translate6 rj (m_pad self) a)"
    let ?s = "?s2\<lparr>crypto_total_insert_ipv6 := crypto_total_insert_ipv6 ?s2 + 1\<rparr>"
    have "store_crypto_ipv6 self rj a = Some ?s"
      using find None s1(1) frame by (simp add: store_crypto_ipv6_def Let_def)
    moreover have "sound_table (translate6 rj (m_pad self)) (address6_hash ?s2)"
      by (rule addr6.miss_add [OF find [unfolded None]])
        (use assms s1(3) in \<open>simp_all add: operational_def same_pad_def\<close>)
    ultimately show ?thesis
      using that [of ?s] sound s1 frame by (auto simp: operational_def same_pad_def add_address6_def)
  qed
qed


section \<open>Initialisation\<close>

text \<open>The cipher and the pad that a key of 32 bytes stands for.\<close>

definition key_cipher :: "u8 list \<Rightarrow> block \<Rightarrow> block" where
  "key_cipher key = aes sbox 4 10 (key_matrix key 4)"

definition key_pad :: "u8 list \<Rightarrow> block" where
  "key_pad key = key_cipher key (bytes_block (drop 16 key))"

lemma panon_init_ready:
  assumes "tables_loaded rj" and "shaped (m_expandedKey rj)" and "32 \<le> length key"
    and "ifc < MAX_INTERFACES"
  obtains self' rj' where "panon_init self rj key ifc = Some (self', rj')" and "ready rj'"
    and "r_encrypt rj' = key_cipher key" and "m_pad self' = key_pad key" and "cache_ok self' rj'"
    and "fullcache self' = ((0, 0), (0, 0))" and "address_hash self' = address_hash self"
    and "address6_hash self' = address6_hash self"
proof -
  obtain rj' where rj': "rijndael_init rj ECB Encrypt (Some key) Key16Bytes None = Some (rj', RIJNDAEL_SUCCESS)"
    "keyed rj' 16 10 key" "m_mode rj' = ECB" "m_direction rj' = Encrypt"
    using rijndael_init_keyed [OF assms(1,2), of ECB Encrypt Key16Bytes 16 10 key None] assms(3)
    by (auto simp: key_length_of_def)
  have ok: "rounds_ok rj'" using rj'(2) by (simp add: keyed_def rounds_ok_def)
  have "r_encrypt rj' = key_cipher key"
    using rj'(2,4) by (simp add: keyed_def key_cipher_def fun_eq_iff)
  moreover have "blockEncrypt rj' (Some [bytes_block (drop 16 key)]) 128 [p] = Some (128, [key_pad key])" for p
    using blockEncrypt_ecb [OF rj'(2) ok rj'(3,4), of 1 "[bytes_block (drop 16 key)]" "[p]"]
    by (simp add: key_pad_def key_cipher_def)
  moreover have "ready rj'" using rj' ok by (simp add: ready_def keyed_def)
  ultimately show ?thesis
    using that assms(3,4) by (simp add: panon_init_def rj'(1) panon_init_cache_def cache_ok_def)
qed

lemma cpp_anonymize_warms:
  assumes "ready rj" and "cache_ok self rj" and "fullcache self = ((0, 0), (0, 0))"
    and "a \<noteq> 0" and "b \<noteq> 0" and "a \<noteq> b"
  obtains self' self'' x y where "cpp_anonymize self rj a = Some (self', x)"
    and "cpp_anonymize self' rj b = Some (self'', y)" and "warm self'' rj" and "same_pad self self''"
proof -
  let ?E = "cryptopan (r_encrypt rj) (m_pad self)"
  obtain self' where s: "cpp_anonymize self rj a = Some (self', ?E a)" "cache_ok self' rj"
    "same_pad self self'" "fullcache self' = ((a, ?E a), (0, 0))"
    by (rule cpp_anonymize_miss [OF assms(1,2), of a]) (use assms in auto)
  obtain self'' where "cpp_anonymize self' rj b = Some (self'', cryptopan (r_encrypt rj) (m_pad self') b)"
    "cache_ok self'' rj" "same_pad self' self''"
    "fullcache self'' = ((b, cryptopan (r_encrypt rj) (m_pad self') b), (a, ?E a))"
    by (rule cpp_anonymize_miss [OF assms(1) s(2), of b]) (use s(4) assms(5,6) in auto)
  then show ?thesis
    using that [OF s(1)] s(3) assms(1) by (auto simp: warm_def entry_ok_def same_pad_def)
qed

lemma initialize_crypto_operational:
  assumes "shaped (m_expandedKey rj)" and "length key = 32" and "ifc < MAX_INTERFACES"
  obtains self' rj' where "initialize_crypto 0 self rj (Some (base64 key)) ifc = Some (self', rj')"
    and "operational self' rj'" and "r_encrypt rj' = key_cipher key" and "m_pad self' = key_pad key"
proof -
  let ?rj = "init_rijndael_OP rj"
  let ?s = "self\<lparr>address_hash := [], address6_hash := [], enc_cache := None\<rparr>"
  have dec: "unbase64 (base64 key) = Some (Some key, 32)"
    using unbase64_base64 [of key] assms(2) by fastforce
  have cp: "copy_key (Some key) 32 = Some key"
    using assms(2) by (simp add: copy_key_def KEY_SIZE_def)
  have enc: "encrypt_init s r key KEY_SIZE ifc = panon_init s r key ifc" for s r
    using assms(2) by (simp add: encrypt_init_def KEY_SIZE_def)
  obtain s1 rj' where 1: "panon_init ?s ?rj key ifc = Some (s1, rj')" "ready rj'"
    "r_encrypt rj' = key_cipher key" "m_pad s1 = key_pad key" "cache_ok s1 rj'"
    "fullcache s1 = ((0, 0), (0, 0))" "address_hash s1 = []" "address6_hash s1 = []"
    by (rule panon_init_ready [of ?rj key ifc ?s])
      (use assms in \<open>auto simp: init_rijndael_OP_def tables_loaded_def\<close>)
  obtain s2 s3 x y where 2: "cpp_anonymize s1 rj' 1 = Some (s2, x)"
    "cpp_anonymize s2 rj' 2 = Some (s3, y)" "warm s3 rj'" "same_pad s1 s3"
    by (rule cpp_anonymize_warms [OF 1(2,5,6), of 1 2]) auto
  obtain s4 where 4: "encrypt_ip s3 rj' (htonl 0) = Some (s4, cryptopan (r_encrypt rj') (m_pad s3) (htonl 0))"
    "warm s4 rj'" "same_pad s3 s4"
    by (rule encrypt_ip_warm [OF 2(3)])
  let ?s5 = "add_address s4 0 (htonl (cryptopan (r_encrypt rj') (m_pad s3) (htonl 0)))"
  let ?s6 = "?s5\<lparr>crypto_total_hit := 0, crypto_total_insert := 1, crypto_total_miss := 0\<rparr>"
  have warm6: "warm ?s6 rj'" using 4(2) by (simp add: add_address_def)
  obtain s7 where 7: "encrypt_ipv6 ?s6 rj' (In6 0 0 0 0) = Some (s7, translate6 rj' (m_pad ?s6) (In6 0 0 0 0))"
    "warm s7 rj'" "same_pad ?s6 s7"
    by (rule encrypt_ipv6_warm [OF warm6])
  let ?s8 = "add_address6 s7 (In6 0 0 0 0) (translate6 rj' (m_pad ?s6) (In6 0 0 0 0))"
  let ?s9 = "?s8\<lparr>crypto_total_hit_ipv6 := 0, crypto_total_insert_ipv6 := 1, crypto_total_miss_ipv6 := 0\<rparr>"
  have pads: "m_pad s3 = key_pad key" "m_pad s4 = key_pad key" "m_pad ?s6 = key_pad key" "m_pad s7 = key_pad key"
    using 1(4) 2(4) 4(3) 7(3) by (auto simp: same_pad_def add_address_def)
  have "initialize_crypto 0 self rj (Some (base64 key)) ifc = Some (?s9, rj')"
    using dec cp 1(1) 2(1,2) 4(1) 7(1)
    by (simp add: initialize_crypto_def enc encrypt_ip_def Let_def del: encrypt_ipv6.simps)
  moreover have "operational ?s9 rj'"
    using lru_add_sound [of "translate rj' (key_pad key)" "[]" 0]
      lru_add_sound [of "translate6 rj' (key_pad key)" "[]" "In6 0 0 0 0"]
      1(7,8) 2(4) 4(3) 7(2,3) pads
    by (simp add: operational_def same_pad_def add_address_def add_address6_def translate_def
        del: translate6.simps)
  ultimately show ?thesis
    using that [of ?s9 rj'] 1(3) pads by (simp add: add_address6_def)
qed

end
