(* ===== verification/Crypto_Properties.thy ===== *)
theory Crypto_Properties
  imports Crypto_Ip_Correct
begin

text \<open>
  The properties of the address anonymisation of \<^verbatim>\<open>src/crypto_ip.c\<close> and of the key decoder of
  \<^verbatim>\<open>src/base64.h\<close>.
\<close>

section \<open>Sequences of translations\<close>

text \<open>Translating one address after the other, as the packet loop does.\<close>

fun retrieve_all :: "crypto_ip \<Rightarrow> rijndael \<Rightarrow> u32 list \<Rightarrow> (crypto_ip \<times> u32 list) option" where
  "retrieve_all self rj [] = Some (self, [])"
| "retrieve_all self rj (a # as) = do {
     (self, t) \<leftarrow> retrieve_crypto_ip self rj a;
     (self, ts) \<leftarrow> retrieve_all self rj as;
     Some (self, t # ts)
   }"

fun retrieve_all6 :: "crypto_ip \<Rightarrow> rijndael \<Rightarrow> in6_addr list \<Rightarrow> (crypto_ip \<times> in6_addr list) option" where
  "retrieve_all6 self rj [] = Some (self, [])"
| "retrieve_all6 self rj (a # as) = do {
     (self, t) \<leftarrow> retrieve_crypto_ipv6 self rj a;
     (self, ts) \<leftarrow> retrieve_all6 self rj as;
     Some (self, t # ts)
   }"

lemma retrieve_all_operational:
  "operational self rj \<Longrightarrow> \<exists>self'. operational self' rj \<and> m_pad self' = m_pad self
     \<and> retrieve_all self rj as = Some (self', map (translate rj (m_pad self)) as)"
proof (induction as arbitrary: self)
  case (Cons a as)
  obtain s where s: "retrieve_crypto_ip self rj a = Some (s, translate rj (m_pad self) a)"
    "operational s rj" "m_pad s = m_pad self"
    by (rule retrieve_crypto_ip_operational [OF Cons.prems])
  then show ?case using Cons.IH [OF s(2)] by auto
qed simp

lemma retrieve_all6_operational:
  "operational self rj \<Longrightarrow> \<exists>self'. operational self' rj \<and> m_pad self' = m_pad self
     \<and> retrieve_all6 self rj as = Some (self', map (translate6 rj (m_pad self)) as)"
proof (induction as arbitrary: self)
  case (Cons a as)
  obtain s where s: "retrieve_crypto_ipv6 self rj a = Some (s, translate6 rj (m_pad self) a)"
    "operational s rj" "m_pad s = m_pad self"
    by (rule retrieve_crypto_ipv6_operational [OF Cons.prems])
  then show ?case using Cons.IH [OF s(2)] by auto
qed simp

text \<open>Prefixes of IPv6 addresses, in the order the bytes travel.\<close>

fun in6_bits :: "in6_addr \<Rightarrow> bool list" where
  "in6_bits (In6 a0 a1 a2 a3) = concat (map (\<lambda>a. word_bits (htonl a)) [a0, a1, a2, a3])"

lemma bit_u32_high: "32 \<le> n \<Longrightarrow> bit x n = False" for x :: u32
  using bit_imp_le_length [of x n] by auto

lemma bit_htonl: "n < 32 \<Longrightarrow> bit (htonl x) n = bit x (8 * (3 - n div 8) + n mod 8)"
proof -
  have "\<forall>n < 32. bit (htonl x) n = bit x (8 * (3 - n div 8) + n mod 8)"
    unfolding all_bits_32 by (simp add: upt_rec htonl_def bit_simps bit_u32_high)
      (simp add: numeral_eq_Suc)
  then show "n < 32 \<Longrightarrow> ?thesis" by blast
qed

lemma htonl_xor: "htonl (a XOR b) = htonl a XOR htonl b"
  by (rule bit_word_eqI) (auto simp: bit_htonl bit_simps)

lemma agree_xor: "k \<le> 32 \<Longrightarrow> agree k (a XOR m) (b XOR m) = agree k a b"
  by (induction k) (auto simp: agree_Suc bit_simps)

lemma agree_translate:
  "k \<le> 32 \<Longrightarrow>
     agree k (htonl (translate rj pad (a XOR m))) (htonl (translate rj pad (b XOR m)))
       = agree k (htonl a) (htonl b)"
  by (simp add: translate_def cpan.agree_anon htonl_xor agree_xor)

lemma take_blocks_eq:
  assumes "\<And>i k. i < length xss \<Longrightarrow> take k (xss ! i) = take k (yss ! i) \<longleftrightarrow> take k (xss' ! i) = take k (yss' ! i)"
    and "length yss = length xss" and "length xss' = length xss" and "length yss' = length xss"
    and "\<forall>xs \<in> set xss \<union> set yss \<union> set xss' \<union> set yss'. length xs = 32"
  shows "take k (concat xss) = take k (concat yss) \<longleftrightarrow> take k (concat xss') = take k (concat yss')"
  using assms
proof (induction xss arbitrary: yss xss' yss' k)
  case (Cons xs xss)
  obtain ys ysr where ys: "yss = ys # ysr" using Cons.prems(2) by (cases yss) auto
  obtain xs' xsr' where xs': "xss' = xs' # xsr'" using Cons.prems(3) by (cases xss') auto
  obtain ys' ysr' where ys': "yss' = ys' # ysr'" using Cons.prems(4) by (cases yss') auto
  have hd: "take k xs = take k ys \<longleftrightarrow> take k xs' = take k ys'" for k
    using Cons.prems(1) [of 0 k] by (simp add: ys xs' ys')
  have "take k (concat xss) = take k (concat ysr) \<longleftrightarrow> take k (concat xsr') = take k (concat ysr')" for k
  proof (rule Cons.IH)
    show "take j (xss ! i) = take j (ysr ! i) \<longleftrightarrow> take j (xsr' ! i) = take j (ysr' ! i)"
      if "i < length xss" for i j
      using Cons.prems(1) [of "Suc i" j] that by (simp add: ys xs' ys')
  qed (use Cons.prems in \<open>auto simp: ys xs' ys'\<close>)
  moreover have "length xs = 32" "length ys = 32" "length xs' = 32" "length ys' = 32"
    using Cons.prems(5) by (auto simp: ys xs' ys')
  ultimately show ?case
    using hd [of k] by (simp add: ys xs' ys')
qed simp

lemma translate6_prefix:
  "take k (in6_bits (translate6 rj pad a)) = take k (in6_bits (translate6 rj pad b))
     \<longleftrightarrow> take k (in6_bits a) = take k (in6_bits b)"
proof -
  obtain a0 a1 a2 a3 b0 b1 b2 b3 where ab: "a = In6 a0 a1 a2 a3" "b = In6 b0 b1 b2 b3"
    by (cases a; cases b)
  have *: "take k (word_bits (htonl (translate rj pad (x XOR m)))) = take k (word_bits (htonl (translate rj pad (y XOR m))))
      \<longleftrightarrow> take k (word_bits (htonl x)) = take k (word_bits (htonl y))" for x y m k
  proof (cases "k \<le> 32")
    case True
    then show ?thesis using agree_translate [of k rj pad x m y] by (simp add: agree_def)
  next
    case False
    then show ?thesis using agree_translate [of 32 rj pad x m y] by (simp add: word_bits_inj)
  qed
  show ?thesis
    unfolding ab translate6.simps in6_bits.simps
    by (rule take_blocks_eq) (auto simp: * less_Suc_eq)
qed

section \<open>Properties\<close>

text \<open>
  C5.  From the configuration to the packets: when the key of an interface is the base64 text of
  32 bytes, \<^verbatim>\<open>initialize_crypto\<close> succeeds, and translating any sequence of IPv4 addresses with
  \<^verbatim>\<open>retrieve_crypto_ip\<close>, through the caches and whatever the table evicts, gives each its
  Crypto-PAn image under AES with the first half of the key and the encrypted second half as pad.
\<close>

theorem initialised_translation:
  assumes "shaped (m_expandedKey rj)" and "length key = 32" and "ifc < MAX_INTERFACES"
  shows "\<exists>self' rj'. initialize_crypto 0 self rj (Some (base64 key)) ifc = Some (self', rj')
    \<and> (\<forall>as. \<exists>self''. retrieve_all self' rj' as
          = Some (self'', map (\<lambda>a. htonl (cryptopan (key_cipher key) (key_pad key) (htonl a))) as))"
proof -
  obtain self' rj' where i: "initialize_crypto 0 self rj (Some (base64 key)) ifc = Some (self', rj')"
    "operational self' rj'" "r_encrypt rj' = key_cipher key" "m_pad self' = key_pad key"
    by (rule initialize_crypto_operational [OF assms])
  then show ?thesis
    using retrieve_all_operational [OF i(2)] by (auto simp: translate_def [abs_def])
qed

definition zero_crypto_ip :: crypto_ip where
  "zero_crypto_ip = \<lparr>address_hash = [], address6_hash = [], crypto_total_hit = 0,
     crypto_total_insert = 0, crypto_total_miss = 0, crypto_total_hit_ipv6 = 0,
     crypto_total_insert_ipv6 = 0, crypto_total_miss_ipv6 = 0, m_key = (\<lambda>_. replicate 16 0),
     m_pad = 0, enc_cache = None, fullcache = ((0, 0), (0, 0))\<rparr>"

lemma shaped_zero_key: "shaped (m_expandedKey zero_rijndael)"
  by (simp add: shaped_def zero_rijndael_def)

theorem initialised_translation_witness:
  "\<exists>self' rj'. initialize_crypto 0 zero_crypto_ip zero_rijndael (Some (base64 (replicate 32 7))) 3
      = Some (self', rj')
    \<and> (\<forall>as. \<exists>self''. retrieve_all self' rj' as = Some (self'',
        map (\<lambda>a. htonl (cryptopan (key_cipher (replicate 32 7)) (key_pad (replicate 32 7)) (htonl a))) as))"
  by (rule initialised_translation [OF shaped_zero_key]) (simp_all add: MAX_INTERFACES_def)

text \<open>
  C6.  Prefix preservation, on the code: in the state the program translates in, two IPv4
  addresses share their first \<open>k\<close> bits exactly when their translations do; with \<open>k = 32\<close>,
  different addresses get different translations.
\<close>

theorem ipv4_prefix_preserving:
  assumes "operational self rj" and "k \<le> 32"
  shows "\<exists>self' t u. retrieve_all self rj [a, b] = Some (self', [t, u])
    \<and> (take k (word_bits (htonl t)) = take k (word_bits (htonl u))
        \<longleftrightarrow> take k (word_bits (htonl a)) = take k (word_bits (htonl b)))"
  using retrieve_all_operational [OF assms(1), of "[a, b]"] cpan.agree_anon [OF assms(2)]
  by (auto simp: agree_def translate_def)

definition ready_rijndael :: rijndael where
  "ready_rijndael = zero_rijndael\<lparr>m_uRounds := 10\<rparr>"

definition warm_crypto_ip :: "u32 \<Rightarrow> u32 \<Rightarrow> crypto_ip" where
  "warm_crypto_ip x y = zero_crypto_ip\<lparr>enc_cache := Some (\<lambda>_. 0), fullcache := ((1, x), (2, y))\<rparr>"

lemma operational_example:
  "\<exists>x y. operational (warm_crypto_ip x y) ready_rijndael"
  by (rule exI [of _ "cryptopan (r_encrypt ready_rijndael) 0 1"],
      rule exI [of _ "cryptopan (r_encrypt ready_rijndael) 0 2"])
    (simp add: operational_def warm_crypto_ip_def warm_def cache_ok_def entry_ok_def
      zero_crypto_ip_def ready_def ready_rijndael_def zero_rijndael_def rounds_ok_def rijndael_enums
      cong: if_cong)

theorem ipv4_prefix_preserving_witness:
  "\<exists>x y self' t u.
     retrieve_all (warm_crypto_ip x y) ready_rijndael [0x0100000a, 0x0200000a] = Some (self', [t, u])
     \<and> take 24 (word_bits (htonl t)) = take 24 (word_bits (htonl u))"
proof -
  obtain x y where o: "operational (warm_crypto_ip x y) ready_rijndael"
    using operational_example by blast
  have "take 24 (word_bits (htonl 0x0100000a)) = take 24 (word_bits (htonl 0x0200000a))"
    by code_simp
  then show ?thesis
    using ipv4_prefix_preserving [OF o, of 24 "0x0100000a" "0x0200000a"] by fastforce
qed

text \<open>
  C13.  The same for IPv6: the four words are translated separately under different masks, and
  still the translations of two addresses agree on their first \<open>k\<close> of 128 bits exactly when the
  addresses do.
\<close>

theorem ipv6_prefix_preserving:
  assumes "operational self rj"
  shows "\<exists>self' t u. retrieve_all6 self rj [a, b] = Some (self', [t, u])
    \<and> (take k (in6_bits t) = take k (in6_bits u) \<longleftrightarrow> take k (in6_bits a) = take k (in6_bits b))"
  using retrieve_all6_operational [OF assms, of "[a, b]"] translate6_prefix [of k rj _ a b] by auto

theorem ipv6_prefix_preserving_witness:
  "\<exists>x y self' t u.
     retrieve_all6 (warm_crypto_ip x y) ready_rijndael [In6 32 0 0 1, In6 32 0 0 2] = Some (self', [t, u])
     \<and> take 96 (in6_bits t) = take 96 (in6_bits u)"
proof -
  obtain x y where o: "operational (warm_crypto_ip x y) ready_rijndael"
    using operational_example by blast
  have "take 96 (in6_bits (In6 32 0 0 1)) = take 96 (in6_bits (In6 32 0 0 2))" by simp
  then show ?thesis
    using ipv6_prefix_preserving [OF o, of "In6 32 0 0 1" "In6 32 0 0 2" 96] by fastforce
qed

text \<open>
  C27.  The optimised \<^verbatim>\<open>cpp_anonymize\<close> computes \<^verbatim>\<open>pp_anonymize\<close>: once both rows of
  \<^verbatim>\<open>fullcache\<close> hold real results, neither the two-row cache nor the table of twenty-bit
  prefixes, whatever its filling, changes a result, and both stay so.
\<close>

theorem caches_invisible:
  assumes "warm self rj"
  shows "\<exists>self' r. cpp_anonymize self rj a = Some (self', r) \<and> pp_anonymize self rj a = Some r
    \<and> warm self' rj"
  using cpp_anonymize_warm [OF assms, of a] assms pp_anonymize_cryptopan [of rj self a]
  by (auto simp: warm_def)

theorem caches_invisible_witness:
  "\<exists>x y self' r. cpp_anonymize (warm_crypto_ip x y) ready_rijndael 7 = Some (self', r)
    \<and> pp_anonymize (warm_crypto_ip x y) ready_rijndael 7 = Some r"
proof -
  obtain x y where "warm (warm_crypto_ip x y) ready_rijndael"
    using operational_example by (auto simp: operational_def)
  then show ?thesis using caches_invisible [of "warm_crypto_ip x y" ready_rijndael 7] by blast
qed

text \<open>
  After \<^verbatim>\<open>panon_init_cache\<close> alone the address 0.0.0.0 is not encrypted: the zeroed
  \<^verbatim>\<open>fullcache\<close> answers for it, whatever the key.  \<^verbatim>\<open>initialize_crypto\<close> makes two other calls
  first, and \<open>initialised_translation\<close> shows that this is enough.
\<close>

theorem zero_address_before_warm_up:
  "cpp_anonymize (panon_init_cache self) rj 0 = Some (panon_init_cache self, 0)"
  by (simp add: cpp_anonymize_def panon_init_cache_def)

text \<open>
  The input of the cipher for bit \<open>pos\<close> is the first \<open>pos\<close> bits of the address followed by
  the bits of the pad from \<open>pos\<close> on, as the shifts on \<^verbatim>\<open>first4bytes_pad\<close> intend.
\<close>

theorem cipher_input_is_prefix_and_pad:
  assumes "pos < 32"
  shows "block_bits (rin_input pad (first4bytes_input pad a pos))
    = take pos (word_bits a) @ drop pos (block_bits pad)"
  by (rule rin_input_bits [OF assms])

theorem cipher_input_is_prefix_and_pad_witness:
  "block_bits (rin_input 0 (first4bytes_input 0 0xff00ff00 12))
    = replicate 8 True @ replicate 120 False"
  using cipher_input_is_prefix_and_pad [of 12 0 "0xff00ff00"] by (simp; code_simp)

text \<open>
  C28.  The tables are least recently used caches of at most \<^verbatim>\<open>MAX_CRYPTIO_CACHE_SIZE\<close>
  entries: a hit moves the entry to the end and keeps the order of the others, and adding to a
  full table drops the first entry only.
\<close>

theorem address_table_is_lru:
  assumes "sound_table f (address_hash self)"
  shows "case find_address self a of
      (self', Some v) \<Rightarrow> address_hash self' = filter (\<lambda>e. fst e \<noteq> a) (address_hash self) @ [(a, v)]
    | (self', None) \<Rightarrow>
        address_hash (add_address self' a v) = drop (length (address_hash self) + 1 - MAX_CRYPTIO_CACHE_SIZE)
          (address_hash self) @ [(a, v)]"
proof -
  let ?h = "address_hash self"
  have d: "distinct (map fst ?h)" "length ?h \<le> MAX_CRYPTIO_CACHE_SIZE"
    using assms by (simp_all add: sound_table_def)
  show ?thesis
  proof (cases "hash_find a ?h")
    case None
    have "0 < MAX_CRYPTIO_CACHE_SIZE" by (simp add: MAX_CRYPTIO_CACHE_SIZE_def)
    then show ?thesis
      using None d by (cases ?h) (auto simp: find_address_def lru_find_def add_address_def lru_add_def
          hash_add_def Let_def Suc_diff_le)
  next
    case (Some s)
    then have s: "s \<in> set ?h" "fst s = a" using hash_find_Some by fast+
    have "distinct (rev ?h)" using d(1) by (simp add: distinct_map)
    then have "rev (remove1 s (rev ?h)) = filter (\<lambda>e. s \<noteq> e) ?h"
      by (simp add: distinct_remove1_removeAll removeAll_filter_not_eq rev_filter)
    also have "... = filter (\<lambda>e. fst e \<noteq> a) ?h"
    proof (rule filter_cong [OF refl])
      fix e assume "e \<in> set ?h"
      then show "(s \<noteq> e) = (fst e \<noteq> a)"
        using s d(1) eq_key_imp_eq_value [of ?h a "snd s" "snd e"] by (metis prod.collapse)
    qed
    finally have "rev (remove1 s (rev ?h)) = filter (\<lambda>e. fst e \<noteq> a) ?h" .
    then show ?thesis
      using Some hash_find_Some [OF Some]
      by (auto simp: find_address_def lru_find_def hash_add_def hash_delete_def)
  qed
qed

theorem address_table_is_lru_witness:
  "case find_address (zero_crypto_ip\<lparr>address_hash := [(1, 5), (2, 6), (3, 7)]\<rparr>) 2 of
      (self', Some v) \<Rightarrow> address_hash self' = [(1, 5), (3, 7), (2, 6)]
    | (self', None) \<Rightarrow> False"
  using address_table_is_lru [where self = "zero_crypto_ip\<lparr>address_hash := [(1, 5), (2, 6), (3, 7)]\<rparr>"
      and f = "\<lambda>k. k + 4" and a = 2]
  by (simp add: sound_table_def MAX_CRYPTIO_CACHE_SIZE_def find_address_def lru_find_def hash_find_def
      hash_add_def hash_delete_def)

text \<open>
  \<^verbatim>\<open>panon_init_decrypt\<close> cannot set up decryption: it leaves the context in direction
  \<^verbatim>\<open>Decrypt\<close>, in which its own call of \<^verbatim>\<open>blockEncrypt\<close> is refused, so the pad stays what it was
  and every later anonymisation reads a buffer that was never written.
\<close>

theorem panon_init_decrypt_never_works:
  assumes "tables_loaded rj" and "shaped (m_expandedKey rj)" and "32 \<le> length key"
  shows "\<exists>self' rj'. panon_init_decrypt self rj key ifc = Some (self', rj')
    \<and> m_pad self' = m_pad self \<and> (\<forall>a. pp_anonymize self' rj' a = None)"
proof -
  obtain rj' where rj': "rijndael_init rj ECB Decrypt (Some key) Key16Bytes None = Some (rj', RIJNDAEL_SUCCESS)"
    "keyed rj' 16 10 key" "m_direction rj' = Decrypt"
    using rijndael_init_keyed [OF assms(1,2), of ECB Decrypt Key16Bytes 16 10 key None] assms(3)
    by (auto simp: key_length_of_def)
  have refused: "blockEncrypt rj' i l out = Some (RIJNDAEL_BAD_DIRECTION, out)" for i l out
    using rj'(2,3) by (simp add: blockEncrypt_def keyed_def rijndael_enums)
  then have "encrypt_block rj' b = None" for b
    by (simp add: encrypt_block_def RIJNDAEL_BAD_DIRECTION_def)
  then have "pp_anonymize s rj' a = None" for s a
    by (simp add: pp_anonymize_def upt_rec)
  then show ?thesis
    using assms(3) rj'(1) refused by (simp add: panon_init_decrypt_def)
qed

theorem panon_init_decrypt_never_works_witness:
  "\<exists>self' rj'. panon_init_decrypt zero_crypto_ip (init_rijndael_OP zero_rijndael) (replicate 32 5) 0
      = Some (self', rj')
    \<and> m_pad self' = m_pad zero_crypto_ip \<and> (\<forall>a. pp_anonymize self' rj' a = None)"
  by (rule panon_init_decrypt_never_works)
    (use shaped_zero_key in \<open>simp_all add: init_rijndael_OP_def tables_loaded_def\<close>)

text \<open>Round trip of the key coder: \<^verbatim>\<open>unbase64\<close> returns the bytes that were encoded.\<close>

theorem base64_round_trip:
  assumes "bs \<noteq> []"
  shows "unbase64 (base64 bs) = Some (Some bs, int (length bs))"
  by (rule unbase64_base64 [OF assms])

theorem base64_round_trip_witness: "unbase64 (base64 [77, 97]) = Some (Some [77, 97], 2)"
  using base64_round_trip [of "[77, 97]"] by simp

end
