(* ===== verification/Hash_Calculator.thy ===== *)
theory Hash_Calculator
  imports Prelude
begin

text \<open>
  The hash functions of \<^verbatim>\<open>src/hash_calculator.c\<close> that choose the slots of the tables, and the
  random letter of the DNS names.  A result of type \<^verbatim>\<open>int\<close> is the signed reading of its 32 bits.
  The time stamp counter of the processor is an argument.
\<close>

definition FLOW_TABLE_SIZE :: nat where "FLOW_TABLE_SIZE = 10000"
definition MAX_CLIENT :: nat where "MAX_CLIENT = 900"
definition TCP_UDP_FLOWS :: nat where "TCP_UDP_FLOWS = 2000003"

definition Uint128Low64 :: "u128 \<Rightarrow> u64" where "Uint128Low64 x = ucast x"
definition Uint128High64 :: "u128 \<Rightarrow> u64" where "Uint128High64 x = ucast (drop_bit 64 x)"

definition getHash :: "u128 \<Rightarrow> u128 \<Rightarrow> u16 \<Rightarrow> u16 \<Rightarrow> u8 \<Rightarrow> int \<Rightarrow> int" where
  "getHash sip dip sp dp ptl max_dim =
     sint (ucast ((sip XOR dip XOR ucast sp XOR ucast dp XOR ucast ptl) mod word_of_int max_dim) :: u32)"

text \<open>The characters of a C string are signed and end before the zero byte.\<close>

fun nameHash_loop :: "u32 \<Rightarrow> u8 list \<Rightarrow> u32" where
  "nameHash_loop hash [] = hash"
| "nameHash_loop hash (c # s) = nameHash_loop ((push_bit 5 hash + hash) + scast c) s"

definition nameHash :: "u8 list \<Rightarrow> int" where
  "nameHash s = sint (nameHash_loop 5381 s mod of_nat FLOW_TABLE_SIZE)"

definition getHashClient :: "u128 \<Rightarrow> int \<Rightarrow> int" where
  "getHashClient sip max_dim =
     (let kMul = 0x9ddfea08eb382d69;
          a = (Uint128Low64 sip XOR Uint128High64 sip) * kMul;
          a = a XOR drop_bit 47 a;
          b = (Uint128High64 sip XOR a) * kMul;
          b = b XOR drop_bit 47 b;
          b = b * kMul
      in sint (ucast (b mod word_of_int max_dim) :: u32))"

definition randChar :: "u64 \<Rightarrow> u8" where
  "randChar tsc = 65 + ucast (tsc mod 26)"

section \<open>Ranges\<close>

text \<open>A remainder by a positive \<^verbatim>\<open>int\<close> is a non-negative \<^verbatim>\<open>int\<close> below it.\<close>

lemma sint_small: "unat w < 2 ^ 31 \<Longrightarrow> sint w = int (unat w)" for w :: u32
proof -
  assume "unat w < 2 ^ 31"
  then have "int (unat w) < int (2 ^ 31)" by (simp only: of_nat_less_iff)
  then have "uint w < 2 ^ 31" by simp
  then have "signed_take_bit 31 (uint w) = uint w"
    using uint_ge_0 [of w] by (intro signed_take_bit_int_eq_self; linarith)
  then show ?thesis by (simp add: sint_uint)
qed

lemma mod_to_int:
  fixes w :: "'a::len word"
  assumes "0 < m" and "m < 2 ^ 31" and "31 < LENGTH('a)"
  shows "sint (ucast (w mod word_of_int m) :: u32) = int (unat w mod nat m)"
proof -
  have "m < 2 ^ LENGTH('a)"
    using assms(2,3) power_increasing [of 31 "LENGTH('a)" "2::int"] by linarith
  then have "uint (word_of_int m :: 'a word) = m"
    using assms(1) by (simp add: uint_word_of_int take_bit_int_eq_self)
  then have m: "unat (word_of_int m :: 'a word) = nat m"
    by (simp add: unat_eq_nat_uint)
  have "unat w mod nat m < nat m" using assms(1) by simp
  also have "nat m < 2 ^ 31" using assms(1,2) by (simp add: nat_less_iff)
  finally have lt: "unat w mod nat m < 2 ^ 31" .
  then have "unat (ucast (w mod word_of_int m) :: u32) = unat w mod nat m"
    by (simp add: unsigned_ucast_eq m unat_mod_distrib take_bit_nat_eq_self)
  then show ?thesis using lt by (simp add: sint_small)
qed

lemma mod_to_int_range:
  fixes w :: "'a::len word"
  assumes "0 < m" and "m < 2 ^ 31" and "31 < LENGTH('a)"
  shows "sint (ucast (w mod word_of_int m) :: u32) \<in> {0..<m}"
proof -
  have "unat w mod nat m < nat m" using assms(1) by simp
  then show ?thesis using mod_to_int [OF assms, of w] by (simp add: zless_nat_eq_int_zless)
qed

lemma getHash_range: "0 < m \<Longrightarrow> m < 2 ^ 31 \<Longrightarrow> getHash sip dip sp dp ptl m \<in> {0..<m}"
  unfolding getHash_def by (rule mod_to_int_range) simp_all

lemma getHashClient_range: "0 < m \<Longrightarrow> m < 2 ^ 31 \<Longrightarrow> getHashClient sip m \<in> {0..<m}"
  unfolding getHashClient_def Let_def by (rule mod_to_int_range) simp_all

lemma nameHash_range: "nameHash s \<in> {0..<int FLOW_TABLE_SIZE}"
  using mod_to_int_range [of "int FLOW_TABLE_SIZE" "nameHash_loop 5381 s"]
  by (simp add: nameHash_def FLOW_TABLE_SIZE_def)

lemma getHash_symmetric: "getHash dip sip dp sp ptl m = getHash sip dip sp dp ptl m"
  by (simp add: getHash_def xor_ac)

end
