(* ===== verification/Lru.thy ===== *)
theory Lru
  imports Hash_Calculator
begin

text \<open>
  The list of recent clients of one name, \<^verbatim>\<open>src/lru.c\<close>, on a heap: \<^verbatim>\<open>newlru\<close>,
  \<^verbatim>\<open>Enqueue\<close>, \<^verbatim>\<open>prune\<close> and \<^verbatim>\<open>referencePage\<close> with every pointer they read and write.

  An address is a number, 0 is \<^verbatim>\<open>NULL\<close>.  \<^verbatim>\<open>malloc\<close> returns the next unused address; it fails
  where the oracle \<open>oom\<close> says so.  Reading or writing through a pointer that is null or not
  allocated is a fault, and so is indexing \<^verbatim>\<open>client_list\<close> out of range.
\<close>

section \<open>Data\<close>

record lru =
  client_hash :: nat
  lru_timestamp :: int
  lru_prev :: nat
  lru_next :: nat

record client =
  active :: int
  c_ipv :: int
  c_ipv4_src :: u32
  c_ipv4_dst :: u32
  c_ipv6_src :: u128
  c_ipv6_dst :: u128
  c_in_port :: u16
  c_out_port :: u16
  c_protocol :: u8
  last_seen :: int
  lru_ptr :: nat

record flow =
  ipv :: int
  ipv4_src :: u32
  ipv4_dst :: u32
  ipv6_src :: u128
  ipv6_dst :: u128
  in_port :: u16
  out_port :: u16
  protocol :: u8
  timestamp :: int

text \<open>
  A \<^verbatim>\<open>struct names\<close> without the two pointers that chain it in its bucket, which the theory of
  the table of names models.
\<close>

record names =
  full :: int
  name :: "u8 list"
  n_entry :: int
  n_client :: int
  oldest :: int
  head :: nat
  tail :: nat
  client_list :: "nat \<Rightarrow> client"

record heap =
  cells :: "nat \<Rightarrow> lru option"
  brk :: nat
  oom :: "nat \<Rightarrow> bool"

section \<open>Memory\<close>

definition load :: "heap \<Rightarrow> nat \<Rightarrow> lru option" where
  "load h p = (if p = 0 then None else cells h p)"

definition store :: "heap \<Rightarrow> nat \<Rightarrow> (lru \<Rightarrow> lru) \<Rightarrow> heap option" where
  "store h p f = do { c \<leftarrow> load h p; Some (h\<lparr>cells := (cells h)(p \<mapsto> f c)\<rparr>) }"

definition free_cell :: "heap \<Rightarrow> nat \<Rightarrow> heap" where
  "free_cell h p = h\<lparr>cells := (cells h)(p := None)\<rparr>"

definition update_client :: "names \<Rightarrow> nat \<Rightarrow> (client \<Rightarrow> client) \<Rightarrow> names option" where
  "update_client q i f =
     (if i < MAX_CLIENT then Some (q\<lparr>client_list := (client_list q)(i := f (client_list q i))\<rparr>)
      else None)"

section \<open>Operations\<close>

definition newlru :: "heap \<Rightarrow> nat \<Rightarrow> int \<Rightarrow> heap \<times> nat" where
  "newlru h hash ts =
     (let p = brk h; h = h\<lparr>brk := Suc (brk h)\<rparr> in
      if oom h p then (h, 0)
      else (h\<lparr>cells := (cells h)(p \<mapsto>
        \<lparr>client_hash = hash, lru_timestamp = ts, lru_prev = 0, lru_next = 0\<rparr>)\<rparr>, p))"

definition Enqueue :: "heap \<Rightarrow> names \<Rightarrow> flow \<Rightarrow> nat \<Rightarrow> (heap \<times> names) option" where
  "Enqueue h queue flow_recv hash_val =
     (let (h, tmp) = newlru h hash_val (timestamp flow_recv) in
      if tmp = 0 then Some (h, queue)
      else do {
        (h, queue) \<leftarrow>
          (if n_entry queue = 0 then Some (h, queue\<lparr>tail := tmp, head := tmp\<rparr>)
           else do {
             h \<leftarrow> store h tmp (\<lambda>c. c\<lparr>lru_next := head queue\<rparr>);
             h \<leftarrow> store h (head queue) (\<lambda>c. c\<lparr>lru_prev := tmp\<rparr>);
             Some (h, queue\<lparr>head := tmp\<rparr>)
           });
        queue \<leftarrow> update_client queue hash_val (\<lambda>_. \<lparr>active = 1, c_ipv = ipv flow_recv,
          c_ipv4_src = ipv4_src flow_recv, c_ipv4_dst = ipv4_dst flow_recv,
          c_ipv6_src = ipv6_src flow_recv, c_ipv6_dst = ipv6_dst flow_recv,
          c_in_port = in_port flow_recv, c_out_port = out_port flow_recv,
          c_protocol = protocol flow_recv, last_seen = timestamp flow_recv, lru_ptr = tmp\<rparr>);
        Some (h, queue\<lparr>n_entry := n_entry queue + 1, n_client := n_client queue + 1\<rparr>)
      })"

text \<open>The \<^verbatim>\<open>while\<close> loop of \<^verbatim>\<open>prune\<close>; the iteration that empties the list breaks out of it.\<close>

definition drop_client :: "names \<Rightarrow> nat \<Rightarrow> names option" where
  "drop_client queue i = update_client queue i (\<lambda>c. c\<lparr>active := 0, lru_ptr := 0\<rparr>)"

partial_function (option) prune_loop ::
  "heap \<Rightarrow> names \<Rightarrow> int \<Rightarrow> int \<Rightarrow> nat \<Rightarrow> (heap \<times> names) option" where
  "prune_loop h queue ts delta tmp = do {
     c \<leftarrow> load h tmp;
     if lru_timestamp c < ts - delta then
       if tail queue = head queue then do {
         queue \<leftarrow> drop_client queue (client_hash c);
         Some (free_cell h tmp, queue\<lparr>n_entry := n_entry queue - 1, head := 0, tail := 0\<rparr>)
       }
       else do {
         let queue = queue\<lparr>tail := lru_prev c\<rparr>;
         h \<leftarrow> store h (tail queue) (\<lambda>c. c\<lparr>lru_next := 0\<rparr>);
         queue \<leftarrow> drop_client queue (client_hash c);
         prune_loop (free_cell h tmp) (queue\<lparr>n_entry := n_entry queue - 1\<rparr>) ts delta (tail queue)
       }
     else Some (h, queue)
   }"

definition prune :: "heap \<Rightarrow> names \<Rightarrow> int \<Rightarrow> int \<Rightarrow> (heap \<times> names) option" where
  "prune h queue ts delta = prune_loop h queue ts delta (tail queue)"

text \<open>The branch of \<^verbatim>\<open>referencePage\<close> that moves the node \<open>p\<close> of a client to the front.\<close>

definition move_to_front :: "heap \<Rightarrow> names \<Rightarrow> nat \<Rightarrow> int \<Rightarrow> (heap \<times> names) option" where
  "move_to_front h queue p ts = do {
     c \<leftarrow> load h p;
     h \<leftarrow> store h (lru_prev c) (\<lambda>d. d\<lparr>lru_next := lru_next c\<rparr>);
     h \<leftarrow> (if lru_next c \<noteq> 0 then store h (lru_next c) (\<lambda>d. d\<lparr>lru_prev := lru_prev c\<rparr>) else Some h);
     (h, queue) \<leftarrow>
       (if p = tail queue then do {
          let queue = queue\<lparr>tail := lru_prev c\<rparr>;
          h \<leftarrow> store h (tail queue) (\<lambda>d. d\<lparr>lru_next := 0\<rparr>);
          Some (h, queue)
        } else Some (h, queue));
     h \<leftarrow> store h p (\<lambda>d. d\<lparr>lru_next := head queue, lru_prev := 0\<rparr>);
     h \<leftarrow> store h (head queue) (\<lambda>d. d\<lparr>lru_prev := p\<rparr>);
     let queue = queue\<lparr>head := p\<rparr>;
     h \<leftarrow> store h (head queue) (\<lambda>d. d\<lparr>lru_timestamp := ts\<rparr>);
     Some (h, queue)
   }"

definition referencePage ::
  "heap \<Rightarrow> names \<Rightarrow> flow \<Rightarrow> nat \<Rightarrow> int \<Rightarrow> int \<Rightarrow> (heap \<times> names) option" where
  "referencePage h queue flow_recv hash_val k_anon k_delta =
     (if MAX_CLIENT \<le> hash_val then None else do {
        (h, queue) \<leftarrow>
          (if active (client_list queue hash_val) = 0 then Enqueue h queue flow_recv hash_val
           else if lru_ptr (client_list queue hash_val) \<noteq> head queue then
             move_to_front h queue (lru_ptr (client_list queue hash_val)) (timestamp flow_recv)
           else do {
             h \<leftarrow> store h (head queue) (\<lambda>c. c\<lparr>lru_timestamp := timestamp flow_recv\<rparr>);
             Some (h, queue)
           });
        (h, queue) \<leftarrow>
          (if k_anon < n_entry queue then prune h queue (timestamp flow_recv) k_delta
           else Some (h, queue));
        c \<leftarrow> load h (tail queue);
        Some (h, queue\<lparr>oldest := lru_timestamp c\<rparr>)
      })"

end
