(* ===== verification/Lru_Correct.thy ===== *)
theory Lru_Correct
  imports Lru
begin

text \<open>
  The pointer operations of \<^verbatim>\<open>src/lru.c\<close> refine operations on lists: a well-formed list of a
  name stands for the list of its clients with the time each was last seen, newest first;
  \<^verbatim>\<open>referencePage\<close> moves or adds the client to the front, and \<^verbatim>\<open>prune\<close> drops the expired
  tail.  Every lemma states what the operation leaves alone, so that the lists of several names
  can share the heap.
\<close>

section \<open>Doubly linked lists\<close>

text \<open>
  \<open>dll c p as xs n\<close>: the cells at the addresses \<open>as\<close> are linked in this order between the
  addresses \<open>p\<close> and \<open>n\<close> and hold the pairs \<open>xs\<close> of client and time stamp.
\<close>

fun dll :: "(nat \<Rightarrow> lru option) \<Rightarrow> nat \<Rightarrow> nat list \<Rightarrow> (nat \<times> int) list \<Rightarrow> nat \<Rightarrow> bool" where
  "dll c p [] [] n \<longleftrightarrow> True"
| "dll c p (a # as) (x # xs) n \<longleftrightarrow>
     c a = Some \<lparr>client_hash = fst x, lru_timestamp = snd x, lru_prev = p, lru_next = hd (as @ [n])\<rparr>
     \<and> dll c a as xs n"
| "dll c p _ _ n \<longleftrightarrow> False"

lemma dll_Nil [simp]: "dll c p [] xs n \<longleftrightarrow> xs = []" "dll c p as [] n \<longleftrightarrow> as = []"
  by (cases xs; simp) (cases as; simp)

lemma dll_length: "dll c p as xs n \<Longrightarrow> length as = length xs"
  by (induction c p as xs n rule: dll.induct) simp_all

lemma dll_append:
  "length as = length xs \<Longrightarrow>
     dll c p (as @ bs) (xs @ ys) n \<longleftrightarrow> dll c p as xs (hd (bs @ [n])) \<and> dll c (last (p # as)) bs ys n"
proof (induction as xs arbitrary: p rule: list_induct2)
  case (Cons a as x xs)
  have "hd ((as @ bs) @ [n]) = hd (as @ [hd (bs @ [n])])" by (cases as) simp_all
  then show ?case using Cons by simp
qed simp

lemma dll_frame: "(\<And>a. a \<in> set as \<Longrightarrow> c' a = c a) \<Longrightarrow> dll c' p as xs n \<longleftrightarrow> dll c p as xs n"
  by (induction c p as xs n rule: dll.induct) simp_all

lemma dll_update [simp]: "a \<notin> set as \<Longrightarrow> dll (c(a := v)) p as xs n \<longleftrightarrow> dll c p as xs n"
  by (rule dll_frame) auto

text \<open>The end of a list whose last link is redirected, and its start.\<close>

lemma dll_snoc_next:
  "dll c p (as @ [a]) xs m \<Longrightarrow> a \<notin> set as \<Longrightarrow>
     dll (c(a \<mapsto> (the (c a))\<lparr>lru_next := n\<rparr>)) p (as @ [a]) xs n"
proof -
  assume d: "dll c p (as @ [a]) xs m" and "a \<notin> set as"
  obtain ys y where xs: "xs = ys @ [y]" using dll_length [OF d] by (cases xs rule: rev_cases) auto
  have "length as = length ys" using dll_length [OF d] xs by simp
  then show ?thesis
    using d \<open>a \<notin> set as\<close> by (auto simp: xs dll_append)
qed

lemma dll_Cons_prev:
  "dll c p (a # as) xs n \<Longrightarrow> a \<notin> set as \<Longrightarrow>
     dll (c(a \<mapsto> (the (c a))\<lparr>lru_prev := q\<rparr>)) q (a # as) xs n"
  by (cases xs) auto

section \<open>The list of a name\<close>

definition queue_at :: "heap \<Rightarrow> names \<Rightarrow> nat list \<Rightarrow> (nat \<times> int) list \<Rightarrow> bool" where
  "queue_at h q as xs \<longleftrightarrow>
     dll (cells h) 0 as xs 0 \<and> distinct as \<and> (\<forall>a \<in> set as. 0 < a \<and> a < brk h) \<and> 0 < brk h
     \<and> (xs \<noteq> [] \<longrightarrow> head q = hd as \<and> tail q = last as)
     \<and> n_entry q = int (length xs) \<and> distinct (map fst xs)
     \<and> (\<forall>x \<in> set xs. fst x < MAX_CLIENT)
     \<and> (\<forall>i < MAX_CLIENT. active (client_list q i) = of_bool (i \<in> fst ` set xs))
     \<and> map (\<lambda>x. lru_ptr (client_list q (fst x))) xs = as"

lemma map_update_other:
  "i \<notin> fst ` set xs \<Longrightarrow>
     map (\<lambda>x. lru_ptr ((f(i := c)) (fst x))) xs = map (\<lambda>x. lru_ptr (f (fst x))) xs"
  by (intro map_cong) auto

text \<open>What an operation on the list at \<open>as\<close> may change of the heap and of the name.\<close>

definition lru_frame :: "heap \<Rightarrow> nat list \<Rightarrow> heap \<Rightarrow> nat list \<Rightarrow> bool" where
  "lru_frame h as h' as' \<longleftrightarrow> brk h \<le> brk h' \<and> oom h' = oom h
     \<and> (\<forall>a. a < brk h \<and> a \<notin> set as \<longrightarrow> cells h' a = cells h a)
     \<and> (\<forall>a \<in> set as'. a \<in> set as \<or> brk h \<le> a)"

definition same_name :: "names \<Rightarrow> names \<Rightarrow> bool" where
  "same_name q q' \<longleftrightarrow> full q' = full q \<and> name q' = name q"

lemma lru_frame_refl: "lru_frame h as h as"
  by (simp add: lru_frame_def)

lemma lru_frame_trans: "lru_frame h as h' as' \<Longrightarrow> lru_frame h' as' h'' as'' \<Longrightarrow> lru_frame h as h'' as''"
  unfolding lru_frame_def by (metis dual_order.trans linorder_not_less order.strict_trans2)

lemma queue_at_lengths: "queue_at h q as xs \<Longrightarrow> length as = length xs"
  by (auto simp: queue_at_def dest: dll_length)

lemma lru_bound:
  assumes "queue_at h q as xs"
  shows "n_entry q \<le> int MAX_CLIENT"
proof -
  have "fst ` set xs \<subseteq> {..<MAX_CLIENT}" "card (fst ` set xs) = length xs"
    using assms distinct_card [of "map fst xs"] by (auto simp: queue_at_def)
  then have "length xs \<le> MAX_CLIENT" by (metis card_lessThan card_mono finite_lessThan)
  then show ?thesis using assms by (simp add: queue_at_def)
qed

subsection \<open>Pruning\<close>

definition prune_list :: "int \<Rightarrow> (nat \<times> int) list \<Rightarrow> (nat \<times> int) list" where
  "prune_list limit xs = rev (dropWhile (\<lambda>x. snd x < limit) (rev xs))"

lemma prune_list_snoc [simp]:
  "prune_list limit (xs @ [x]) = (if snd x < limit then prune_list limit xs else xs @ [x])"
  by (simp add: prune_list_def)

lemma prune_list_Nil [simp]: "prune_list limit [] = []"
  by (simp add: prune_list_def)

lemma queue_at_drop_last:
  assumes "queue_at h q (as @ [b, a]) (xs @ [x])"
  shows "queue_at (free_cell (h\<lparr>cells := (cells h)(b \<mapsto> (the (cells h b))\<lparr>lru_next := 0\<rparr>)\<rparr>) a)
      (q\<lparr>tail := b, client_list := (client_list q)(fst x := (client_list q (fst x))\<lparr>active := 0, lru_ptr := 0\<rparr>),
         n_entry := n_entry q - 1\<rparr>) (as @ [b]) xs"
proof -
  have len: "length as + 1 = length xs" using queue_at_lengths [OF assms] by simp
  have d: "dll (cells h) 0 (as @ [b]) xs a"
    using assms len dll_append [of "as @ [b]" xs "cells h" 0 "[a]" "[x]" 0] by (simp add: queue_at_def)
  have ne: "a \<notin> set (as @ [b])" "b \<notin> set as" using assms by (auto simp: queue_at_def)
  let ?c = "(cells h)(b \<mapsto> (the (cells h b))\<lparr>lru_next := 0\<rparr>)"
  have "dll (?c(a := None)) 0 (as @ [b]) xs 0"
    using dll_snoc_next [OF d ne(2), of 0] ne(1) dll_frame [of "as @ [b]" "?c(a := None)" ?c 0 xs 0]
    by auto
  moreover have fx: "fst x \<notin> fst ` set xs" and "distinct (map fst xs)" using assms by (auto simp: queue_at_def)
  moreover have "map (\<lambda>x. lru_ptr (client_list q (fst x))) xs = as @ [b]"
    using assms by (simp add: queue_at_def)
  then have "map (\<lambda>y. lru_ptr (((client_list q)(fst x := c)) (fst y))) xs = as @ [b]" for c
    by (rule trans [OF map_update_other [OF fx]])
  moreover have "hd (as @ [b, a]) = hd (as @ [b])" by (cases as) simp_all
  ultimately show ?thesis
    using assms len by (auto simp: queue_at_def free_cell_def)
qed


lemma queue_at_Nil:
  "queue_at h q [] xs \<longleftrightarrow> xs = [] \<and> 0 < brk h \<and> n_entry q = 0
     \<and> (\<forall>i < MAX_CLIENT. active (client_list q i) = 0)"
  by (auto simp: queue_at_def)

lemma queue_at_load:
  assumes "queue_at h q as xs" and "j < length xs"
  shows "load h (as ! j) = Some \<lparr>client_hash = fst (xs ! j), lru_timestamp = snd (xs ! j),
      lru_prev = (if j = 0 then 0 else as ! (j - 1)),
      lru_next = (if Suc j = length xs then 0 else as ! Suc j)\<rparr>"
proof -
  have len: "length as = length xs" by (rule queue_at_lengths [OF assms(1)])
  have as: "as = take j as @ as ! j # drop (Suc j) as" and xs: "xs = take j xs @ xs ! j # drop (Suc j) xs"
    using assms(2) len by (auto intro: id_take_nth_drop)
  have "dll (cells h) 0 (take j as @ as ! j # drop (Suc j) as) (take j xs @ xs ! j # drop (Suc j) xs) 0"
    using assms(1) as xs by (simp add: queue_at_def)
  then have c: "cells h (as ! j) = Some \<lparr>client_hash = fst (xs ! j), lru_timestamp = snd (xs ! j),
      lru_prev = last (0 # take j as), lru_next = hd (drop (Suc j) as @ [0])\<rparr>"
    using len assms(2) by (subst (asm) dll_append) auto
  have "as ! j \<noteq> 0" using assms len by (auto simp: queue_at_def)
  moreover have "last (0 # take j as) = (if j = 0 then 0 else as ! (j - 1))"
    using assms(2) len by (cases j) (auto simp: take_Suc_conv_app_nth)
  moreover have "hd (drop (Suc j) as @ [0]) = (if Suc j = length xs then 0 else as ! Suc j)"
    using assms(2) len by (auto simp: hd_append hd_drop_conv_nth)
  ultimately show ?thesis by (simp only: load_def c if_False)
qed

lemma queue_at_last:
  assumes "queue_at h q (as @ [a]) (xs @ [x])"
  shows "load h a = Some \<lparr>client_hash = fst x, lru_timestamp = snd x,
      lru_prev = last (0 # as), lru_next = 0\<rparr>" and "tail q = a" and "fst x < MAX_CLIENT"
proof -
  have len: "length as = length xs" using queue_at_lengths [OF assms] by simp
  have "last (0 # as) = (if length xs = 0 then 0 else (as @ [a]) ! (length xs - 1))"
    using len by (cases as rule: rev_cases) (auto simp: nth_append)
  then show "load h a = Some \<lparr>client_hash = fst x, lru_timestamp = snd x,
      lru_prev = last (0 # as), lru_next = 0\<rparr>"
    using queue_at_load [OF assms, of "length xs"] len by (simp add: nth_append)
  show "tail q = a" "fst x < MAX_CLIENT" using assms by (auto simp: queue_at_def)
qed

lemma prune_loop_list:
  assumes "queue_at h q as xs" and "xs \<noteq> []" and "limit = ts - delta"
  shows "\<exists>h' q' as'. prune_loop h q ts delta (last as) = Some (h', q')
    \<and> queue_at h' q' as' (prune_list limit xs) \<and> lru_frame h as h' as' \<and> same_name q q'"
  using assms
proof (induction xs arbitrary: h q as rule: rev_induct)
  case (snoc x xs)
  obtain as' a where as: "as = as' @ [a]"
    using queue_at_lengths [OF snoc.prems(1)] by (cases as rule: rev_cases) auto
  note q = snoc.prems(1) [unfolded as]
  note l = queue_at_last [OF q]
  show ?case
  proof (cases "snd x < limit")
    case False
    have "prune_loop h q ts delta a = Some (h, q)"
      using l False snoc.prems(3) by (subst prune_loop.simps) simp
    then show ?thesis
      using False snoc.prems(1) as lru_frame_refl by (auto simp: same_name_def)
  next
    case True
    show ?thesis
    proof (cases "as' = []")
      case True1: True
      then have xs: "xs = []" using queue_at_lengths [OF q] by simp
      let ?q = "q\<lparr>client_list := (client_list q)(fst x := (client_list q (fst x))\<lparr>active := 0, lru_ptr := 0\<rparr>),
          n_entry := n_entry q - 1, head := 0, tail := 0\<rparr>"
      have "head q = a" using q True1 by (simp add: queue_at_def)
      then have "prune_loop h q ts delta a = Some (free_cell h a, ?q)"
        using l True snoc.prems(3)
        by (subst prune_loop.simps) (simp add: drop_client_def update_client_def)
      moreover have "queue_at (free_cell h a) ?q [] []"
        using q True1 xs by (auto simp: queue_at_def free_cell_def)
      moreover have "prune_list limit (xs @ [x]) = []"
        using True by (simp only: prune_list_snoc xs prune_list_Nil if_True)
      moreover have "lru_frame h as (free_cell h a) []"
        using as by (simp add: lru_frame_def free_cell_def)
      ultimately show ?thesis
        unfolding as by (auto simp: same_name_def)
    next
      case False
      then obtain as'' b where as': "as' = as'' @ [b]" by (cases as' rule: rev_cases) auto
      let ?h = "free_cell (h\<lparr>cells := (cells h)(b \<mapsto> (the (cells h b))\<lparr>lru_next := 0\<rparr>)\<rparr>) a"
      let ?q = "q\<lparr>tail := b, client_list := (client_list q)(fst x := (client_list q (fst x))\<lparr>active := 0, lru_ptr := 0\<rparr>),
         n_entry := n_entry q - 1\<rparr>"
      note q' = queue_at_drop_last [OF q [unfolded as', simplified append_assoc append.simps]]
      have ne: "xs \<noteq> []" using queue_at_lengths [OF q'] by auto
      have hd: "head q \<noteq> a"
        using q as' by (cases as'') (auto simp: queue_at_def)
      have "length as'' + 2 = length (xs @ [x])" using queue_at_lengths [OF q] as' by simp
      then obtain c where c: "load h b = Some c"
        using queue_at_load [OF q, of "length as''"] as' by (simp add: nth_append)
      have "prune_loop h q ts delta a = prune_loop ?h ?q ts delta b"
        using l True hd c snoc.prems(3) as'
        by (subst prune_loop.simps)
          (auto simp: drop_client_def update_client_def store_def Let_def load_def split: if_splits)
      moreover obtain h' q' as3 where r: "prune_loop ?h ?q ts delta b = Some (h', q')"
        "queue_at h' q' as3 (prune_list limit xs)" "lru_frame ?h (as'' @ [b]) h' as3" "same_name ?q q'"
        using snoc.IH [OF q' ne snoc.prems(3)] by auto
      moreover have "lru_frame h as ?h (as'' @ [b])"
        using as as' by (auto simp: lru_frame_def free_cell_def)
      then have "lru_frame h as h' as3" by (rule lru_frame_trans [OF _ r(3)])
      moreover have "same_name q q'" using r(4) by (simp add: same_name_def)
      moreover have "prune_list limit (xs @ [x]) = prune_list limit xs" using True by simp
      ultimately show ?thesis unfolding as by auto
    qed
  qed
qed simp


lemma dropWhile_last_kept: "x \<in> set xs \<Longrightarrow> \<not> P x \<Longrightarrow> x \<in> set (dropWhile P xs)"
  by (induction xs) auto

lemma prune_list_keeps: "x \<in> set xs \<Longrightarrow> limit \<le> snd x \<Longrightarrow> x \<in> set (prune_list limit xs)"
  by (simp add: prune_list_def dropWhile_last_kept)

lemma last_kept: "prune_list limit xs \<noteq> [] \<Longrightarrow> limit \<le> snd (last (prune_list limit xs))"
  using hd_dropWhile [of "\<lambda>x. snd x < limit" "rev xs"] by (auto simp: prune_list_def last_rev)

subsection \<open>Bringing a client in\<close>

lemma Enqueue_list:
  assumes "queue_at h q as xs" and "i < MAX_CLIENT" and "i \<notin> fst ` set xs" and "\<not> oom h (brk h)"
  shows "\<exists>h' q'. Enqueue h q f i = Some (h', q')
    \<and> queue_at h' q' (brk h # as) ((i, timestamp f) # xs)
    \<and> lru_frame h as h' (brk h # as) \<and> same_name q q'"
proof -
  let ?a = "brk h" and ?n = "\<lparr>client_hash = i, lru_timestamp = timestamp f, lru_prev = 0, lru_next = 0\<rparr>"
  have fresh: "?a \<notin> set as" "0 < ?a" using assms(1) by (auto simp: queue_at_def)
  show ?thesis
  proof (cases as)
    case Nil
    then have "xs = []" using queue_at_lengths [OF assms(1)] by simp
    then show ?thesis
      using assms fresh Nil
      by (auto simp: Enqueue_def newlru_def Let_def queue_at_def update_client_def lru_frame_def same_name_def)
  next
    case (Cons b bs)
    then obtain x ys where xs: "xs = x # ys" using queue_at_lengths [OF assms(1)] by (cases xs) auto
    let ?c = "(cells h)(?a \<mapsto> ?n\<lparr>lru_next := b\<rparr>, b \<mapsto> (the (cells h b))\<lparr>lru_prev := ?a\<rparr>)"
    have q: "head q = b" "n_entry q = int (length xs)" "b \<noteq> 0" "b \<noteq> ?a" "b \<notin> set bs" "b < brk h"
      using assms(1) Cons xs fresh by (auto simp: queue_at_def)
    have bcell: "cells h b \<noteq> None"
      using assms(1) by (auto simp: queue_at_def Cons xs)
    let ?q = "q\<lparr>head := ?a,
        client_list := (client_list q)(i := \<lparr>active = 1, c_ipv = ipv f, c_ipv4_src = ipv4_src f,
          c_ipv4_dst = ipv4_dst f, c_ipv6_src = ipv6_src f, c_ipv6_dst = ipv6_dst f,
          c_in_port = in_port f, c_out_port = out_port f, c_protocol = protocol f,
          last_seen = timestamp f, lru_ptr = ?a\<rparr>),
        n_entry := n_entry q + 1, n_client := n_client q + 1\<rparr>"
    have enq: "Enqueue h q f i = Some (h\<lparr>brk := Suc ?a, cells := ?c\<rparr>, ?q)"
      using assms q fresh xs bcell
      by (auto simp: Enqueue_def newlru_def Let_def store_def load_def update_client_def)
    have "dll ?c 0 (?a # as) ((i, timestamp f) # xs) 0"
    proof -
      have "dll (cells h) 0 (b # bs) xs 0" using assms(1) Cons by (simp add: queue_at_def)
      then have "dll ((cells h)(b \<mapsto> (the (cells h b))\<lparr>lru_prev := ?a\<rparr>)) ?a (b # bs) xs 0"
        by (rule dll_Cons_prev) (rule q(5))
      then have "dll ((cells h)(b \<mapsto> (the (cells h b))\<lparr>lru_prev := ?a\<rparr>, ?a \<mapsto> ?n\<lparr>lru_next := b\<rparr>)) ?a (b # bs) xs 0"
        using fresh(1) Cons by simp
      then show ?thesis using q(4) Cons by (simp add: fun_upd_twist)
    qed
    moreover have "map (\<lambda>x. lru_ptr (((client_list q)(i := c)) (fst x))) xs = as" for c
      using assms(1) by (intro trans [OF map_update_other [OF assms(3)]]) (simp add: queue_at_def)
    moreover have "last (?a # as) = last as" "as \<noteq> []" using Cons by simp_all
    moreover have "\<forall>a \<in> set as. a < Suc ?a" using assms(1) by (auto simp: queue_at_def)
    moreover have "distinct as" "distinct (map fst xs)" "\<forall>x \<in> set xs. fst x < MAX_CLIENT" "tail q = last as"
        "\<forall>k < MAX_CLIENT. active (client_list q k) = of_bool (k \<in> fst ` set xs)" "\<forall>a \<in> set as. 0 < a"
      using assms(1) xs by (auto simp: queue_at_def)
    ultimately have "queue_at (h\<lparr>brk := Suc ?a, cells := ?c\<rparr>) ?q (?a # as) ((i, timestamp f) # xs)"
      unfolding queue_at_def using assms(2,3) fresh q(2) by (intro conjI) (simp_all add: less_Suc_eq)
    moreover have "lru_frame h as (h\<lparr>brk := Suc ?a, cells := ?c\<rparr>) (?a # as)"
      using Cons by (simp add: lru_frame_def)
    ultimately show ?thesis using enq by (auto simp: same_name_def)
  qed
qed


lemma store_load: "load h p = Some c \<Longrightarrow> store h p f = Some (h\<lparr>cells := (cells h)(p \<mapsto> f c)\<rparr>)"
  by (simp add: store_def)

lemma load_update [simp]:
  "p \<noteq> 0 \<Longrightarrow> load (h\<lparr>cells := c\<rparr>) p = c p"
  by (simp add: load_def)

lemma move_to_front_list:
  assumes q: "queue_at h q (as1 @ p # as2) (xs1 @ x # xs2)" and "as1 \<noteq> []"
    and len: "length as1 = length xs1"
  shows "\<exists>h' q'. move_to_front h q p ts = Some (h', q')
    \<and> queue_at h' q' (p # as1 @ as2) ((fst x, ts) # xs1 @ xs2)
    \<and> lru_frame h (as1 @ p # as2) h' (p # as1 @ as2) \<and> same_name q q'"
proof -
  obtain as0 u where as1: "as1 = as0 @ [u]" using assms(2) by (cases as1 rule: rev_cases) auto
  obtain b as3 where b: "as1 = b # as3" using assms(2) by (cases as1) auto
  let ?n = "hd (as2 @ [0])"
  have lst: "last as1 = u" "hd as1 = b" by (simp add: as1) (simp add: b)
  have d: "dll (cells h) 0 as1 xs1 p" "dll (cells h) p as2 xs2 0"
    "cells h p = Some \<lparr>client_hash = fst x, lru_timestamp = snd x, lru_prev = u, lru_next = ?n\<rparr>"
    using q dll_append [OF len, of "cells h" 0 "p # as2" "x # xs2" 0] assms(2) lst
    by (auto simp: queue_at_def)
  have dist: "distinct (as1 @ p # as2)" "\<forall>a \<in> set (as1 @ p # as2). 0 < a"
    using q by (auto simp: queue_at_def)
  have ne: "p \<noteq> 0" "u \<noteq> 0" "u \<notin> set as0" "u \<noteq> p" "u \<notin> set as2" "p \<notin> set as1" "p \<notin> set as2"
    "set as1 \<inter> set as2 = {}" using dist as1 by auto
  have neb: "b \<noteq> 0" "b \<notin> set as3" "b \<notin> set as2" "b \<noteq> p" using dist b by auto
  have hq: "head q = b" "tail q = (if as2 = [] then p else last as2)"
    using q assms(2) lst by (auto simp: queue_at_def)
  define c1 where "c1 = (cells h)(u \<mapsto> (the (cells h u))\<lparr>lru_next := ?n\<rparr>)"
  define c2 where "c2 = (if as2 = [] then c1 else c1(?n \<mapsto> (the (c1 ?n))\<lparr>lru_prev := u\<rparr>))"
  have d1: "dll c1 0 as1 xs1 ?n" "dll c1 p as2 xs2 0"
    unfolding c1_def using dll_snoc_next [of "cells h" 0 as0 u xs1 p ?n] d ne by (simp_all add: as1)
  have d2: "dll c2 0 as1 xs1 ?n \<and> dll c2 u as2 xs2 0"
  proof (cases as2)
    case (Cons v vs)
    then have "v \<notin> set as1" "v \<notin> set vs" using q by (auto simp: queue_at_def)
    then show ?thesis
      using d1 Cons dll_Cons_prev [of c1 p v vs xs2 0 u] by (simp add: c2_def)
  qed (use d1 c2_def in simp)
  then have "dll c2 0 (as1 @ as2) (xs1 @ xs2) 0"
    using len lst(1) assms(2) by (simp add: dll_append)
  then have "dll (c2(b \<mapsto> (the (c2 b))\<lparr>lru_prev := p\<rparr>)) p (as1 @ as2) (xs1 @ xs2) 0"
    using dll_Cons_prev [of c2 0 b "as3 @ as2" "xs1 @ xs2" 0 p] neb b by simp
  moreover define c5 where "c5 = c2(b \<mapsto> (the (c2 b))\<lparr>lru_prev := p\<rparr>,
     p \<mapsto> \<lparr>client_hash = fst x, lru_timestamp = ts, lru_prev = 0, lru_next = b\<rparr>)"
  ultimately have d5: "dll c5 0 (p # as1 @ as2) ((fst x, ts) # xs1 @ xs2) 0"
    using ne neb(4) lst assms(2) by simp
  let ?q = "q\<lparr>tail := (if as2 = [] then u else tail q), head := p\<rparr>"
  have run: "move_to_front h q p ts = Some (h\<lparr>cells := c5\<rparr>, ?q)"
  proof -
    have p: "load h p = Some \<lparr>client_hash = fst x, lru_timestamp = snd x, lru_prev = u, lru_next = ?n\<rparr>"
      using d(3) ne(1) by (simp add: load_def)
    have u: "cells h u \<noteq> None"
      using d(1) dll_length [OF d(1)] by (cases xs1 rule: rev_cases) (auto simp: as1 dll_append)
    then have s1: "store h u (\<lambda>d. d\<lparr>lru_next := ?n\<rparr>) = Some (h\<lparr>cells := c1\<rparr>)"
      using ne(2) by (auto simp: store_def load_def c1_def)
    have s2: "(if ?n \<noteq> 0 then store (h\<lparr>cells := c1\<rparr>) ?n (\<lambda>d. d\<lparr>lru_prev := u\<rparr>)
        else Some (h\<lparr>cells := c1\<rparr>)) = Some (h\<lparr>cells := c2\<rparr>)"
      using d1(2) dist(2) by (cases as2; cases xs2) (auto simp: store_def load_def c2_def)
    have pt: "p = tail q \<longleftrightarrow> as2 = []" using hq(2) ne(7) by auto
    have s3: "(if p = tail q then (let queue = q\<lparr>tail := u\<rparr> in
          store (h\<lparr>cells := c2\<rparr>) (tail queue) (\<lambda>d. d\<lparr>lru_next := 0\<rparr>) \<bind> (\<lambda>h. Some (h, queue)))
        else Some (h\<lparr>cells := c2\<rparr>, q)) = Some (h\<lparr>cells := c2\<rparr>, q\<lparr>tail := (if as2 = [] then u else tail q)\<rparr>)"
      using ne(2) u by (auto simp: pt store_def load_def c2_def c1_def)
    have c2p: "c2 p = cells h p"
      using ne hd_in_set [of as2] by (cases as2) (auto simp: c2_def c1_def)
    have c2b: "c2 b \<noteq> None"
      using d2 dll_length [OF d(1)] b by (cases xs1) auto
    show ?thesis
      unfolding move_to_front_def p bind.bind_lunit lru.select_convs s1 s2 s3
      using neb ne c2b d(3)
      by (auto simp: store_def load_def Let_def c2p hq c5_def fun_upd_twist)
  qed
  have "length as1 = length (map (\<lambda>x. lru_ptr (client_list q (fst x))) xs1)" using len by simp
  then have "map (\<lambda>x. lru_ptr (client_list q (fst x))) xs1 = as1
      \<and> map (\<lambda>x. lru_ptr (client_list q (fst x))) (x # xs2) = p # as2"
    using q by (auto simp: queue_at_def)
  then have "queue_at (h\<lparr>cells := c5\<rparr>) ?q (p # as1 @ as2) ((fst x, ts) # xs1 @ xs2)"
    using q d5 ne hq lst assms(2) by (auto simp: queue_at_def)
  moreover have "lru_frame h (as1 @ p # as2) (h\<lparr>cells := c5\<rparr>) (p # as1 @ as2)"
    using last_in_set [OF assms(2)] hd_in_set [OF assms(2)] lst
    by (cases as2) (auto simp: lru_frame_def c5_def c2_def c1_def)
  ultimately show ?thesis using run by (auto simp: same_name_def)
qed

subsection \<open>Referencing a client\<close>

definition reference_list :: "nat \<Rightarrow> int \<Rightarrow> (nat \<times> int) list \<Rightarrow> (nat \<times> int) list" where
  "reference_list i ts xs = (i, ts) # filter (\<lambda>x. fst x \<noteq> i) xs"

definition referenced :: "int \<Rightarrow> int \<Rightarrow> nat \<Rightarrow> int \<Rightarrow> (nat \<times> int) list \<Rightarrow> (nat \<times> int) list" where
  "referenced k delta i ts xs =
     (let ys = reference_list i ts xs
      in if k < int (length ys) then prune_list (ts - delta) ys else ys)"

lemma referenced_not_Nil: "0 \<le> delta \<Longrightarrow> referenced k delta i ts xs \<noteq> []"
proof -
  assume "0 \<le> delta"
  then have "(i, ts) \<in> set (prune_list (ts - delta) (reference_list i ts xs))"
    by (intro prune_list_keeps) (simp_all add: reference_list_def)
  then show ?thesis by (auto simp: referenced_def Let_def reference_list_def)
qed

lemma filter_absent: "i \<notin> fst ` set xs \<Longrightarrow> filter (\<lambda>x. fst x \<noteq> i) xs = xs"
  by (rule filter_True) (metis image_eqI)

lemma touch_head:
  assumes q: "queue_at h q as xs" and "i \<in> fst ` set xs" and "lru_ptr (client_list q i) = head q"
  shows "\<exists>h'. store h (head q) (\<lambda>c. c\<lparr>lru_timestamp := ts\<rparr>) = Some h'
    \<and> queue_at h' q as (reference_list i ts xs) \<and> lru_frame h as h' as"
proof -
  obtain x ys where xs: "xs = x # ys" using assms(2) by (cases xs) auto
  then obtain b bs where as: "as = b # bs" using queue_at_lengths [OF q] by (cases as) auto
  have hd: "head q = b" "lru_ptr (client_list q (fst x)) = b"
    "map (\<lambda>x. lru_ptr (client_list q (fst x))) ys = bs" "b \<notin> set bs" "b \<noteq> 0" "b < brk h"
    using q xs as by (auto simp: queue_at_def)
  have i: "i = fst x"
  proof (rule ccontr)
    assume "i \<noteq> fst x"
    then have "b \<in> set bs" using assms(2,3) xs hd by force
    then show False using hd(4) by simp
  qed
  have c: "cells h b = Some \<lparr>client_hash = fst x, lru_timestamp = snd x, lru_prev = 0, lru_next = hd (bs @ [0])\<rparr>"
    "dll (cells h) b bs ys 0"
    using q xs as by (auto simp: queue_at_def)
  have "fst x \<notin> fst ` set ys" using q xs by (auto simp: queue_at_def)
  then have "filter (\<lambda>y. fst y \<noteq> i) ys = ys" unfolding i by (rule filter_absent)
  then have r: "reference_list i ts xs = (fst x, ts) # ys" using i xs by (simp add: reference_list_def)
  have "store h (head q) (\<lambda>c. c\<lparr>lru_timestamp := ts\<rparr>) = Some (h\<lparr>cells := (cells h)(b \<mapsto>
      \<lparr>client_hash = fst x, lru_timestamp = ts, lru_prev = 0, lru_next = hd (bs @ [0])\<rparr>)\<rparr>)"
    using hd c(1) by (simp add: store_def load_def)
  moreover have "queue_at (h\<lparr>cells := (cells h)(b \<mapsto>
      \<lparr>client_hash = fst x, lru_timestamp = ts, lru_prev = 0, lru_next = hd (bs @ [0])\<rparr>)\<rparr>) q as
      (reference_list i ts xs)"
    unfolding r using q xs as hd c by (auto simp: queue_at_def)
  ultimately show ?thesis using as by (auto simp: lru_frame_def)
qed

lemma bring_to_front:
  assumes q: "queue_at h q as xs" and i: "i < MAX_CLIENT" and mem: "\<not> oom h (brk h)"
  shows "\<exists>h' q' as'.
    (if active (client_list q i) = 0 then Enqueue h q f i
     else if lru_ptr (client_list q i) \<noteq> head q then
       move_to_front h q (lru_ptr (client_list q i)) (timestamp f)
     else do {
       h \<leftarrow> store h (head q) (\<lambda>c. c\<lparr>lru_timestamp := timestamp f\<rparr>);
       Some (h, q)
     }) = Some (h', q')
    \<and> queue_at h' q' as' (reference_list i (timestamp f) xs) \<and> lru_frame h as h' as' \<and> same_name q q'"
proof (cases "i \<in> fst ` set xs")
  case False
  then have "active (client_list q i) = 0" "filter (\<lambda>x. fst x \<noteq> i) xs = xs"
    using q i filter_absent [OF False] by (simp_all add: queue_at_def)
  then show ?thesis
    using Enqueue_list [OF q i False mem, of f] by (auto simp: reference_list_def)
next
  case True
  then have act: "active (client_list q i) \<noteq> 0" using q i by (auto simp: queue_at_def)
  obtain xs1 x xs2 where xs: "xs = xs1 @ x # xs2" "fst x = i"
    using True by (auto dest: split_list)
  let ?p = "lru_ptr (client_list q i)"
  let ?f = "\<lambda>x. lru_ptr (client_list q (fst x))"
  show ?thesis
  proof (cases "?p = head q")
    case True1: True
    then show ?thesis
      using touch_head [OF q True True1, of "timestamp f"] act by (auto simp: same_name_def)
  next
    case False
    have as: "as = map ?f xs1 @ ?p # map ?f xs2" using q xs by (simp add: queue_at_def)
    have "map ?f xs1 \<noteq> []"
    proof
      assume "map ?f xs1 = []"
      then have "head q = ?p" using q as xs by (auto simp: queue_at_def)
      then show False using False by simp
    qed
    moreover have "filter (\<lambda>y. fst y \<noteq> i) xs = xs1 @ xs2"
    proof -
      have "i \<notin> fst ` set xs1" "i \<notin> fst ` set xs2" using q xs by (auto simp: queue_at_def)
      then show ?thesis using xs by (simp add: filter_absent)
    qed
    ultimately show ?thesis
      using move_to_front_list [OF q [unfolded as xs(1)], of "timestamp f"] False act xs(2)
      unfolding as by (auto simp: reference_list_def)
  qed
qed

lemma referencePage_list:
  assumes q: "queue_at h q as xs" and i: "i < MAX_CLIENT" and mem: "\<not> oom h (brk h)"
    and delta: "0 \<le> delta"
  shows "\<exists>h' q' as'. referencePage h q f i k delta = Some (h', q')
    \<and> queue_at h' q' as' (referenced k delta i (timestamp f) xs)
    \<and> lru_frame h as h' as' \<and> same_name q q'
    \<and> oldest q' = snd (last (referenced k delta i (timestamp f) xs))"
proof -
  let ?ts = "timestamp f" and ?ys = "reference_list i (timestamp f) xs"
  obtain h1 q1 as1 where 1: "(if active (client_list q i) = 0 then Enqueue h q f i
     else if lru_ptr (client_list q i) \<noteq> head q then
       move_to_front h q (lru_ptr (client_list q i)) ?ts
     else do {
       h \<leftarrow> store h (head q) (\<lambda>c. c\<lparr>lru_timestamp := ?ts\<rparr>);
       Some (h, q)
     }) = Some (h1, q1)" "queue_at h1 q1 as1 ?ys" "lru_frame h as h1 as1" "same_name q q1"
    using bring_to_front [OF q i mem, of f] by blast
  have n: "n_entry q1 = int (length ?ys)" "tail q1 = last as1" "?ys \<noteq> []"
    using 1(2) by (auto simp: queue_at_def reference_list_def)
  obtain h2 q2 as2 where 2: "(if k < n_entry q1 then prune h1 q1 ?ts delta else Some (h1, q1)) = Some (h2, q2)"
    "queue_at h2 q2 as2 (referenced k delta i ?ts xs)" "lru_frame h1 as1 h2 as2" "same_name q1 q2"
  proof (cases "k < n_entry q1")
    case True
    then show ?thesis
      using prune_loop_list [OF 1(2) n(3) refl, of ?ts delta] n that
      by (auto simp: prune_def referenced_def)
  next
    case False
    then show ?thesis
      using that [of h1 q1 as1] 1(2) n lru_frame_refl by (simp add: referenced_def same_name_def)
  qed
  let ?zs = "referenced k delta i ?ts xs"
  have ne: "?zs \<noteq> []" by (rule referenced_not_Nil [OF delta])
  obtain zs z where z: "?zs = zs @ [z]" using ne by (cases ?zs rule: rev_cases) auto
  obtain bs b where b: "as2 = bs @ [b]" using queue_at_lengths [OF 2(2)] z by (cases as2 rule: rev_cases) auto
  have l: "load h2 (tail q2) = Some \<lparr>client_hash = fst z, lru_timestamp = snd z,
      lru_prev = last (0 # bs), lru_next = 0\<rparr>"
    using queue_at_last [OF 2(2) [unfolded z b]] by simp
  have "referencePage h q f i k delta = Some (h2, q2\<lparr>oldest := snd z\<rparr>)"
    using i 1(1) 2(1) l by (simp add: referencePage_def)
  moreover have "queue_at h2 (q2\<lparr>oldest := snd z\<rparr>) as2 ?zs"
    using 2(2) by (simp add: queue_at_def)
  moreover have "same_name q (q2\<lparr>oldest := snd z\<rparr>)"
    using 1(4) 2(4) by (simp add: same_name_def)
  moreover have "lru_frame h as h2 as2" by (rule lru_frame_trans [OF 1(3) 2(3)])
  ultimately show ?thesis by (auto simp: z)
qed


section \<open>Sequences of references\<close>

fun reference_all ::
  "heap \<Rightarrow> names \<Rightarrow> int \<Rightarrow> int \<Rightarrow> (nat \<times> flow) list \<Rightarrow> (heap \<times> names) option" where
  "reference_all h q k delta [] = Some (h, q)"
| "reference_all h q k delta ((i, f) # es) = do {
     (h, q) \<leftarrow> referencePage h q f i k delta;
     reference_all h q k delta es
   }"

definition referenced_all :: "int \<Rightarrow> int \<Rightarrow> (nat \<times> int) list \<Rightarrow> (nat \<times> int) list \<Rightarrow> (nat \<times> int) list" where
  "referenced_all k delta es xs = fold (\<lambda>e. referenced k delta (fst e) (snd e)) es xs"

definition no_oom :: "heap \<Rightarrow> bool" where
  "no_oom h \<longleftrightarrow> (\<forall>p \<ge> brk h. \<not> oom h p)"

lemma no_oom_frame: "no_oom h \<Longrightarrow> lru_frame h as h' as' \<Longrightarrow> no_oom h'"
  by (auto simp: no_oom_def lru_frame_def)

lemma reference_all_list:
  assumes "queue_at h q as xs" and "no_oom h" and "0 \<le> delta" and "\<forall>(i, f) \<in> set es. i < MAX_CLIENT"
  shows "\<exists>h' q' as'. reference_all h q k delta es = Some (h', q')
    \<and> queue_at h' q' as' (referenced_all k delta (map (\<lambda>(i, f). (i, timestamp f)) es) xs)
    \<and> lru_frame h as h' as' \<and> same_name q q'"
  using assms
proof (induction es arbitrary: h q as xs)
  case Nil
  then show ?case using lru_frame_refl by (auto simp: referenced_all_def same_name_def)
next
  case (Cons e es)
  obtain i f where e: "e = (i, f)" by (cases e)
  have "\<not> oom h (brk h)" "i < MAX_CLIENT" using Cons.prems e by (auto simp: no_oom_def)
  then obtain h1 q1 as1 where 1: "referencePage h q f i k delta = Some (h1, q1)"
    "queue_at h1 q1 as1 (referenced k delta i (timestamp f) xs)" "lru_frame h as h1 as1" "same_name q q1"
    using referencePage_list [OF Cons.prems(1), of i delta f k] Cons.prems(3) by blast
  obtain h2 q2 as2 where 2: "reference_all h1 q1 k delta es = Some (h2, q2)"
    "queue_at h2 q2 as2 (referenced_all k delta (map (\<lambda>(i, f). (i, timestamp f)) es)
       (referenced k delta i (timestamp f) xs))"
    "lru_frame h1 as1 h2 as2" "same_name q1 q2"
    using Cons.IH [OF 1(2) no_oom_frame [OF Cons.prems(2) 1(3)]] Cons.prems(3,4) by auto
  show ?case
    using 1 2 lru_frame_trans [OF 1(3) 2(3)] by (auto simp: e referenced_all_def same_name_def)
qed

text \<open>
  What the list knows of the events: every entry is the last event of its client, every client
  seen within \<open>delta\<close> of now has an entry, and the entries are in descending order of time.
\<close>

definition window :: "int \<Rightarrow> (nat \<times> int) list \<Rightarrow> nat set" where
  "window limit es = {i. \<exists>t. (i, t) \<in> set es \<and> limit \<le> t}"

definition knows :: "int \<Rightarrow> int \<Rightarrow> (nat \<times> int) list \<Rightarrow> (nat \<times> int) list \<Rightarrow> bool" where
  "knows delta now es xs \<longleftrightarrow> set xs \<subseteq> set es \<and> distinct (map fst xs)
     \<and> sorted_wrt (\<lambda>x y. snd y \<le> snd x) xs \<and> (\<forall>e \<in> set es. snd e \<le> now)
     \<and> (\<forall>x \<in> set xs. \<forall>e \<in> set es. fst e = fst x \<longrightarrow> snd e \<le> snd x)
     \<and> window (now - delta) es \<subseteq> fst ` set xs"

lemma prune_list_append: "\<exists>ys. xs = prune_list limit xs @ ys"
  by (metis prune_list_def rev_append rev_rev_ident takeWhile_dropWhile_id)

lemma knows_reference:
  assumes "knows delta now es xs" and "now \<le> ts" and "0 \<le> delta"
  shows "knows delta ts (es @ [(i, ts)]) (reference_list i ts xs)"
proof -
  note k = assms(1) [unfolded knows_def]
  let ?ys = "reference_list i ts xs"
  have late: "snd x \<le> ts" if "x \<in> set xs" for x using k that assms(2) by fastforce
  have "sorted_wrt (\<lambda>x y. snd y \<le> snd x) ?ys"
    using k late by (auto simp: reference_list_def intro: sorted_wrt_filter)
  moreover have "window (ts - delta) (es @ [(i, ts)]) \<subseteq> fst ` set ?ys"
  proof
    fix j assume "j \<in> window (ts - delta) (es @ [(i, ts)])"
    then consider "j = i" | t where "(j, t) \<in> set es" "ts - delta \<le> t" "j \<noteq> i"
      by (auto simp: window_def)
    then show "j \<in> fst ` set ?ys"
    proof cases
      case 2
      then have "j \<in> window (now - delta) es" using assms(2) by (force simp: window_def)
      then show ?thesis using k 2(3) by (force simp: reference_list_def)
    qed (simp add: reference_list_def)
  qed
  moreover have "\<forall>e \<in> set (es @ [(i, ts)]). snd e \<le> ts" using k assms(2) by fastforce
  moreover have "distinct (map fst ?ys)"
    using k by (auto simp: reference_list_def distinct_map_filter)
  ultimately show ?thesis
    using k by (fastforce simp: knows_def reference_list_def)
qed

lemma knows_prune:
  assumes "knows delta ts es ys"
  shows "knows delta ts es (prune_list (ts - delta) ys)"
proof -
  note k = assms(1) [unfolded knows_def]
  let ?ps = "prune_list (ts - delta) ys"
  obtain zs where ys: "ys = ?ps @ zs" using prune_list_append by blast
  have "window (ts - delta) es \<subseteq> fst ` set ?ps"
  proof
    fix j assume j: "j \<in> window (ts - delta) es"
    then obtain t where "(j, t) \<in> set es" "ts - delta \<le> t" by (auto simp: window_def)
    moreover have "j \<in> fst ` set ys" using j k by blast
    ultimately have t: "(j, t) \<in> set es" "ts - delta \<le> t" "j \<in> fst ` set ys" .
    then obtain x where "x \<in> set ys" "fst x = j" by auto
    moreover from this have "ts - delta \<le> snd x" using k t by fastforce
    ultimately show "j \<in> fst ` set ?ps" using prune_list_keeps by blast
  qed
  moreover have "set ?ps \<subseteq> set ys" "distinct (map fst ?ps)" "sorted_wrt (\<lambda>x y. snd y \<le> snd x) ?ps"
    using k ys by (metis Un_upper1 set_append) (metis k ys distinct_append map_append, metis k ys sorted_wrt_append)
  ultimately show ?thesis using k by (auto simp: knows_def)
qed

lemma knows_referenced:
  assumes "knows delta now es xs" and "now \<le> ts" and "0 \<le> delta"
  shows "knows delta ts (es @ [(i, ts)]) (referenced k delta i ts xs)"
  using knows_reference [OF assms, of i] knows_prune [of delta ts "es @ [(i, ts)]" "reference_list i ts xs"]
  by (simp add: referenced_def Let_def)

lemma referenced_recent:
  assumes "sorted_wrt (\<lambda>x y. snd y \<le> snd x) (referenced k delta i ts xs)"
    and "k < int (length (referenced k delta i ts xs))" and "x \<in> set (referenced k delta i ts xs)"
  shows "ts - delta \<le> snd x"
proof -
  let ?ys = "reference_list i ts xs"
  have "length (prune_list (ts - delta) ?ys) \<le> length ?ys"
    using prune_list_append by (metis length_append le_add1)
  then have r: "referenced k delta i ts xs = prune_list (ts - delta) ?ys"
    using assms(2) by (auto simp: referenced_def Let_def split: if_splits)
  have "referenced k delta i ts xs \<noteq> []" using assms(3) by auto
  then obtain zs z where z: "referenced k delta i ts xs = zs @ [z]"
    by (metis append_butlast_last_id)
  then have "ts - delta \<le> snd z" using r last_kept [of "ts - delta" ?ys] r by (metis last_snoc snoc_eq_iff_butlast)
  moreover have "snd z \<le> snd x" using assms(1,3) unfolding z by (auto simp: sorted_wrt_append)
  ultimately show ?thesis by simp
qed

lemma referenced_all_window:
  assumes "sorted (map snd es)" and "es \<noteq> []" and "0 \<le> delta"
  shows "knows delta (snd (last es)) es (referenced_all k delta es [])
      \<and> (k < int (length (referenced_all k delta es [])) \<longrightarrow>
          (\<forall>x \<in> set (referenced_all k delta es []). snd (last es) - delta \<le> snd x))"
  using assms(1,2)
proof (induction es rule: rev_induct)
    case (snoc e es)
    obtain i ts where e: "e = (i, ts)" by (cases e)
    let ?xs = "referenced_all k delta es []"
    have r: "referenced_all k delta (es @ [e]) [] = referenced k delta i ts ?xs"
      by (simp add: referenced_all_def e)
    have kn: "knows delta ts (es @ [e]) (referenced k delta i ts ?xs)"
    proof (cases "es = []")
      case True
      have "knows delta ts [] []" by (simp add: knows_def window_def)
      then show ?thesis
        using knows_referenced [of delta ts "[]" "[]" ts] assms(3) True by (simp add: e referenced_all_def)
    next
      case False
      then have "snd (last es) \<le> ts" using snoc.prems(1) by (simp add: e sorted_append)
      moreover have "knows delta (snd (last es)) es ?xs"
        using snoc.IH snoc.prems(1) False by (simp add: sorted_append)
      ultimately show ?thesis using knows_referenced assms(3) by (simp add: e)
    qed
    then show ?case
      using referenced_recent [of k delta i ts ?xs] unfolding r by (auto simp: e knows_def)
  qed simp

end
