(* ===== verification/Lru_Properties.thy ===== *)
theory Lru_Properties
  imports Lru_Correct begin

text \<open>
  The properties of the hash functions of \<^verbatim>\<open>src/hash_calculator.c\<close> and of the lists of clients
  of \<^verbatim>\<open>src/lru.c\<close>.
\<close>

section \<open>Examples\<close>

definition empty_heap :: heap where
  "empty_heap = \<lparr>cells = (\<lambda>_. None), brk = 1, oom = (\<lambda>_. False)\<rparr>"

definition no_client :: client where
  "no_client = \<lparr>active = 0, c_ipv = 0, c_ipv4_src = 0, c_ipv4_dst = 0, c_ipv6_src = 0,
     c_ipv6_dst = 0, c_in_port = 0, c_out_port = 0, c_protocol = 0, last_seen = 0, lru_ptr = 0\<rparr>"

definition new_names :: "u8 list \<Rightarrow> names" where
  "new_names s = \<lparr>full = 1, name = s, n_entry = 0, n_client = 0, oldest = 0, head = 0, tail = 0,
     client_list = (\<lambda>_. no_client)\<rparr>"

definition flow_at :: "int \<Rightarrow> flow" where
  "flow_at t = \<lparr>ipv = 4, ipv4_src = 0, ipv4_dst = 0, ipv6_src = 0, ipv6_dst = 0, in_port = 0,
     out_port = 0, protocol = 6, timestamp = t\<rparr>"

lemma queue_at_new: "queue_at empty_heap (new_names s) [] []"
  by (simp add: queue_at_def empty_heap_def new_names_def no_client_def)

lemma no_oom_empty: "no_oom empty_heap"
  by (simp add: no_oom_def empty_heap_def)

section \<open>Properties\<close>

text \<open>
  C15.  \<^verbatim>\<open>referencePage\<close> refines a list operation: on a well-formed list, with memory for one
  node and a window that is not negative, it dereferences no bad pointer and terminates; the
  client is moved or added to the front with the new time; if more than \<open>k\<close> clients are then
  listed, the expired ones at the end are dropped; \<^verbatim>\<open>oldest\<close> becomes the time of the last entry,
  the list stays well formed, and cells of other lists are untouched.
\<close>

theorem referencePage_refines:
  assumes "queue_at h q as xs" and "i < MAX_CLIENT" and "\<not> oom h (brk h)" and "0 \<le> delta"
  shows "\<exists>h' q' as'. referencePage h q f i k delta = Some (h', q')
    \<and> queue_at h' q' as' (referenced k delta i (timestamp f) xs)
    \<and> lru_frame h as h' as' \<and> oldest q' = snd (last (referenced k delta i (timestamp f) xs))"
  using referencePage_list [OF assms, of f k] by blast

theorem referencePage_refines_witness:
  "\<exists>h' q' as'. referencePage empty_heap (new_names [97]) (flow_at 5) 7 3 10 = Some (h', q')
    \<and> queue_at h' q' as' [(7, 5)] \<and> oldest q' = 5"
  using referencePage_refines [OF queue_at_new, of 7 10 "[97]" "flow_at 5" 3]
  by (auto simp: MAX_CLIENT_def empty_heap_def referenced_def reference_list_def flow_at_def)

text \<open>
  C22.  What the number of entries of a name says.  The entries are for slots of clients, of which a
  client has the one its address hashes to; clients that share a slot are one here.  After a sequence
  of packets in order of time, with memory for every list node and \<open>delta\<close> not negative, the number is at least that of the slots seen
  in the last \<open>delta\<close> seconds, it is at most \<^verbatim>\<open>MAX_CLIENT\<close>, and when it exceeds \<open>k\<close> it is exactly the number of
  slots seen in these seconds.
\<close>

theorem entries_count_window:
  assumes "queue_at h q [] []" and "no_oom h" and "0 \<le> delta" and "es \<noteq> []"
    and "\<forall>(i, f) \<in> set es. i < MAX_CLIENT" and "sorted (map (\<lambda>(i, f). timestamp f) es)"
  defines "seen \<equiv> window (timestamp (snd (last es)) - delta) (map (\<lambda>(i, f). (i, timestamp f)) es)"
  shows "\<exists>h' q'. reference_all h q k delta es = Some (h', q')
    \<and> int (card seen) \<le> n_entry q' \<and> n_entry q' \<le> int MAX_CLIENT
    \<and> (k < n_entry q' \<longrightarrow> n_entry q' = int (card seen))"
proof -
  let ?es = "map (\<lambda>(i, f). (i, timestamp f)) es"
  let ?xs = "referenced_all k delta ?es []"
  obtain h' q' as' where r: "reference_all h q k delta es = Some (h', q')" "queue_at h' q' as' ?xs"
    using reference_all_list [OF assms(1-3,5)] by blast
  have so: "sorted (map snd ?es)" using assms(6) by (simp add: comp_def split_def)
  have ne: "?es \<noteq> []" using assms(4) by simp
  have last: "snd (last ?es) = timestamp (snd (last es))"
    using assms(4) by (simp add: last_map split: prod.split)
  have w: "knows delta (timestamp (snd (last es))) ?es ?xs"
    "k < int (length ?xs) \<Longrightarrow> \<forall>x \<in> set ?xs. timestamp (snd (last es)) - delta \<le> snd x"
    using referenced_all_window [OF so ne assms(3), of k] unfolding last by blast+
  have n: "n_entry q' = int (card (fst ` set ?xs))"
    using r(2) distinct_card [of "map fst ?xs"] by (simp add: queue_at_def)
  have sub: "seen \<subseteq> fst ` set ?xs" using w(1) by (simp add: knows_def seen_def)
  then have "card seen \<le> card (fst ` set ?xs)" by (simp add: card_mono)
  moreover have "n_entry q' = int (card seen)" if "k < n_entry q'"
  proof -
    have "k < int (length ?xs)" using that r(2) by (simp add: queue_at_def)
    then have "fst ` set ?xs \<subseteq> seen"
      using w by (force simp: knows_def seen_def window_def)
    then show ?thesis using sub n by (simp add: subset_antisym)
  qed
  ultimately show ?thesis using r n lru_bound [OF r(2)] by auto
qed

theorem entries_count_window_witness:
  "\<exists>h' q'. reference_all empty_heap (new_names [97]) 1 10 [(1, flow_at 0), (2, flow_at 5), (3, flow_at 12)]
       = Some (h', q')
    \<and> int (card (window 2 [(1, 0), (2, 5), (3, 12)])) \<le> n_entry q' \<and> n_entry q' \<le> int MAX_CLIENT"
  using entries_count_window [OF queue_at_new [of "[97]"] no_oom_empty, where k = 1 and delta = 10
      and es = "[(1, flow_at 0), (2, flow_at 5), (3, flow_at 12)]"]
  by (auto simp: MAX_CLIENT_def flow_at_def)

text \<open>
  At exactly \<open>k\<close> entries nothing is pruned, so a client that left the window long ago still
  counts: with \<open>k = 2\<close> and a window of ten seconds, a name that one client used at time 0 and
  another at time 100 has two entries at time 100, enough for the callers' test
  \<^verbatim>\<open>ret < k_anon\<close> to let it pass, although only one client used it within the window.
\<close>

theorem stale_client_counts:
  "\<exists>h' q'. reference_all empty_heap (new_names s) 2 10 [(1, flow_at 0), (2, flow_at 100)] = Some (h', q')
    \<and> n_entry q' = 2 \<and> card (window (100 - 10) [(1, 0), (2, 100)]) = 1"
proof -
  have "\<exists>h' q' as'. reference_all empty_heap (new_names s) 2 10 [(1, flow_at 0), (2, flow_at 100)] = Some (h', q')
     \<and> queue_at h' q' as' [(2, 100), (1, 0)]"
    using reference_all_list [OF queue_at_new no_oom_empty, of 10 "[(1, flow_at 0), (2, flow_at 100)]" s 2]
    by (auto simp: MAX_CLIENT_def referenced_all_def referenced_def reference_list_def flow_at_def)
  moreover have "window (100 - 10) [(1, 0), (2, 100)] = {2}" by (auto simp: window_def)
  ultimately show ?thesis by (auto simp: queue_at_def)
qed

text \<open>
  Out of memory on a name without clients: \<^verbatim>\<open>Enqueue\<close> returns silently and
  \<^verbatim>\<open>referencePage\<close> goes on to read the time stamp behind the null \<^verbatim>\<open>tail\<close>.
\<close>

theorem out_of_memory_faults:
  assumes "queue_at h q [] []" and "tail q = 0" and "oom h (brk h)" and "i < MAX_CLIENT" and "0 \<le> k"
  shows "referencePage h q f i k delta = None"
  using assms by (simp add: referencePage_def queue_at_def Enqueue_def newlru_def Let_def load_def)

theorem out_of_memory_faults_witness:
  "referencePage (empty_heap\<lparr>oom := (\<lambda>_. True)\<rparr>) (new_names [97]) (flow_at 5) 7 3 10 = None"
  by (rule out_of_memory_faults)
    (simp_all add: queue_at_def empty_heap_def new_names_def no_client_def MAX_CLIENT_def)

text \<open>
  The hash functions choose slots inside their tables, and the two directions of a
  connection have the same slot in the table of flows.
\<close>

theorem hashes_in_range:
  "getHashClient a (int MAX_CLIENT) \<in> {0..<int MAX_CLIENT}
   \<and> nameHash s \<in> {0..<int FLOW_TABLE_SIZE}
   \<and> getHash a b sp dp ptl (int TCP_UDP_FLOWS) \<in> {0..<int TCP_UDP_FLOWS}
   \<and> getHash b a dp sp ptl m = getHash a b sp dp ptl m"
  using getHashClient_range [of "int MAX_CLIENT"] nameHash_range getHash_symmetric
    getHash_range [of "int TCP_UDP_FLOWS"]
  by (simp add: MAX_CLIENT_def TCP_UDP_FLOWS_def)

end
