(* ===== verification/Names_Table.thy ===== *)
theory Names_Table
  imports Lru
begin

text \<open>
  The table of names of \<^verbatim>\<open>src/proto_mng.c\<close>: \<^verbatim>\<open>table_init\<close> and \<^verbatim>\<open>table_add\<close>, which counts the
  clients of a name and cleans the bucket it searches.

  A bucket is its \<^verbatim>\<open>number\<close> in \<^verbatim>\<open>bitMap\<close> and the chain of its \<^verbatim>\<open>struct names\<close>: the slot of
  the array \<^verbatim>\<open>table\<close> first, then what the \<^verbatim>\<open>next\<close> pointers reach.  A pointer to a name is its
  position in the chain; unlinking a name removes it, and assigning \<^verbatim>\<open>next\<close> of a name replaces
  everything behind it.  The mutex of a bucket makes its operations atomic.
\<close>

section \<open>State\<close>

definition NAME_DNS :: nat where "NAME_DNS = 500"

record bucket =
  number :: int
  chain :: "names list"

text \<open>\<^verbatim>\<open>flow_db\<close>, by hash of the name.\<close>

type_synonym hash_struct = "nat \<Rightarrow> bucket"

text \<open>\<^verbatim>\<open>table_init\<close> resets the numbers; the slots keep what the memory held.\<close>

definition table_init :: "hash_struct \<Rightarrow> hash_struct" where
  "table_init data = (\<lambda>i. if i < FLOW_TABLE_SIZE then (data i)\<lparr>number := 0\<rparr> else data i)"

section \<open>Searching\<close>

text \<open>The search without cleaning: at most \<open>n\<close> steps from the name at position \<open>c\<close>.\<close>

fun no_clean :: "names list \<Rightarrow> u8 list \<Rightarrow> nat \<Rightarrow> nat \<Rightarrow> nat \<times> bool" where
  "no_clean ch nm 0 c = (c, False)"
| "no_clean ch nm (Suc n) c =
     (if name (ch ! c) = nm then (c, True)
      else if Suc c < length ch then no_clean ch nm n (Suc c)
      else (c, False))"

text \<open>
  The search with partial cleaning.  A name that lists no client after pruning is unlinked, which
  reads \<^verbatim>\<open>tmp->prev->prev\<close>; both outcomes of the test join its neighbours.
\<close>

partial_function (option) partial_clean ::
  "heap \<Rightarrow> names list \<Rightarrow> int \<Rightarrow> u8 list \<Rightarrow> int \<Rightarrow> int \<Rightarrow> int \<Rightarrow> nat
     \<Rightarrow> (heap \<times> names list \<times> int \<times> nat \<times> bool) option" where
  "partial_clean h ch num nm ts delta i c =
     (if num \<le> i then Some (h, ch, num, c, False)
      else if name (ch ! c) = nm then Some (h, ch, num, c, True)
      else if length ch \<le> Suc c then Some (h, ch, num, c, False)
      else if i = 0 then partial_clean h ch num nm ts delta (i + 1) (Suc c)
      else do {
        (h, q) \<leftarrow> (if 0 < n_entry (ch ! c) then prune h (ch ! c) ts delta else Some (h, ch ! c));
        if n_entry q \<le> 0 then
          if c = 0 then None
          else partial_clean h (take c ch @ drop (Suc c) ch) (num - 1) nm ts delta (i + 1) c
        else partial_clean h (ch[c := q]) num nm ts delta (i + 1) (Suc c)
      })"

text \<open>
  The search with complete cleaning.  \<open>i\<close> is the variable that the branch reads before it is
  assigned; \<^verbatim>\<open>curr_name\<close> is the third component of the result.  A match does not advance, so the
  rest of the iterations repeat it.
\<close>

partial_function (option) complete_clean ::
  "heap \<Rightarrow> names list \<Rightarrow> int \<Rightarrow> u8 list \<Rightarrow> int \<Rightarrow> int \<Rightarrow> int \<Rightarrow> int \<Rightarrow> nat \<Rightarrow> nat \<Rightarrow> bool
     \<Rightarrow> (heap \<times> names list \<times> int \<times> nat \<times> bool) option" where
  "complete_clean h ch num nm ts delta i j cur curr_name found =
     (if num \<le> j then Some (h, ch, num, curr_name, found)
      else if name (ch ! cur) = nm then
        complete_clean h ch num nm ts delta j (j + 1) cur cur True
      else if length ch \<le> Suc cur then Some (h, ch, num, curr_name, found)
      else if i = 0 then complete_clean h ch num nm ts delta i (j + 1) (Suc cur) curr_name found
      else do {
        (h, q) \<leftarrow> prune h (ch ! cur) ts delta;
        if n_entry q \<le> 0 then
          if cur = 0 then None
          else complete_clean h (take cur ch @ drop (Suc cur) ch) (num - 1) nm ts delta i (j + 1)
            cur curr_name found
        else complete_clean h (ch[cur := q]) num nm ts delta i (j + 1) (Suc cur) curr_name found
      })"

text \<open>
  The pseudo-random number that selects the cleaning, from the time stamp counter.
\<close>

definition probability :: "u64 \<Rightarrow> nat" where
  "probability tsc =
     (let seed = ucast tsc :: u32; seed = 214013 * seed + 2531011
      in unat (drop_bit 16 seed AND 0x7FFF) mod 100)"

text \<open>
  The value of a comparison in C is 0 or 1, and \<^verbatim>\<open>33 <= probability <= 66\<close> compares that value
  of \<^verbatim>\<open>33 <= probability\<close> with 66.
\<close>

definition search ::
  "heap \<Rightarrow> bucket \<Rightarrow> u8 list \<Rightarrow> int \<Rightarrow> int \<Rightarrow> nat \<Rightarrow> int
     \<Rightarrow> (heap \<times> names list \<times> int \<times> nat \<times> bool) option" where
  "search h b nm ts delta prob i =
     (if prob < 33 then
        let (c, found) = no_clean (chain b) nm (nat (number b)) 0
        in Some (h, chain b, number b, c, found)
      else if of_bool (33 \<le> prob) \<le> (66 :: int) then
        partial_clean h (chain b) (number b) nm ts delta 0 0
      else complete_clean h (chain b) (number b) nm ts delta i 0 0 0 False)"

section \<open>Adding\<close>

text \<open>
  A new \<^verbatim>\<open>struct names\<close>: \<^verbatim>\<open>malloc\<close> leaves \<open>junk\<close> in the fields of \<^verbatim>\<open>client_list\<close> that are not
  assigned.  The name is copied with \<^verbatim>\<open>strcpy\<close> into \<^verbatim>\<open>NAME_DNS\<close> bytes.
\<close>

definition fresh_names :: "(nat \<Rightarrow> client) \<Rightarrow> u8 list \<Rightarrow> int \<Rightarrow> names" where
  "fresh_names junk nm ts = \<lparr>full = 1, name = nm, n_entry = 0, n_client = 0, oldest = ts,
     head = 0, tail = 0, client_list = (\<lambda>i. (junk i)\<lparr>active := 0, lru_ptr := 0\<rparr>)\<rparr>"

text \<open>
  What \<^verbatim>\<open>table_add\<close> does with a bucket.  \<open>names_oom\<close> says that the allocation of a new name
  fails; the result is the return value with the heap and the bucket.
\<close>

definition bucket_add ::
  "heap \<Rightarrow> bucket \<Rightarrow> flow \<Rightarrow> u8 list \<Rightarrow> nat \<Rightarrow> int \<Rightarrow> int \<Rightarrow> nat \<Rightarrow> int \<Rightarrow> bool \<Rightarrow> (nat \<Rightarrow> client)
     \<Rightarrow> (heap \<times> bucket \<times> int) option" where
  "bucket_add h b flow_recv nm user_hash k_anon k_delta prob i names_oom junk = do {
     let ts = timestamp flow_recv;
     (h, ch, num, c, found) \<leftarrow> search h b nm ts k_delta prob i;
     if found then do {
       (h, q) \<leftarrow> referencePage h (ch ! c) flow_recv user_hash k_anon k_delta;
       Some (h, \<lparr>number = num, chain = ch[c := q]\<rparr>, n_entry q)
     }
     else if num = 0 then
       if NAME_DNS \<le> length nm then None
       else do {
         let slot = (hd ch)\<lparr>full := 1, name := nm, oldest := ts, n_entry := 0\<rparr>;
         (h, q) \<leftarrow> referencePage h slot flow_recv user_hash k_anon k_delta;
         Some (h, \<lparr>number = num + 1, chain = [q]\<rparr>, n_entry q)
       }
     else if names_oom then Some (h, \<lparr>number = num, chain = ch\<rparr>, 0)
     else if NAME_DNS \<le> length nm then None
     else do {
       (h, q) \<leftarrow> referencePage h (fresh_names junk nm ts) flow_recv user_hash k_anon k_delta;
       Some (h, \<lparr>number = num + 1, chain = take (Suc c) ch @ [q]\<rparr>, n_entry q)
     }
   }"

text \<open>
  \<^verbatim>\<open>user_hash\<close> is assigned for the two versions of IP only; reading it otherwise is a fault.
\<close>

definition user_hash_of :: "flow \<Rightarrow> nat option" where
  "user_hash_of flow_recv =
     (if ipv flow_recv = 4 then
        Some (nat (getHashClient (ucast (ipv4_src flow_recv)) (int MAX_CLIENT)))
      else if ipv flow_recv = 6 then
        Some (nat (getHashClient (ipv6_src flow_recv) (int MAX_CLIENT)))
      else None)"

definition table_add ::
  "heap \<Rightarrow> hash_struct \<Rightarrow> flow \<Rightarrow> u8 list \<Rightarrow> int \<Rightarrow> int \<Rightarrow> u64 \<Rightarrow> int \<Rightarrow> bool \<Rightarrow> (nat \<Rightarrow> client)
     \<Rightarrow> (heap \<times> hash_struct \<times> int) option" where
  "table_add h flow_db flow_recv nm k_anon k_delta tsc i names_oom junk = do {
     let name_hash = nat \<bar>nameHash nm\<bar>;
     user_hash \<leftarrow> user_hash_of flow_recv;
     (h, b, ret) \<leftarrow> bucket_add h (flow_db name_hash) flow_recv nm user_hash k_anon k_delta
       (probability tsc) i names_oom junk;
     Some (h, flow_db(name_hash := b), ret)
   }"

end
