(* ===== verification/Names_Correct.thy ===== *)
theory Names_Correct
  imports Lru_Correct Names_Table "HOL-Library.Sublist"
begin

text \<open>
  The table of names is safe and sound: no sequence of packets makes \<^verbatim>\<open>table_add\<close> dereference a bad
  pointer, and the clients it lists for a name did use that name.

  \<open>chain_at h ch ass ps\<close> says that the names of the chain \<open>ch\<close> have their list nodes at the
  addresses \<open>ass\<close> of the heap \<open>h\<close>, and that \<open>ps\<close> pairs each name with its clients and times.
\<close>

section \<open>Chains of names in the heap\<close>

fun chain_at ::
  "heap \<Rightarrow> names list \<Rightarrow> nat list list \<Rightarrow> (u8 list \<times> (nat \<times> int) list) list \<Rightarrow> bool" where
  "chain_at h [] [] [] \<longleftrightarrow> True"
| "chain_at h (q # ch) (as # ass) (p # ps) \<longleftrightarrow>
     queue_at h q as (snd p) \<and> fst p = name q \<and> chain_at h ch ass ps"
| "chain_at h _ _ _ \<longleftrightarrow> False"

lemma chain_at_Nil [simp]: "chain_at h [] ass ps \<longleftrightarrow> ass = [] \<and> ps = []"
  by (cases ass; cases ps; simp)

lemma chain_at_Cons:
  "chain_at h (q # ch) ass ps \<longleftrightarrow> (\<exists>as ass' p ps'. ass = as # ass' \<and> ps = p # ps'
     \<and> queue_at h q as (snd p) \<and> fst p = name q \<and> chain_at h ch ass' ps')"
  by (cases ass; cases ps; simp)

lemma chain_at_length: "chain_at h ch ass ps \<Longrightarrow> length ass = length ch \<and> length ps = length ch"
  by (induction h ch ass ps rule: chain_at.induct) auto

lemma chain_at_append:
  "length ass1 = length ch1 \<Longrightarrow> length ps1 = length ch1 \<Longrightarrow>
     chain_at h (ch1 @ ch2) (ass1 @ ass2) (ps1 @ ps2)
     \<longleftrightarrow> chain_at h ch1 ass1 ps1 \<and> chain_at h ch2 ass2 ps2"
proof (induction ch1 arbitrary: ass1 ps1)
  case (Cons q ch1)
  then show ?case by (cases ass1; cases ps1; simp)
qed simp

text \<open>The name at a position, with what stands before and behind it.\<close>

lemma chain_at_split:
  assumes "chain_at h ch ass ps" and "c < length ch"
  obtains ch1 ch2 ass1 as ass2 ps1 xs ps2
  where "ch = ch1 @ ch ! c # ch2" and "ass = ass1 @ as # ass2"
    and "ps = ps1 @ (name (ch ! c), xs) # ps2"
    and "length ch1 = c" and "length ass1 = c" and "length ps1 = c"
    and "queue_at h (ch ! c) as xs"
proof -
  have len: "length ass = length ch" "length ps = length ch"
    using chain_at_length [OF assms(1)] by auto
  let ?p = "ps ! c"
  have s: "ch = take c ch @ ch ! c # drop (Suc c) ch" "ass = take c ass @ ass ! c # drop (Suc c) ass"
    "ps = take c ps @ ?p # drop (Suc c) ps"
    using assms(2) len by (auto intro: id_take_nth_drop)
  have "chain_at h (take c ch @ ch ! c # drop (Suc c) ch) (take c ass @ ass ! c # drop (Suc c) ass)
      (take c ps @ ?p # drop (Suc c) ps)"
    using assms(1) s by simp
  then have "queue_at h (ch ! c) (ass ! c) (snd ?p)" "fst ?p = name (ch ! c)"
    using assms(2) len by (simp_all add: chain_at_append)
  moreover from this have "ps = take c ps @ (name (ch ! c), snd ?p) # drop (Suc c) ps"
    using s(3) by (metis prod.collapse)
  ultimately show thesis using that s assms(2) len by (metis length_take min.absorb4)
qed

lemma queue_at_frame:
  assumes "queue_at h q as xs" and "lru_frame h bs h' bs'" and "set as \<inter> set bs = {}"
  shows "queue_at h' q as xs"
proof -
  have "cells h' a = cells h a" if "a \<in> set as" for a
    using assms that by (auto simp: queue_at_def lru_frame_def)
  then have "dll (cells h') 0 as xs 0 = dll (cells h) 0 as xs 0" by (rule dll_frame)
  moreover have "brk h \<le> brk h'" using assms(2) by (simp add: lru_frame_def)
  ultimately show ?thesis using assms(1) by (fastforce simp: queue_at_def)
qed

lemma chain_at_frame:
  "chain_at h ch ass ps \<Longrightarrow> lru_frame h bs h' bs' \<Longrightarrow> set (concat ass) \<inter> set bs = {} \<Longrightarrow>
     chain_at h' ch ass ps"
proof (induction h ch ass ps rule: chain_at.induct)
  case (2 h q ch as ass p ps)
  have "set as \<inter> set bs = {}" "set (concat ass) \<inter> set bs = {}" using 2(4) by auto
  then show ?case using 2 queue_at_frame [of h q as "snd p" bs h' bs'] by auto
qed auto

lemma chain_at_below: "chain_at h ch ass ps \<Longrightarrow> a \<in> set (concat ass) \<Longrightarrow> a < brk h"
  by (induction h ch ass ps rule: chain_at.induct) (auto simp: queue_at_def)

text \<open>An operation on the list of one name of a chain.\<close>

lemma chain_replace:
  assumes "chain_at h (ch1 @ q # ch2) (ass1 @ as # ass2) (ps1 @ (nm, xs) # ps2)"
    and "distinct (concat (ass1 @ as # ass2))"
    and len: "length ass1 = length ch1" "length ps1 = length ch1"
    and q': "queue_at h' q' as' xs'" "name q' = nm" and fr: "lru_frame h as h' as'"
  shows "chain_at h' (ch1 @ q' # ch2) (ass1 @ as' # ass2) (ps1 @ (nm, xs') # ps2)"
    and "distinct (concat (ass1 @ as' # ass2))"
    and "lru_frame h (concat (ass1 @ as # ass2)) h' (concat (ass1 @ as' # ass2))"
proof -
  have c: "chain_at h ch1 ass1 ps1" "chain_at h ch2 ass2 ps2"
    using assms(1) len by (simp_all add: chain_at_append)
  have d: "set (concat ass1) \<inter> set as = {}" "set (concat ass2) \<inter> set as = {}"
    using assms(2) by auto
  show "chain_at h' (ch1 @ q' # ch2) (ass1 @ as' # ass2) (ps1 @ (nm, xs') # ps2)"
    using chain_at_frame [OF c(1) fr d(1)] chain_at_frame [OF c(2) fr d(2)] q' len
    by (simp add: chain_at_append)
  have new: "a \<in> set as \<or> brk h \<le> a" if "a \<in> set as'" for a using fr that by (simp add: lru_frame_def)
  have "set (concat ass1) \<inter> set as' = {}" "set (concat ass2) \<inter> set as' = {}"
    using new d chain_at_below [OF c(1)] chain_at_below [OF c(2)] by (fastforce simp: disjoint_iff)+
  then show "distinct (concat (ass1 @ as' # ass2))"
    using assms(2) q'(1) by (auto simp: queue_at_def)
  show "lru_frame h (concat (ass1 @ as # ass2)) h' (concat (ass1 @ as' # ass2))"
    using fr by (fastforce simp: lru_frame_def)
qed


section \<open>The searches\<close>

text \<open>What cleaning may do to the names of a bucket: drop names, and drop clients at the end.\<close>

definition derived ::
  "(u8 list \<times> (nat \<times> int) list) list \<Rightarrow> (u8 list \<times> (nat \<times> int) list) list \<Rightarrow> bool" where
  "derived ps ps' \<longleftrightarrow> (\<forall>p' \<in> set ps'. \<exists>p \<in> set ps. fst p = fst p' \<and> prefix (snd p') (snd p))"

lemma derived_refl [simp]: "derived ps ps"
  by (auto simp: derived_def)

lemma derived_trans: "derived ps ps' \<Longrightarrow> derived ps' ps'' \<Longrightarrow> derived ps ps''"
proof -
  assume 1: "derived ps ps'" and 2: "derived ps' ps''"
  have "\<exists>p \<in> set ps. fst p = fst p'' \<and> prefix (snd p'') (snd p)" if p'': "p'' \<in> set ps''" for p''
  proof -
    obtain p' where p': "p' \<in> set ps'" "fst p' = fst p''" "prefix (snd p'') (snd p')"
      using 2 p'' by (auto simp: derived_def)
    obtain p where "p \<in> set ps" "fst p = fst p'" "prefix (snd p') (snd p)"
      using 1 p'(1) by (auto simp: derived_def)
    then show ?thesis using p' prefix_order.trans by metis
  qed
  then show ?thesis by (auto simp: derived_def)
qed

lemma derived_replace: "prefix xs' xs \<Longrightarrow> derived (ps1 @ (nm, xs) # ps2) (ps1 @ (nm, xs') # ps2)"
  by (auto simp: derived_def)

lemma derived_delete: "derived (ps1 @ p # ps2) (ps1 @ ps2)"
  by (auto simp: derived_def)

lemma prefix_prune_list: "prefix (prune_list limit xs) xs"
  by (metis prefixI prune_list_append)

lemma prune_queue:
  assumes "queue_at h q as xs" and "0 < n_entry q"
  shows "\<exists>h' q' as'. prune h q ts delta = Some (h', q')
    \<and> queue_at h' q' as' (prune_list (ts - delta) xs) \<and> lru_frame h as h' as' \<and> same_name q q'"
proof -
  have "xs \<noteq> []" using assms by (auto simp: queue_at_def)
  then have "tail q = last as" using assms(1) by (simp add: queue_at_def)
  then show ?thesis using prune_loop_list [OF assms(1) \<open>xs \<noteq> []\<close> refl] by (simp add: prune_def)
qed

lemma no_clean_result:
  "no_clean ch nm n c = (c', found) \<Longrightarrow> c < length ch \<Longrightarrow>
     c' < length ch \<and> (found \<longrightarrow> name (ch ! c') = nm)"
  by (induction ch nm n c rule: no_clean.induct) (auto split: if_splits)

lemma take_drop_append: "length xs = c \<Longrightarrow> take c (xs @ y # ys) @ drop (Suc c) (xs @ y # ys) = xs @ ys"
  by simp

lemma lru_frame_delete: "lru_frame h (concat (ass1 @ as # ass2)) h (concat (ass1 @ ass2))"
  by (auto simp: lru_frame_def)

text \<open>
  The search with partial cleaning ends without a fault, whatever the counter says beyond the
  length of the chain.
\<close>

lemma partial_clean_safe:
  assumes "chain_at h ch ass ps" and "distinct (concat ass)" and "c < length ch"
    and "int (length ch) \<le> num" and "i \<noteq> 0 \<longrightarrow> c \<noteq> 0"
  shows "\<exists>h' ch' num' c' found ass' ps'. partial_clean h ch num nm ts delta i c = Some (h', ch', num', c', found)
    \<and> chain_at h' ch' ass' ps' \<and> distinct (concat ass') \<and> c' < length ch' \<and> int (length ch') \<le> num'
    \<and> (found \<longrightarrow> name (ch' ! c') = nm) \<and> derived ps ps' \<and> lru_frame h (concat ass) h' (concat ass')"
  using assms
proof (induction "nat (num - i)" arbitrary: h ch ass ps num i c rule: less_induct)
  case less
  note step = partial_clean.simps [of h ch num nm ts delta i c]
  show ?case
  proof (cases "num \<le> i \<or> name (ch ! c) = nm \<or> length ch \<le> Suc c")
    case True
    then obtain found where "partial_clean h ch num nm ts delta i c = Some (h, ch, num, c, found)"
      and "found \<longrightarrow> name (ch ! c) = nm"
      by (cases "num \<le> i"; cases "name (ch ! c) = nm") (auto simp: step)
    then show ?thesis using less.prems lru_frame_refl derived_refl by blast
  next
    case False
    then have go: "i < num" "name (ch ! c) \<noteq> nm" "Suc c < length ch" by auto
    show ?thesis
    proof (cases "i = 0")
      case True
      have e: "partial_clean h ch num nm ts delta i c = partial_clean h ch num nm ts delta (i + 1) (Suc c)"
        unfolding step using go True by simp
      have m: "nat (num - (i + 1)) < nat (num - i)" "i + 1 \<noteq> 0 \<longrightarrow> Suc c \<noteq> 0" using go by auto
      show ?thesis
        using less.hyps [OF m(1) less.prems(1,2) go(3) less.prems(4) m(2)] unfolding e .
    next
      case False
      obtain ch1 ch2 ass1 as ass2 ps1 xs ps2 where s: "ch = ch1 @ ch ! c # ch2"
        "ass = ass1 @ as # ass2" "ps = ps1 @ (name (ch ! c), xs) # ps2"
        "length ch1 = c" "length ass1 = c" "length ps1 = c" "queue_at h (ch ! c) as xs"
        using chain_at_split [OF less.prems(1,3)] by blast
      let ?q = "ch ! c"
      obtain h1 q1 as1 xs1 where 1:
        "(if 0 < n_entry ?q then prune h ?q ts delta else Some (h, ?q)) = Some (h1, q1)"
        "queue_at h1 q1 as1 xs1" "prefix xs1 xs" "lru_frame h as h1 as1" "name q1 = name ?q"
        using prune_queue [OF s(7), of ts delta] s(7) prefix_prune_list lru_frame_refl
        by (cases "0 < n_entry ?q") (auto simp: same_name_def)
      have R: "chain_at h1 (ch1 @ q1 # ch2) (ass1 @ as1 # ass2) (ps1 @ (name ?q, xs1) # ps2)"
        "distinct (concat (ass1 @ as1 # ass2))" "lru_frame h (concat ass) h1 (concat (ass1 @ as1 # ass2))"
        using chain_replace [of h ch1 ?q ch2 ass1 as ass2 ps1 "name ?q" xs ps2 h1 q1 as1 xs1]
          less.prems(1,2) 1 s by auto
      have d: "derived ps (ps1 @ (name ?q, xs1) # ps2)" using 1(3) s(3) derived_replace by metis
      have len: "length ch = Suc (c + length ch2)" using arg_cong [OF s(1), of length] s(4) by simp
      show ?thesis
      proof (cases "n_entry q1 \<le> 0")
        case True
        let ?ch = "ch1 @ ch2" and ?ass = "ass1 @ ass2" and ?ps = "ps1 @ ps2"
        have D: "chain_at h1 ?ch ?ass ?ps" "distinct (concat ?ass)"
          using R(1,2) s(4-6) by (auto simp: chain_at_append)
        have "take c ch @ drop (Suc c) ch = ?ch" using s(1,4) take_drop_append by metis
        then have e: "partial_clean h ch num nm ts delta i c
            = partial_clean h1 ?ch (num - 1) nm ts delta (i + 1) c"
          using go 1(1) True less.prems(5) \<open>i \<noteq> 0\<close> by (simp add: step)
        have m: "nat (num - 1 - (i + 1)) < nat (num - i)" using go by simp
        have c: "c < length ?ch" "int (length ?ch) \<le> num - 1" "i + 1 \<noteq> 0 \<longrightarrow> c \<noteq> 0"
          using go len less.prems(4,5) \<open>i \<noteq> 0\<close> s(4) by auto
        have f: "lru_frame h (concat ass) h1 (concat ?ass)" "derived ps ?ps"
          using R(3) lru_frame_delete lru_frame_trans d derived_delete derived_trans by blast+
        show ?thesis
          using less.hyps [OF m D c] f unfolding e by (blast intro: lru_frame_trans derived_trans)
      next
        case False
        let ?ch = "ch1 @ q1 # ch2" and ?ass = "ass1 @ as1 # ass2" and ?ps = "ps1 @ (name ?q, xs1) # ps2"
        have "ch[c := q1] = ?ch" using s(1,4) by (metis list_update_length)
        then have e: "partial_clean h ch num nm ts delta i c
            = partial_clean h1 ?ch num nm ts delta (i + 1) (Suc c)"
          using go 1(1) False \<open>i \<noteq> 0\<close> by (simp add: step)
        have m: "nat (num - (i + 1)) < nat (num - i)" using go by simp
        have c: "Suc c < length ?ch" "int (length ?ch) \<le> num" "i + 1 \<noteq> 0 \<longrightarrow> Suc c \<noteq> 0"
          using go len less.prems(4) s(4) by auto
        show ?thesis
          using less.hyps [OF m R(1,2) c] R(3) d unfolding e by (blast intro: lru_frame_trans derived_trans)
      qed
    qed
  qed
qed


lemma table_chain_refl:
  assumes "chain_at h ch ass ps" and "distinct (concat ass)"
  shows "chain_at h ch ass ps \<and> distinct (concat ass) \<and> derived ps ps
    \<and> lru_frame h (concat ass) h (concat ass)"
  using assms lru_frame_refl by simp

text \<open>
  A bucket of the table: until its first name the slot lists no client; afterwards the chain is
  well formed and the counter is at least its length.
\<close>

definition bucket_ok ::
  "heap \<Rightarrow> bucket \<Rightarrow> nat list list \<Rightarrow> (u8 list \<times> (nat \<times> int) list) list \<Rightarrow> bool" where
  "bucket_ok h b ass ps \<longleftrightarrow> 0 < brk h \<and> chain b \<noteq> [] \<and>
     (if number b = 0 then
        length (chain b) = 1 \<and> ass = [] \<and> ps = []
        \<and> (\<forall>i < MAX_CLIENT. active (client_list (hd (chain b)) i) = 0)
      else int (length (chain b)) \<le> number b \<and> chain_at h (chain b) ass ps \<and> distinct (concat ass))"

lemma bucket_ok_frame:
  assumes "bucket_ok h b ass ps" and "lru_frame h bs h' bs'" and "set (concat ass) \<inter> set bs = {}"
  shows "bucket_ok h' b ass ps"
  using assms chain_at_frame [OF _ assms(2,3), of "chain b" ps]
  by (auto simp: bucket_ok_def lru_frame_def)

lemma search_safe:
  assumes "bucket_ok h b ass ps" and "number b \<noteq> 0"
  shows "\<exists>h' ch' num' c' found ass' ps'. search h b nm ts delta prob i = Some (h', ch', num', c', found)
    \<and> chain_at h' ch' ass' ps' \<and> distinct (concat ass') \<and> c' < length ch' \<and> int (length ch') \<le> num'
    \<and> (found \<longrightarrow> name (ch' ! c') = nm) \<and> derived ps ps' \<and> lru_frame h (concat ass) h' (concat ass')"
proof -
  have b: "chain_at h (chain b) ass ps" "distinct (concat ass)" "0 < length (chain b)"
    "int (length (chain b)) \<le> number b"
    using assms by (auto simp: bucket_ok_def)
  show ?thesis
  proof (cases "prob < 33")
    case True
    obtain c found where n: "no_clean (chain b) nm (nat (number b)) 0 = (c, found)" by fastforce
    have s: "search h b nm ts delta prob i = Some (h, chain b, number b, c, found)"
      using True by (simp add: search_def n)
    show ?thesis
      using no_clean_result [OF n b(3)] table_chain_refl [OF b(1,2)] b(4) unfolding s by blast
  next
    case False
    have s: "search h b nm ts delta prob i = partial_clean h (chain b) (number b) nm ts delta 0 0"
      using False by (simp add: search_def)
    show ?thesis unfolding s by (rule partial_clean_safe [OF b]) simp
  qed
qed

lemma search_empty: "number b = 0 \<Longrightarrow> search h b nm ts delta prob i = Some (h, chain b, 0, 0, False)"
  by (simp add: search_def partial_clean.simps)

lemma chain_at_take: "chain_at h ch ass ps \<Longrightarrow> chain_at h (take n ch) (take n ass) (take n ps)"
proof (induction h ch ass ps arbitrary: n rule: chain_at.induct)
  case (2 h q ch as ass p ps)
  then show ?case by (cases n) simp_all
qed simp_all

lemma set_concat_take: "set (concat (take n ass)) \<subseteq> set (concat ass)"
  using set_take_subset by fastforce

lemma distinct_concat_take: "distinct (concat ass) \<Longrightarrow> distinct (concat (take n ass))"
  by (metis append_take_drop_id concat_append distinct_append)

text \<open>A new name behind the front part of a chain.\<close>

lemma chain_snoc:
  assumes "chain_at h ch ass ps" and "distinct (concat ass)"
    and q: "queue_at h' q as xs" "name q = nm" and fr: "lru_frame h [] h' as"
  shows "chain_at h' (take n ch @ [q]) (take n ass @ [as]) (take n ps @ [(nm, xs)])"
    and "distinct (concat (take n ass @ [as]))"
    and "lru_frame h (concat ass) h' (concat (take n ass @ [as]))"
proof -
  have c: "chain_at h' (take n ch) (take n ass) (take n ps)"
    using chain_at_frame [OF chain_at_take [OF assms(1)] fr, of n] by simp
  then show "chain_at h' (take n ch @ [q]) (take n ass @ [as]) (take n ps @ [(nm, xs)])"
    using q chain_at_length [OF c] by (simp add: chain_at_append)
  have "brk h \<le> a" if "a \<in> set as" for a using fr that by (simp add: lru_frame_def)
  then have "set (concat ass) \<inter> set as = {}" using chain_at_below [OF assms(1)] by fastforce
  then have "set (concat (take n ass)) \<inter> set as = {}" using set_concat_take [of n ass] by blast
  then show "distinct (concat (take n ass @ [as]))"
    using distinct_concat_take [OF assms(2)] q(1) by (simp add: queue_at_def)
  show "lru_frame h (concat ass) h' (concat (take n ass @ [as]))"
    using fr set_concat_take [of n ass] by (fastforce simp: lru_frame_def)
qed

text \<open>What adding a name does to the names and clients of its bucket, with the result \<open>r\<close>.\<close>

definition added ::
  "(u8 list \<times> (nat \<times> int) list) list \<Rightarrow> (u8 list \<times> (nat \<times> int) list) list
     \<Rightarrow> u8 list \<Rightarrow> nat \<Rightarrow> int \<Rightarrow> int \<Rightarrow> int \<Rightarrow> int \<Rightarrow> bool" where
  "added ps ps' nm i ts k delta r \<longleftrightarrow> r = 0 \<and> derived ps ps'
     \<or> (\<exists>ps1 xs. derived ps ps1 \<and> ((nm, xs) \<in> set ps1 \<or> xs = [])
         \<and> r = int (length (referenced k delta i ts xs))
         \<and> set ps' \<subseteq> insert (nm, referenced k delta i ts xs) (set ps1))"

lemma addedI:
  assumes "derived ps ps1" and "(nm, xs) \<in> set ps1 \<or> xs = []"
    and "queue_at h q as (referenced k delta i ts xs)"
    and "set ps' \<subseteq> insert (nm, referenced k delta i ts xs) (set ps1)"
  shows "added ps ps' nm i ts k delta (n_entry q)"
proof -
  have "n_entry q = int (length (referenced k delta i ts xs))"
    using assms(3) by (simp add: queue_at_def)
  then show ?thesis using assms unfolding added_def by blast
qed

text \<open>The three ways in which \<^verbatim>\<open>table_add\<close> calls \<^verbatim>\<open>referencePage\<close>.\<close>

lemma reference_slot:
  assumes "bucket_ok h b ass ps" and "number b = 0" and "i < MAX_CLIENT" and "no_oom h" and "0 \<le> delta"
  shows "\<exists>h' q as. referencePage h ((hd (chain b))\<lparr>full := 1, name := nm, oldest := timestamp f, n_entry := 0\<rparr>)
      f i k delta = Some (h', q)
    \<and> queue_at h' q as (referenced k delta i (timestamp f) [])
    \<and> bucket_ok h' \<lparr>number = 1, chain = [q]\<rparr> [as] [(nm, referenced k delta i (timestamp f) [])]
    \<and> lru_frame h [] h' as"
proof -
  let ?slot = "(hd (chain b))\<lparr>full := 1, name := nm, oldest := timestamp f, n_entry := 0\<rparr>"
  have s: "queue_at h ?slot [] []" using assms(1,2) by (auto simp: bucket_ok_def queue_at_Nil)
  have "\<not> oom h (brk h)" using assms(4) by (simp add: no_oom_def)
  then obtain h' q as where r: "referencePage h ?slot f i k delta = Some (h', q)"
    "queue_at h' q as (referenced k delta i (timestamp f) [])" "lru_frame h [] h' as" "same_name ?slot q"
    using referencePage_list [OF s assms(3) _ assms(5)] by blast
  moreover have "bucket_ok h' \<lparr>number = 1, chain = [q]\<rparr> [as] [(nm, referenced k delta i (timestamp f) [])]"
    using r(2,4) by (auto simp: bucket_ok_def queue_at_def same_name_def)
  ultimately show ?thesis by blast
qed

lemma reference_found:
  assumes c: "chain_at h ch ass ps" "distinct (concat ass)" "c < length ch" and i: "i < MAX_CLIENT"
    and mem: "no_oom h" and delta: "0 \<le> delta"
  shows "\<exists>h' q as' ass' psl xs psr. referencePage h (ch ! c) f i k delta = Some (h', q)
    \<and> ps = psl @ (name (ch ! c), xs) # psr
    \<and> queue_at h' q as' (referenced k delta i (timestamp f) xs)
    \<and> chain_at h' (ch[c := q]) ass' (psl @ (name (ch ! c), referenced k delta i (timestamp f) xs) # psr)
    \<and> distinct (concat ass') \<and> lru_frame h (concat ass) h' (concat ass')"
proof -
  obtain chl chr assl as assr psl xs psr where p: "ch = chl @ ch ! c # chr"
    "ass = assl @ as # assr" "ps = psl @ (name (ch ! c), xs) # psr"
    "length chl = c" "length assl = c" "length psl = c" "queue_at h (ch ! c) as xs"
    using chain_at_split [OF c(1,3)] by blast
  let ?xs = "referenced k delta i (timestamp f) xs"
  have "\<not> oom h (brk h)" using mem by (simp add: no_oom_def)
  then obtain h' q as' where r: "referencePage h (ch ! c) f i k delta = Some (h', q)"
    "queue_at h' q as' ?xs" "lru_frame h as h' as'" "same_name (ch ! c) q"
    using referencePage_list [OF p(7) i _ delta] by blast
  have nq: "name q = name (ch ! c)" using r(4) by (simp add: same_name_def)
  have "chain_at h' (chl @ q # chr) (assl @ as' # assr) (psl @ (name (ch ! c), ?xs) # psr)"
    "distinct (concat (assl @ as' # assr))" "lru_frame h (concat ass) h' (concat (assl @ as' # assr))"
    using chain_replace [of h chl "ch ! c" chr assl as assr psl "name (ch ! c)" xs psr h' q as' ?xs]
      c(1,2) p r nq by auto
  moreover have "ch[c := q] = chl @ q # chr" using p(1,4) by (metis list_update_length)
  ultimately show ?thesis using r(1,2) p(3) by metis
qed

lemma reference_new:
  assumes c: "chain_at h ch ass ps" "distinct (concat ass)" and brk: "0 < brk h" and i: "i < MAX_CLIENT"
    and mem: "no_oom h" and delta: "0 \<le> delta"
  shows "\<exists>h' q as ass'. referencePage h (fresh_names junk nm (timestamp f)) f i k delta = Some (h', q)
    \<and> queue_at h' q as (referenced k delta i (timestamp f) [])
    \<and> chain_at h' (take n ch @ [q]) ass' (take n ps @ [(nm, referenced k delta i (timestamp f) [])])
    \<and> distinct (concat ass') \<and> lru_frame h (concat ass) h' (concat ass')"
proof -
  let ?new = "fresh_names junk nm (timestamp f)" and ?xs = "referenced k delta i (timestamp f) []"
  have "queue_at h ?new [] []" using brk by (simp add: queue_at_Nil fresh_names_def)
  moreover have "\<not> oom h (brk h)" using mem by (simp add: no_oom_def)
  ultimately obtain h' q as where r: "referencePage h ?new f i k delta = Some (h', q)"
    "queue_at h' q as ?xs" "lru_frame h [] h' as" "same_name ?new q"
    using referencePage_list [OF _ i _ delta] by blast
  have nq: "name q = nm" using r(4) by (simp add: same_name_def fresh_names_def)
  show ?thesis using r(1,2) chain_snoc [OF c r(2) nq r(3), of n] by blast
qed

lemma bucket_add_safe:
  assumes b: "bucket_ok h b ass ps" and i: "i < MAX_CLIENT" and mem: "no_oom h" and delta: "0 \<le> delta"
    and nm: "length nm < NAME_DNS \<or> bucket_add h b f nm i k delta prob i0 names_oom junk \<noteq> None"
  shows "\<exists>h' b' r ass' ps'. bucket_add h b f nm i k delta prob i0 names_oom junk = Some (h', b', r)
    \<and> bucket_ok h' b' ass' ps' \<and> lru_frame h (concat ass) h' (concat ass')
    \<and> added ps ps' nm i (timestamp f) k delta r"
proof (cases "number b = 0")
  case True
  obtain h' q as where r: "referencePage h
      ((hd (chain b))\<lparr>full := 1, name := nm, oldest := timestamp f, n_entry := 0\<rparr>) f i k delta = Some (h', q)"
    "queue_at h' q as (referenced k delta i (timestamp f) [])"
    "bucket_ok h' \<lparr>number = 1, chain = [q]\<rparr> [as] [(nm, referenced k delta i (timestamp f) [])]"
    "lru_frame h [] h' as"
    using reference_slot [OF b True i mem delta] by blast
  have e: "ass = []" using b True by (simp add: bucket_ok_def)
  have short: "length nm < NAME_DNS"
    using nm True by (auto simp: bucket_add_def search_empty Let_def split: if_splits)
  have "bucket_add h b f nm i k delta prob i0 names_oom junk
      = Some (h', \<lparr>number = 1, chain = [q]\<rparr>, n_entry q)"
    using True short r(1) by (simp add: bucket_add_def search_empty Let_def)
  moreover have "added ps [(nm, referenced k delta i (timestamp f) [])] nm i (timestamp f) k delta (n_entry q)"
    using addedI [OF derived_refl _ r(2)] by simp
  moreover have "lru_frame h (concat ass) h' (concat [as])" using r(4) e by simp
  ultimately show ?thesis using r(3) by blast
next
  case False
  obtain h1 ch1 num1 c found ass1 ps1 where
    s: "search h b nm (timestamp f) delta prob i0 = Some (h1, ch1, num1, c, found)"
    and c1: "chain_at h1 ch1 ass1 ps1" "distinct (concat ass1)" "c < length ch1"
      "int (length ch1) \<le> num1" "found \<longrightarrow> name (ch1 ! c) = nm"
    and d1: "derived ps ps1" and fr1: "lru_frame h (concat ass) h1 (concat ass1)"
    using search_safe [OF b False, of nm "timestamp f" delta prob i0] by blast
  have brk1: "0 < brk h1" using b fr1 by (simp add: bucket_ok_def lru_frame_def)
  have mem1: "no_oom h1" by (rule no_oom_frame [OF mem fr1])
  have n1: "num1 \<noteq> 0" using c1(3,4) by simp
  consider "found" | "\<not> found" "names_oom" | "\<not> found" "\<not> names_oom" by blast
  then show ?thesis
  proof cases
    case 1
    then have nc: "name (ch1 ! c) = nm" using c1(5) by simp
    obtain h' q as' ass' psl xs psr where r: "referencePage h1 (ch1 ! c) f i k delta = Some (h', q)"
      "ps1 = psl @ (nm, xs) # psr" "queue_at h' q as' (referenced k delta i (timestamp f) xs)"
      "chain_at h' (ch1[c := q]) ass' (psl @ (nm, referenced k delta i (timestamp f) xs) # psr)"
      "distinct (concat ass')" "lru_frame h1 (concat ass1) h' (concat ass')"
      using reference_found [OF c1(1-3) i mem1 delta, of f k] unfolding nc by blast
    have "bucket_add h b f nm i k delta prob i0 names_oom junk
        = Some (h', \<lparr>number = num1, chain = ch1[c := q]\<rparr>, n_entry q)"
      using 1 r(1) by (simp add: bucket_add_def s Let_def)
    moreover have "bucket_ok h' \<lparr>number = num1, chain = ch1[c := q]\<rparr> ass'
        (psl @ (nm, referenced k delta i (timestamp f) xs) # psr)"
      using r(3-5) c1(3,4) n1 by (auto simp: bucket_ok_def queue_at_def)
    moreover have "added ps (psl @ (nm, referenced k delta i (timestamp f) xs) # psr) nm i
        (timestamp f) k delta (n_entry q)"
      using r(2) by (intro addedI [OF d1 _ r(3)]) auto
    ultimately show ?thesis using lru_frame_trans [OF fr1 r(6)] by blast
  next
    case 2
    have "bucket_add h b f nm i k delta prob i0 names_oom junk
        = Some (h1, \<lparr>number = num1, chain = ch1\<rparr>, 0)"
      using 2 n1 by (simp add: bucket_add_def s Let_def)
    moreover have "bucket_ok h1 \<lparr>number = num1, chain = ch1\<rparr> ass1 ps1"
      using c1 n1 brk1 by (auto simp: bucket_ok_def)
    moreover have "added ps ps1 nm i (timestamp f) k delta 0" using d1 by (simp add: added_def)
    ultimately show ?thesis using fr1 by blast
  next
    case 3
    have short: "length nm < NAME_DNS"
      using nm 3 n1 by (auto simp: bucket_add_def s Let_def split: if_splits)
    obtain h' q as ass' where r: "referencePage h1 (fresh_names junk nm (timestamp f)) f i k delta = Some (h', q)"
      "queue_at h' q as (referenced k delta i (timestamp f) [])"
      "chain_at h' (take (Suc c) ch1 @ [q]) ass' (take (Suc c) ps1 @ [(nm, referenced k delta i (timestamp f) [])])"
      "distinct (concat ass')" "lru_frame h1 (concat ass1) h' (concat ass')"
      using reference_new [OF c1(1,2) brk1 i mem1 delta, of junk nm f k "Suc c"] by blast
    have "bucket_add h b f nm i k delta prob i0 names_oom junk
        = Some (h', \<lparr>number = num1 + 1, chain = take (Suc c) ch1 @ [q]\<rparr>, n_entry q)"
      using 3 n1 short r(1) by (simp add: bucket_add_def s Let_def)
    moreover have "bucket_ok h' \<lparr>number = num1 + 1, chain = take (Suc c) ch1 @ [q]\<rparr> ass'
        (take (Suc c) ps1 @ [(nm, referenced k delta i (timestamp f) [])])"
      using r(2-4) c1(3,4) by (auto simp: bucket_ok_def queue_at_def)
    moreover have "added ps (take (Suc c) ps1 @ [(nm, referenced k delta i (timestamp f) [])]) nm i
        (timestamp f) k delta (n_entry q)"
      using set_take_subset [of "Suc c" ps1] by (intro addedI [OF d1 _ r(2)]) auto
    ultimately show ?thesis using lru_frame_trans [OF fr1 r(5)] by blast
  qed
qed

section \<open>The table\<close>

definition table_ok ::
  "heap \<Rightarrow> hash_struct \<Rightarrow> (nat \<Rightarrow> nat list list) \<Rightarrow> (nat \<Rightarrow> (u8 list \<times> (nat \<times> int) list) list) \<Rightarrow> bool" where
  "table_ok h db A P \<longleftrightarrow> (\<forall>i < FLOW_TABLE_SIZE. bucket_ok h (db i) (A i) (P i))
     \<and> (\<forall>i < FLOW_TABLE_SIZE. \<forall>j < FLOW_TABLE_SIZE. i \<noteq> j \<longrightarrow> set (concat (A i)) \<inter> set (concat (A j)) = {})"

definition slot_of :: "u128 \<Rightarrow> nat" where
  "slot_of a = nat (getHashClient a (int MAX_CLIENT))"

text \<open>The address of the client of a packet.\<close>

definition source :: "flow \<Rightarrow> u128" where
  "source f = (if ipv f = 4 then ucast (ipv4_src f) else ipv6_src f)"

lemma user_hash_source: "ipv f \<in> {4, 6} \<Longrightarrow> user_hash_of f = Some (slot_of (source f))"
  by (auto simp: user_hash_of_def slot_of_def source_def)

lemma slot_of_less: "slot_of a < MAX_CLIENT"
  using getHashClient_range [of "int MAX_CLIENT" a] by (auto simp: slot_of_def MAX_CLIENT_def)

lemma name_hash_less: "nat \<bar>nameHash s\<bar> < FLOW_TABLE_SIZE"
  using nameHash_range [of s] by auto

lemma bucket_below: "bucket_ok h b ass ps \<Longrightarrow> a \<in> set (concat ass) \<Longrightarrow> a < brk h"
  using chain_at_below [of h "chain b" ass ps a] by (auto simp: bucket_ok_def split: if_splits)

lemma table_add_safe:
  assumes t: "table_ok h db A P" and "ipv f \<in> {4, 6}" and mem: "no_oom h" and delta: "0 \<le> delta"
    and nm: "length nm < NAME_DNS \<or> table_add h db f nm k delta tsc i0 names_oom junk \<noteq> None"
  defines "n \<equiv> nat \<bar>nameHash nm\<bar>"
  shows "\<exists>h' db' r A' ps'. table_add h db f nm k delta tsc i0 names_oom junk = Some (h', db', r)
    \<and> table_ok h' db' A' (P(n := ps')) \<and> no_oom h'
    \<and> added (P n) ps' nm (slot_of (source f)) (timestamp f) k delta r"
proof -
  have n: "n < FLOW_TABLE_SIZE" unfolding n_def by (rule name_hash_less)
  have bn: "bucket_ok h (db n) (A n) (P n)" using t n by (simp add: table_ok_def)
  have nm': "length nm < NAME_DNS
      \<or> bucket_add h (db n) f nm (slot_of (source f)) k delta (probability tsc) i0 names_oom junk \<noteq> None"
    using nm user_hash_source [OF assms(2)] by (auto simp: table_add_def n_def Let_def split: Option.bind_splits)
  obtain h' b' r ass' ps' where
    s: "bucket_add h (db n) f nm (slot_of (source f)) k delta (probability tsc) i0 names_oom junk = Some (h', b', r)"
    "bucket_ok h' b' ass' ps'" "lru_frame h (concat (A n)) h' (concat ass')"
    "added (P n) ps' nm (slot_of (source f)) (timestamp f) k delta r"
    using bucket_add_safe [OF bn slot_of_less mem delta nm'] by blast
  have a: "table_add h db f nm k delta tsc i0 names_oom junk = Some (h', db(n := b'), r)"
    using s(1) user_hash_source [OF assms(2)] by (simp add: table_add_def n_def)
  have o: "bucket_ok h' (db j) (A j) (P j) \<and> set (concat (A j)) \<inter> set (concat ass') = {}"
    if j: "j < FLOW_TABLE_SIZE" "j \<noteq> n" for j
  proof
    have b: "bucket_ok h (db j) (A j) (P j)" and d: "set (concat (A j)) \<inter> set (concat (A n)) = {}"
      using t j n by (simp_all add: table_ok_def)
    show "bucket_ok h' (db j) (A j) (P j)" by (rule bucket_ok_frame [OF b s(3) d])
    show "set (concat (A j)) \<inter> set (concat ass') = {}"
    proof (rule ccontr)
      assume "set (concat (A j)) \<inter> set (concat ass') \<noteq> {}"
      then obtain a where "a \<in> set (concat (A j))" "a \<in> set (concat ass')" by blast
      moreover have "a < brk h" using bucket_below [OF b] calculation(1) .
      moreover have "a \<in> set (concat (A n)) \<or> brk h \<le> a"
        using s(3) calculation(2) unfolding lru_frame_def by blast
      ultimately show False using d by auto
    qed
  qed
  have "table_ok h' (db(n := b')) (A(n := ass')) (P(n := ps'))"
    unfolding table_ok_def
  proof (intro conjI allI impI)
    fix i assume "i < FLOW_TABLE_SIZE"
    then show "bucket_ok h' ((db(n := b')) i) ((A(n := ass')) i) ((P(n := ps')) i)" using s(2) o by simp
  next
    fix i j assume ij: "i < FLOW_TABLE_SIZE" "j < FLOW_TABLE_SIZE" "i \<noteq> j"
    have "set (concat (A i)) \<inter> set (concat (A j)) = {}" using t ij by (simp add: table_ok_def)
    then show "set (concat ((A(n := ass')) i)) \<inter> set (concat ((A(n := ass')) j)) = {}"
      using o [OF ij(1)] o [OF ij(2)] ij(3) by (cases "i = n"; cases "j = n") (simp_all add: Int_commute)
  qed
  then show ?thesis using a s(4) no_oom_frame [OF mem s(3)] by blast
qed

section \<open>Sequences of packets\<close>

text \<open>A call of \<^verbatim>\<open>table_add\<close>, with what its environment decides.\<close>

record request =
  req_flow :: flow
  req_name :: "u8 list"
  req_tsc :: u64
  req_i :: int
  req_oom :: bool
  req_junk :: "nat \<Rightarrow> client"

fun table_run ::
  "heap \<Rightarrow> hash_struct \<Rightarrow> int \<Rightarrow> int \<Rightarrow> request list \<Rightarrow> (heap \<times> hash_struct \<times> int list) option" where
  "table_run h db k delta [] = Some (h, db, [])"
| "table_run h db k delta (q # qs) = do {
     (h, db, r) \<leftarrow> table_add h db (req_flow q) (req_name q) k delta (req_tsc q) (req_i q) (req_oom q) (req_junk q);
     (h, db, rs) \<leftarrow> table_run h db k delta qs;
     Some (h, db, r # rs)
   }"

definition req_ok :: "request \<Rightarrow> bool" where
  "req_ok q \<longleftrightarrow> ipv (req_flow q) \<in> {4, 6} \<and> length (req_name q) < NAME_DNS"

text \<open>The table before the first packet, with memory that lists no clients.\<close>

definition fresh_table :: "hash_struct \<Rightarrow> bool" where
  "fresh_table db \<longleftrightarrow> (\<forall>i < FLOW_TABLE_SIZE. number (db i) = 0 \<and> length (chain (db i)) = 1
     \<and> (\<forall>j < MAX_CLIENT. active (client_list (hd (chain (db i))) j) = 0))"

lemma fresh_table_ok: "fresh_table db \<Longrightarrow> 0 < brk h \<Longrightarrow> table_ok h db (\<lambda>_. []) (\<lambda>_. [])"
  by (auto simp: fresh_table_def table_ok_def bucket_ok_def)

text \<open>The addresses that used a name, and the requests since a time.\<close>

definition users :: "u8 list \<Rightarrow> request list \<Rightarrow> u128 set" where
  "users nm qs = {source (req_flow q) | q. q \<in> set qs \<and> req_name q = nm}"

definition since :: "int \<Rightarrow> request list \<Rightarrow> request list" where
  "since limit qs = filter (\<lambda>q. limit \<le> timestamp (req_flow q)) qs"

text \<open>What is recorded of a name comes from the requests, most recent first.\<close>

definition recorded :: "request list \<Rightarrow> u8 list \<times> (nat \<times> int) list \<Rightarrow> bool" where
  "recorded qs p \<longleftrightarrow> sorted_wrt (\<lambda>x y. snd y \<le> snd x) (snd p) \<and> distinct (map fst (snd p))
     \<and> (\<forall>x \<in> set (snd p). \<exists>q \<in> set qs. req_name q = fst p \<and> slot_of (source (req_flow q)) = fst x
          \<and> timestamp (req_flow q) = snd x)"

lemma recorded_mono: "recorded qs p \<Longrightarrow> set qs \<subseteq> set qs' \<Longrightarrow> recorded qs' p"
  unfolding recorded_def by blast

lemma recorded_prefix: "recorded qs p \<Longrightarrow> fst p = fst p' \<Longrightarrow> prefix (snd p') (snd p) \<Longrightarrow> recorded qs p'"
  by (auto simp: recorded_def prefix_def sorted_wrt_append)

lemma recorded_derived: "derived ps ps' \<Longrightarrow> \<forall>p \<in> set ps. recorded qs p \<Longrightarrow> \<forall>p \<in> set ps'. recorded qs p"
  unfolding derived_def by (metis recorded_prefix)

lemma recorded_reference:
  assumes "recorded qs (nm, xs) \<or> xs = []" and "req_name q = nm"
    and "\<forall>q' \<in> set qs. timestamp (req_flow q') \<le> timestamp (req_flow q)"
  shows "recorded (qs @ [q]) (nm, referenced k delta (slot_of (source (req_flow q))) (timestamp (req_flow q)) xs)"
proof -
  let ?i = "slot_of (source (req_flow q))" and ?ts = "timestamp (req_flow q)"
  have xs: "recorded qs (nm, xs)" using assms(1) by (auto simp: recorded_def)
  have late: "snd x \<le> ?ts" if "x \<in> set xs" for x
    using xs that assms(3) by (fastforce simp: recorded_def)
  have "distinct (map fst (filter (\<lambda>x. fst x \<noteq> ?i) xs))"
    using xs by (auto simp: recorded_def intro: distinct_map_filter)
  then have "recorded (qs @ [q]) (nm, reference_list ?i ?ts xs)"
    using xs late assms(2) by (auto simp: recorded_def reference_list_def intro: sorted_wrt_filter)
  then show ?thesis
    using recorded_prefix [of "qs @ [q]" "(nm, reference_list ?i ?ts xs)"] prefix_prune_list
    by (auto simp: referenced_def Let_def)
qed

lemma recorded_count:
  assumes "recorded qs (nm, xs)"
  shows "length xs \<le> card (users nm qs)"
proof -
  have fin: "finite (users nm qs)"
  proof (rule finite_subset)
    show "users nm qs \<subseteq> (\<lambda>q. source (req_flow q)) ` set qs" by (auto simp: users_def)
  qed simp
  have "fst ` set xs \<subseteq> slot_of ` users nm qs"
    using assms by (fastforce simp: recorded_def users_def)
  then have "card (fst ` set xs) \<le> card (users nm qs)"
    using fin by (meson card_image_le card_mono finite_imageI order_trans)
  then show ?thesis using assms(1) distinct_card [of "map fst xs"] by (simp add: recorded_def)
qed

lemma recorded_since:
  assumes "recorded qs (nm, xs)" and "\<forall>x \<in> set xs. limit \<le> snd x"
  shows "recorded (since limit qs) (nm, xs)"
  unfolding recorded_def
proof (intro conjI ballI)
  fix x assume x: "x \<in> set (snd (nm, xs))"
  then obtain q where "q \<in> set qs" "req_name q = nm" "slot_of (source (req_flow q)) = fst x"
      "timestamp (req_flow q) = snd x"
    using assms(1) unfolding recorded_def by auto
  then show "\<exists>q \<in> set (since limit qs). req_name q = fst (nm, xs) \<and> slot_of (source (req_flow q)) = fst x
      \<and> timestamp (req_flow q) = snd x"
    using assms(2) x by (auto simp: since_def)
qed (use assms(1) in \<open>simp_all add: recorded_def\<close>)

text \<open>What a result says of the requests up to its own, the last of \<open>qs\<close>.\<close>

definition sound_result :: "int \<Rightarrow> int \<Rightarrow> request list \<Rightarrow> int \<Rightarrow> bool" where
  "sound_result k delta qs r \<longleftrightarrow>
     (let q = last qs; nm = req_name q; now = timestamp (req_flow q)
      in 0 \<le> r \<and> r \<le> int (card (users nm qs))
         \<and> (k < r \<longrightarrow> r \<le> int (card (users nm (since (now - delta) qs)))))"

lemma added_sound:
  assumes a: "added ps ps' (req_name q) (slot_of (source (req_flow q))) (timestamp (req_flow q)) k delta r"
    and rec: "\<forall>p \<in> set ps. recorded qs p"
    and late: "\<forall>q' \<in> set qs. timestamp (req_flow q') \<le> timestamp (req_flow q)"
    and k: "0 \<le> k"
  shows "(\<forall>p \<in> set ps'. recorded (qs @ [q]) p) \<and> sound_result k delta (qs @ [q]) r"
  using a unfolding added_def
proof
  assume "r = 0 \<and> derived ps ps'"
  then show ?thesis
    using recorded_derived [OF _ rec, of ps'] recorded_mono [of qs _ "qs @ [q]"] k
    by (auto simp: sound_result_def Let_def)
next
  let ?nm = "req_name q" and ?now = "timestamp (req_flow q)"
  let ?ref = "referenced k delta (slot_of (source (req_flow q))) ?now"
  assume "\<exists>ps1 xs. derived ps ps1 \<and> ((?nm, xs) \<in> set ps1 \<or> xs = []) \<and> r = int (length (?ref xs))
    \<and> set ps' \<subseteq> insert (?nm, ?ref xs) (set ps1)"
  then obtain ps1 xs where d: "derived ps ps1" and xs: "(?nm, xs) \<in> set ps1 \<or> xs = []"
    and r: "r = int (length (?ref xs))" and ps': "set ps' \<subseteq> insert (?nm, ?ref xs) (set ps1)" by blast
  have rec1: "\<forall>p \<in> set ps1. recorded qs p" by (rule recorded_derived [OF d rec])
  have rx: "recorded (qs @ [q]) (?nm, ?ref xs)"
    using recorded_reference [OF _ refl late] rec1 xs by blast
  have "recorded (qs @ [q]) p" if "p \<in> set ps'" for p
    using that ps' rx rec1 recorded_mono [of qs p "qs @ [q]"] by auto
  moreover have "r \<le> int (card (users ?nm (since (?now - delta) (qs @ [q]))))" if "k < r"
  proof -
    have "\<forall>x \<in> set (?ref xs). ?now - delta \<le> snd x"
      using referenced_recent rx that r by (auto simp: recorded_def)
    then show ?thesis using recorded_count [OF recorded_since [OF rx]] r by auto
  qed
  moreover have "r \<le> int (card (users ?nm (qs @ [q])))" using recorded_count [OF rx] r by auto
  ultimately show ?thesis using r by (simp add: sound_result_def)
qed

lemma table_run_snoc:
  "table_run h db k delta (qs @ [q]) = do {
     (h, db, rs) \<leftarrow> table_run h db k delta qs;
     (h, db, r) \<leftarrow> table_add h db (req_flow q) (req_name q) k delta (req_tsc q) (req_i q) (req_oom q) (req_junk q);
     Some (h, db, rs @ [r])
   }"
proof (induction qs arbitrary: h db)
  case (Cons q' qs)
  show ?case
    by (cases "table_add h db (req_flow q') (req_name q') k delta (req_tsc q') (req_i q') (req_oom q') (req_junk q')")
      (auto simp: Cons.IH split: option.split prod.split Option.bind_split)
qed (auto split: option.split prod.split Option.bind_split)

lemma table_run_returned:
  assumes "fresh_table db" and "0 < brk h" and "no_oom h" and "0 \<le> delta" and "0 \<le> k"
    and "\<forall>q \<in> set qs. ipv (req_flow q) \<in> {4, 6}"
    and "(\<forall>q \<in> set qs. length (req_name q) < NAME_DNS) \<or> table_run h db k delta qs \<noteq> None"
    and "sorted (map (\<lambda>q. timestamp (req_flow q)) qs)"
  shows "\<exists>h' db' rs A P. table_run h db k delta qs = Some (h', db', rs) \<and> table_ok h' db' A P \<and> no_oom h'
    \<and> length rs = length qs \<and> (\<forall>i < FLOW_TABLE_SIZE. \<forall>p \<in> set (P i). recorded qs p)
    \<and> (\<forall>n < length qs. sound_result k delta (take (Suc n) qs) (rs ! n))"
  using assms(6-8)
proof (induction qs rule: rev_induct)
  case Nil
  have "table_run h db k delta [] = Some (h, db, []) \<and> table_ok h db (\<lambda>_. []) (\<lambda>_. []) \<and> no_oom h"
    using fresh_table_ok assms(1-3) by simp
  then show ?case by fastforce
next
  case (snoc q qs)
  obtain h1 db1 rs A P where 1: "table_run h db k delta qs = Some (h1, db1, rs)" "table_ok h1 db1 A P"
    "no_oom h1" "length rs = length qs" "\<forall>i < FLOW_TABLE_SIZE. \<forall>p \<in> set (P i). recorded qs p"
    "\<forall>n < length qs. sound_result k delta (take (Suc n) qs) (rs ! n)"
    using snoc by (auto simp: sorted_append table_run_snoc split: Option.bind_splits)
  let ?n = "nat \<bar>nameHash (req_name q)\<bar>"
  have q: "ipv (req_flow q) \<in> {4, 6}" using snoc.prems(1) by simp
  have l: "length (req_name q) < NAME_DNS \<or> table_add h1 db1 (req_flow q) (req_name q) k delta (req_tsc q)
      (req_i q) (req_oom q) (req_junk q) \<noteq> None"
    using snoc.prems(2) by (auto simp: table_run_snoc 1(1) split: Option.bind_splits)
  obtain h2 db2 r A2 ps where 2: "table_add h1 db1 (req_flow q) (req_name q) k delta (req_tsc q) (req_i q)
      (req_oom q) (req_junk q) = Some (h2, db2, r)" "table_ok h2 db2 A2 (P(?n := ps))" "no_oom h2"
    "added (P ?n) ps (req_name q) (slot_of (source (req_flow q))) (timestamp (req_flow q)) k delta r"
    using table_add_safe [OF 1(2) q 1(3) assms(4) l] by blast
  have late: "\<forall>q' \<in> set qs. timestamp (req_flow q') \<le> timestamp (req_flow q)"
    using snoc.prems(3) by (simp add: sorted_append)
  have s: "\<forall>p \<in> set ps. recorded (qs @ [q]) p" "sound_result k delta (qs @ [q]) r"
    using added_sound [OF 2(4) _ late assms(5)] 1(5) name_hash_less by blast+
  have "\<forall>i < FLOW_TABLE_SIZE. \<forall>p \<in> set ((P(?n := ps)) i). recorded (qs @ [q]) p"
  proof (intro allI impI ballI)
    fix i p assume i: "i < FLOW_TABLE_SIZE" "p \<in> set ((P(?n := ps)) i)"
    have "set qs \<subseteq> set (qs @ [q])" by auto
    then show "recorded (qs @ [q]) p"
      using i s(1) 1(5) recorded_mono [of qs p "qs @ [q]"] by (cases "i = ?n") simp_all
  qed
  moreover have "\<forall>n < length (qs @ [q]). sound_result k delta (take (Suc n) (qs @ [q])) ((rs @ [r]) ! n)"
    using s(2) 1(4,6) by (auto simp: nth_append less_Suc_eq)
  moreover have "table_run h db k delta (qs @ [q]) = Some (h2, db2, rs @ [r])"
    by (simp add: table_run_snoc 1(1) 2(1))
  moreover have "length (rs @ [r]) = length (qs @ [q])" using 1(4) by simp
  ultimately show ?case using 2(2,3) by blast
qed

lemma table_run_sound:
  assumes "fresh_table db" and "0 < brk h" and "no_oom h" and "0 \<le> delta" and "0 \<le> k"
    and "\<forall>q \<in> set qs. req_ok q" and "sorted (map (\<lambda>q. timestamp (req_flow q)) qs)"
  shows "\<exists>h' db' rs A P. table_run h db k delta qs = Some (h', db', rs) \<and> table_ok h' db' A P \<and> no_oom h'
    \<and> length rs = length qs \<and> (\<forall>i < FLOW_TABLE_SIZE. \<forall>p \<in> set (P i). recorded qs p)
    \<and> (\<forall>n < length qs. sound_result k delta (take (Suc n) qs) (rs ! n))"
  using table_run_returned [OF assms(1-5) _ _ assms(7)] assms(6) by (simp add: req_ok_def)

section \<open>Exact counting without cleaning\<close>

text \<open>The intended effect of adding a use of \<open>nm\<close> by the client \<open>i\<close> to a table of names.\<close>

definition touch ::
  "int \<Rightarrow> int \<Rightarrow> u8 list \<Rightarrow> nat \<Rightarrow> int \<Rightarrow> (u8 list \<times> (nat \<times> int) list) list
     \<Rightarrow> (u8 list \<times> (nat \<times> int) list) list" where
  "touch k delta nm i ts ps =
     (if nm \<in> fst ` set ps then
        map (\<lambda>p. if fst p = nm then (nm, referenced k delta i ts (snd p)) else p) ps
      else ps @ [(nm, referenced k delta i ts [])])"

definition clients_of :: "u8 list \<Rightarrow> (u8 list \<times> (nat \<times> int) list) list \<Rightarrow> (nat \<times> int) list" where
  "clients_of nm ps = (case map_of ps nm of Some xs \<Rightarrow> xs | None \<Rightarrow> [])"

lemma touch_present:
  assumes "distinct (map fst (psl @ (nm, xs) # psr))"
  shows "touch k delta nm i ts (psl @ (nm, xs) # psr) = psl @ (nm, referenced k delta i ts xs) # psr"
    and "clients_of nm (psl @ (nm, ys) # psr) = ys"
proof -
  have other: "fst p \<noteq> nm" if "p \<in> set psl \<union> set psr" for p
    using assms that by (auto simp: rev_image_eqI)
  then have "map (\<lambda>p. if fst p = nm then (nm, referenced k delta i ts (snd p)) else p) psl = psl"
    "map (\<lambda>p. if fst p = nm then (nm, referenced k delta i ts (snd p)) else p) psr = psr"
    by (intro map_idI; simp add: other)+
  then show "touch k delta nm i ts (psl @ (nm, xs) # psr) = psl @ (nm, referenced k delta i ts xs) # psr"
    by (simp add: touch_def)
  have "map_of psl nm = None" using other by (force simp: map_of_eq_None_iff)
  then show "clients_of nm (psl @ (nm, ys) # psr) = ys" by (simp add: clients_of_def map_add_def)
qed

lemma touch_absent:
  "nm \<notin> fst ` set ps \<Longrightarrow> touch k delta nm i ts ps = ps @ [(nm, referenced k delta i ts [])]"
  "nm \<notin> fst ` set ps \<Longrightarrow> clients_of nm (ps @ [(nm, ys)]) = ys"
  by (simp_all add: touch_def clients_of_def map_add_def map_of_eq_None_iff [THEN iffD2])

lemma chain_at_names: "chain_at h ch ass ps \<Longrightarrow> map fst ps = map name ch"
  by (induction h ch ass ps rule: chain_at.induct) auto

lemma no_clean_exact:
  "no_clean ch nm n c = (c', found) \<Longrightarrow> c < length ch \<Longrightarrow> length ch \<le> n + c \<Longrightarrow>
     (found \<longleftrightarrow> nm \<in> name ` set (drop c ch)) \<and> (\<not> found \<longrightarrow> Suc c' = length ch)"
proof (induction ch nm n c rule: no_clean.induct)
  case (2 ch nm n c)
  have d: "drop c ch = ch ! c # drop (Suc c) ch" using 2(3) by (simp add: Cons_nth_drop_Suc)
  show ?case
  proof (cases "name (ch ! c) = nm")
    case False
    then show ?thesis using 2 d by (cases "Suc c < length ch") auto
  qed (use 2(2) d in auto)
qed simp

lemma bucket_add_exact:
  fixes f :: flow and k :: int
  assumes b: "bucket_ok h b ass ps" and num: "number b = int (length ps)" and dist: "distinct (map fst ps)"
    and i: "i < MAX_CLIENT" and mem: "no_oom h" and delta: "0 \<le> delta"
    and nm: "length nm < NAME_DNS" and prob: "prob < 33"
  defines "ps' \<equiv> touch k delta nm i (timestamp f) ps"
  shows "\<exists>h' b' ass'. bucket_add h b f nm i k delta prob i0 False junk
      = Some (h', b', int (length (clients_of nm ps')))
    \<and> bucket_ok h' b' ass' ps' \<and> number b' = int (length ps') \<and> distinct (map fst ps')
    \<and> lru_frame h (concat ass) h' (concat ass')"
proof (cases "number b = 0")
  case True
  obtain h' q as where r: "referencePage h
      ((hd (chain b))\<lparr>full := 1, name := nm, oldest := timestamp f, n_entry := 0\<rparr>) f i k delta = Some (h', q)"
    "queue_at h' q as (referenced k delta i (timestamp f) [])"
    "bucket_ok h' \<lparr>number = 1, chain = [q]\<rparr> [as] [(nm, referenced k delta i (timestamp f) [])]"
    "lru_frame h [] h' as"
    using reference_slot [OF b True i mem delta] by blast
  have e: "ass = []" "ps = []" using b True by (simp_all add: bucket_ok_def)
  have "n_entry q = int (length (referenced k delta i (timestamp f) []))"
    using r(2) by (simp add: queue_at_def)
  then have "bucket_add h b f nm i k delta prob i0 False junk
      = Some (h', \<lparr>number = 1, chain = [q]\<rparr>, int (length (clients_of nm ps')))"
    using True nm r(1) by (simp add: bucket_add_def search_empty Let_def ps'_def e touch_def clients_of_def)
  moreover have "ps' = [(nm, referenced k delta i (timestamp f) [])]" by (simp add: ps'_def e touch_def)
  moreover have "lru_frame h (concat ass) h' (concat [as])" using r(4) e by simp
  ultimately show ?thesis using r(3) by (intro exI [of _ h'] exI [of _ "\<lparr>number = 1, chain = [q]\<rparr>"] exI [of _ "[as]"]) simp
next
  case False
  have c: "chain_at h (chain b) ass ps" "distinct (concat ass)" "0 < length (chain b)"
    using b False by (auto simp: bucket_ok_def)
  have len: "number b = int (length (chain b))" using num chain_at_length [OF c(1)] by simp
  have brk: "0 < brk h" using b by (simp add: bucket_ok_def)
  obtain c' found where n: "no_clean (chain b) nm (nat (number b)) 0 = (c', found)" by fastforce
  have s: "search h b nm (timestamp f) delta prob i0 = Some (h, chain b, number b, c', found)"
    using prob by (simp add: search_def n)
  have e: "found \<longleftrightarrow> nm \<in> fst ` set ps" "\<not> found \<longrightarrow> Suc c' = length (chain b)"
    using no_clean_exact [OF n c(3)] len chain_at_names [OF c(1)] by (auto simp flip: set_map)
  note cl = no_clean_result [OF n c(3)]
  show ?thesis
  proof (cases found)
    case True
    then have nc: "name (chain b ! c') = nm" using cl by simp
    obtain h' q as' ass' psl xs psr where r: "referencePage h (chain b ! c') f i k delta = Some (h', q)"
      "ps = psl @ (nm, xs) # psr" "queue_at h' q as' (referenced k delta i (timestamp f) xs)"
      "chain_at h' ((chain b)[c' := q]) ass' (psl @ (nm, referenced k delta i (timestamp f) xs) # psr)"
      "distinct (concat ass')" "lru_frame h (concat ass) h' (concat ass')"
      using reference_found [OF c(1,2) conjunct1 [OF cl] i mem delta, of f k] unfolding nc by blast
    have t: "ps' = psl @ (nm, referenced k delta i (timestamp f) xs) # psr"
      "clients_of nm ps' = referenced k delta i (timestamp f) xs"
      using touch_present dist unfolding ps'_def r(2) by metis+
    have "bucket_add h b f nm i k delta prob i0 False junk
        = Some (h', \<lparr>number = number b, chain = (chain b)[c' := q]\<rparr>, int (length (clients_of nm ps')))"
      using True r(1,3) t(2) by (simp add: bucket_add_def s Let_def queue_at_def)
    moreover have "bucket_ok h' \<lparr>number = number b, chain = (chain b)[c' := q]\<rparr> ass' ps'"
      using r(3-5) c(3) len t(1) by (auto simp: bucket_ok_def queue_at_def)
    moreover have "number b = int (length ps')" "distinct (map fst ps')"
      using num dist t(1) r(2) by simp_all
    ultimately show ?thesis using r(6)
      by (intro exI [of _ h'] exI [of _ "\<lparr>number = number b, chain = (chain b)[c' := q]\<rparr>"] exI [of _ ass']) simp
  next
    case nf: False
    obtain h' q as ass' where r: "referencePage h (fresh_names junk nm (timestamp f)) f i k delta = Some (h', q)"
      "queue_at h' q as (referenced k delta i (timestamp f) [])"
      "chain_at h' (take (Suc c') (chain b) @ [q]) ass' (take (Suc c') ps @ [(nm, referenced k delta i (timestamp f) [])])"
      "distinct (concat ass')" "lru_frame h (concat ass) h' (concat ass')"
      using reference_new [OF c(1,2) brk i mem delta, of junk nm f k "Suc c'"] by blast
    have t: "ps' = ps @ [(nm, referenced k delta i (timestamp f) [])]"
      "clients_of nm ps' = referenced k delta i (timestamp f) []"
      using touch_absent nf e(1) unfolding ps'_def by metis+
    have full: "take (Suc c') (chain b) = chain b" "take (Suc c') ps = ps"
      using nf e(2) chain_at_length [OF c(1)] by simp_all
    have "bucket_add h b f nm i k delta prob i0 False junk
        = Some (h', \<lparr>number = number b + 1, chain = chain b @ [q]\<rparr>, int (length (clients_of nm ps')))"
      using nf False nm r(1,2) t(2) full by (simp add: bucket_add_def s Let_def queue_at_def)
    moreover have "bucket_ok h' \<lparr>number = number b + 1, chain = chain b @ [q]\<rparr> ass' ps'"
      using r(2-4) len t(1) full by (auto simp: bucket_ok_def queue_at_def)
    moreover have "number b + 1 = int (length ps')" "distinct (map fst ps')"
      using num dist t(1) nf e(1) by simp_all
    ultimately show ?thesis using r(5)
      by (intro exI [of _ h'] exI [of _ "\<lparr>number = number b + 1, chain = chain b @ [q]\<rparr>"] exI [of _ ass']) simp
  qed
qed

section \<open>What partial cleaning loses\<close>

text \<open>
  With three names of which the second has expired, the loop of the partial cleaning ends before
  it compares the third one.
\<close>

lemma prune_list_all: "\<forall>x \<in> set xs. snd x < limit \<Longrightarrow> prune_list limit xs = []"
  by (simp add: prune_list_def)

lemma partial_clean_stops:
  assumes c: "chain_at h [qa, qb, qc] [la, lb, lc] [(na, xa), (nb, xb), (nc, xc)]"
    and d: "distinct (concat [la, lb, lc])" and n: "nc \<noteq> na" "nc \<noteq> nb"
    and old: "xb \<noteq> []" "\<forall>x \<in> set xb. snd x < ts - delta"
  shows "\<exists>h'. partial_clean h [qa, qb, qc] 3 nc ts delta 0 0 = Some (h', [qa, qc], 2, 1, False)
    \<and> chain_at h' [qa, qc] [la, lc] [(na, xa), (nc, xc)] \<and> distinct (concat [la, lc])
    \<and> lru_frame h (concat [la, lb, lc]) h' (concat [la, lc])"
proof -
  have q: "queue_at h qb lb xb" "name qa = na" "name qb = nb" "name qc = nc" using c by simp_all
  have ne: "0 < n_entry qb" using q(1) old(1) by (simp add: queue_at_def)
  obtain h' q' as' where p: "prune h qb ts delta = Some (h', q')"
    "queue_at h' q' as' []" "lru_frame h lb h' as'" "same_name qb q'"
    using prune_queue [OF q(1) ne, of ts delta] prune_list_all [OF old(2)] by auto
  have e: "n_entry q' \<le> 0" "as' = []" using p(2) queue_at_lengths [OF p(2)] by (simp_all add: queue_at_def)
  have "chain_at h' ([qa] @ q' # [qc]) ([la] @ as' # [lc]) ([(na, xa)] @ (nb, []) # [(nc, xc)])"
    "lru_frame h (concat ([la] @ lb # [lc])) h' (concat ([la] @ as' # [lc]))"
    using chain_replace [of h "[qa]" qb "[qc]" "[la]" lb "[lc]" "[(na, xa)]" nb xb "[(nc, xc)]" h' q' as' "[]"]
      c d p q(3) by (simp_all add: same_name_def)
  then have R: "chain_at h' [qa, qc] [la, lc] [(na, xa), (nc, xc)]"
    "lru_frame h (concat [la, lb, lc]) h' (concat [la, lc])" using e(2) by simp_all
  have "partial_clean h [qa, qb, qc] 3 nc ts delta 0 0 = partial_clean h [qa, qb, qc] 3 nc ts delta 1 1"
    using n q by (subst partial_clean.simps) simp
  also have "\<dots> = partial_clean h' [qa, qc] 2 nc ts delta 2 1"
    using n q p(1) ne e(1) by (subst partial_clean.simps) simp
  also have "\<dots> = Some (h', [qa, qc], 2, 1, False)"
    by (subst partial_clean.simps) simp
  finally show ?thesis using R d by (simp add: Int_Un_distrib)
qed

end
