(* ===== verification/Names_Progress.thy ===== *)
theory Names_Progress
  imports Names_Correct
begin

text \<open>
  Clients that use the same name within the window, one after the other and without cleaning, are
  all counted: the lemmas behind the property that a name used enough is let through.
\<close>

lemma prune_list_within: "\<forall>x \<in> set ys. limit \<le> snd x \<Longrightarrow> prune_list limit ys = ys"
  by (cases ys rule: rev_cases) auto

lemma referenced_within:
  assumes "i \<notin> fst ` set xs" and "\<forall>x \<in> set xs. ts - delta \<le> snd x" and "0 \<le> delta"
  shows "referenced k delta i ts xs = (i, ts) # xs"
proof -
  have "filter (\<lambda>x. fst x \<noteq> i) xs = xs" using assms(1) by (auto intro!: filter_True)
  then show ?thesis using assms by (simp add: referenced_def reference_list_def Let_def prune_list_within)
qed

text \<open>What a bucket lists that has seen one name only.\<close>

definition only :: "u8 list \<Rightarrow> (nat \<times> int) list \<Rightarrow> (u8 list \<times> (nat \<times> int) list) list" where
  "only nm xs = (if xs = [] then [] else [(nm, xs)])"

lemma touch_only:
  "referenced k delta i ts xs = ys \<Longrightarrow> ys \<noteq> [] \<Longrightarrow> touch k delta nm i ts (only nm xs) = only nm ys"
  by (auto simp: touch_def only_def)

lemma table_add_only:
  assumes b: "bucket_ok h (db (nat \<bar>nameHash nm\<bar>)) ass (only nm xs)"
    and n: "number (db (nat \<bar>nameHash nm\<bar>)) = int (length (only nm xs))"
    and f: "ipv f \<in> {4, 6}" "slot_of (source f) \<notin> fst ` set xs" "\<forall>x \<in> set xs. timestamp f - delta \<le> snd x"
    and "no_oom h" and "0 \<le> delta" and "length nm < NAME_DNS" and "probability tsc < 33"
  defines "ys \<equiv> (slot_of (source f), timestamp f) # xs"
  shows "\<exists>h' db' ass'. table_add h db f nm k delta tsc i0 False junk = Some (h', db', int (length ys))
    \<and> bucket_ok h' (db' (nat \<bar>nameHash nm\<bar>)) ass' (only nm ys)
    \<and> number (db' (nat \<bar>nameHash nm\<bar>)) = int (length (only nm ys)) \<and> no_oom h'"
proof -
  have r: "touch k delta nm (slot_of (source f)) (timestamp f) (only nm xs) = only nm ys"
    by (rule touch_only) (use referenced_within [OF f(2,3) assms(7)] in \<open>simp_all add: ys_def\<close>)
  have d: "distinct (map fst (only nm xs))" by (simp add: only_def)
  obtain h' b' ass' where a: "bucket_add h (db (nat \<bar>nameHash nm\<bar>)) f nm (slot_of (source f)) k delta (probability tsc) i0
      False junk = Some (h', b', int (length (clients_of nm (only nm ys))))"
    "bucket_ok h' b' ass' (only nm ys)" "number b' = int (length (only nm ys))" "lru_frame h (concat ass) h' (concat ass')"
    using bucket_add_exact [OF b n d slot_of_less [of "source f"] assms(6-9), of f k i0 junk] unfolding r by blast
  have "clients_of nm (only nm ys) = ys" by (simp add: clients_of_def only_def ys_def)
  then have "table_add h db f nm k delta tsc i0 False junk
      = Some (h', db(nat \<bar>nameHash nm\<bar> := b'), int (length ys))"
    using a(1) user_hash_source [OF f(1)] by (simp add: table_add_def)
  then show ?thesis using a(2,3) no_oom_frame [OF assms(6) a(4)] by auto
qed

text \<open>A request for the name that does not draw a random number for cleaning and gets its memory.\<close>

definition prompt :: "u8 list \<Rightarrow> request \<Rightarrow> bool" where
  "prompt nm q \<longleftrightarrow> req_name q = nm \<and> ipv (req_flow q) \<in> {4, 6} \<and> probability (req_tsc q) < 33 \<and> \<not> req_oom q"

lemma table_run_only:
  assumes "bucket_ok h (db (nat \<bar>nameHash nm\<bar>)) ass (only nm xs)"
    and "number (db (nat \<bar>nameHash nm\<bar>)) = int (length (only nm xs))"
    and "no_oom h" and "0 \<le> delta" and "length nm < NAME_DNS" and "\<forall>q \<in> set qs. prompt nm q"
    and "distinct (map (\<lambda>q. slot_of (source (req_flow q))) qs)"
    and "\<forall>q \<in> set qs. slot_of (source (req_flow q)) \<notin> fst ` set xs"
    and "\<forall>q \<in> set qs. (\<forall>x \<in> set xs. timestamp (req_flow q) - delta \<le> snd x)
      \<and> (\<forall>q' \<in> set qs. timestamp (req_flow q) - delta \<le> timestamp (req_flow q'))"
  shows "\<exists>h' db'. table_run h db k delta qs = Some (h', db', map int [length xs + 1..<length xs + 1 + length qs])"
  using assms(1-3,6-9)
proof (induction qs arbitrary: h db ass xs)
  case (Cons q qs)
  let ?ys = "(slot_of (source (req_flow q)), timestamp (req_flow q)) # xs"
  have p: "req_name q = nm" "ipv (req_flow q) \<in> {4, 6}" "probability (req_tsc q) < 33" "req_oom q = False"
    using Cons.prems(4) by (simp_all add: prompt_def)
  obtain h1 db1 ass1 where 1: "table_add h db (req_flow q) nm k delta (req_tsc q) (req_i q) False (req_junk q)
      = Some (h1, db1, int (length ?ys))"
    "bucket_ok h1 (db1 (nat \<bar>nameHash nm\<bar>)) ass1 (only nm ?ys)"
    "number (db1 (nat \<bar>nameHash nm\<bar>)) = int (length (only nm ?ys))" "no_oom h1"
  proof -
    have s: "slot_of (source (req_flow q)) \<notin> fst ` set xs" using Cons.prems(6) by simp
    have t: "\<forall>x \<in> set xs. timestamp (req_flow q) - delta \<le> snd x" using Cons.prems(7) by simp
    show ?thesis
      using table_add_only [where db = db and nm = nm and xs = xs and f = "req_flow q",
          OF Cons.prems(1,2) p(2) s t Cons.prems(3) assms(4,5) p(3)] that by blast
  qed
  obtain h2 db2 where "table_run h1 db1 k delta qs = Some (h2, db2, map int [length ?ys + 1..<length ?ys + 1 + length qs])"
  proof -
    have "\<forall>q' \<in> set qs. slot_of (source (req_flow q')) \<noteq> slot_of (source (req_flow q))"
      using Cons.prems(5) by (auto simp: image_iff)
    then show ?thesis using Cons.IH [where db = db1 and xs = ?ys, OF 1(2-4)] Cons.prems(4-7) that by auto
  qed
  moreover have "[length xs + 1..<length xs + 1 + length (q # qs)]
      = (length xs + 1) # [length ?ys + 1..<length ?ys + 1 + length qs]"
    by (simp add: upt_conv_Cons del: upt_Suc)
  ultimately show ?case using 1(1) p by (simp del: upt_Suc)
qed simp

end
