(* ===== verification/Names_Properties.thy ===== *)
theory Names_Properties
  imports Names_Progress Lru_Properties
begin

text \<open>
  The properties of the table of names of \<^verbatim>\<open>src/proto_mng.c\<close>.
\<close>

lemma referenced_new: "0 \<le> delta \<Longrightarrow> referenced k delta i ts [] = [(i, ts)]"
  by (simp add: referenced_def reference_list_def prune_list_def Let_def)

section \<open>Properties\<close>

text \<open>
  C3.  The table of names never faults and never overstates a name.  Let it start on memory that
  lists no clients, let no allocation of a list node fail, let \<open>k\<close> and \<open>delta\<close> not be negative, and let packets of
  IPv4 or IPv6 with names shorter than 500 characters follow in order of time, whatever the
  random numbers that choose the cleaning, the unassigned variable, and the failures to allocate the entry of
  a name.  Then every call of \<^verbatim>\<open>table_add\<close> returns, its result for a name is at most the number of
  different addresses that used this name, and a result above \<open>k\<close> is at most the number of those
  that used it in the last \<open>delta\<close> seconds.
\<close>

theorem names_table_sound:
  assumes "\<forall>i < FLOW_TABLE_SIZE. length (chain (db i)) = 1
      \<and> (\<forall>j < MAX_CLIENT. active (client_list (hd (chain (db i))) j) = 0)"
    and "0 < brk h" and "no_oom h" and "0 \<le> delta" and "0 \<le> k"
    and "\<forall>q \<in> set qs. req_ok q" and "sorted (map (\<lambda>q. timestamp (req_flow q)) qs)"
  shows "\<exists>h' db' rs. table_run h (table_init db) k delta qs = Some (h', db', rs) \<and> length rs = length qs
    \<and> (\<forall>n < length qs. let q = qs ! n; past = take (Suc n) qs in
         rs ! n \<le> int (card (users (req_name q) past))
         \<and> (k < rs ! n \<longrightarrow>
              rs ! n \<le> int (card (users (req_name q) (since (timestamp (req_flow q) - delta) past)))))"
proof -
  have "fresh_table (table_init db)" using assms(1) by (simp add: fresh_table_def table_init_def)
  then obtain h' db' rs where r: "table_run h (table_init db) k delta qs = Some (h', db', rs)"
    "length rs = length qs" "\<forall>n < length qs. sound_result k delta (take (Suc n) qs) (rs ! n)"
    using table_run_sound [OF _ assms(2-7)] by blast
  moreover have "last (take (Suc n) qs) = qs ! n" if "n < length qs" for n
    using that by (simp add: take_Suc_conv_app_nth)
  ultimately show ?thesis by (auto simp: sound_result_def Let_def)
qed

definition blank_table :: hash_struct where
  "blank_table = (\<lambda>_. \<lparr>number = 0, chain = [new_names []]\<rparr>)"

definition request_at :: "u32 \<Rightarrow> int \<Rightarrow> request" where
  "request_at a t = \<lparr>req_flow = (flow_at t)\<lparr>ipv4_src := a\<rparr>, req_name = [97], req_tsc = 0, req_i = 0,
     req_oom = False, req_junk = (\<lambda>_. no_client)\<rparr>"

theorem names_table_sound_witness:
  "\<exists>h' db' rs. table_run empty_heap (table_init blank_table) 1 10 [request_at 1 0, request_at 2 5]
      = Some (h', db', rs) \<and> length rs = 2"
  using names_table_sound [of blank_table empty_heap 10 1 "[request_at 1 0, request_at 2 5]"] no_oom_empty
  by (auto simp: blank_table_def new_names_def no_client_def empty_heap_def request_at_def req_ok_def
      flow_at_def NAME_DNS_def)

text \<open>
  C20.  Without cleaning, the table counts exactly.  On a bucket whose counter is the number of its
  names, \<^verbatim>\<open>table_add\<close> refines \<open>touch\<close>: the clients of the name, of no other name, are brought up to
  date, a name not known yet is added, and the result is the number of the listed clients of the name.
\<close>

theorem table_add_exact:
  fixes f :: flow and k :: int
  assumes "bucket_ok h b ass ps" and "number b = int (length ps)" and "distinct (map fst ps)"
    and "i < MAX_CLIENT" and "no_oom h" and "0 \<le> delta" and "length nm < NAME_DNS" and "prob < 33"
  shows "\<exists>h' b' ass'. bucket_add h b f nm i k delta prob i0 False junk
      = Some (h', b', int (length (clients_of nm (touch k delta nm i (timestamp f) ps))))
    \<and> bucket_ok h' b' ass' (touch k delta nm i (timestamp f) ps)
    \<and> number b' = int (length (touch k delta nm i (timestamp f) ps))
    \<and> distinct (map fst (touch k delta nm i (timestamp f) ps))"
  using bucket_add_exact [OF assms, of f k i0 junk] by blast

theorem table_add_exact_witness:
  "\<exists>h' b' ass'. bucket_add empty_heap \<lparr>number = 0, chain = [new_names []]\<rparr> (flow_at 5) [97] 7 3 10 0 0 False (\<lambda>_. no_client)
      = Some (h', b', 1) \<and> bucket_ok h' b' ass' [([97], [(7, 5)])]"
proof -
  have t: "touch 3 10 [97] 7 (timestamp (flow_at 5)) [] = [([97], [(7, 5)])]"
    by (simp add: touch_def referenced_new flow_at_def)
  have b: "bucket_ok empty_heap \<lparr>number = 0, chain = [new_names []]\<rparr> [] []"
    by (simp add: bucket_ok_def empty_heap_def new_names_def no_client_def)
  show ?thesis
    using table_add_exact [OF b, of 7 10 "[97]" 0 "flow_at 5" 3 0 "\<lambda>_. no_client"] no_oom_empty unfolding t
    by (auto simp: clients_of_def MAX_CLIENT_def NAME_DNS_def)
qed

text \<open>
  The branch of complete cleaning is dead: whatever random number is drawn, the bucket is
  searched without cleaning or with partial cleaning, and the variable that the dead branch would
  read before assigning it has no effect on \<^verbatim>\<open>table_add\<close>.
\<close>

theorem complete_clean_never_runs:
  "search h b nm ts delta prob i = (if prob < 33 then
       let (c, found) = no_clean (chain b) nm (nat (number b)) 0 in Some (h, chain b, number b, c, found)
     else partial_clean h (chain b) (number b) nm ts delta 0 0)
   \<and> table_add h db f nm k delta tsc i names_oom junk = table_add h db f nm k delta tsc j names_oom junk"
proof -
  have s: "search h b nm ts delta prob i = (if prob < 33 then
       let (c, found) = no_clean (chain b) nm (nat (number b)) 0 in Some (h, chain b, number b, c, found)
     else partial_clean h (chain b) (number b) nm ts delta 0 0)" for h b nm ts delta prob i
    by (simp add: search_def)
  show ?thesis unfolding table_add_def bucket_add_def s by simp
qed

text \<open>
  Partial cleaning miscounts.  The loop both advances its index and lowers its bound when it
  unlinks a name.  In a bucket of three names of which the second has expired, the third is never
  compared: it is added again behind itself, and its count starts again at one, however many
  clients the entry that is already there lists.
\<close>

theorem cleaning_restarts_the_count:
  fixes f :: flow and k :: int
  assumes "chain_at h [qa, qb, qc] [la, lb, lc] [(na, xa), (nb, xb), (nc, xc)]"
    and "distinct (concat [la, lb, lc])" and "nc \<noteq> na" and "nc \<noteq> nb"
    and "xb \<noteq> []" and "\<forall>x \<in> set xb. snd x < timestamp f - delta"
    and "i < MAX_CLIENT" and "no_oom h" and "0 \<le> delta" and "length nc < NAME_DNS" and "33 \<le> prob"
  shows "\<exists>h' qc' ass. bucket_add h \<lparr>number = 3, chain = [qa, qb, qc]\<rparr> f nc i k delta prob i0 False junk
      = Some (h', \<lparr>number = 3, chain = [qa, qc, qc']\<rparr>, 1)
    \<and> chain_at h' [qa, qc, qc'] ass [(na, xa), (nc, xc), (nc, [(i, timestamp f)])]"
proof -
  obtain h1 where p: "partial_clean h [qa, qb, qc] 3 nc (timestamp f) delta 0 0 = Some (h1, [qa, qc], 2, 1, False)"
    "chain_at h1 [qa, qc] [la, lc] [(na, xa), (nc, xc)]" "distinct (concat [la, lc])"
    "lru_frame h (concat [la, lb, lc]) h1 (concat [la, lc])"
    using partial_clean_stops [OF assms(1-6)] by blast
  have "0 < brk h" using assms(1) by (simp add: queue_at_def)
  then have brk: "0 < brk h1" using p(4) by (simp add: lru_frame_def)
  have mem: "no_oom h1" by (rule no_oom_frame [OF assms(8) p(4)])
  obtain h' q as ass' where r: "referencePage h1 (fresh_names junk nc (timestamp f)) f i k delta = Some (h', q)"
    "queue_at h' q as [(i, timestamp f)]" "chain_at h' ([qa, qc] @ [q]) ass' ([(na, xa), (nc, xc)] @ [(nc, [(i, timestamp f)])])"
    using reference_new [OF p(2,3) brk assms(7) mem assms(9), of junk nc f k 2]
    by (auto simp: referenced_new [OF assms(9)])
  have "search h \<lparr>number = 3, chain = [qa, qb, qc]\<rparr> nc (timestamp f) delta prob i0 = Some (h1, [qa, qc], 2, 1, False)"
    using assms(11) p(1) by (simp add: search_def)
  then have "bucket_add h \<lparr>number = 3, chain = [qa, qb, qc]\<rparr> f nc i k delta prob i0 False junk
      = Some (h', \<lparr>number = 3, chain = [qa, qc, q]\<rparr>, 1)"
    using assms(10) r(1,2) by (simp add: bucket_add_def Let_def queue_at_def)
  then show ?thesis using r(3) by auto
qed

definition lone_names :: "u8 list \<Rightarrow> nat \<Rightarrow> nat \<Rightarrow> int \<Rightarrow> names" where
  "lone_names s i a t = (new_names s)\<lparr>n_entry := 1, n_client := 1, oldest := t, head := a, tail := a,
     client_list := (\<lambda>_. no_client)(i := no_client\<lparr>active := 1, lru_ptr := a\<rparr>)\<rparr>"

definition three_heap :: heap where
  "three_heap = \<lparr>cells = [1 \<mapsto> \<lparr>client_hash = 7, lru_timestamp = 100, lru_prev = 0, lru_next = 0\<rparr>,
     2 \<mapsto> \<lparr>client_hash = 7, lru_timestamp = 0, lru_prev = 0, lru_next = 0\<rparr>,
     3 \<mapsto> \<lparr>client_hash = 7, lru_timestamp = 100, lru_prev = 0, lru_next = 0\<rparr>], brk = 4, oom = (\<lambda>_. False)\<rparr>"

theorem cleaning_restarts_the_count_witness:
  "\<exists>h' qc' ass. bucket_add three_heap
      \<lparr>number = 3, chain = [lone_names [97] 7 1 100, lone_names [98] 7 2 0, lone_names [99] 7 3 100]\<rparr>
      (flow_at 101) [99] 8 3 10 50 0 False (\<lambda>_. no_client)
      = Some (h', \<lparr>number = 3, chain = [lone_names [97] 7 1 100, lone_names [99] 7 3 100, qc']\<rparr>, 1)
    \<and> chain_at h' [lone_names [97] 7 1 100, lone_names [99] 7 3 100, qc'] ass
        [([97], [(7, 100)]), ([99], [(7, 100)]), ([99], [(8, 101)])]"
proof -
  have c: "chain_at three_heap [lone_names [97] 7 1 100, lone_names [98] 7 2 0, lone_names [99] 7 3 100]
      [[1], [2], [3]] [([97], [(7, 100)]), ([98], [(7, 0)]), ([99], [(7, 100)])]"
    by (auto simp: queue_at_def three_heap_def lone_names_def new_names_def no_client_def MAX_CLIENT_def)
  show ?thesis
    using cleaning_restarts_the_count [OF c, of "flow_at 101" 10 8 50 3 0 "\<lambda>_. no_client"]
    by (simp add: flow_at_def MAX_CLIENT_def NAME_DNS_def no_oom_def three_heap_def)
qed

text \<open>
  C14.  A name that is used enough is let through.  In a fresh table and with memory for every client and name,
  when clients whose addresses fall in different slots of the 900 use a name of less than 500 characters one after the other,
  all within the window, and no request cleans, the \<open>n\<close>-th of them gets
  the result \<open>n\<close>, where clients that share a slot would count once: from the \<open>k\<close>-th client on the name passes the test against \<open>k\<close>.
\<close>

theorem names_used_enough_pass:
  assumes "\<forall>i < FLOW_TABLE_SIZE. length (chain (db i)) = 1
      \<and> (\<forall>j < MAX_CLIENT. active (client_list (hd (chain (db i))) j) = 0)"
    and "0 < brk h" and "no_oom h" and "0 \<le> delta" and "length nm < NAME_DNS" and "\<forall>q \<in> set qs. prompt nm q"
    and "distinct (map (\<lambda>q. slot_of (source (req_flow q))) qs)"
    and "\<forall>q \<in> set qs. \<forall>q' \<in> set qs. timestamp (req_flow q) - delta \<le> timestamp (req_flow q')"
  shows "\<exists>h' db'. table_run h (table_init db) k delta qs = Some (h', db', map int [1..<1 + length qs])"
proof -
  have "bucket_ok h (table_init db (nat \<bar>nameHash nm\<bar>)) [] (only nm [])"
    using name_hash_less [of nm] assms(1,2) by (auto simp: bucket_ok_def table_init_def only_def)
  moreover have "number (table_init db (nat \<bar>nameHash nm\<bar>)) = int (length (only nm []))"
    using name_hash_less [of nm] by (simp add: table_init_def only_def)
  ultimately show ?thesis
    using table_run_only [of h "table_init db" nm "[]" "[]" delta qs k] assms by simp
qed

definition user_at :: "u32 \<Rightarrow> int \<Rightarrow> request" where
  "user_at a t = (request_at a t)\<lparr>req_tsc := 20\<rparr>"

theorem names_used_enough_pass_witness:
  "\<exists>h' db'. table_run empty_heap (table_init blank_table) 2 10 [user_at 1 0, user_at 2 5] = Some (h', db', [1, 2])"
proof -
  have s: "slot_of 1 = 573" "slot_of 2 = 370" by code_simp+
  have p: "probability 20 = 3" by code_simp
  have "\<forall>i < FLOW_TABLE_SIZE. length (chain (blank_table i)) = 1
      \<and> (\<forall>j < MAX_CLIENT. active (client_list (hd (chain (blank_table i))) j) = 0)"
    by (simp add: blank_table_def new_names_def no_client_def)
  from names_used_enough_pass [OF this, of empty_heap 10 "[97]" "[user_at 1 0, user_at 2 5]" 2]
  show ?thesis
    using no_oom_empty s p
    by (simp add: empty_heap_def NAME_DNS_def prompt_def user_at_def request_at_def flow_at_def source_def upt_rec)
qed

end
