(* ===== verification/Flow_Mng.thy ===== *)
theory Flow_Mng
  imports Names_Table
begin

text \<open>
  The table of connections of \<^verbatim>\<open>src/flow_mng.c\<close>: \<^verbatim>\<open>flow_table_init\<close> and \<^verbatim>\<open>reference_flow\<close>.

  A bucket is the chain that starts with the slot of the array \<^verbatim>\<open>table\<close>.  A pointer to an entry is
  the number of its bucket with its position in the chain.  The mutex of a bucket makes
  \<^verbatim>\<open>reference_flow\<close> atomic.
\<close>

section \<open>State\<close>

definition T_OUT :: int where "T_OUT = 300"

record table_flow =
  t_ipv :: int
  t_ipv4_src :: u32
  t_ipv4_dst :: u32
  ipv4_anon :: u32
  t_ipv6_src :: u128
  t_ipv6_dst :: u128
  ipv6_anon :: "u8 list"
  t_in_port :: u16
  t_out_port :: u16
  t_protocol :: u8
  t_timestamp :: int
  toAnon :: int

type_synonym flow_mng = "nat \<Rightarrow> table_flow list"

text \<open>
  The slots come from \<^verbatim>\<open>malloc\<close>, which is taken to succeed when the program starts: what is not
  assigned here keeps the contents \<open>mem\<close> of the memory.
\<close>

definition flow_table_init :: "(nat \<Rightarrow> table_flow) \<Rightarrow> flow_mng" where
  "flow_table_init mem = (\<lambda>i. if i < TCP_UDP_FLOWS then [(mem i)\<lparr>toAnon := -1\<rparr>] else [mem i])"

section \<open>Looking up a connection\<close>

text \<open>The comparison looks at IPv4 addresses only, whatever the version of the packet.\<close>

definition flow_match :: "table_flow \<Rightarrow> flow \<Rightarrow> bool" where
  "flow_match cur data \<longleftrightarrow>
     (t_ipv4_src cur = ipv4_src data \<and> t_ipv4_dst cur = ipv4_dst data
      \<or> t_ipv4_src cur = ipv4_dst data \<and> t_ipv4_dst cur = ipv4_src data)
     \<and> (t_in_port cur = in_port data \<and> t_out_port cur = out_port data
      \<or> t_out_port cur = in_port data \<and> t_in_port cur = out_port data)
     \<and> t_protocol cur = protocol data"

text \<open>
  The loop over the chain from position \<open>c\<close>: with garbage collection (\<open>gc\<close>) an expired entry behind
  the slot is unlinked, which dereferences its \<^verbatim>\<open>next\<close>; the entry that moves to its place is passed
  over by \<^verbatim>\<open>curr= curr->next\<close>.  The result has the chain, the position found, and \<^verbatim>\<open>first_free\<close>.
\<close>

function find_flow ::
  "bool \<Rightarrow> flow \<Rightarrow> table_flow list \<Rightarrow> nat \<Rightarrow> bool \<Rightarrow> (table_flow list \<times> nat option \<times> bool) option" where
  "find_flow gc data ch c first_free =
     (if length ch \<le> c then Some (ch, None, first_free)
      else if flow_match (ch ! c) data then
        Some (ch[c := (ch ! c)\<lparr>t_timestamp := timestamp data\<rparr>], Some c, first_free)
      else if gc \<and> T_OUT < timestamp data - t_timestamp (ch ! c) then
        if c \<noteq> 0 then
          if length ch \<le> Suc c then None
          else find_flow gc data (take c ch @ drop (Suc c) ch) (Suc c) first_free
        else find_flow gc data ch (Suc c) True
      else find_flow gc data ch (Suc c) first_free)"
  by pat_completeness auto
termination
  by (relation "measure (\<lambda>(gc, data, ch, c, first_free). length ch - c)") auto

declare find_flow.simps [simp del]

text \<open>
  What is written into an entry for a new connection; \<^verbatim>\<open>ipv6_dst\<close> is never written.
\<close>

definition new_flow :: "table_flow \<Rightarrow> flow \<Rightarrow> table_flow" where
  "new_flow mem data = mem\<lparr>t_ipv := ipv data, t_ipv4_src := ipv4_src data,
     t_ipv4_dst := ipv4_dst data, t_ipv6_src := ipv6_src data, t_in_port := in_port data,
     t_out_port := out_port data, t_protocol := protocol data, t_timestamp := timestamp data,
     toAnon := -1\<rparr>"

definition flow_hash :: "flow \<Rightarrow> nat" where
  "flow_hash data =
     nat (if ipv data = 4
          then getHash (ucast (ipv4_src data)) (ucast (ipv4_dst data)) (in_port data) (out_port data)
            (protocol data) (int TCP_UDP_FLOWS)
          else getHash (ipv6_src data) (ipv6_dst data) (in_port data) (out_port data)
            (protocol data) (int TCP_UDP_FLOWS))"

text \<open>
  \<^verbatim>\<open>reference_flow\<close> on the bucket; \<open>mem\<close> is what \<^verbatim>\<open>malloc\<close> returns for a new entry, \<open>None\<close> if it
  fails, and a failure is dereferenced.
\<close>

definition bucket_flow ::
  "bool \<Rightarrow> flow \<Rightarrow> table_flow option \<Rightarrow> table_flow list \<Rightarrow> (table_flow list \<times> nat) option" where
  "bucket_flow gc data mem ch = do {
     (ch, found, first_free) \<leftarrow> find_flow gc data ch 0 False;
     case found of
       Some c \<Rightarrow> Some (ch, c)
     | None \<Rightarrow>
         if first_free then Some (ch[0 := new_flow (ch ! 0) data], 0)
         else do { mem \<leftarrow> mem; Some (ch @ [new_flow mem data], length ch) }
   }"

definition reference_flow ::
  "flow_mng \<Rightarrow> flow \<Rightarrow> u64 \<Rightarrow> table_flow option \<Rightarrow> (flow_mng \<times> nat \<times> nat) option" where
  "reference_flow flow_struct data tsc mem = do {
     let hash = flow_hash data;
     (ch, c) \<leftarrow> bucket_flow (50 < probability tsc) data mem (flow_struct hash);
     Some (flow_struct(hash := ch), hash, c)
   }"

section \<open>Correctness\<close>

text \<open>The other direction of a connection.\<close>

definition reversed :: "flow \<Rightarrow> flow" where
  "reversed data = data\<lparr>ipv4_src := ipv4_dst data, ipv4_dst := ipv4_src data,
     ipv6_src := ipv6_dst data, ipv6_dst := ipv6_src data,
     in_port := out_port data, out_port := in_port data\<rparr>"

lemma flow_match_reversed [simp]: "flow_match cur (reversed data) = flow_match cur data"
  by (auto simp: flow_match_def reversed_def)

lemma flow_match_timestamp [simp]:
  "flow_match (cur\<lparr>t_timestamp := ts\<rparr>) data = flow_match cur data"
  "flow_match (cur\<lparr>toAnon := x\<rparr>) data = flow_match cur data"
  "flow_match cur (data\<lparr>timestamp := ts'\<rparr>) = flow_match cur data"
  by (simp_all add: flow_match_def)

lemma flow_match_new [simp]: "flow_match (new_flow mem data) data"
  by (simp add: flow_match_def new_flow_def)

lemma flow_hash_reversed [simp]: "flow_hash (reversed data) = flow_hash data"
  using getHash_symmetric by (simp add: flow_hash_def reversed_def)

lemma flow_hash_timestamp [simp]: "flow_hash (data\<lparr>timestamp := ts\<rparr>) = flow_hash data"
  by (simp add: flow_hash_def)

lemma flow_hash_less: "flow_hash data < TCP_UDP_FLOWS"
proof -
  have "nat (getHash a b sp dp ptl (int TCP_UDP_FLOWS)) < TCP_UDP_FLOWS" for a b sp dp ptl
    using getHash_range [of "int TCP_UDP_FLOWS" a b sp dp ptl] by (simp add: TCP_UDP_FLOWS_def nat_less_iff)
  then show ?thesis by (simp add: flow_hash_def)
qed

lemma find_flow_found:
  assumes "find_flow gc data ch c ff = Some (ch', Some i, ff')"
  shows "i < length ch' \<and> flow_match (ch' ! i) data \<and> t_timestamp (ch' ! i) = timestamp data"
  using assms
proof (induction gc data ch c ff rule: find_flow.induct)
  case (1 gc data ch c ff)
  show ?case
    using 1(4) 1(1-3) by (subst (asm) find_flow.simps) (auto split: if_splits)
qed

lemma find_flow_not_empty:
  "find_flow gc data ch c ff = Some (ch', found, ff') \<Longrightarrow> ch \<noteq> [] \<Longrightarrow> ch' \<noteq> []"
proof (induction gc data ch c ff rule: find_flow.induct)
  case (1 gc data ch c ff)
  show ?case
    using 1(4,5) 1(1-3) by (subst (asm) find_flow.simps) (auto split: if_splits)
qed

text \<open>Without garbage collection the loop is a linear search.\<close>

lemma find_flow_first:
  assumes "c \<le> i" and "i < length ch" and "flow_match (ch ! i) data"
    and "\<forall>j. c \<le> j \<and> j < i \<longrightarrow> \<not> flow_match (ch ! j) data"
  shows "find_flow False data ch c ff = Some (ch[i := (ch ! i)\<lparr>t_timestamp := timestamp data\<rparr>], Some i, ff)"
  using assms
proof (induction "i - c" arbitrary: c)
  case (Suc n)
  then show ?case
    using Suc(1) [of "Suc c"] by (subst find_flow.simps) (auto simp: Suc_le_eq)
qed (subst find_flow.simps, auto)

lemma find_flow_none:
  assumes "\<forall>j. c \<le> j \<and> j < length ch \<longrightarrow> \<not> flow_match (ch ! j) data"
  shows "find_flow False data ch c ff = Some (ch, None, ff)"
  using assms
proof (induction "length ch - c" arbitrary: c)
  case (Suc n)
  then show ?case
    using Suc(1) [of "Suc c"] by (subst find_flow.simps) (auto simp: Suc_le_eq)
qed (subst find_flow.simps, auto)

text \<open>What the caller gets is an entry of this connection with the time of the packet.\<close>

lemma bucket_flow_found:
  assumes "bucket_flow gc data mem ch = Some (ch', c)" and "ch \<noteq> []"
  shows "c < length ch' \<and> flow_match (ch' ! c) data \<and> t_timestamp (ch' ! c) = timestamp data"
proof -
  obtain ch1 found ff where f: "find_flow gc data ch 0 False = Some (ch1, found, ff)"
    using assms(1) by (auto simp: bucket_flow_def split: Option.bind_splits)
  have ne: "ch1 \<noteq> []" by (rule find_flow_not_empty [OF f assms(2)])
  show ?thesis
  proof (cases found)
    case None
    then show ?thesis
      using assms(1) f ne by (auto simp: bucket_flow_def new_flow_def flow_match_def nth_append
          split: if_splits Option.bind_splits)
  next
    case (Some i)
    then show ?thesis using assms(1) f find_flow_found [of gc data ch 0 False ch1 i ff]
      by (auto simp: bucket_flow_def)
  qed
qed

text \<open>Without garbage collection it always gets one, and the first in the chain.\<close>

lemma bucket_flow_no_gc:
  assumes "mem \<noteq> None"
  obtains ch' c where "bucket_flow False data mem ch = Some (ch', c)"
    and "\<forall>j < c. \<not> flow_match (ch' ! j) data"
proof (cases "\<exists>i < length ch. flow_match (ch ! i) data")
  case True
  define i where "i = (LEAST i. i < length ch \<and> flow_match (ch ! i) data)"
  have i: "i < length ch \<and> flow_match (ch ! i) data" unfolding i_def by (rule LeastI_ex) (use True in blast)
  have min: "\<not> flow_match (ch ! j) data" if "j < i" for j
    using not_less_Least [of j "\<lambda>i. i < length ch \<and> flow_match (ch ! i) data"] that i
    unfolding i_def [symmetric] by auto
  have "bucket_flow False data mem ch = Some (ch[i := (ch ! i)\<lparr>t_timestamp := timestamp data\<rparr>], i)"
    using find_flow_first [of 0 i ch data False] i min by (simp add: bucket_flow_def)
  then show ?thesis using that min by auto
next
  case False
  obtain m where m: "mem = Some m" using assms by blast
  have "bucket_flow False data mem ch = Some (ch @ [new_flow m data], length ch)"
    using find_flow_none [of 0 ch data False] False m by (simp add: bucket_flow_def)
  then show ?thesis using that False by (auto simp: nth_append)
qed

text \<open>
  An entry that a lookup returned is found again, with what has been written into it since, by any
  packet of its connection.
\<close>

lemma entry_found_again:
  assumes "reference_flow flow_struct data tsc mem = Some (fs, h, c)"
    and "flow_struct (flow_hash data) \<noteq> []"
    and "mem \<noteq> None" and "probability tsc \<le> 50"
  shows "c < length (fs h)" and "flow_match (fs h ! c) data"
    and "flow_match entry data \<Longrightarrow> probability tsc' \<le> 50 \<Longrightarrow> flow_hash data' = flow_hash data \<Longrightarrow>
      (\<And>cur. flow_match cur data' = flow_match cur data) \<Longrightarrow>
      reference_flow (fs(h := (fs h)[c := entry])) data' tsc' mem'
        = Some (fs(h := (fs h)[c := entry\<lparr>t_timestamp := timestamp data'\<rparr>]), h, c)"
proof -
  obtain ch where b: "bucket_flow False data mem (flow_struct (flow_hash data)) = Some (ch, c)"
    and e: "fs = flow_struct(flow_hash data := ch)" "h = flow_hash data"
    using assms(1,4) by (auto simp: reference_flow_def Let_def split: Option.bind_splits)
  have m: "c < length ch" "flow_match (ch ! c) data" using bucket_flow_found [OF b assms(2)] by auto
  then show "c < length (fs h)" "flow_match (fs h ! c) data" using e by simp_all
  have min: "\<forall>j < c. \<not> flow_match (ch ! j) data"
    using bucket_flow_no_gc [OF assms(3)] b by (metis option.inject prod.inject)
  show "reference_flow (fs(h := (fs h)[c := entry])) data' tsc' mem'
        = Some (fs(h := (fs h)[c := entry\<lparr>t_timestamp := timestamp data'\<rparr>]), h, c)"
    if "flow_match entry data" "probability tsc' \<le> 50" "flow_hash data' = flow_hash data"
      "\<And>cur. flow_match cur data' = flow_match cur data"
  proof -
    let ?ch = "ch[c := entry]"
    have f: "find_flow False data' ?ch 0 False = Some (?ch[c := (?ch ! c)\<lparr>t_timestamp := timestamp data'\<rparr>], Some c, False)"
      using find_flow_first [of 0 c ?ch data' False] m min that by simp
    then have "bucket_flow False data' mem' ?ch = Some (ch[c := entry\<lparr>t_timestamp := timestamp data'\<rparr>], c)"
      using m(1) by (simp add: bucket_flow_def)
    then show ?thesis using that(2,3) e by (simp add: reference_flow_def Let_def)
  qed
qed

end
