(* ===== verification/Flow_Properties.thy ===== *)
theory Flow_Properties
  imports Flow_Mng Lru_Properties "HOL-Library.Multiset"
begin

text \<open>
  The properties of the table of connections of \<^verbatim>\<open>src/flow_mng.c\<close>.
\<close>

section \<open>Examples\<close>

definition blank_flow :: table_flow where
  "blank_flow = \<lparr>t_ipv = 0, t_ipv4_src = 0, t_ipv4_dst = 0, ipv4_anon = 0, t_ipv6_src = 0,
     t_ipv6_dst = 0, ipv6_anon = [], t_in_port = 0, t_out_port = 0, t_protocol = 0, t_timestamp = 0,
     toAnon = 0\<rparr>"

definition https :: "u32 \<Rightarrow> u32 \<Rightarrow> int \<Rightarrow> flow" where
  "https a b t = (flow_at t)\<lparr>ipv4_src := a, ipv4_dst := b, in_port := 50000, out_port := 443\<rparr>"

lemma probability_values: "probability 0 = 38" "probability 4 = 51"
  by (simp_all add: probability_def Let_def take_bit_eq_mod flip: take_bit_eq_mask)

section \<open>Connections\<close>

text \<open>
  What an entry and a packet have in common when the entry serves the packet: the pair of addresses in the
  fields for four bytes, the pair of ports, each pair in either order, and the protocol.  For IPv4 packets
  these are the end points of the connection up to an exchange of the ports alone.  In IPv6 packets the
  fields for four bytes hold whatever was on the stack, and the addresses of the packet are not compared.
\<close>

definition same_connection :: "table_flow \<Rightarrow> flow \<Rightarrow> bool" where
  "same_connection e data \<longleftrightarrow> {#t_ipv4_src e, t_ipv4_dst e#} = {#ipv4_src data, ipv4_dst data#}
     \<and> {#t_in_port e, t_out_port e#} = {#in_port data, out_port data#} \<and> t_protocol e = protocol data"

lemma pair_mset_eq: "{#a, b#} = {#c, d#} \<longleftrightarrow> a = c \<and> b = d \<or> a = d \<and> b = c"
  by (auto simp: add_eq_conv_diff)

lemma same_connection_match: "same_connection e data = flow_match e data"
  by (auto simp: same_connection_def flow_match_def pair_mset_eq)

lemma bucket_flow_new:
  assumes "\<not> (\<exists>e \<in> set ch. flow_match e data)"
  shows "bucket_flow False data mem ch = map_option (\<lambda>m. (ch @ [new_flow m data], length ch)) mem"
proof -
  have "find_flow False data ch 0 False = Some (ch, None, False)" by (rule find_flow_none) (use assms in auto)
  then show ?thesis by (cases mem) (simp_all add: bucket_flow_def)
qed

lemma bucket_flow_known:
  assumes "\<exists>e \<in> set ch. flow_match e data"
  obtains i where "i < length ch" and "flow_match (ch ! i) data" and "\<forall>j < i. \<not> flow_match (ch ! j) data"
    and "bucket_flow False data mem ch = Some (ch[i := (ch ! i)\<lparr>t_timestamp := timestamp data\<rparr>], i)"
proof -
  define i where "i = (LEAST i. i < length ch \<and> flow_match (ch ! i) data)"
  have "\<exists>i. i < length ch \<and> flow_match (ch ! i) data" using assms by (auto simp: in_set_conv_nth)
  then have i: "i < length ch \<and> flow_match (ch ! i) data" unfolding i_def by (rule LeastI_ex)
  have min: "\<not> flow_match (ch ! j) data" if "j < i" for j
    using not_less_Least [of j "\<lambda>i. i < length ch \<and> flow_match (ch ! i) data"] that i
    unfolding i_def [symmetric] by auto
  then show thesis using i that find_flow_first [of 0 i ch data False] by (simp add: bucket_flow_def)
qed

section \<open>Properties\<close>

text \<open>
  C21.  \<^verbatim>\<open>reference_flow\<close> serves a connection, which is what \<open>same_connection\<close> says: for IPv4 the two addresses
  and the two ports, each pair in either order, and the protocol; for IPv6 the ports and the protocol with
  the fields for IPv4 addresses, never the addresses themselves.  If it returns, the entry is one of this
  connection, carries the time of the packet, and lies in the bucket of the hash.  Without garbage
  collection it is the first such entry of the chain with only its time changed, or, if there is none, a
  new undecided entry behind the others; without garbage collection it faults only when it needs memory
  for a new entry and there is none.
\<close>

theorem reference_flow_serves:
  assumes "flow_struct (flow_hash data) \<noteq> []"
  defines "ch \<equiv> flow_struct (flow_hash data)"
  shows "(case reference_flow flow_struct data tsc mem of
        Some (fs, h, c) \<Rightarrow> h = flow_hash data \<and> c < length (fs h) \<and> same_connection (fs h ! c) data
          \<and> t_timestamp (fs h ! c) = timestamp data \<and> (\<forall>j. j \<noteq> h \<longrightarrow> fs j = flow_struct j)
          \<and> (probability tsc \<le> 50 \<longrightarrow> (\<forall>j < c. \<not> same_connection (ch ! j) data)
            \<and> (if c < length ch then same_connection (ch ! c) data \<and> fs h = ch[c := (ch ! c)\<lparr>t_timestamp := timestamp data\<rparr>]
               else c = length ch \<and> fs h = ch @ [new_flow (the mem) data] \<and> toAnon (fs h ! c) = -1))
      | None \<Rightarrow> 50 < probability tsc \<or> mem = None \<and> \<not> (\<exists>e \<in> set ch. same_connection e data))"
proof (cases "50 < probability tsc")
  case True
  show ?thesis
  proof (cases "reference_flow flow_struct data tsc mem")
    case (Some r)
    obtain fs h c where r: "r = (fs, h, c)" by (cases r)
    obtain ch' where "bucket_flow True data mem ch = Some (ch', c)" and "fs = flow_struct(flow_hash data := ch')" "h = flow_hash data"
      using Some r True by (auto simp: reference_flow_def Let_def ch_def split: Option.bind_splits)
    then show ?thesis using bucket_flow_found assms Some r True by (auto simp: same_connection_match)
  qed (simp add: True)
next
  case False
  show ?thesis
  proof (cases "\<exists>e \<in> set ch. flow_match e data")
    case True
    obtain i where "i < length ch" "flow_match (ch ! i) data" "\<forall>j < i. \<not> flow_match (ch ! j) data"
      "bucket_flow False data mem ch = Some (ch[i := (ch ! i)\<lparr>t_timestamp := timestamp data\<rparr>], i)"
      by (rule bucket_flow_known [OF True])
    then show ?thesis using False by (simp add: reference_flow_def Let_def same_connection_match flip: ch_def)
  next
    case new: False
    have n: "\<forall>j < length ch. \<not> flow_match (ch ! j) data" using new nth_mem by blast
    show ?thesis
    proof (cases mem)
      case None
      then show ?thesis using bucket_flow_new [OF new, of mem] False new
        by (simp add: reference_flow_def Let_def same_connection_match flip: ch_def)
    next
      case (Some m)
      then show ?thesis using bucket_flow_new [OF new, of mem] False n flow_match_new [of m data]
        by (simp add: reference_flow_def Let_def same_connection_match new_flow_def flip: ch_def)
    qed
  qed
qed

theorem reference_flow_serves_witness:
  "\<exists>fs h c. reference_flow (flow_table_init (\<lambda>_. blank_flow)) (https 1 2 0) 0 (Some blank_flow) = Some (fs, h, c)
    \<and> same_connection (fs h ! c) (https 1 2 0)"
proof -
  have "flow_table_init (\<lambda>_. blank_flow) (flow_hash (https 1 2 0)) \<noteq> []" by (simp add: flow_table_init_def)
  from reference_flow_serves [of "flow_table_init (\<lambda>_. blank_flow)", OF this, of 0 "Some blank_flow"]
  show ?thesis by (auto simp: probability_values split: option.splits)
qed

text \<open>
  C31.  The two directions of a connection share one entry: when the handler of a packet stores a
  decision in \<^verbatim>\<open>toAnon\<close>, a packet of the opposite direction that follows finds the same entry with
  that decision, as long as neither lookup collects garbage.
\<close>

theorem directions_share_decision:
  fixes x :: int
  assumes "reference_flow flow_struct data tsc mem = Some (fs, h, c)"
    and "flow_struct (flow_hash data) \<noteq> []"
    and "mem \<noteq> None" and "probability tsc \<le> 50" and "probability tsc' \<le> 50"
  defines "entry \<equiv> (fs h ! c)\<lparr>toAnon := x\<rparr>"
  shows "reference_flow (fs(h := (fs h)[c := entry])) ((reversed data)\<lparr>timestamp := ts\<rparr>) tsc' mem'
    = Some (fs(h := (fs h)[c := entry\<lparr>t_timestamp := ts\<rparr>]), h, c)"
  using entry_found_again(3) [OF assms(1-4), of entry tsc' "(reversed data)\<lparr>timestamp := ts\<rparr>" mem'] assms(5)
    entry_found_again(2) [OF assms(1-4)]
  by (simp add: entry_def)

theorem directions_share_decision_witness:
  "\<exists>fs h c. reference_flow (flow_table_init (\<lambda>_. blank_flow)) (https 1 2 0) 0 (Some blank_flow) = Some (fs, h, c)
    \<and> reference_flow (fs(h := (fs h)[c := (fs h ! c)\<lparr>toAnon := 1\<rparr>])) ((reversed (https 1 2 0))\<lparr>timestamp := 3\<rparr>) 0 None
      = Some (fs(h := (fs h)[c := (fs h ! c)\<lparr>toAnon := 1, t_timestamp := 3\<rparr>]), h, c)"
proof -
  let ?t = "flow_table_init (\<lambda>_. blank_flow)"
  have ne: "?t (flow_hash (https 1 2 0)) \<noteq> []" by (simp add: flow_table_init_def)
  obtain ch c where "bucket_flow False (https 1 2 0) (Some blank_flow) (?t (flow_hash (https 1 2 0))) = Some (ch, c)"
    using bucket_flow_no_gc [of "Some blank_flow"] by (metis option.distinct(1))
  then obtain fs h where r: "reference_flow ?t (https 1 2 0) 0 (Some blank_flow) = Some (fs, h, c)"
    by (simp add: reference_flow_def Let_def probability_values)
  show ?thesis
    using directions_share_decision [OF r ne, of 0 1 3 None] r by (simp add: probability_values)
qed

text \<open>Behind the slot, a part of the chain that neither matches nor has expired is passed.\<close>

lemma find_flow_passes:
  assumes "\<forall>e \<in> set mid. \<not> flow_match e data \<and> timestamp data - t_timestamp e \<le> T_OUT"
  shows "find_flow True data (pre @ mid @ post) (length pre) ff = find_flow True data (pre @ mid @ post) (length (pre @ mid)) ff"
  using assms
proof (induction mid arbitrary: pre)
  case (Cons e mid)
  then have "find_flow True data (pre @ (e # mid) @ post) (length pre) ff
      = find_flow True data ((pre @ [e]) @ mid @ post) (length (pre @ [e])) ff"
    by (subst find_flow.simps) auto
  also have "\<dots> = find_flow True data ((pre @ [e]) @ mid @ post) (length ((pre @ [e]) @ mid)) ff"
    using Cons.prems by (intro Cons.IH) auto
  finally show ?case by simp
qed simp

lemma expired_tail_none:
  assumes "\<not> flow_match s data" and "\<forall>m \<in> set mid. \<not> flow_match m data \<and> timestamp data - t_timestamp m \<le> T_OUT"
    and "\<not> flow_match e data" and "T_OUT < timestamp data - t_timestamp e"
  shows "bucket_flow True data mem (s # mid @ [e]) = None"
proof -
  have last: "find_flow True data (s # mid @ [e]) (Suc (length mid)) ff = None" for ff
    using assms(3,4) by (subst find_flow.simps) (simp add: nth_append)
  have "\<exists>ff. find_flow True data (s # mid @ [e]) 0 False = find_flow True data (s # mid @ [e]) 1 ff"
    using assms(1) by (subst find_flow.simps) auto
  then have "find_flow True data (s # mid @ [e]) 0 False = None"
    using find_flow_passes [OF assms(2), of "[s]" "[e]"] last by auto
  then show ?thesis by (simp add: bucket_flow_def)
qed

lemma expired_slot_reused:
  assumes "\<not> flow_match e data" and "T_OUT < timestamp data - t_timestamp e"
  shows "bucket_flow True data mem [e] = Some ([new_flow e data], 0)"
proof -
  have "find_flow True data [e] 1 True = Some ([e], None, True)" by (subst find_flow.simps) simp
  then have "find_flow True data [e] 0 False = Some ([e], None, True)" using assms by (subst find_flow.simps) simp
  then show ?thesis by (simp add: bucket_flow_def)
qed

text \<open>
  C38.  Garbage collection, when the pseudo-random number asks for it, dereferences a null pointer at the end
  of a chain of any length: the last entry, behind the slot, has expired and is not of the connection, and no entry
  before it ends the search or is unlinked itself, which would make the loop pass over the next one; the
  slot may have expired.  The pointer is read after it has moved to the end.  Where there is only an
  expired slot, it is taken over for the connection.
\<close>

theorem expired_tail_faults:
  assumes "\<not> flow_match s data" and "\<forall>m \<in> set mid. \<not> flow_match m data \<and> timestamp data - t_timestamp m \<le> T_OUT"
    and "\<not> flow_match e data" and "T_OUT < timestamp data - t_timestamp e" and "50 < probability tsc"
  shows "(flow_struct (flow_hash data) = s # mid @ [e] \<longrightarrow> reference_flow flow_struct data tsc mem = None)
    \<and> (flow_struct (flow_hash data) = [e] \<longrightarrow> reference_flow flow_struct data tsc mem
        = Some (flow_struct(flow_hash data := [new_flow e data]), flow_hash data, 0))"
  using expired_tail_none [OF assms(1-4), of mem] expired_slot_reused [OF assms(3,4), of mem] assms(5)
  by (simp add: reference_flow_def Let_def)

theorem expired_tail_faults_witness:
  "reference_flow (\<lambda>_. [blank_flow, blank_flow\<lparr>t_timestamp := 900\<rparr>, blank_flow\<lparr>t_timestamp := 800\<rparr>, blank_flow])
      (https 1 2 1000) 4 (Some blank_flow) = None
    \<and> reference_flow (\<lambda>_. [blank_flow]) (https 1 2 1000) 4 None \<noteq> None"
  using expired_tail_faults [of blank_flow "https 1 2 1000" "[blank_flow\<lparr>t_timestamp := 900\<rparr>, blank_flow\<lparr>t_timestamp := 800\<rparr>]" blank_flow 4
      "\<lambda>_. [blank_flow, blank_flow\<lparr>t_timestamp := 900\<rparr>, blank_flow\<lparr>t_timestamp := 800\<rparr>, blank_flow]" "Some blank_flow"]
    expired_tail_faults [of blank_flow "https 1 2 1000" "[]" blank_flow 4 "\<lambda>_. [blank_flow]" None]
  by (simp add: blank_flow_def flow_match_def https_def flow_at_def T_OUT_def probability_values)

text \<open>
  Garbage collection forgets decisions: the entry behind one that is collected is passed over,
  so a connection whose entry it is gets a second one, undecided again.
\<close>

theorem collection_forgets_decision:
  assumes "flow_struct (flow_hash data) = [s, old, own]"
    and "\<not> flow_match s data" and "\<not> flow_match old data" and "flow_match own data"
    and "timestamp data - t_timestamp s \<le> T_OUT" and "T_OUT < timestamp data - t_timestamp old"
    and "50 < probability tsc"
  shows "reference_flow flow_struct data tsc (Some mem)
    = Some (flow_struct(flow_hash data := [s, own, new_flow mem data]), flow_hash data, 2)
    \<and> toAnon (new_flow mem data) = -1"
  using assms by (simp add: reference_flow_def bucket_flow_def Let_def find_flow.simps new_flow_def)

theorem collection_forgets_decision_witness:
  "\<exists>fs h c. reference_flow
      (\<lambda>_. [blank_flow\<lparr>t_timestamp := 1000\<rparr>, blank_flow, (new_flow blank_flow (https 1 2 990))\<lparr>toAnon := 1\<rparr>])
      (https 1 2 1000) 4 (Some blank_flow) = Some (fs, h, c) \<and> toAnon (fs h ! c) = -1"
  using collection_forgets_decision [of
      "\<lambda>_. [blank_flow\<lparr>t_timestamp := 1000\<rparr>, blank_flow, (new_flow blank_flow (https 1 2 990))\<lparr>toAnon := 1\<rparr>]"
      "https 1 2 1000" "blank_flow\<lparr>t_timestamp := 1000\<rparr>" blank_flow
      "(new_flow blank_flow (https 1 2 990))\<lparr>toAnon := 1\<rparr>" 4 blank_flow]
  by (simp add: blank_flow_def flow_match_def https_def flow_at_def T_OUT_def probability_values new_flow_def)

end
