(* ===== verification/Packet.thy ===== *)
theory Packet
  imports Prelude
begin

text \<open>
  The packet buffer and the operations on it that need no tables: \<^verbatim>\<open>remove_payload\<close> and
  \<^verbatim>\<open>l4_payload_remover\<close> of \<^verbatim>\<open>src/proto_mng.c\<close>, and \<^verbatim>\<open>process_packet_eth\<close> of
  \<^verbatim>\<open>src/process_packet.c\<close>.

  A \<^verbatim>\<open>struct rte_mbuf\<close> is the memory \<open>room\<close> from the start of the packet's data to the end of its
  buffer, with the length of the packet: bytes behind the packet can be read, they hold what an
  earlier packet left there, and an access behind the buffer is the fault \<open>None\<close>.  A pointer into the
  packet is its offset.  The packet is one segment.  The structures of DPDK's protocol headers are
  the layouts of the protocols.
\<close>

section \<open>The buffer\<close>

record mbuf =
  room :: "u8 list"
  pkt_len :: u32
  l2_len :: nat
  l3_len :: nat
  l4_len :: nat

definition get8 :: "mbuf \<Rightarrow> nat \<Rightarrow> u8 option" where
  "get8 m p = (if p < length (room m) then Some (room m ! p) else None)"

definition put8 :: "mbuf \<Rightarrow> nat \<Rightarrow> u8 \<Rightarrow> mbuf option" where
  "put8 m p b = (if p < length (room m) then Some (m\<lparr>room := (room m)[p := b]\<rparr>) else None)"

definition get_bytes :: "mbuf \<Rightarrow> nat \<Rightarrow> nat \<Rightarrow> u8 list option" where
  "get_bytes m p n = (if p + n \<le> length (room m) then Some (take n (drop p (room m))) else None)"

definition put_bytes :: "mbuf \<Rightarrow> nat \<Rightarrow> u8 list \<Rightarrow> mbuf option" where
  "put_bytes m p bs =
     (if p + length bs \<le> length (room m)
      then Some (m\<lparr>room := take p (room m) @ bs @ drop (p + length bs) (room m)\<rparr>) else None)"

text \<open>Words in the order of the machine, which is little-endian.\<close>

definition get16 :: "mbuf \<Rightarrow> nat \<Rightarrow> u16 option" where
  "get16 m p = do { b0 \<leftarrow> get8 m p; b1 \<leftarrow> get8 m (p + 1); Some (ucast b0 OR push_bit 8 (ucast b1)) }"

definition get32 :: "mbuf \<Rightarrow> nat \<Rightarrow> u32 option" where
  "get32 m p = do {
     b0 \<leftarrow> get8 m p; b1 \<leftarrow> get8 m (p + 1); b2 \<leftarrow> get8 m (p + 2); b3 \<leftarrow> get8 m (p + 3);
     Some (ucast b0 OR push_bit 8 (ucast b1) OR push_bit 16 (ucast b2) OR push_bit 24 (ucast b3))
   }"

definition bytes32 :: "u32 \<Rightarrow> u8 list" where
  "bytes32 w = [ucast w, ucast (drop_bit 8 w), ucast (drop_bit 16 w), ucast (drop_bit 24 w)]"

definition put32 :: "mbuf \<Rightarrow> nat \<Rightarrow> u32 \<Rightarrow> mbuf option" where
  "put32 m p w = put_bytes m p (bytes32 w)"

section \<open>Protocol headers\<close>

definition sizeof_ether :: nat where "sizeof_ether = 14"
definition sizeof_ipv4 :: nat where "sizeof_ipv4 = 20"
definition sizeof_ipv6 :: nat where "sizeof_ipv6 = 40"
definition sizeof_tcp :: nat where "sizeof_tcp = 20"
definition sizeof_udp :: nat where "sizeof_udp = 8"
definition sizeof_icmp :: nat where "sizeof_icmp = 8"

definition TCP :: u8 where "TCP = 6"
definition UDP :: u8 where "UDP = 0x11"
definition ICMP :: u8 where "ICMP = 1"

lemmas sizeof_defs = sizeof_ether_def sizeof_ipv4_def sizeof_ipv6_def sizeof_tcp_def sizeof_udp_def
  sizeof_icmp_def

section \<open>Removing payload\<close>

fun zero_bytes :: "mbuf \<Rightarrow> nat \<Rightarrow> nat \<Rightarrow> mbuf option" where
  "zero_bytes m p 0 = Some m"
| "zero_bytes m p (Suc n) = do { m \<leftarrow> put8 m p 0; zero_bytes m (Suc p) n }"

text \<open>
  The bound of the loop is the difference of a 32-bit length and a \<^verbatim>\<open>size_t\<close>, which wraps.
\<close>

definition remove_payload :: "mbuf \<Rightarrow> nat \<Rightarrow> mbuf option" where
  "remove_payload packet offset =
     zero_bytes packet offset (unat (ucast (pkt_len packet) - of_nat offset :: u64))"

definition l4_payload_remover :: "mbuf \<Rightarrow> nat option \<Rightarrow> mbuf option" where
  "l4_payload_remover packet ipv4_header = (case ipv4_header of
     None \<Rightarrow> Some packet
   | Some ip \<Rightarrow> do {
       next_proto_id \<leftarrow> get8 packet (ip + 9);
       if next_proto_id = TCP then remove_payload packet (sizeof_ipv4 + sizeof_ether + sizeof_tcp)
       else if next_proto_id = UDP then remove_payload packet (sizeof_ipv4 + sizeof_ether + sizeof_udp)
       else if next_proto_id = ICMP then remove_payload packet (sizeof_ipv4 + sizeof_ether + sizeof_icmp)
       else remove_payload packet (sizeof_ipv4 + sizeof_ether)
     })"

section \<open>Ethernet addresses\<close>

definition process_packet_eth :: "mbuf \<Rightarrow> int \<Rightarrow> int \<Rightarrow> mbuf option" where
  "process_packet_eth packet anon_mac_enabled tv_sec = do {
     let packet = packet\<lparr>l2_len := sizeof_ether\<rparr>;
     if anon_mac_enabled = 2 then do {
       let addr = replicate 6 (word_of_int tv_sec);
       packet \<leftarrow> put_bytes packet 0 addr;
       put_bytes packet 6 addr
     }
     else if anon_mac_enabled = 1 then do {
       packet \<leftarrow> put_bytes packet 0 (replicate 6 0);
       put_bytes packet 6 (replicate 6 0)
     }
     else Some packet
   }"

section \<open>Facts\<close>

definition mbuf_ok :: "mbuf \<Rightarrow> bool" where
  "mbuf_ok m \<longleftrightarrow> unat (pkt_len m) \<le> length (room m) \<and> length (room m) < 2 ^ 31"

lemma put8_Some: "p < length (room m) \<Longrightarrow> put8 m p b = Some (m\<lparr>room := (room m)[p := b]\<rparr>)"
  by (simp add: put8_def)

lemma get8_Some: "p < length (room m) \<Longrightarrow> get8 m p = Some (room m ! p)"
  by (simp add: get8_def)

lemma zero_bytes_Some:
  "p + n \<le> length (room m) \<Longrightarrow>
     zero_bytes m p n = Some (m\<lparr>room := take p (room m) @ replicate n 0 @ drop (p + n) (room m)\<rparr>)"
proof (induction n arbitrary: m p)
  case (Suc n)
  let ?m = "m\<lparr>room := (room m)[p := 0]\<rparr>"
  have "zero_bytes m p (Suc n) = zero_bytes ?m (Suc p) n" using Suc.prems by (simp add: put8_Some)
  also have "\<dots> = Some (m\<lparr>room := take (Suc p) ((room m)[p := 0]) @ replicate n 0
      @ drop (Suc p + n) ((room m)[p := 0])\<rparr>)"
    using Suc.IH [of "Suc p" ?m] Suc.prems by simp
  also have "take (Suc p) ((room m)[p := 0]) = take p (room m) @ [0]"
    using Suc.prems by (simp add: take_Suc_conv_app_nth)
  also have "drop (Suc p + n) ((room m)[p := 0]) = drop (p + Suc n) (room m)" by simp
  finally show ?case by simp
qed simp

lemma zero_bytes_None: "length (room m) < p + n \<Longrightarrow> p \<le> length (room m) \<or> 0 < n \<Longrightarrow> zero_bytes m p n = None"
proof (induction n arbitrary: m p)
  case (Suc n)
  show ?case
  proof (cases "p < length (room m)")
    case True
    then show ?thesis using Suc.IH [of "m\<lparr>room := (room m)[p := 0]\<rparr>" "Suc p"] Suc.prems
      by (simp add: put8_Some)
  qed (simp add: put8_def)
qed simp

lemma payload_length:
  fixes len :: u32
  assumes "offset < 2 ^ 31"
  shows "unat (ucast len - of_nat offset :: u64) =
    (if offset \<le> unat len then unat len - offset else unat len + 2 ^ 64 - offset)"
proof -
  have "offset mod 2 ^ 64 = offset" using assms by simp
  then have "unat (of_nat offset :: u64) = offset" by (simp add: unat_of_nat)
  moreover have "unat len < 2 ^ LENGTH(32)" by (rule unsigned_less)
  then have "unat (ucast len :: u64) = unat len"
    by (simp add: unsigned_ucast_eq take_bit_nat_eq_self)
  ultimately show ?thesis by (simp add: unat_sub_if_size word_size)
qed

text \<open>The payload behind a header is zeroed; a packet shorter than the header is overrun.\<close>

definition without_payload :: "mbuf \<Rightarrow> nat \<Rightarrow> mbuf" where
  "without_payload m offset = m\<lparr>room := take offset (room m)
     @ replicate (unat (pkt_len m) - offset) 0 @ drop (unat (pkt_len m)) (room m)\<rparr>"

lemma remove_payload_long:
  assumes "mbuf_ok m" and "offset \<le> unat (pkt_len m)"
  shows "remove_payload m offset = Some (without_payload m offset)"
proof -
  have o: "offset < 2 ^ 31" using assms by (simp add: mbuf_ok_def)
  show ?thesis
    using assms zero_bytes_Some [of offset "unat (pkt_len m) - offset" m]
    unfolding remove_payload_def payload_length [OF o] by (simp add: mbuf_ok_def without_payload_def)
qed

lemma remove_payload_short:
  assumes "mbuf_ok m" and "unat (pkt_len m) < offset" and "offset < 2 ^ 31"
  shows "remove_payload m offset = None"
proof -
  have "length (room m) < offset + (unat (pkt_len m) + 2 ^ 64 - offset)"
    using assms by (simp add: mbuf_ok_def)
  then show ?thesis
    using assms(2,3) unfolding remove_payload_def payload_length [OF assms(3)]
    by (simp add: zero_bytes_None)
qed

lemma without_payload_room [simp]:
  "mbuf_ok m \<Longrightarrow> offset \<le> unat (pkt_len m) \<Longrightarrow> length (room (without_payload m offset)) = length (room m)"
  "pkt_len (without_payload m offset) = pkt_len m"
  by (auto simp: without_payload_def mbuf_ok_def)

lemma without_payload_nth:
  assumes "mbuf_ok m" and "offset \<le> unat (pkt_len m)" and "i < length (room m)"
  shows "room (without_payload m offset) ! i
    = (if offset \<le> i \<and> i < unat (pkt_len m) then 0 else room m ! i)"
  using assms by (auto simp: without_payload_def mbuf_ok_def nth_append)

text \<open>Stores and loads.\<close>

lemma put_bytes_Some:
  "p + length bs \<le> length (room m) \<Longrightarrow>
     put_bytes m p bs = Some (m\<lparr>room := take p (room m) @ bs @ drop (p + length bs) (room m)\<rparr>)"
  by (simp add: put_bytes_def)

lemma put_bytes_nth:
  assumes "put_bytes m p bs = Some m'" and "i < length (room m)"
  shows "room m' ! i = (if p \<le> i \<and> i < p + length bs then bs ! (i - p) else room m ! i)"
    and "length (room m') = length (room m)" and "pkt_len m' = pkt_len m"
  using assms by (auto simp: put_bytes_def nth_append split: if_splits)

lemma get32_bytes32:
  assumes "put_bytes m p (bytes32 w) = Some m'"
  shows "get32 m' p = Some w"
proof -
  have len: "p + 3 < length (room m)" using assms by (auto simp: put_bytes_def bytes32_def split: if_splits)
  have n: "room m' ! (p + i) = bytes32 w ! i" "p + i < length (room m')" if "i < 4" for i
    using put_bytes_nth [OF assms, of "p + i"] len that by (simp_all add: bytes32_def)
  have "get32 m' p = Some (ucast (ucast w :: u8) OR push_bit 8 (ucast (ucast (drop_bit 8 w) :: u8))
      OR push_bit 16 (ucast (ucast (drop_bit 16 w) :: u8)) OR push_bit 24 (ucast (ucast (drop_bit 24 w) :: u8)))"
    using n [of 0] n [of 1] n [of 2] n [of 3] by (simp add: get32_def get8_def bytes32_def)
  also have "\<dots> = Some w"
  proof (simp, rule bit_word_eqI)
    fix n assume "n < LENGTH(32)"
    then show "bit (ucast (ucast w :: u8) OR push_bit 8 (ucast (ucast (drop_bit 8 w) :: u8))
      OR push_bit 16 (ucast (ucast (drop_bit 16 w) :: u8))
      OR push_bit 24 (ucast (ucast (drop_bit 24 w) :: u8)) :: u32) n = bit w n"
      by (cases "24 \<le> n"; cases "16 \<le> n"; cases "8 \<le> n") (auto simp: bit_simps)
  qed
  finally show ?thesis .
qed

lemma get32_cong: "(\<And>i. p \<le> i \<Longrightarrow> i < p + 4 \<Longrightarrow> get8 m' i = get8 m i) \<Longrightarrow> get32 m' p = get32 m p"
  by (simp add: get32_def)

end
