(* ===== verification/World.thy ===== *)
theory World
  imports Packet Flow_Mng Crypto_Ip
begin

text \<open>
  The state that the handlers of a packet share, the values they take from their environment, and
  the functions on C strings they use.

  A handler is a function of the state and the packet; it returns both, with its result, or \<open>None\<close>
  for a fault.  One packet is handled at a time.
\<close>

section \<open>State\<close>

text \<open>
  The tables of names and of connections with the heap of the former, the entry of \<^verbatim>\<open>crypto_data\<close>
  and the cipher context of this core and interface.  \<open>w_clock\<close> gives the readings of the time stamp
  counter, \<open>w_ticks\<close> of which have been taken.  \<open>w_oom\<close> says which allocations fail and the
  fields \<open>w_int\<close>, \<open>w_byte\<close>, \<open>w_client\<close>, \<open>w_flow\<close> and \<open>w_entry\<close> are what variables hold
  that are read, or copied, before they are assigned; each is indexed by the readings taken before.
\<close>

record world =
  w_heap :: heap
  w_names :: hash_struct
  w_flows :: flow_mng
  w_self :: crypto_ip
  w_rj :: rijndael
  w_ticks :: nat
  w_clock :: "nat \<Rightarrow> u64"
  w_oom :: "nat \<Rightarrow> bool"
  w_int :: "nat \<Rightarrow> int"
  w_byte :: "nat \<Rightarrow> nat \<Rightarrow> u8"
  w_client :: "nat \<Rightarrow> nat \<Rightarrow> client"
  w_flow :: "nat \<Rightarrow> flow"
  w_entry :: "nat \<Rightarrow> table_flow"

text \<open>The settings of an output port; the strings in the arrays of \<^verbatim>\<open>MAX_STR\<close> characters are without their end.\<close>

record out_interface_sett =
  anon_enabled :: int
  anon_mac_enabled :: int
  anon_ip_enabled :: int
  anon_ip_key_mode :: "u8 list"
  anon_ip_key :: "u8 list"
  anon_ip_rotation_delay :: int
  anon_subnet_file :: "u8 list"
  no_anon_subnet_file :: "u8 list"
  payload_drop_enabled :: int
  engine :: int
  anon_ext_ip :: int
  s_dns :: int
  s_tls :: int
  s_http :: int
  s_alpha :: int
  s_delta :: int

definition rte_get_tsc_cycles :: "world \<Rightarrow> u64 \<times> world" where
  "rte_get_tsc_cycles w = (w_clock w (w_ticks w), w\<lparr>w_ticks := Suc (w_ticks w)\<rparr>)"

section \<open>Calls of the tables\<close>

definition add_name :: "world \<Rightarrow> flow \<Rightarrow> u8 list \<Rightarrow> int \<Rightarrow> int \<Rightarrow> (world \<times> int) option" where
  "add_name w f nm k_anon k_delta = do {
     let n = w_ticks w;
     let (tsc, w) = rte_get_tsc_cycles w;
     (h, db, ret) \<leftarrow> table_add (w_heap w) (w_names w) f nm k_anon k_delta tsc (w_int w n) (w_oom w n) (w_client w n);
     Some (w\<lparr>w_heap := h, w_names := db\<rparr>, ret)
   }"

definition get_flow :: "world \<Rightarrow> nat \<times> nat \<Rightarrow> table_flow" where
  "get_flow w p = w_flows w (fst p) ! snd p"

definition set_flow :: "world \<Rightarrow> nat \<times> nat \<Rightarrow> (table_flow \<Rightarrow> table_flow) \<Rightarrow> world" where
  "set_flow w p f = w\<lparr>w_flows := (w_flows w)(fst p := (w_flows w (fst p))[snd p := f (get_flow w p)])\<rparr>"

definition find_connection :: "world \<Rightarrow> flow \<Rightarrow> (world \<times> nat \<times> nat) option" where
  "find_connection w f = do {
     let n = w_ticks w;
     let (tsc, w) = rte_get_tsc_cycles w;
     (fs, p) \<leftarrow> reference_flow (w_flows w) f tsc (if w_oom w n then None else Some (w_entry w n));
     Some (w\<lparr>w_flows := fs\<rparr>, p)
   }"

definition anonymise_ip :: "world \<Rightarrow> u32 \<Rightarrow> (world \<times> u32) option" where
  "anonymise_ip w a = do {
     (self, a) \<leftarrow> retrieve_crypto_ip (w_self w) (w_rj w) a;
     Some (w\<lparr>w_self := self\<rparr>, a)
   }"

definition anonymise_ip6 :: "world \<Rightarrow> in6_addr \<Rightarrow> (world \<times> in6_addr) option" where
  "anonymise_ip6 w a = do {
     (self, a) \<leftarrow> retrieve_crypto_ipv6 (w_self w) (w_rj w) a;
     Some (w\<lparr>w_self := self\<rparr>, a)
   }"

section \<open>C strings\<close>

text \<open>The string in an array that is longer than it, and the string at an address of the packet.\<close>

definition cstr :: "u8 list \<Rightarrow> u8 list" where
  "cstr s = takeWhile (\<lambda>c. c \<noteq> 0) s"

definition string_at :: "mbuf \<Rightarrow> nat \<Rightarrow> u8 list option" where
  "string_at m p = (let s = drop p (room m) in if 0 \<in> set s then Some (cstr s) else None)"

definition tolower :: "u8 \<Rightarrow> u8" where
  "tolower c = (if 65 \<le> c \<and> c \<le> 90 then c + 32 else c)"

text \<open>
  \<^verbatim>\<open>strcasestr\<close> compares from each position in turn, and reads no further than it must.
\<close>

fun starts_with :: "u8 list \<Rightarrow> u8 list \<Rightarrow> bool option" where
  "starts_with mem [] = Some True"
| "starts_with [] (n # ns) = None"
| "starts_with (c # mem) (n # ns) =
     (if tolower c = tolower n then starts_with mem ns else Some False)"

fun strcasestr :: "u8 list \<Rightarrow> u8 list \<Rightarrow> nat \<Rightarrow> nat option option" where
  "strcasestr [] needle p = None"
| "strcasestr (c # mem) needle p = (case starts_with (c # mem) needle of
     None \<Rightarrow> None
   | Some True \<Rightarrow> Some (Some p)
   | Some False \<Rightarrow> if c = 0 then Some None else strcasestr mem needle (Suc p))"

definition search_at :: "mbuf \<Rightarrow> nat \<Rightarrow> u8 list \<Rightarrow> nat option option" where
  "search_at m p needle = strcasestr (drop p (room m)) needle p"

text \<open>Writing the next random letter.\<close>

definition put_random :: "world \<Rightarrow> mbuf \<Rightarrow> nat \<Rightarrow> (world \<times> mbuf) option" where
  "put_random w m p = do {
     let (tsc, w) = rte_get_tsc_cycles w;
     m \<leftarrow> put8 m p (randChar tsc);
     Some (w, m)
   }"

text \<open>Replacing the \<open>n\<close> characters at \<open>p\<close>, apart from those to keep.\<close>

fun scramble :: "u8 set \<Rightarrow> world \<Rightarrow> mbuf \<Rightarrow> nat \<Rightarrow> nat \<Rightarrow> (world \<times> mbuf) option" where
  "scramble keep w m p 0 = Some (w, m)"
| "scramble keep w m p (Suc n) = do {
     c \<leftarrow> get8 m p;
     (w, m) \<leftarrow> (if c \<in> keep then Some (w, m) else put_random w m p);
     scramble keep w m (Suc p) n
   }"

end
