(* ===== verification/Ext_Ip.thy ===== *)
theory Ext_Ip
  imports World
begin

text \<open>
  The anonymisation of external addresses, \<^verbatim>\<open>src/ext-ip_mng.c\<close>: \<^verbatim>\<open>external_ip\<close>,
  \<^verbatim>\<open>addressV4_gen\<close> and \<^verbatim>\<open>addressV6_gen\<close>.  The pointer \<^verbatim>\<open>flusso\<close> is a position in the table of
  connections.
\<close>

definition addressV4_gen :: "u64 \<Rightarrow> u32" where
  "addressV4_gen tsc = (let random_num = ucast tsc :: u32 in
     push_bit 24 (random_num AND 0xFF) OR push_bit 16 (drop_bit 16 random_num AND 0xFF)
     OR push_bit 8 (drop_bit 8 random_num AND 0xFF) OR (127 AND 0xFF))"

fun random_bytes :: "world \<Rightarrow> nat \<Rightarrow> u8 list \<times> world" where
  "random_bytes w 0 = ([], w)"
| "random_bytes w (Suc n) =
     (let (tsc, w) = rte_get_tsc_cycles w; (bs, w) = random_bytes w n in (ucast tsc # bs, w))"

definition addressV6_gen :: "world \<Rightarrow> u8 list \<times> world" where
  "addressV6_gen w = (let (bs, w) = random_bytes w 14 in ([254, 128] @ bs, w))"

text \<open>The name under which an address is counted: a C string, which ends before a zero byte.\<close>

definition addressV4_name :: "u32 \<Rightarrow> u8 list" where
  "addressV4_name a = cstr [ucast (drop_bit 24 a), ucast (drop_bit 16 a), ucast (drop_bit 8 a), ucast a]"

text \<open>
  Counting an address and replacing it, at offset \<open>p\<close>, when it is not used enough; the result adds
  to \<^verbatim>\<open>flag\<close>.
\<close>

definition hide_v4 ::
  "world \<Rightarrow> mbuf \<Rightarrow> nat \<Rightarrow> nat \<times> nat \<Rightarrow> flow \<Rightarrow> int \<Rightarrow> int \<Rightarrow> (world \<times> mbuf \<times> int) option" where
  "hide_v4 w m p flusso f k_anon k_delta = do {
     addr \<leftarrow> get32 m p;
     (w, ret) \<leftarrow> add_name w f (addressV4_name addr) k_anon k_delta;
     if ret < k_anon then do {
       let (tsc, w) = rte_get_tsc_cycles w;
       let addr = addressV4_gen tsc;
       m \<leftarrow> put32 m p addr;
       Some (set_flow w flusso (\<lambda>t. t\<lparr>ipv4_anon := addr\<rparr>), m, 1)
     }
     else Some (w, m, 0)
   }"

definition hide_v6 ::
  "world \<Rightarrow> mbuf \<Rightarrow> nat \<Rightarrow> nat \<times> nat \<Rightarrow> flow \<Rightarrow> int \<Rightarrow> int \<Rightarrow> (world \<times> mbuf \<times> int) option" where
  "hide_v6 w m p flusso f k_anon k_delta = do {
     addr \<leftarrow> get_bytes m p 16;
     (w, ret) \<leftarrow> add_name w f (cstr addr) k_anon k_delta;
     if ret < k_anon then do {
       let (addr, w) = addressV6_gen w;
       m \<leftarrow> put_bytes m p addr;
       Some (set_flow w flusso (\<lambda>t. t\<lparr>ipv6_anon := addr\<rparr>), m, 1)
     }
     else Some (w, m, 0)
   }"

definition external_ip ::
  "world \<Rightarrow> mbuf \<Rightarrow> int \<Rightarrow> nat \<times> nat \<Rightarrow> flow \<Rightarrow> int \<Rightarrow> int \<Rightarrow> (world \<times> mbuf \<times> int) option" where
  "external_ip w m ip_origin flusso f k_anon k_delta = do {
     ether_type \<leftarrow> map_option ntohs (get16 m 12);
     if ether_type = 0x0800 then do {
       let src = sizeof_ether + 12;
       let dst = sizeof_ether + 16;
       (w, m, flag) \<leftarrow>
         (if ip_origin = 10 \<and> toAnon (get_flow w flusso) = -1 then do {
            (w, m, flag) \<leftarrow> hide_v4 w m src flusso f k_anon k_delta;
            m \<leftarrow> (if toAnon (get_flow w flusso) = 1 then put32 m src (ipv4_anon (get_flow w flusso)) else Some m);
            Some (w, m, flag)
          } else Some (w, m, 0));
       if ip_origin = 1 then do {
         (w, m, flag') \<leftarrow>
           (if toAnon (get_flow w flusso) = -1 then hide_v4 w m dst flusso f k_anon k_delta
            else Some (w, m, 0));
         m \<leftarrow> (if toAnon (get_flow w flusso) = 1 then put32 m dst (ipv4_anon (get_flow w flusso)) else Some m);
         Some (w, m, flag + flag')
       }
       else Some (w, m, flag)
     }
     else if ether_type = 0x86DD then do {
       let src = sizeof_ether + 8;
       let dst = sizeof_ether + 24;
       (w, m, flag) \<leftarrow>
         (if ip_origin = 10 then do {
            (w, m, flag) \<leftarrow>
              (if toAnon (get_flow w flusso) = -1 then hide_v6 w m src flusso f k_anon k_delta
               else Some (w, m, 0));
            m \<leftarrow> (if toAnon (get_flow w flusso) = 1 then put_bytes m src (ipv6_anon (get_flow w flusso)) else Some m);
            Some (w, m, flag)
          } else Some (w, m, 0));
       if ip_origin = 1 then do {
         (w, m, flag') \<leftarrow>
           (if toAnon (get_flow w flusso) = -1 then hide_v6 w m dst flusso f k_anon k_delta
            else Some (w, m, 0));
         m \<leftarrow> (if toAnon (get_flow w flusso) = 1 then put_bytes m dst (ipv6_anon (get_flow w flusso)) else Some m);
         Some (w, m, flag + flag')
       }
       else Some (w, m, flag)
     }
     else Some (w, m, 0)
   }"

end
