(* ===== verification/Tls_Mng.thy ===== *)
theory Tls_Mng
  imports World
begin

text \<open>
  The server name of a TLS client hello, \<^verbatim>\<open>src/tls_mng.c\<close>: \<^verbatim>\<open>offset_extractor_tls\<close>,
  \<^verbatim>\<open>tls_header_extractor\<close> and \<^verbatim>\<open>tlsHelloEntry\<close>.

  An argument \<open>v4\<close> says that the pointer \<^verbatim>\<open>ipv4_header\<close> is not null.  A function that ends
  without \<^verbatim>\<open>return\<close> where its value is used gives a value that the environment chooses.
\<close>

definition offset_extractor_tls :: "int \<Rightarrow> bool \<Rightarrow> u8 \<Rightarrow> nat option" where
  "offset_extractor_tls proto v4 data_off =
     (let offset = drop_bit 4 data_off * 4 in
      if 60 < offset then Some 0
      else if v4 then
        if proto = 0 then Some (sizeof_ipv4 + sizeof_ether + unat offset)
        else if proto = 1 then Some (sizeof_ipv4 + sizeof_ether + sizeof_udp)
        else None
      else
        if proto = 0 then Some (sizeof_ipv6 + sizeof_ether + unat offset)
        else if proto = 1 then Some (sizeof_ipv6 + sizeof_ether + sizeof_udp)
        else None)"

text \<open>The offset of the header, \<open>None\<close> inside for \<^verbatim>\<open>NULL\<close>.\<close>

definition tls_header_extractor :: "mbuf \<Rightarrow> int \<Rightarrow> bool \<Rightarrow> nat option option" where
  "tls_header_extractor packet proto v4 = do {
     data_off \<leftarrow> get8 packet (sizeof_ipv4 + sizeof_ether + 12);
     len \<leftarrow> offset_extractor_tls proto v4 data_off;
     Some (if len = 0 then None else Some len)
   }"

text \<open>
  The server name at \<open>cur\<close>: its length, the string of the memory there, and what becomes of it.
\<close>

definition server_name ::
  "world \<Rightarrow> mbuf \<Rightarrow> nat \<Rightarrow> flow \<Rightarrow> int \<Rightarrow> int \<Rightarrow> (world \<times> mbuf \<times> int) option" where
  "server_name w m cur f k_anon k_delta = do {
     let cur = cur + 3;
     namelen \<leftarrow> map_option (unat \<circ> ntohs) (get16 m cur);
     let cur = cur + 2;
     if namelen = 0 then Some (w, m, 0)
     else do {
       s \<leftarrow> string_at m cur;
       if namelen \<noteq> length s then Some (w, m, 0)
       else do {
         (w, ret) \<leftarrow> add_name w f s k_anon k_delta;
         if ret < k_anon then do {
           (w, m) \<leftarrow> scramble {46} w m cur namelen;
           Some (w, m, 1)
         }
         else Some (w, m, 0)
       }
     }
   }"

text \<open>The loop over the extensions, from \<open>cur\<close> to \<open>maxchar\<close>.\<close>

function extensions ::
  "world \<Rightarrow> mbuf \<Rightarrow> nat \<Rightarrow> nat \<Rightarrow> flow \<Rightarrow> int \<Rightarrow> int \<Rightarrow> (world \<times> mbuf \<times> int) option" where
  "extensions w m cur maxchar f k_anon k_delta =
     (if cur < maxchar then do {
        ext_type \<leftarrow> map_option ntohs (get16 m cur);
        ext_len \<leftarrow> map_option (unat \<circ> ntohs) (get16 m (cur + 2));
        if ext_type = 0 then server_name w m (cur + 4) f k_anon k_delta
        else extensions w m (cur + 4 + ext_len) maxchar f k_anon k_delta
      }
      else if cur \<noteq> maxchar then Some (w, m, 0)
      else Some (w, m, w_int w (w_ticks w)))"
  by pat_completeness auto
termination
  by (relation "measure (\<lambda>(w, m, cur, maxchar, f, k_anon, k_delta). maxchar - cur)") auto

declare extensions.simps [simp del]

definition tlsHelloEntry ::
  "world \<Rightarrow> mbuf \<Rightarrow> int \<Rightarrow> bool \<Rightarrow> u8 \<Rightarrow> flow \<Rightarrow> int \<Rightarrow> int \<Rightarrow> (world \<times> mbuf \<times> int) option" where
  "tlsHelloEntry w m proto v4 data_off f k_anon k_delta = do {
     bytes \<leftarrow> offset_extractor_tls proto v4 data_off;
     sidlen \<leftarrow> map_option unat (get8 m (bytes + 43));
     let cur = bytes + 1 + 43 + sidlen;
     cslen \<leftarrow> map_option (unat \<circ> ntohs) (get16 m cur);
     let cur = cur + 2 + cslen;
     cmplen \<leftarrow> map_option unat (get8 m cur);
     let cur = cur + 1 + cmplen;
     extlen \<leftarrow> map_option (unat \<circ> ntohs) (get16 m cur);
     extensions w m (cur + 2) (cur + 2 + extlen) f k_anon k_delta
   }"

end
