(* ===== verification/Http_Mng.thy ===== *)
theory Http_Mng
  imports World
begin

text \<open>
  The host name and the locations of an HTTP request, \<^verbatim>\<open>src/http_mng.c\<close>:
  \<^verbatim>\<open>offset_extractor_http\<close>, \<^verbatim>\<open>http_header_extractor\<close> and \<^verbatim>\<open>httpEntry\<close>.
\<close>

definition offset_extractor_http :: "int \<Rightarrow> bool \<Rightarrow> u8 \<Rightarrow> nat option" where
  "offset_extractor_http proto v4 data_off =
     (let offset = drop_bit 4 data_off * 4 in
      if 60 < offset then Some 0
      else if v4 then
        if proto = 0 then Some (sizeof_ipv4 + sizeof_ether + unat offset)
        else if proto = 1 then Some (sizeof_ipv4 + sizeof_ether + sizeof_udp)
        else None
      else
        if proto = 0 then Some (sizeof_ipv6 + sizeof_ether + unat offset)
        else if proto = 1 then Some (sizeof_ipv6 + sizeof_ether + sizeof_udp)
        else None)"

definition http_header_extractor :: "mbuf \<Rightarrow> int \<Rightarrow> bool \<Rightarrow> nat option option" where
  "http_header_extractor packet proto v4 = do {
     data_off \<leftarrow> get8 packet (sizeof_ipv4 + sizeof_ether + 12);
     len \<leftarrow> offset_extractor_http proto v4 data_off;
     Some (if len = 0 then None else Some len)
   }"

text \<open>The strings \<^verbatim>\<open>HOST\<close>, \<^verbatim>\<open>GET\<close>, \<^verbatim>\<open>POST\<close>, \<^verbatim>\<open>HTTP\<close> and \<^verbatim>\<open>REFER\<close>.\<close>

definition HOST_str :: "u8 list" where "HOST_str = [72, 79, 83, 84]"
definition GET_str :: "u8 list" where "GET_str = [71, 69, 84]"
definition POST_str :: "u8 list" where "POST_str = [80, 79, 83, 84]"
definition HTTP_str :: "u8 list" where "HTTP_str = [72, 84, 84, 80]"
definition REFER_str :: "u8 list" where "REFER_str = [82, 69, 70, 69, 82]"

text \<open>
  \<^verbatim>\<open>*ptr+1!='\n'\<close> compares the successor of the character: a line ends at a carriage return
  or at a tabulator (9).
\<close>

definition line_end :: "u8 \<Rightarrow> bool" where
  "line_end c \<longleftrightarrow> c = 13 \<or> c = 9"

text \<open>
  Copying the host name.  The outer \<open>None\<close> is a fault, the inner one an early \<^verbatim>\<open>return flag\<close>;
  the result is the name with the final \<^verbatim>\<open>len\<close>.
\<close>

function read_host :: "mbuf \<Rightarrow> nat \<Rightarrow> nat \<Rightarrow> u8 list \<Rightarrow> (u8 list \<times> nat) option option" where
  "read_host m ptr len nm = do {
     c \<leftarrow> get8 m ptr;
     if line_end c then Some (Some (nm, len))
     else if unat (pkt_len m) \<le> len then Some None
     else if 63 < length nm then Some None
     else read_host m (Suc ptr) (Suc len) (nm @ [c])
   }"
  by pat_completeness auto
termination
  by (relation "measure (\<lambda>(m, ptr, len, nm). 64 - length nm)") auto

declare read_host.simps [simp del]

text \<open>Replacing the path, up to the next space.\<close>

function hide_path ::
  "world \<Rightarrow> mbuf \<Rightarrow> nat \<Rightarrow> nat \<Rightarrow> nat \<Rightarrow> (world \<times> mbuf \<times> bool) option" where
  "hide_path w m ptr len next_field = do {
     c \<leftarrow> get8 m ptr;
     if c = 32 then Some (w, m, True)
     else if unat (pkt_len m) \<le> Suc len then Some (w, m, False)
     else if next_field \<le> ptr then Some (w, m, False)
     else do {
       (w, m) \<leftarrow> (if c \<noteq> 46 \<and> c \<noteq> 47 then put_random w m ptr else Some (w, m));
       hide_path w m (Suc ptr) (Suc len) next_field
     }
   }"
  by pat_completeness auto
termination
  by (relation "measure (\<lambda>(w, m, ptr, len, next_field). next_field - ptr)") auto

declare hide_path.simps [simp del]

text \<open>Replacing the referrer, up to the end of the line; \<open>i\<close> counts its characters.\<close>

function hide_referrer ::
  "world \<Rightarrow> mbuf \<Rightarrow> nat \<Rightarrow> nat \<Rightarrow> nat \<Rightarrow> (world \<times> mbuf) option" where
  "hide_referrer w m ptr len i = do {
     c \<leftarrow> get8 m ptr;
     if line_end c then Some (w, m)
     else if unat (pkt_len m) \<le> Suc len then Some (w, m)
     else do {
       (w, m) \<leftarrow> (if c \<noteq> 46 \<and> c \<noteq> 47 then put_random w m ptr else Some (w, m));
       if 63 < i then Some (w, m) else hide_referrer w m (Suc ptr) (Suc len) (Suc i)
     }
   }"
  by pat_completeness auto
termination
  by (relation "measure (\<lambda>(w, m, ptr, len, i). 64 - i)") auto

declare hide_referrer.simps [simp del]

text \<open>What is removed from a request whose host is not used enough: host, path and referrer.\<close>

definition hide_request ::
  "world \<Rightarrow> mbuf \<Rightarrow> nat \<Rightarrow> nat \<Rightarrow> nat \<Rightarrow> u8 list \<Rightarrow> (world \<times> mbuf) option" where
  "hide_request w m pkt len_start host nm = do {
     (w, m) \<leftarrow> scramble {46} w m host (length nm);
     get \<leftarrow> search_at m pkt GET_str;
     post \<leftarrow> search_at m pkt POST_str;
     let start = (case get of Some p \<Rightarrow> Some (p + 4, len_start + 4)
       | None \<Rightarrow> map_option (\<lambda>p. (p + 5, len_start + 5)) post);
     case start of None \<Rightarrow> Some (w, m) | Some (ptr, len) \<Rightarrow>
       if unat (pkt_len m) \<le> len then Some (w, m)
       else do {
         next_field \<leftarrow> search_at m pkt HTTP_str;
         case next_field of None \<Rightarrow> Some (w, m) | Some nf \<Rightarrow> do {
           (w, m, complete) \<leftarrow> hide_path w m ptr len nf;
           if \<not> complete then Some (w, m)
           else do {
             refer \<leftarrow> search_at m pkt REFER_str;
             case refer of None \<Rightarrow> Some (w, m) | Some p \<Rightarrow>
               if unat (pkt_len m) \<le> len_start + 16 then Some (w, m)
               else hide_referrer w m (p + 16) (len_start + 16) 0
           }
         }
       }
   }"

definition httpEntry ::
  "world \<Rightarrow> mbuf \<Rightarrow> int \<Rightarrow> bool \<Rightarrow> u8 \<Rightarrow> flow \<Rightarrow> int \<Rightarrow> int \<Rightarrow> (world \<times> mbuf \<times> int) option" where
  "httpEntry w m proto v4 data_off f k_anon k_delta = do {
     pkt \<leftarrow> http_header_extractor m proto v4;
     len_start \<leftarrow> offset_extractor_http proto v4 data_off;
     case pkt of None \<Rightarrow> Some (w, m, 0) | Some pkt \<Rightarrow>
       if len_start = 0 then Some (w, m, 0)
       else do {
         ptr \<leftarrow> search_at m pkt HOST_str;
         case ptr of None \<Rightarrow> Some (w, m, 0) | Some ptr \<Rightarrow>
           let len = len_start + (ptr - pkt) + 6 in
           if unat (pkt_len m) \<le> len then Some (w, m, 0)
           else do {
             host \<leftarrow> read_host m (ptr + 6) (Suc len) [];
             case host of None \<Rightarrow> Some (w, m, 0) | Some (nm, len) \<Rightarrow>
               if unat (pkt_len m) \<le> len then Some (w, m, 0)
               else if cstr nm = [] then Some (w, m, 0)
               else do {
                 (w, ret) \<leftarrow> add_name w f (cstr nm) k_anon k_delta;
                 if ret < k_anon then do {
                   (w, m) \<leftarrow> hide_request w m pkt len_start (ptr + 6) (cstr nm);
                   Some (w, m, 1)
                 }
                 else Some (w, m, 0)
               }
           }
       }
   }"

end
