(* ===== verification/Dns_Mng.thy ===== *)
theory Dns_Mng
  imports World
begin

text \<open>
  DNS messages: \<^verbatim>\<open>offset_extractor\<close>, \<^verbatim>\<open>dns_header_extractor\<close> and \<^verbatim>\<open>ReadName\<close> of
  \<^verbatim>\<open>src/dns_mng.c\<close>, and \<^verbatim>\<open>dnsEntry\<close> of \<^verbatim>\<open>src/proto_mng.c\<close>.
\<close>

section \<open>The header\<close>

definition offset_extractor :: "int \<Rightarrow> bool \<Rightarrow> nat option" where
  "offset_extractor proto v4 =
     (if v4 then
        if proto = 0 then Some (sizeof_ipv4 + sizeof_ether + sizeof_tcp)
        else if proto = 1 then Some (sizeof_ipv4 + sizeof_ether + sizeof_udp)
        else None
      else
        if proto = 0 then Some (sizeof_ipv6 + sizeof_ether + sizeof_tcp)
        else if proto = 1 then Some (sizeof_ipv6 + sizeof_ether + sizeof_udp)
        else None)"

text \<open>The offset of the header, \<open>None\<close> inside for \<^verbatim>\<open>NULL\<close>.\<close>

definition dns_header_extractor :: "mbuf \<Rightarrow> int \<Rightarrow> bool \<Rightarrow> nat option option" where
  "dns_header_extractor packet proto v4 = do {
     len \<leftarrow> offset_extractor proto v4;
     Some (if v4 \<and> unat (pkt_len packet) \<le> len then None else Some len)
   }"

text \<open>The bit fields of the third and fourth byte, lowest bit first.\<close>

definition dns_rd :: "u8 \<Rightarrow> u8" where "dns_rd b = b AND 1"
definition dns_tc :: "u8 \<Rightarrow> u8" where "dns_tc b = drop_bit 1 b AND 1"
definition dns_aa :: "u8 \<Rightarrow> u8" where "dns_aa b = drop_bit 2 b AND 1"
definition dns_opcode :: "u8 \<Rightarrow> u8" where "dns_opcode b = drop_bit 3 b AND 15"
definition dns_qr :: "u8 \<Rightarrow> u8" where "dns_qr b = drop_bit 7 b"
definition dns_rcode :: "u8 \<Rightarrow> u8" where "dns_rcode b = b AND 15"
definition dns_z :: "u8 \<Rightarrow> u8" where "dns_z b = drop_bit 6 b AND 1"
definition dns_ra :: "u8 \<Rightarrow> u8" where "dns_ra b = drop_bit 7 b"

definition be16 :: "mbuf \<Rightarrow> nat \<Rightarrow> nat option" where
  "be16 m p = map_option (unat \<circ> ntohs) (get16 m p)"

section \<open>Skipping and replacing a name\<close>

text \<open>
  The loop of \<^verbatim>\<open>ReadName\<close>, which replaces the characters of the labels and follows every byte from
  192 on as a pointer; nothing bounds the pointers it follows.  The result has \<^verbatim>\<open>count\<close>.
\<close>

partial_function (option) read_name_loop ::
  "world \<Rightarrow> mbuf \<Rightarrow> nat \<Rightarrow> nat \<Rightarrow> nat \<Rightarrow> nat \<Rightarrow> bool \<Rightarrow> bool \<Rightarrow> nat \<Rightarrow> (world \<times> mbuf \<times> nat) option" where
  "read_name_loop w m reader buffer first cnt ctrl jumped count = do {
     c \<leftarrow> get8 m reader;
     if c = 0 then Some (w, m, if jumped then count + 1 else count)
     else if 192 \<le> c then do {
       d \<leftarrow> get8 m (reader + 1);
       let offset = unat c * 256 + unat d - 49152;
       read_name_loop w m (buffer + offset) buffer first cnt ctrl True count
     }
     else do {
       let count = (if jumped then count else count + 1);
       if first = 0 \<and> \<not> ctrl then
         read_name_loop w m (reader + 1) buffer first (unat c) True jumped count
       else if first = cnt then
         read_name_loop w m (reader + 1) buffer 0 (unat c) ctrl jumped count
       else do {
         (w, m) \<leftarrow> put_random w m reader;
         read_name_loop w m (reader + 1) buffer (first + 1) cnt ctrl jumped count
       }
     }
   }"

text \<open>The result has \<^verbatim>\<open>*count\<close> and whether the return value is 1, for a failed \<^verbatim>\<open>malloc\<close>.\<close>

definition ReadName :: "world \<Rightarrow> mbuf \<Rightarrow> nat \<Rightarrow> nat \<Rightarrow> (world \<times> mbuf \<times> nat \<times> bool) option" where
  "ReadName w m reader buffer =
     (if w_oom w (w_ticks w) then Some (w, m, 1, True)
      else map_option (\<lambda>(w, m, count). (w, m, count, False))
        (read_name_loop w m reader buffer 0 0 False False 1))"

section \<open>The name of a question\<close>

text \<open>\<^verbatim>\<open>length >= dnslen - (len + 12)\<close>, computed in \<^verbatim>\<open>size_t\<close>.\<close>

definition too_long :: "int \<Rightarrow> int \<Rightarrow> nat \<Rightarrow> bool" where
  "too_long n dnslen len \<longleftrightarrow> (of_int dnslen - (of_nat len + 12) :: u64) \<le> of_int n"

text \<open>
  Copying a label into the array \<^verbatim>\<open>name[NAME_DNS]\<close>, which the loop over its characters does not check.
\<close>

fun read_label :: "mbuf \<Rightarrow> nat \<Rightarrow> nat \<Rightarrow> u8 list \<Rightarrow> u8 list option" where
  "read_label m p 0 nm = Some nm"
| "read_label m p (Suc n) nm = do {
     c \<leftarrow> get8 m p;
     if NAME_DNS \<le> length nm then None else read_label m (Suc p) n (nm @ [c])
   }"

text \<open>
  The loop over the labels; \<open>n\<close> is the length of the next one, a signed \<^verbatim>\<open>char\<close>.  The inner \<open>None\<close> is
  an early return.
\<close>

function read_question :: "mbuf \<Rightarrow> nat \<Rightarrow> int \<Rightarrow> int \<Rightarrow> nat \<Rightarrow> u8 list \<Rightarrow> u8 list option option" where
  "read_question m buff n dnslen len nm =
     (if n = 0 then Some (Some nm)
      else case read_label m buff (nat n) nm of
        None \<Rightarrow> None
      | Some nm \<Rightarrow>
          let buff = buff + nat n in
          if buff < length (room m) then
            let n = sint (room m ! buff) in
            if too_long n dnslen len \<or> NAME_DNS \<le> length nm then Some None
            else read_question m (buff + 1) n (dnslen - n) len (if n \<noteq> 0 then nm @ [46] else nm)
          else None)"
  by pat_completeness auto
termination
  by (relation "measure (\<lambda>(m, buff, n, dnslen, len, nm). length (room m) - buff)") auto

declare read_question.simps [simp del]

definition dns_name :: "mbuf \<Rightarrow> int \<Rightarrow> nat \<Rightarrow> u8 list option option" where
  "dns_name m dnslen len = do {
     c \<leftarrow> get8 m (len + 12);
     if too_long (sint c) dnslen len then Some None
     else do {
       nm \<leftarrow> read_question m (len + 13) (sint c) (dnslen - sint c) len [];
       Some (case nm of None \<Rightarrow> None | Some nm \<Rightarrow> if cstr nm = [] then None else Some (cstr nm))
     }
   }"

text \<open>Replacing the characters of the labels; the result has the position behind the name.\<close>

partial_function (option) hide_question ::
  "world \<Rightarrow> mbuf \<Rightarrow> nat \<Rightarrow> int \<Rightarrow> (world \<times> mbuf \<times> nat) option" where
  "hide_question w m buff n =
     (if n = 0 then Some (w, m, buff)
      else do {
        (w, m) \<leftarrow> scramble {} w m buff (nat n);
        c \<leftarrow> get8 m (buff + nat n);
        hide_question w m (buff + nat n + 1) (sint c)
      })"

section \<open>Resource records\<close>

text \<open>
  The address in a record of type A: copied into \<^verbatim>\<open>rdata[200]\<close>, translated as a \<^verbatim>\<open>long\<close>, and copied back.
\<close>

definition anonymise_rdata :: "world \<Rightarrow> mbuf \<Rightarrow> nat \<Rightarrow> nat \<Rightarrow> (world \<times> mbuf) option" where
  "anonymise_rdata w m buff data_len =
     (if 200 \<le> data_len then None
      else do {
        bytes \<leftarrow> get_bytes m buff data_len;
        let rdata = bytes @ map (w_byte w (w_ticks w)) [data_len..<200];
        let addr = ucast (rdata ! 0) OR push_bit 8 (ucast (rdata ! 1))
          OR push_bit 16 (ucast (rdata ! 2)) OR push_bit 24 (ucast (rdata ! 3));
        (w, addr) \<leftarrow> anonymise_ip w addr;
        let rdata = bytes32 addr @ [0, 0, 0, 0] @ drop 8 rdata;
        m \<leftarrow> put_bytes m buff (take data_len rdata);
        Some (w, m)
      })"

text \<open>
  The three loops over the records of a response.  \<open>i\<close> indexes an array of 100 records, \<open>n\<close> is the
  number of records left.  The inner \<open>None\<close> of a result is an early return, otherwise it has
  \<^verbatim>\<open>buff\<close> and \<^verbatim>\<open>len\<close>.
\<close>

fun dns_answers ::
  "world \<Rightarrow> mbuf \<Rightarrow> nat \<Rightarrow> nat \<Rightarrow> nat \<Rightarrow> nat \<Rightarrow> nat \<Rightarrow> (world \<times> mbuf \<times> (nat \<times> nat) option) option" where
  "dns_answers w m buff buffstart len i 0 = Some (w, m, Some (buff, len))"
| "dns_answers w m buff buffstart len i (Suc n) = do {
     (w, m, stop, err) \<leftarrow> ReadName w m buff buffstart;
     if err then Some (w, m, None)
     else if 100 \<le> i then None
     else do {
       let res = buff + stop;
       data_len \<leftarrow> be16 m (res + 8);
       let len = len + 10 + data_len;
       if unat (pkt_len m) \<le> len then Some (w, m, None)
       else do {
         rtype \<leftarrow> be16 m res;
         if rtype = 1 then do {
           (w, m) \<leftarrow> anonymise_rdata w m (res + 10) data_len;
           dns_answers w m (res + 10 + data_len) buffstart len (Suc i) n
         }
         else if rtype = 5 then do {
           (w, m, _, err) \<leftarrow> ReadName w m (res + 10) buffstart;
           if err then Some (w, m, None)
           else do {
             data_len \<leftarrow> be16 m (res + 8);
             let len = len + data_len;
             if unat (pkt_len m) \<le> len then Some (w, m, None)
             else dns_answers w m (res + 10 + data_len) buffstart len (Suc i) n
           }
         }
         else do {
           m \<leftarrow> remove_payload m (sizeof_ipv4 + sizeof_ether + sizeof_udp + 12);
           Some (w, m, None)
         }
       }
     }
   }"

fun dns_authorities ::
  "world \<Rightarrow> mbuf \<Rightarrow> nat \<Rightarrow> nat \<Rightarrow> nat \<Rightarrow> nat \<Rightarrow> nat \<Rightarrow> (world \<times> mbuf \<times> (nat \<times> nat) option) option" where
  "dns_authorities w m buff buffstart len i 0 = Some (w, m, Some (buff, len))"
| "dns_authorities w m buff buffstart len i (Suc n) = do {
     (w, m, stop, err) \<leftarrow> ReadName w m buff buffstart;
     if err then Some (w, m, None)
     else if unat (pkt_len m) \<le> len + stop then Some (w, m, None)
     else if 100 \<le> i then None
     else if unat (pkt_len m) \<le> len + stop + 10 then Some (w, m, None)
     else do {
       let res = buff + stop;
       let len = len + stop + 10;
       rtype \<leftarrow> be16 m res;
       if rtype = 2 then do {
         (w, m, stop, err) \<leftarrow> ReadName w m (res + 10) buffstart;
         if err then Some (w, m, None)
         else if unat (pkt_len m) \<le> len + stop then Some (w, m, None)
         else dns_authorities w m (res + 10 + stop) buffstart (len + stop) (Suc i) n
       }
       else do {
         data_len \<leftarrow> be16 m (res + 8);
         if unat (pkt_len m) \<le> len + data_len then Some (w, m, None)
         else dns_authorities w m (res + 10 + data_len) buffstart (len + data_len) (Suc i) n
       }
     }
   }"

fun dns_additional ::
  "world \<Rightarrow> mbuf \<Rightarrow> nat \<Rightarrow> nat \<Rightarrow> nat \<Rightarrow> nat \<Rightarrow> nat \<Rightarrow> (world \<times> mbuf \<times> (nat \<times> nat) option) option" where
  "dns_additional w m buff buffstart len i 0 = Some (w, m, Some (buff, len))"
| "dns_additional w m buff buffstart len i (Suc n) = do {
     (w, m, stop, err) \<leftarrow> ReadName w m buff buffstart;
     if err then Some (w, m, None)
     else if unat (pkt_len m) \<le> len + stop then Some (w, m, None)
     else if 100 \<le> i then None
     else if unat (pkt_len m) \<le> len + stop + 10 then Some (w, m, None)
     else do {
       let res = buff + stop;
       let len = len + stop + 10;
       rtype \<leftarrow> be16 m res;
       if rtype = 1 then do {
         data_len \<leftarrow> be16 m (res + 8);
         if unat (pkt_len m) \<le> len + data_len then Some (w, m, None)
         else do {
           (w, m) \<leftarrow> anonymise_rdata w m (res + 10) data_len;
           dns_additional w m (res + 10 + data_len) buffstart (len + data_len) (Suc i) n
         }
       }
       else do {
         m \<leftarrow> remove_payload m (sizeof_ipv4 + sizeof_ether + sizeof_udp + 12);
         Some (w, m, None)
       }
     }
   }"

section \<open>The handler\<close>

definition dns_payload :: nat where
  "dns_payload = sizeof_ipv4 + sizeof_ether + sizeof_udp"

definition dns_question ::
  "world \<Rightarrow> mbuf \<Rightarrow> nat \<Rightarrow> flow \<Rightarrow> int \<Rightarrow> int \<Rightarrow> (world \<times> mbuf) option" where
  "dns_question w m len f k_anon k_delta =
     (if unat (pkt_len m) \<le> len then do {
        m \<leftarrow> remove_payload m dns_payload; Some (w, m) }
      else do {
        nm \<leftarrow> dns_name m (sint (pkt_len m)) len;
        case nm of None \<Rightarrow> Some (w, m) | Some nm \<Rightarrow> do {
          (w, ret) \<leftarrow> add_name w f nm k_anon k_delta;
          if ret < k_anon then do {
            n \<leftarrow> get8 m (len + 12);
            (w, m, _) \<leftarrow> hide_question w m (len + 13) (sint n);
            Some (w, m)
          }
          else Some (w, m)
        }
      })"

text \<open>What is done with a response whose name is not used enough.\<close>

definition hide_response ::
  "world \<Rightarrow> mbuf \<Rightarrow> nat \<Rightarrow> u8 list \<Rightarrow> nat \<Rightarrow> nat \<Rightarrow> nat \<Rightarrow> (world \<times> mbuf) option" where
  "hide_response w m buffstart nm n_ans n_aut n_add = do {
     n \<leftarrow> get8 m (buffstart + 12);
     (w, m, buff) \<leftarrow> hide_question w m (buffstart + 13) (sint n);
     let len = buffstart + 12 + length nm + 4;
     if unat (pkt_len m) \<le> len then Some (w, m)
     else do {
       (w, m, r) \<leftarrow> dns_answers w m (buff + 4) buffstart len 0 n_ans;
       case r of None \<Rightarrow> Some (w, m) | Some (buff, len) \<Rightarrow> do {
         (w, m, r) \<leftarrow> dns_authorities w m buff buffstart len 0 n_aut;
         case r of None \<Rightarrow> Some (w, m) | Some (buff, len) \<Rightarrow> do {
           (w, m, _) \<leftarrow> dns_additional w m buff buffstart len 0 n_add;
           Some (w, m)
         }
       }
     }
   }"

definition dns_response ::
  "world \<Rightarrow> mbuf \<Rightarrow> nat \<Rightarrow> nat \<Rightarrow> flow \<Rightarrow> int \<Rightarrow> int \<Rightarrow> (world \<times> mbuf) option" where
  "dns_response w m dns len f k_anon k_delta = do {
     flags \<leftarrow> get8 m (dns + 3);
     if dns_rcode flags \<noteq> 0 then do { m \<leftarrow> remove_payload m dns_payload; Some (w, m) }
     else do {
       n_ans \<leftarrow> be16 m (dns + 6);
       if n_ans = 0 then do { m \<leftarrow> remove_payload m dns_payload; Some (w, m) }
       else do {
         n_aut \<leftarrow> be16 m (dns + 8);
         n_add \<leftarrow> be16 m (dns + 10);
         if unat (pkt_len m) \<le> len then do { m \<leftarrow> remove_payload m dns_payload; Some (w, m) }
         else do {
           nm \<leftarrow> dns_name m (sint (pkt_len m)) len;
           case nm of None \<Rightarrow> Some (w, m) | Some nm \<Rightarrow> do {
             (w, ret) \<leftarrow> add_name w f nm k_anon k_delta;
             if ret < k_anon then hide_response w m len nm n_ans n_aut n_add
             else Some (w, m)
           }
         }
       }
     }
   }"

text \<open>
  \<^verbatim>\<open>ntohs\<close> of a one bit field is 0 or 256, so every message that is not a question is handled as
  a response.
\<close>

definition dnsEntry ::
  "world \<Rightarrow> mbuf \<Rightarrow> int \<Rightarrow> bool \<Rightarrow> flow \<Rightarrow> int \<Rightarrow> int \<Rightarrow> (world \<times> mbuf) option" where
  "dnsEntry w m proto v4 f k_anon k_delta = do {
     dns \<leftarrow> dns_header_extractor m proto v4;
     case dns of
       None \<Rightarrow> do { m \<leftarrow> remove_payload m dns_payload; Some (w, m) }
     | Some dns \<Rightarrow> do {
         flags \<leftarrow> get8 m (dns + 2);
         len \<leftarrow> offset_extractor proto v4;
         if ntohs (ucast (dns_qr flags)) = 0 then dns_question w m len f k_anon k_delta
         else if ntohs (ucast (dns_qr flags)) \<noteq> 1 then dns_response w m dns len f k_anon k_delta
         else Some (w, m)
       }
   }"

end
