(* ===== verification/Proto_Mng.thy ===== *)
theory Proto_Mng
  imports Ext_Ip Tls_Mng Http_Mng Dns_Mng
begin

text \<open>
  Protocol detection, \<^verbatim>\<open>src/proto_finder.c\<close>, and the dispatch of a packet to the handlers,
  \<^verbatim>\<open>multiplexer_proto\<close> of \<^verbatim>\<open>src/proto_mng.c\<close>.
\<close>

section \<open>Detection\<close>

text \<open>
  A return value of 0 is \<open>True\<close>.  The header is dereferenced, null or not, when a port is 53.
\<close>

definition isDns :: "mbuf \<Rightarrow> int \<Rightarrow> bool \<Rightarrow> u16 \<Rightarrow> u16 \<Rightarrow> bool option" where
  "isDns m proto v4 inport outport = do {
     dns \<leftarrow> dns_header_extractor m proto v4;
     if inport = 53 \<or> outport = 53 then do {
       dns \<leftarrow> dns;
       a \<leftarrow> get8 m (dns + 2);
       if outport = 53 \<and> dns_qr a \<noteq> 0 then Some False
       else if inport = 53 \<and> dns_qr a \<noteq> 1 then Some False
       else do {
         b \<leftarrow> get8 m (dns + 3);
         if dns_z b \<noteq> 0 then Some False
         else if ntohs (ucast (dns_opcode a)) \<notin> {0, 1, 2, 4, 5} then Some False
         else if dns_aa a \<notin> {0, 1} then Some False
         else if dns_tc a \<notin> {0, 1} then Some False
         else if dns_rd a \<notin> {0, 1} then Some False
         else if dns_ra b \<notin> {0, 1} then Some False
         else Some True
       }
     }
     else Some False
   }"

definition isTls :: "mbuf \<Rightarrow> int \<Rightarrow> bool \<Rightarrow> bool option" where
  "isTls m proto v4 = do {
     tls_h \<leftarrow> tls_header_extractor m proto v4;
     case tls_h of None \<Rightarrow> Some False | Some h \<Rightarrow> do {
       rt \<leftarrow> get8 m h;
       if rt \<noteq> 22 then Some False
       else do {
         protv1 \<leftarrow> get8 m (h + 1);
         protv2 \<leftarrow> get8 m (h + 2);
         if protv1 \<noteq> 3 \<and> protv2 \<noteq> 1 \<or> protv1 \<noteq> 3 \<and> protv2 \<noteq> 3 then Some False
         else do {
           ht \<leftarrow> get8 m (h + 5);
           Some (ht = 1)
         }
       }
     }
   }"

text \<open>\<^verbatim>\<open>strcasestr\<close> of a null pointer is a fault.\<close>

definition isHttp :: "mbuf \<Rightarrow> int \<Rightarrow> bool \<Rightarrow> bool option" where
  "isHttp m proto v4 = do {
     pkt \<leftarrow> http_header_extractor m proto v4;
     pkt \<leftarrow> pkt;
     get \<leftarrow> search_at m pkt GET_str;
     if get \<noteq> None then Some True
     else do {
       post \<leftarrow> search_at m pkt POST_str;
       Some (post \<noteq> None)
     }
   }"

definition proto_detector :: "mbuf \<Rightarrow> int \<Rightarrow> bool \<Rightarrow> u16 \<Rightarrow> u16 \<Rightarrow> nat option" where
  "proto_detector m proto v4 inport outport = do {
     d \<leftarrow> isDns m proto v4 inport outport;
     if d then Some 53
     else do {
       t \<leftarrow> isTls m proto v4;
       if t then Some 443
       else do {
         h \<leftarrow> isHttp m proto v4;
         Some (if h then 80 else 0)
       }
     }
   }"

section \<open>Dispatch\<close>

text \<open>
  The local \<^verbatim>\<open>newPacket\<close> of a packet whose IPv4 header is at \<open>ip\<close>; its IPv6 addresses are not assigned.
\<close>

definition new_packet :: "world \<Rightarrow> mbuf \<Rightarrow> nat \<Rightarrow> int \<Rightarrow> flow option" where
  "new_packet w m ip tv_sec = do {
     src \<leftarrow> get32 m (ip + 12);
     dst \<leftarrow> get32 m (ip + 16);
     sport \<leftarrow> get16 m (sizeof_ipv4 + sizeof_ether);
     dport \<leftarrow> get16 m (sizeof_ipv4 + sizeof_ether + 2);
     pr \<leftarrow> get8 m (ip + 9);
     Some ((w_flow w (w_ticks w))\<lparr>ipv := 4, ipv4_src := src, ipv4_dst := dst, in_port := ntohs sport,
       out_port := ntohs dport, protocol := pr, timestamp := tv_sec\<rparr>)
   }"

definition set_toAnon :: "world \<Rightarrow> nat \<times> nat \<Rightarrow> int \<Rightarrow> world" where
  "set_toAnon w flusso flag = set_flow w flusso (\<lambda>t. t\<lparr>toAnon := of_bool (flag \<noteq> 0)\<rparr>)"

text \<open>A handler that runs while its connection is undecided or to be anonymised.\<close>

definition decide ::
  "world \<Rightarrow> mbuf \<Rightarrow> flow \<Rightarrow> (world \<Rightarrow> nat \<times> nat \<Rightarrow> (world \<times> mbuf \<times> int) option) \<Rightarrow> (world \<times> mbuf) option" where
  "decide w m f handler = do {
     (w, flusso) \<leftarrow> find_connection w f;
     if toAnon (get_flow w flusso) \<in> {-1, 1} then do {
       (w, m, flag) \<leftarrow> handler w flusso;
       Some (set_toAnon w flusso flag, m)
     }
     else Some (w, m)
   }"

definition no_port :: "flow \<Rightarrow> u16 \<Rightarrow> bool" where
  "no_port f p \<longleftrightarrow> in_port f \<noteq> p \<and> out_port f \<noteq> p"

definition tcp_proto ::
  "world \<Rightarrow> mbuf \<Rightarrow> nat \<Rightarrow> int \<Rightarrow> out_interface_sett \<Rightarrow> int \<Rightarrow> (world \<times> mbuf) option" where
  "tcp_proto w m ip tv_sec s ip_origin = do {
     let m = m\<lparr>l4_len := sizeof_tcp\<rparr>;
     f \<leftarrow> new_packet w m ip tv_sec;
     (w, m) \<leftarrow> (if anon_ext_ip s = 1 \<and> (ip_origin = 1 \<or> ip_origin = 10)
       then decide w m f (\<lambda>w flusso. external_ip w m ip_origin flusso f (s_alpha s) (s_delta s))
       else Some (w, m));
     d \<leftarrow> proto_detector m 0 True (in_port f) (out_port f);
     if d = 443 then
       if s_tls s \<noteq> 0 then decide w m f (\<lambda>w _. do {
         data_off \<leftarrow> get8 m (sizeof_ipv4 + sizeof_ether + 12);
         tlsHelloEntry w m 0 True data_off f (s_alpha s) (s_delta s) })
       else Some (w, m)
     else if d = 80 then
       if s_http s \<noteq> 0 then decide w m f (\<lambda>w _. do {
         data_off \<leftarrow> get8 m (sizeof_ipv4 + sizeof_ether + 12);
         httpEntry w m 0 True data_off f (s_alpha s) (s_delta s) })
       else Some (w, m)
     else if no_port f 22 \<and> no_port f 443 then do {
       m \<leftarrow> remove_payload m (sizeof_ipv4 + sizeof_ether + sizeof_tcp);
       Some (w, m)
     }
     else Some (w, m)
   }"

text \<open>
  For UDP the result of \<^verbatim>\<open>external_ip\<close> is dropped and \<^verbatim>\<open>flusso->toAnon == 1;\<close> compares instead of
  assigning.
\<close>

definition udp_proto ::
  "world \<Rightarrow> mbuf \<Rightarrow> nat \<Rightarrow> int \<Rightarrow> out_interface_sett \<Rightarrow> int \<Rightarrow> (world \<times> mbuf) option" where
  "udp_proto w m ip tv_sec s ip_origin = do {
     f \<leftarrow> new_packet w m ip tv_sec;
     (w, m) \<leftarrow> (if anon_ext_ip s = 1 \<and> (ip_origin = 1 \<or> ip_origin = 10) then do {
         (w, flusso) \<leftarrow> find_connection w f;
         if toAnon (get_flow w flusso) \<in> {-1, 1} then do {
           (w, m, _) \<leftarrow> external_ip w m ip_origin flusso f (s_alpha s) (s_delta s);
           Some (w, m)
         }
         else Some (w, m)
       }
       else Some (w, m));
     if s_dns s \<noteq> 0 then do {
       d \<leftarrow> proto_detector m 1 True (in_port f) (out_port f);
       if d = 53 then dnsEntry w m 1 True f (s_alpha s) (s_delta s)
       else do {
         m \<leftarrow> remove_payload m (sizeof_ipv4 + sizeof_ether + sizeof_udp);
         Some (w, m)
       }
     }
     else if no_port f 22 \<and> no_port f 443 then do {
       m \<leftarrow> remove_payload m (sizeof_ipv4 + sizeof_ether + sizeof_udp);
       Some (w, m)
     }
     else Some (w, m)
   }"

text \<open>\<open>ip\<close> is the offset of the IPv4 header, \<open>None\<close> for \<^verbatim>\<open>NULL\<close>; nothing is done for IPv6.\<close>

definition multiplexer_proto ::
  "world \<Rightarrow> mbuf \<Rightarrow> nat option \<Rightarrow> int \<Rightarrow> out_interface_sett \<Rightarrow> int \<Rightarrow> (world \<times> mbuf) option" where
  "multiplexer_proto w m ipv4_header tv_sec s ip_origin = (case ipv4_header of
     None \<Rightarrow> Some (w, m)
   | Some ip \<Rightarrow> do {
       next_proto_id \<leftarrow> get8 m (ip + 9);
       if next_proto_id = TCP then tcp_proto w m ip tv_sec s ip_origin
       else if next_proto_id = UDP then udp_proto w m ip tv_sec s ip_origin
       else do {
         m \<leftarrow> remove_payload m (sizeof_ipv4 + sizeof_ether);
         Some (w, m)
       }
     })"

end
