(* ===== verification/Ip_Utils.thy ===== *)
theory Ip_Utils
  imports Prelude
begin

text \<open>
  Membership of an address in a list of networks and reading the lines of a list,
  \<^verbatim>\<open>src/ip_utils.c\<close>.

  The arrays of a class of networks with their number are lists of pairs; an IPv6 address is its
  16 bytes.
\<close>

record nets =
  anon_nets :: "(u32 \<times> u32) list"
  anon_nets6 :: "(u8 list \<times> nat) list"
  no_anon_nets :: "(u32 \<times> u32) list"
  no_anon_nets6 :: "(u8 list \<times> nat) list"

section \<open>Membership\<close>

fun match_net :: "u32 \<Rightarrow> (u32 \<times> u32) list \<Rightarrow> bool" where
  "match_net adx [] = False"
| "match_net adx ((net, msk) # nets) = (if adx AND msk = net then True else match_net adx nets)"

definition anon_ip_check :: "nets \<Rightarrow> u32 \<Rightarrow> bool" where
  "anon_ip_check n adx = match_net adx (anon_nets n)"

definition no_anon_ip_check :: "nets \<Rightarrow> u32 \<Rightarrow> bool" where
  "no_anon_ip_check n adx = match_net adx (no_anon_nets n)"

definition masks :: "u8 list" where
  "masks = [0x80, 0xc0, 0xe0, 0xf0, 0xf8, 0xfc, 0xfe, 0xff]"

text \<open>A mask beyond 128 bits makes \<^verbatim>\<open>memcmp\<close> read behind the addresses.\<close>

fun match_ipv6_net :: "u8 list \<Rightarrow> (u8 list \<times> nat) list \<Rightarrow> bool option" where
  "match_ipv6_net adx [] = Some False"
| "match_ipv6_net adx ((net, bits) # nets) =
     (if bits = 0 then Some True
      else if 128 < bits then None
      else let full = bits div 8; partial = bits mod 8;
               match = (if take full adx \<noteq> take full net then False
                 else if partial \<noteq> 0 then
                   adx ! full AND masks ! (partial - 1) = net ! full AND masks ! (partial - 1)
                 else True)
           in if match then Some True else match_ipv6_net adx nets)"

definition anon_ip_checkv6 :: "nets \<Rightarrow> u8 list \<Rightarrow> bool option" where
  "anon_ip_checkv6 n adx = match_ipv6_net adx (anon_nets6 n)"

definition no_anon_ip_checkv6 :: "nets \<Rightarrow> u8 list \<Rightarrow> bool option" where
  "no_anon_ip_checkv6 n adx = match_ipv6_net adx (no_anon_nets6 n)"

section \<open>Lines\<close>

text \<open>
  \<^verbatim>\<open>readline\<close> on the rest of a text file, without zero bytes: comments are dropped, and lines with
  nothing else if \<open>void\<close> is set.  The result is the line, \<open>None\<close> for \<^verbatim>\<open>NULL\<close>, and the rest of
  the file.  The growing of the buffer copies it.
\<close>

fun readline_loop ::
  "bool \<Rightarrow> bool \<Rightarrow> u8 list \<Rightarrow> u8 list \<Rightarrow> bool \<Rightarrow> u8 list \<times> u8 list" where
  "readline_loop skip_comment skip_void [] buf comment = (buf, [])"
| "readline_loop skip_comment skip_void (c # fp) buf comment =
     (let comment = (comment \<or> skip_comment \<and> c = 35);
          buf = (if \<not> comment \<or> c = 10 then buf @ [c] else buf)
      in if c = 10 then
           if hd buf = 10 \<and> skip_void then readline_loop skip_comment skip_void fp [] False
           else (buf, fp)
         else readline_loop skip_comment skip_void fp buf comment)"

definition readline :: "u8 list \<Rightarrow> bool \<Rightarrow> bool \<Rightarrow> u8 list option \<times> u8 list" where
  "readline fp skip_comment skip_void =
     (let (buf, fp) = readline_loop skip_comment skip_void fp [] False
      in (if buf = [] then None else Some buf, fp))"

end
