(* ===== verification/Process_Packet.thy ===== *)
theory Process_Packet
  imports Proto_Mng Ip_Utils
begin

text \<open>
  The handling of a packet, \<^verbatim>\<open>src/process_packet.c\<close>: \<^verbatim>\<open>process_packet_ip\<close> and
  \<^verbatim>\<open>process_packet\<close>.
\<close>

text \<open>An IPv6 address in the packet and the words of it that \<^verbatim>\<open>crypto_ip.c\<close> works with.\<close>

definition word_of_bytes :: "u8 list \<Rightarrow> u32" where
  "word_of_bytes bs = ucast (bs ! 0) OR push_bit 8 (ucast (bs ! 1)) OR push_bit 16 (ucast (bs ! 2))
     OR push_bit 24 (ucast (bs ! 3))"

definition in6_of_bytes :: "u8 list \<Rightarrow> in6_addr" where
  "in6_of_bytes bs = In6 (word_of_bytes bs) (word_of_bytes (drop 4 bs))
     (word_of_bytes (drop 8 bs)) (word_of_bytes (drop 12 bs))"

fun bytes_of_in6 :: "in6_addr \<Rightarrow> u8 list" where
  "bytes_of_in6 (In6 a b c d) = bytes32 a @ bytes32 b @ bytes32 c @ bytes32 d"

definition static_str :: "u8 list" where "static_str = [115, 116, 97, 116, 105, 99]"

text \<open>
  The translation of the addresses of an IPv4 packet; the result has \<^verbatim>\<open>ip_origin\<close>, to which an
  address outside the lists adds 10 as a source and 1 as a destination.
\<close>

definition translate_at ::
  "nets \<Rightarrow> world \<Rightarrow> mbuf \<Rightarrow> nat \<Rightarrow> u32 \<Rightarrow> int \<Rightarrow> (world \<times> mbuf \<times> int) option" where
  "translate_at nets w m p adx outside =
     (if anon_ip_check nets adx then do {
        (w, a) \<leftarrow> anonymise_ip w adx;
        m \<leftarrow> put32 m p a;
        Some (w, m, 0)
      } else Some (w, m, outside))"

definition translate_v4 ::
  "nets \<Rightarrow> world \<Rightarrow> mbuf \<Rightarrow> nat \<Rightarrow> (world \<times> mbuf \<times> int) option" where
  "translate_v4 nets w m ip = do {
     src \<leftarrow> get32 m (ip + 12);
     dst \<leftarrow> get32 m (ip + 16);
     (w, m, o1) \<leftarrow> translate_at nets w m (ip + 12) src 10;
     (w, m, o2) \<leftarrow> translate_at nets w m (ip + 16) dst 1;
     Some (w, m, o1 + o2)
   }"

definition translate_v6 :: "nets \<Rightarrow> world \<Rightarrow> mbuf \<Rightarrow> nat \<Rightarrow> (world \<times> mbuf) option" where
  "translate_v6 nets w m ip = do {
     src \<leftarrow> get_bytes m (ip + 8) 16;
     dst \<leftarrow> get_bytes m (ip + 24) 16;
     b \<leftarrow> anon_ip_checkv6 nets src;
     (w, m) \<leftarrow>
       (if b then do {
          (w, a) \<leftarrow> anonymise_ip6 w (in6_of_bytes src);
          m \<leftarrow> put_bytes m (ip + 8) (bytes_of_in6 a);
          Some (w, m)
        } else Some (w, m));
     b \<leftarrow> anon_ip_checkv6 nets dst;
     if b then do {
       (w, a) \<leftarrow> anonymise_ip6 w (in6_of_bytes dst);
       m \<leftarrow> put_bytes m (ip + 24) (bytes_of_in6 a);
       Some (w, m)
     }
     else Some (w, m)
   }"

definition process_packet_ip ::
  "nets \<Rightarrow> world \<Rightarrow> mbuf \<Rightarrow> out_interface_sett \<Rightarrow> int \<Rightarrow> (world \<times> mbuf) option" where
  "process_packet_ip nets w m s tv_sec = do {
     ether_type \<leftarrow> map_option ntohs (get16 m 12);
     let ip = sizeof_ether;
     if ether_type = 0x0800 then do {
       let m = m\<lparr>l3_len := sizeof_ipv4\<rparr>;
       src \<leftarrow> get32 m (ip + 12);
       dst \<leftarrow> get32 m (ip + 16);
       if no_anon_ip_check nets src \<or> no_anon_ip_check nets dst then Some (w, m)
       else do {
         (w, m, ip_origin) \<leftarrow>
           (if anon_ip_enabled s = 1 \<and> anon_ip_key_mode s = static_str then translate_v4 nets w m ip
            else Some (w, m, 0));
         m \<leftarrow> (if payload_drop_enabled s = 1 then l4_payload_remover m (Some ip) else Some m);
         if engine s \<noteq> 0 then multiplexer_proto w m (Some ip) tv_sec s ip_origin else Some (w, m)
       }
     }
     else if ether_type = 0x86DD then do {
       let m = m\<lparr>l3_len := sizeof_ipv6\<rparr>;
       if anon_ip_enabled s = 1 \<and> anon_ip_key_mode s = static_str then translate_v6 nets w m ip
       else do {
         src \<leftarrow> get_bytes m (ip + 8) 16;
         dst \<leftarrow> get_bytes m (ip + 24) 16;
         Some (w, m)
       }
     }
     else Some (w, m)
   }"

definition process_packet ::
  "nets \<Rightarrow> world \<Rightarrow> mbuf \<Rightarrow> out_interface_sett \<Rightarrow> int \<Rightarrow> (world \<times> mbuf) option" where
  "process_packet nets w m s tv_sec = do {
     m \<leftarrow> process_packet_eth m (anon_mac_enabled s) tv_sec;
     process_packet_ip nets w m s tv_sec
   }"

end
