(* ===== verification/Packet_Frame.thy ===== *)
theory Packet_Frame
  imports Process_Packet
begin

text \<open>
  What the handlers of a packet may change of it.  \<open>same_shape\<close>: none changes the length of the packet
  or of its buffer.  \<open>lettered\<close>: those that hide names write capital letters only.
\<close>

section \<open>No handler changes the length of a packet\<close>

definition same_shape :: "mbuf \<Rightarrow> mbuf \<Rightarrow> bool" where
  "same_shape m m' \<longleftrightarrow> length (room m') = length (room m) \<and> pkt_len m' = pkt_len m"

named_theorems shape \<open>operations that keep the length of the packet and of its buffer\<close>

lemma same_shape_refl [simp]: "same_shape m m"
  by (simp add: same_shape_def)

lemma same_shape_trans [trans]: "same_shape m m' \<Longrightarrow> same_shape m' m'' \<Longrightarrow> same_shape m m''"
  by (simp add: same_shape_def)

lemma same_shape_headers [simp]:
  "same_shape m (m'\<lparr>l2_len := a\<rparr>) = same_shape m m'"
  "same_shape m (m'\<lparr>l3_len := a\<rparr>) = same_shape m m'"
  "same_shape m (m'\<lparr>l4_len := a\<rparr>) = same_shape m m'"
  "same_shape (m\<lparr>l2_len := a\<rparr>) m' = same_shape m m'"
  "same_shape (m\<lparr>l3_len := a\<rparr>) m' = same_shape m m'"
  "same_shape (m\<lparr>l4_len := a\<rparr>) m' = same_shape m m'"
  by (simp_all add: same_shape_def)

lemma put8_shape [shape]: "put8 m p b = Some m' \<Longrightarrow> same_shape m m'"
  by (auto simp: put8_def same_shape_def split: if_splits)

lemma put_bytes_shape [shape]: "put_bytes m p bs = Some m' \<Longrightarrow> same_shape m m'"
  by (auto simp: put_bytes_def same_shape_def split: if_splits)

lemma put32_shape [shape]: "put32 m p w = Some m' \<Longrightarrow> same_shape m m'"
  by (auto simp: put32_def dest: put_bytes_shape)

lemma zero_bytes_shape: "zero_bytes m p n = Some m' \<Longrightarrow> same_shape m m'"
proof (induction n arbitrary: m p)
  case (Suc n)
  then obtain m1 where "put8 m p 0 = Some m1" "zero_bytes m1 (Suc p) n = Some m'"
    by (auto split: Option.bind_splits)
  then show ?case using Suc.IH put8_shape same_shape_trans by blast
qed simp

lemma remove_payload_shape [shape]: "remove_payload m offset = Some m' \<Longrightarrow> same_shape m m'"
  by (auto simp: remove_payload_def dest: zero_bytes_shape)

lemma hide_shape [shape]:
  "hide_v4 w m p fl f k d = Some (w', m', r) \<Longrightarrow> same_shape m m'"
  "hide_v6 w m p fl f k d = Some (w', m', r) \<Longrightarrow> same_shape m m'"
  by (auto simp: hide_v4_def hide_v6_def Let_def rte_get_tsc_cycles_def split: Option.bind_splits prod.splits if_splits
      dest: put32_shape put_bytes_shape)

lemma external_ip_shape [shape]: "external_ip w m orig fl f k d = Some (w', m', r) \<Longrightarrow> same_shape m m'"
  unfolding external_ip_def Let_def
  by (auto split: Option.bind_splits if_splits dest!: hide_shape put32_shape put_bytes_shape simp: same_shape_def)

section \<open>Handlers of names write capital letters only\<close>

definition lettered :: "mbuf \<Rightarrow> mbuf \<Rightarrow> bool" where
  "lettered m m' \<longleftrightarrow> same_shape m m'
     \<and> (\<forall>i < length (room m). room m' ! i = room m ! i \<or> 65 \<le> room m' ! i \<and> room m' ! i \<le> 90)"

named_theorems letters \<open>operations that overwrite bytes with letters\<close>

lemma lettered_refl [simp]: "lettered m m"
  by (simp add: lettered_def)

lemma lettered_trans: "lettered m m' \<Longrightarrow> lettered m' m'' \<Longrightarrow> lettered m m''"
  by (fastforce simp: lettered_def same_shape_def)

lemma lettered_shape [shape]: "lettered m m' \<Longrightarrow> same_shape m m'"
  by (simp add: lettered_def)

lemma randChar_letter: "65 \<le> randChar tsc \<and> randChar tsc \<le> 90"
proof -
  have "unat (tsc mod 26) < 26" by (simp add: unat_mod)
  then have "unat (ucast (tsc mod 26) :: u8) < 26" by (simp add: unsigned_ucast_eq take_bit_nat_eq_self)
  then show ?thesis by (simp add: randChar_def word_le_nat_alt unat_word_ariths)
qed

lemma put_random_letters [letters]: "put_random w m p = Some (w', m') \<Longrightarrow> lettered m m'"
  using randChar_letter
  by (auto simp: put_random_def rte_get_tsc_cycles_def Let_def put8_def lettered_def same_shape_def nth_list_update
      split: if_splits)

lemma scramble_letters [letters]: "scramble keep w m p n = Some (w', m') \<Longrightarrow> lettered m m'"
proof (induction n arbitrary: w m p)
  case (Suc n)
  from Suc.prems show ?case
    by (auto split: Option.bind_splits if_splits dest!: put_random_letters Suc.IH intro: lettered_trans)
qed simp

lemma server_name_letters [letters]: "server_name w m cur f k d = Some (w', m', r) \<Longrightarrow> lettered m m'"
  unfolding server_name_def Let_def by (auto split: Option.bind_splits if_splits dest!: scramble_letters)

lemma extensions_letters [letters]: "extensions w m cur maxchar f k d = Some (w', m', r) \<Longrightarrow> lettered m m'"
proof (induction "maxchar - cur" arbitrary: cur rule: less_induct)
  case less
  from less.prems show ?case
    by (subst (asm) extensions.simps)
      (auto split: Option.bind_splits if_splits dest!: server_name_letters less.hyps [rotated])
qed

lemma tlsHelloEntry_letters [letters]: "tlsHelloEntry w m pr v4 off f k d = Some (w', m', r) \<Longrightarrow> lettered m m'"
  unfolding tlsHelloEntry_def Let_def by (auto split: Option.bind_splits dest: extensions_letters)

lemma hide_path_letters [letters]: "hide_path w m ptr len nf = Some (w', m', r) \<Longrightarrow> lettered m m'"
proof (induction "nf - ptr" arbitrary: w m ptr len rule: less_induct)
  case less
  from less.prems show ?case
    by (subst (asm) hide_path.simps)
      (auto split: Option.bind_splits if_splits dest!: put_random_letters less.hyps [rotated] intro: lettered_trans)
qed

lemma hide_referrer_letters [letters]: "hide_referrer w m ptr len i = Some (w', m') \<Longrightarrow> lettered m m'"
proof (induction "64 - i" arbitrary: w m ptr len i rule: less_induct)
  case less
  from less.prems show ?case
    by (subst (asm) hide_referrer.simps)
      (auto split: Option.bind_splits if_splits dest!: put_random_letters less.hyps [rotated] intro: lettered_trans)
qed

lemma hide_request_letters [letters]: "hide_request w m pkt l h nm = Some (w', m') \<Longrightarrow> lettered m m'"
  unfolding hide_request_def Let_def
  by (auto split: Option.bind_splits if_splits option.splits
      dest!: scramble_letters hide_path_letters hide_referrer_letters)
    (meson lettered_trans)+

lemma httpEntry_letters [letters]: "httpEntry w m pr v4 off f k d = Some (w', m', r) \<Longrightarrow> lettered m m'"
  unfolding httpEntry_def Let_def
  by (auto split: Option.bind_splits if_splits option.splits prod.splits dest!: hide_request_letters)

lemma read_name_loop_lettered:
  assumes "read_name_loop w m reader buffer first cnt ctrl jumped count = Some y"
  shows "lettered m (fst (snd y))"
proof (rule read_name_loop.raw_induct
    [where P = "\<lambda>w m reader buffer first cnt ctrl jumped count y. lettered m (fst (snd y))", OF _ assms])
  fix loop w m reader buffer first cnt ctrl jumped count and y :: "world \<times> mbuf \<times> nat"
  assume IH: "\<And>w m reader buffer first cnt ctrl jumped count y.
      loop w m reader buffer first cnt ctrl jumped count = Some y \<Longrightarrow> lettered m (fst (snd y))"
    and r: "do {
       c \<leftarrow> get8 m reader;
       if c = 0 then Some (w, m, if jumped then count + 1 else count)
       else if 192 \<le> c then do {
         d \<leftarrow> get8 m (reader + 1);
         let offset = unat c * 256 + unat d - 49152;
         loop w m (buffer + offset) buffer first cnt ctrl True count
       }
       else do {
         let count = (if jumped then count else count + 1);
         if first = 0 \<and> \<not> ctrl then
           loop w m (reader + 1) buffer first (unat c) True jumped count
         else if first = cnt then
           loop w m (reader + 1) buffer 0 (unat c) ctrl jumped count
         else do {
           (w, m) \<leftarrow> put_random w m reader;
           loop w m (reader + 1) buffer (first + 1) cnt ctrl jumped count
         }
       }
     } = Some y"
  show "lettered m (fst (snd y))"
    using r by (auto simp: Let_def split: Option.bind_splits if_splits
        dest!: IH dest: put_random_letters intro: lettered_trans)
qed

lemma read_name_loop_letters [letters]:
  "read_name_loop w m reader buffer first cnt ctrl jumped count = Some (w', m', r) \<Longrightarrow> lettered m m'"
  using read_name_loop_lettered by fastforce

lemma ReadName_letters [letters]: "ReadName w m reader buffer = Some (w', m', r) \<Longrightarrow> lettered m m'"
  unfolding ReadName_def by (auto split: if_splits dest!: read_name_loop_letters)

lemma hide_question_lettered:
  assumes "hide_question w m buff n = Some y"
  shows "lettered m (fst (snd y))"
proof (rule hide_question.raw_induct [where P = "\<lambda>w m buff n y. lettered m (fst (snd y))", OF _ assms])
  fix loop w m buff n and y :: "world \<times> mbuf \<times> nat"
  assume IH: "\<And>w m buff n y. loop w m buff n = Some y \<Longrightarrow> lettered m (fst (snd y))"
    and r: "(if n = 0 then Some (w, m, buff)
      else do {
        (w, m) \<leftarrow> scramble {} w m buff (nat n);
        c \<leftarrow> get8 m (buff + nat n);
        loop w m (buff + nat n + 1) (sint c)
      }) = Some y"
  show "lettered m (fst (snd y))"
    using r by (auto split: Option.bind_splits if_splits dest!: IH dest: scramble_letters intro: lettered_trans)
qed

lemma hide_question_letters [letters]: "hide_question w m buff n = Some (w', m', r) \<Longrightarrow> lettered m m'"
  using hide_question_lettered by fastforce

lemma dns_question_letters:
  "dns_question w m len f k d = Some (w', m') \<Longrightarrow> len < unat (pkt_len m) \<Longrightarrow> lettered m m'"
  unfolding dns_question_def
  by (auto split: Option.bind_splits if_splits option.splits dest!: hide_question_letters)

section \<open>The other handlers\<close>

lemmas hidden_shape = tlsHelloEntry_letters [THEN lettered_shape] httpEntry_letters [THEN lettered_shape]
  ReadName_letters [THEN lettered_shape] hide_question_letters [THEN lettered_shape]

lemma anonymise_rdata_shape [shape]: "anonymise_rdata w m buff n = Some (w', m') \<Longrightarrow> same_shape m m'"
  unfolding anonymise_rdata_def Let_def by (auto split: Option.bind_splits if_splits dest: put_bytes_shape)

lemma dns_answers_shape: "dns_answers w m buff bs len i n = Some (w', m', r) \<Longrightarrow> same_shape m m'"
proof (induction n arbitrary: w m buff len i)
  case (Suc n)
  from Suc.prems show ?case
    by (auto simp: Let_def split: Option.bind_splits if_splits
        dest!: hidden_shape(3) anonymise_rdata_shape remove_payload_shape Suc.IH)
      (simp_all add: same_shape_def)
qed simp

lemma dns_authorities_shape: "dns_authorities w m buff bs len i n = Some (w', m', r) \<Longrightarrow> same_shape m m'"
proof (induction n arbitrary: w m buff len i)
  case (Suc n)
  from Suc.prems show ?case
    by (auto simp: Let_def split: Option.bind_splits if_splits dest!: hidden_shape(3) Suc.IH)
      (simp_all add: same_shape_def)
qed simp

lemma dns_additional_shape: "dns_additional w m buff bs len i n = Some (w', m', r) \<Longrightarrow> same_shape m m'"
proof (induction n arbitrary: w m buff len i)
  case (Suc n)
  from Suc.prems show ?case
    by (auto simp: Let_def split: Option.bind_splits if_splits
        dest!: hidden_shape(3) anonymise_rdata_shape remove_payload_shape Suc.IH)
      (simp_all add: same_shape_def)
qed simp

lemma hide_response_shape: "hide_response w m bs nm a b c = Some (w', m') \<Longrightarrow> same_shape m m'"
  unfolding hide_response_def Let_def
  by (auto split: Option.bind_splits if_splits option.splits
      dest!: hidden_shape(4) dns_answers_shape dns_authorities_shape dns_additional_shape)
    (simp_all add: same_shape_def)

lemma dns_question_shape: "dns_question w m len f k d = Some (w', m') \<Longrightarrow> same_shape m m'"
  unfolding dns_question_def
  by (auto split: Option.bind_splits if_splits option.splits dest!: hidden_shape(4) remove_payload_shape)

lemma dns_response_shape: "dns_response w m dns len f k d = Some (w', m') \<Longrightarrow> same_shape m m'"
  unfolding dns_response_def
  by (auto split: Option.bind_splits if_splits option.splits dest!: hide_response_shape remove_payload_shape)

lemma dnsEntry_shape [shape]: "dnsEntry w m pr v4 f k d = Some (w', m') \<Longrightarrow> same_shape m m'"
  unfolding dnsEntry_def
  by (auto split: Option.bind_splits if_splits option.splits
      dest!: dns_question_shape dns_response_shape remove_payload_shape)

text \<open>
  What \<open>decide\<close> needs of the handler it runs on a connection, and the three handlers it is given.
\<close>

locale packet_handler =
  fixes handler :: "world \<Rightarrow> mbuf \<Rightarrow> nat \<times> nat \<Rightarrow> (world \<times> mbuf \<times> int) option"
  assumes keeps_shape: "handler w m flusso = Some (w', m', flag) \<Longrightarrow> same_shape m m'"
begin

lemma decide_shape: "decide w m f (\<lambda>w flusso. handler w m flusso) = Some (w', m') \<Longrightarrow> same_shape m m'"
  by (auto simp: decide_def split: Option.bind_splits if_splits dest: keeps_shape)

end

interpretation external: packet_handler "\<lambda>w m flusso. external_ip w m orig flusso f k d" for orig f k d
  by unfold_locales (rule external_ip_shape)

interpretation tls: packet_handler "\<lambda>w m flusso. do {
    data_off \<leftarrow> get8 m (sizeof_ipv4 + sizeof_ether + 12);
    tlsHelloEntry w m 0 True data_off f k d }" for f k d
  by unfold_locales (auto split: Option.bind_splits dest: hidden_shape)

interpretation http: packet_handler "\<lambda>w m flusso. do {
    data_off \<leftarrow> get8 m (sizeof_ipv4 + sizeof_ether + 12);
    httpEntry w m 0 True data_off f k d }" for f k d
  by unfold_locales (auto split: Option.bind_splits dest: hidden_shape)

lemmas decide_shapes = external.decide_shape tls.decide_shape http.decide_shape

lemma tcp_proto_shape: "tcp_proto w m ip tv s orig = Some (w', m') \<Longrightarrow> same_shape m m'"
  unfolding tcp_proto_def Let_def
  by (auto split: Option.bind_splits if_splits dest!: decide_shapes remove_payload_shape)
    (simp_all add: same_shape_def)

lemma udp_proto_shape: "udp_proto w m ip tv s orig = Some (w', m') \<Longrightarrow> same_shape m m'"
  unfolding udp_proto_def Let_def
  by (auto split: Option.bind_splits if_splits dest!: external_ip_shape dnsEntry_shape remove_payload_shape)
    (simp_all add: same_shape_def)

lemma multiplexer_proto_shape [shape]: "multiplexer_proto w m h tv s orig = Some (w', m') \<Longrightarrow> same_shape m m'"
  unfolding multiplexer_proto_def
  by (auto split: Option.bind_splits if_splits option.splits
      dest!: tcp_proto_shape udp_proto_shape remove_payload_shape)

lemma l4_payload_remover_shape [shape]: "l4_payload_remover m h = Some m' \<Longrightarrow> same_shape m m'"
  unfolding l4_payload_remover_def
  by (auto split: Option.bind_splits if_splits option.splits dest!: remove_payload_shape)

lemma translate_shape [shape]:
  "translate_v4 nets w m ip = Some (w', m', r) \<Longrightarrow> same_shape m m'"
  "translate_v6 nets w m ip = Some (w', m') \<Longrightarrow> same_shape m m'"
  unfolding translate_v4_def translate_at_def translate_v6_def
  by (auto split: Option.bind_splits if_splits dest!: put32_shape put_bytes_shape)
    (simp_all add: same_shape_def)

lemma process_packet_ip_shape [shape]: "process_packet_ip nets w m s tv = Some (w', m') \<Longrightarrow> same_shape m m'"
  unfolding process_packet_ip_def Let_def
  by (auto split: Option.bind_splits if_splits
      dest!: translate_shape l4_payload_remover_shape multiplexer_proto_shape)
    (simp_all add: same_shape_def)

lemma process_packet_eth_shape [shape]: "process_packet_eth m e tv = Some m' \<Longrightarrow> same_shape m m'"
  unfolding process_packet_eth_def Let_def
  by (auto split: Option.bind_splits if_splits dest!: put_bytes_shape) (simp_all add: same_shape_def)

lemma process_packet_shape: "process_packet nets w m s tv = Some (w', m') \<Longrightarrow> same_shape m m'"
  unfolding process_packet_def
  by (auto split: Option.bind_splits dest!: process_packet_eth_shape process_packet_ip_shape intro: same_shape_trans)

end
