(* ===== verification/Packet_Properties.thy ===== *)
theory Packet_Properties
  imports Packet_Frame Flow_Properties
begin

text \<open>
  Properties of the operations on a packet: what removing the payload and the Ethernet addresses
  changes, how long a handler may run, and the names under which addresses are counted.
\<close>

section \<open>An example packet\<close>

definition mk_packet :: "u8 list \<Rightarrow> u32 \<Rightarrow> mbuf" where
  "mk_packet bs n = \<lparr>room = bs, pkt_len = n, l2_len = 0, l3_len = 0, l4_len = 0\<rparr>"

section \<open>Properties of the buffer operations\<close>

text \<open>
  The headers of an IPv4 packet as the protocols lay them out: the lengths in words of four bytes that the
  IP header and the TCP header give for themselves, and the first byte behind the transport header.
\<close>

definition ip_words :: "mbuf \<Rightarrow> nat" where
  "ip_words m = unat (room m ! 14 AND 15)"

definition tcp_words :: "mbuf \<Rightarrow> nat" where
  "tcp_words m = unat (drop_bit 4 (room m ! (14 + 4 * ip_words m + 12)))"

definition transport_end :: "mbuf \<Rightarrow> nat" where
  "transport_end m = 14 + 4 * ip_words m
     + (if room m ! 23 = TCP then 4 * tcp_words m else if room m ! 23 = UDP \<or> room m ! 23 = ICMP then 8 else 0)"

definition headers_ok :: "mbuf \<Rightarrow> bool" where
  "headers_ok m \<longleftrightarrow> 5 \<le> ip_words m \<and> (room m ! 23 = TCP \<longrightarrow> 5 \<le> tcp_words m)"

definition has_options :: "mbuf \<Rightarrow> bool" where
  "has_options m \<longleftrightarrow> 5 < ip_words m \<or> room m ! 23 = TCP \<and> 5 < tcp_words m"

text \<open>Where the code takes the headers to end: it reads neither of the two lengths.\<close>

definition assumed_end :: "u8 \<Rightarrow> nat" where
  "assumed_end p = (if p = TCP then 54 else if p = UDP \<or> p = ICMP then 42 else 34)"

lemma assumed_end_transport:
  "headers_ok m \<Longrightarrow> assumed_end (room m ! 23) \<le> transport_end m"
  "headers_ok m \<Longrightarrow> assumed_end (room m ! 23) = transport_end m \<longleftrightarrow> \<not> has_options m"
  by (auto simp: headers_ok_def has_options_def assumed_end_def transport_end_def TCP_def UDP_def ICMP_def)

text \<open>
  C23.  Removing the payload.  \<^verbatim>\<open>l4_payload_remover\<close> zeroes the packet from a fixed offset on, which stands
  for headers without options, and changes nothing before it and nothing behind the packet.  So the whole
  payload is cleared from every packet whose headers have valid lengths.  If they have no options, the headers
  stay; with options in the IP or the TCP header the bytes of the headers behind the fixed offset
  are zeroed as well.  If the packet is shorter than the fixed offset, the length to clear wraps around and
  the code writes behind the buffer.
\<close>

theorem payload_dropped:
  assumes "mbuf_ok m" and "23 < length (room m)"
  defines "a \<equiv> assumed_end (room m ! 23)"
  shows "if a \<le> unat (pkt_len m)
    then \<exists>m'. l4_payload_remover m (Some 14) = Some m' \<and> same_shape m m'
      \<and> (\<forall>i < length (room m). room m' ! i = (if a \<le> i \<and> i < unat (pkt_len m) then 0 else room m ! i))
      \<and> (headers_ok m \<longrightarrow> (\<forall>i < unat (pkt_len m). transport_end m \<le> i \<longrightarrow> room m' ! i = 0)
        \<and> (if has_options m
           then a < transport_end m \<and> (\<forall>i < unat (pkt_len m). a \<le> i \<and> i < transport_end m \<longrightarrow> room m' ! i = 0)
           else \<forall>i < transport_end m. room m' ! i = room m ! i))
    else l4_payload_remover m (Some 14) = None"
proof -
  have e: "a < 2 ^ 31" by (simp add: a_def assumed_end_def)
  have r: "l4_payload_remover m (Some 14) = remove_payload m a"
    using assms(2) by (simp add: l4_payload_remover_def get8_def a_def assumed_end_def sizeof_defs UDP_def ICMP_def)
  show ?thesis
  proof (cases "a \<le> unat (pkt_len m)")
    case True
    have l: "unat (pkt_len m) \<le> length (room m)" using assms(1) by (simp add: mbuf_ok_def)
    have n: "room (without_payload m a) ! i = (if a \<le> i \<and> i < unat (pkt_len m) then 0 else room m ! i)"
      if "i < length (room m)" for i
      by (rule without_payload_nth [OF assms(1) True that])
    moreover have "headers_ok m \<Longrightarrow> a \<le> transport_end m" and "headers_ok m \<Longrightarrow> a = transport_end m \<longleftrightarrow> \<not> has_options m"
      using assumed_end_transport [of m] by (simp_all add: a_def)
    ultimately show ?thesis
      using True l remove_payload_long [OF assms(1) True] without_payload_room(1) [OF assms(1) True]
      by (auto simp: r same_shape_def)
  next
    case False
    then show ?thesis using remove_payload_short [OF assms(1) _ e] by (simp add: r)
  qed
qed

text \<open>A UDP packet without options, and a TCP packet whose header has twelve bytes of them.\<close>

theorem payload_dropped_witness:
  "(\<exists>m'. l4_payload_remover (mk_packet ((replicate 60 17)[14 := 0x45]) 60) (Some 14) = Some m'
      \<and> (\<forall>i < 42. room m' ! i = (replicate 60 17)[14 := 0x45] ! i) \<and> (\<forall>i < 60. 42 \<le> i \<longrightarrow> room m' ! i = 0))
    \<and> (\<exists>m'. l4_payload_remover (mk_packet ((replicate 80 6)[14 := 0x45, 46 := 0x80]) 80) (Some 14) = Some m'
      \<and> (\<forall>i < 66. 54 \<le> i \<longrightarrow> room m' ! i = 0))"
  using payload_dropped [of "mk_packet ((replicate 60 17)[14 := 0x45]) 60"]
    payload_dropped [of "mk_packet ((replicate 80 6)[14 := 0x45, 46 := 0x80]) 80"]
  by (fastforce simp: mk_packet_def mbuf_ok_def assumed_end_def transport_end_def headers_ok_def has_options_def
      ip_words_def tcp_words_def TCP_def UDP_def ICMP_def)

text \<open>
  Ethernet addresses.  In mode 1 the twelve bytes of both addresses become zero, in mode 2 they
  all become the lowest byte of the time, otherwise they stay; the rest of the packet stays.
\<close>

theorem mac_addresses_removed:
  fixes mode tv :: int
  assumes "12 \<le> length (room m)"
  defines "fill \<equiv> (if mode = 2 then word_of_int tv else 0 :: u8)"
  shows "\<exists>m'. process_packet_eth m mode tv = Some m' \<and> same_shape m m'
    \<and> (\<forall>i < length (room m). room m' ! i = (if i < 12 \<and> mode \<in> {1, 2} then fill else room m ! i))"
proof -
  let ?m = "m\<lparr>l2_len := sizeof_ether\<rparr>"
  have p: "\<exists>m'. (do { m \<leftarrow> put_bytes ?m 0 (replicate 6 b); put_bytes m 6 (replicate 6 b) }) = Some m'
    \<and> same_shape m m' \<and> (\<forall>i < length (room m). room m' ! i = (if i < 12 then b else room m ! i))" for b
  proof -
    obtain m1 where 1: "put_bytes ?m 0 (replicate 6 b) = Some m1" using assms(1) by (simp add: put_bytes_def)
    note n1 = put_bytes_nth [OF 1]
    have l1: "length (room m1) = length (room m)" using put_bytes_shape [OF 1] by (simp add: same_shape_def)
    obtain m2 where 2: "put_bytes m1 6 (replicate 6 b) = Some m2" using assms(1) l1 by (simp add: put_bytes_def)
    have "same_shape m m2" using put_bytes_shape [OF 1] put_bytes_shape [OF 2] by (simp add: same_shape_def)
    moreover have "room m2 ! i = (if i < 12 then b else room m ! i)" if "i < length (room m)" for i
      using put_bytes_nth(1) [OF 2, of i] put_bytes_nth(1) [OF 1, of i] that l1 by auto
    ultimately show ?thesis using 1 2 by auto
  qed
  show ?thesis
    using p [of "word_of_int tv"] p [of 0] assms(1)
    by (auto simp: process_packet_eth_def fill_def Let_def)
qed

theorem mac_addresses_removed_witness:
  "\<exists>m'. process_packet_eth (mk_packet (replicate 60 17) 60) 1 5 = Some m'
    \<and> (\<forall>i < 60. room m' ! i = (if i < 12 then 0 else 17))"
  using mac_addresses_removed [of "mk_packet (replicate 60 17) 60" 1 5] by (auto simp: mk_packet_def)

section \<open>Properties of the handling of names\<close>

text \<open>
  A DNS name that is a compression pointer to itself is followed for ever: both its bytes can
  be read, and no later access faults, but \<^verbatim>\<open>ReadName\<close> does not return.
\<close>

theorem compression_loop_hangs:
  assumes "get8 m p = Some c" and "192 \<le> c" and "get8 m (p + 1) = Some d"
    and "buffer + (unat c * 256 + unat d - 49152) = p" and "\<not> w_oom w (w_ticks w)"
  shows "ReadName w m p buffer = None"
proof -
  have "c \<noteq> 0" using assms(2) by auto
  have False if r: "read_name_loop w m p buffer 0 0 False False 1 = Some y" for y
  proof (rule read_name_loop.raw_induct [where P = "\<lambda>w' m' p' b' first cnt ctrl jumped count y.
      m' = m \<and> p' = p \<and> b' = buffer \<longrightarrow> False", OF _ r, THEN mp])
    fix loop and w' :: world and m' p' b' first cnt ctrl jumped count and y :: "world \<times> mbuf \<times> nat"
    assume IH: "\<And>w' m' p' b' first cnt ctrl jumped count y.
        loop w' m' p' b' first cnt ctrl jumped count = Some y \<Longrightarrow> m' = m \<and> p' = p \<and> b' = buffer \<longrightarrow> False"
      and r: "do {
         c \<leftarrow> get8 m' p';
         if c = 0 then Some (w', m', if jumped then count + 1 else count)
         else if 192 \<le> c then do {
           d \<leftarrow> get8 m' (p' + 1);
           let offset = unat c * 256 + unat d - 49152;
           loop w' m' (b' + offset) b' first cnt ctrl True count
         }
         else do {
           let count = (if jumped then count else count + 1);
           if first = 0 \<and> \<not> ctrl then
             loop w' m' (p' + 1) b' first (unat c) True jumped count
           else if first = cnt then
             loop w' m' (p' + 1) b' 0 (unat c) ctrl jumped count
           else do {
             (w', m') \<leftarrow> put_random w' m' p';
             loop w' m' (p' + 1) b' (first + 1) cnt ctrl jumped count
           }
         }
       } = Some y"
    show "m' = m \<and> p' = p \<and> b' = buffer \<longrightarrow> False"
    proof
      assume e: "m' = m \<and> p' = p \<and> b' = buffer"
      then have "loop w' m p buffer first cnt ctrl True count = Some y"
        using r assms(1-4) \<open>c \<noteq> 0\<close> by (simp add: Let_def)
      then show False using IH by blast
    qed
  qed simp
  then show ?thesis using assms(5) by (cases "read_name_loop w m p buffer 0 0 False False 1") (auto simp: ReadName_def)
qed

theorem compression_loop_hangs_witness:
  "\<forall>w. ReadName (w\<lparr>w_oom := (\<lambda>_. False)\<rparr>) (mk_packet ((replicate 60 0)[54 := 0xC0, 55 := 12]) 60) 54 42 = None"
  by (intro allI compression_loop_hangs [where c = "0xC0" and d = 12]) (simp_all add: mk_packet_def get8_def)

text \<open>
  External addresses are counted under a C string of their four bytes, last octet first.
  Addresses without a zero octet have names of their own, but all addresses whose last octet is
  zero share the empty name, so their clients are counted together.
\<close>

lemma bytes32_inject: "bytes32 a = bytes32 b \<longleftrightarrow> a = b"
proof
  assume e: "bytes32 a = bytes32 b"
  define m where "m = mk_packet (replicate 4 0) 4"
  obtain m1 where 1: "put_bytes m 0 (bytes32 a) = Some m1" by (simp add: put_bytes_def m_def mk_packet_def bytes32_def)
  have "get32 m1 0 = Some a" by (rule get32_bytes32 [OF 1])
  moreover have "get32 m1 0 = Some b" by (rule get32_bytes32) (use 1 e in simp)
  ultimately show "a = b" by simp
qed simp

theorem address_names_collide:
  "(0 \<notin> set (bytes32 a) \<and> 0 \<notin> set (bytes32 b) \<and> addressV4_name a = addressV4_name b \<longrightarrow> a = b)
   \<and> (bytes32 a ! 3 = 0 \<longrightarrow> addressV4_name a = [])"
proof (intro conjI impI)
  have n: "addressV4_name a = cstr (rev (bytes32 a))" for a
    by (simp add: addressV4_name_def bytes32_def)
  show "addressV4_name a = []" if "bytes32 a ! 3 = 0"
    using that by (simp add: addressV4_name_def cstr_def bytes32_def)
  assume a: "0 \<notin> set (bytes32 a) \<and> 0 \<notin> set (bytes32 b) \<and> addressV4_name a = addressV4_name b"
  have all: "cstr (rev s) = rev s" if "0 \<notin> set s" for s
    unfolding cstr_def takeWhile_eq_all_conv using that by auto
  from a have ab: "0 \<notin> set (bytes32 a)" "0 \<notin> set (bytes32 b)" and e: "cstr (rev (bytes32 a)) = cstr (rev (bytes32 b))"
    unfolding n by auto
  have "rev (bytes32 a) = rev (bytes32 b)" using e unfolding all [OF ab(1)] all [OF ab(2)] .
  then show "a = b" by (simp add: bytes32_inject)
qed

theorem address_names_collide_witness:
  "addressV4_name 0x00020304 = [] \<and> addressV4_name 0x00090807 = []"
  using address_names_collide [of "0x00020304"] address_names_collide [of "0x00090807"]
  by (simp add: bytes32_def)

end
