(* ===== verification/Hiding.thy ===== *)
theory Hiding
  imports Packet_Frame
begin

text \<open>
  What the handlers of names do to the bytes of a packet: the lemmas on replaced characters, on
  names in DNS messages and on host names that the properties of the handlers rest on.
\<close>

section \<open>Replaced characters\<close>

definition letter :: "u8 \<Rightarrow> bool" where
  "letter c \<longleftrightarrow> 65 \<le> c \<and> c \<le> 90"

text \<open>The bytes of the packet at the positions in \<open>P\<close> are replaced by letters, no other byte is changed.\<close>

definition hidden :: "(nat \<Rightarrow> bool) \<Rightarrow> mbuf \<Rightarrow> mbuf \<Rightarrow> bool" where
  "hidden P m m' \<longleftrightarrow> same_shape m m'
     \<and> (\<forall>i < length (room m). if P i then letter (room m' ! i) else room m' ! i = room m ! i)"

lemma hidden_trans:
  "hidden P m m1 \<Longrightarrow> hidden Q m1 m2 \<Longrightarrow> hidden (\<lambda>i. P i \<or> Q i) m m2"
  unfolding hidden_def same_shape_def by (metis (no_types, lifting))

lemma hidden_none: "hidden (\<lambda>_. False) m m"
  by (simp add: hidden_def)

lemma hidden_shape: "hidden P m m' \<Longrightarrow> length (room m') = length (room m)" "hidden P m m' \<Longrightarrow> pkt_len m' = pkt_len m"
  by (simp_all add: hidden_def same_shape_def)

lemma hidden_nth: "hidden P m m' \<Longrightarrow> i < length (room m) \<Longrightarrow> \<not> P i \<Longrightarrow> room m' ! i = room m ! i"
  by (metis hidden_def)

lemma hidden_cong: "hidden P m m' \<Longrightarrow> (\<And>i. i < length (room m) \<Longrightarrow> P i = Q i) \<Longrightarrow> hidden Q m m'"
  by (simp add: hidden_def)

lemma put_random_hidden:
  assumes "p < length (room m)"
  shows "\<exists>m'. put_random w m p = Some (w\<lparr>w_ticks := Suc (w_ticks w)\<rparr>, m') \<and> hidden (\<lambda>i. i = p) m m'"
  using assms randChar_letter [of "w_clock w (w_ticks w)"]
  by (auto simp: put_random_def rte_get_tsc_cycles_def put8_def hidden_def same_shape_def letter_def nth_list_update)

definition later :: "world \<Rightarrow> world \<Rightarrow> bool" where
  "later w w' \<longleftrightarrow> (\<exists>n. w' = w\<lparr>w_ticks := n\<rparr>)"

lemma later_refl: "later w w"
  unfolding later_def by (intro exI [of _ "w_ticks w"]) simp

lemma later_step [simp]: "later w (w\<lparr>w_ticks := n\<rparr>)"
  by (auto simp: later_def)

lemma later_tick: "later (w\<lparr>w_ticks := n\<rparr>) w' = later w w'"
  by (simp add: later_def)

lemma later_trans: "later w w' \<Longrightarrow> later w' w'' = later w w''"
  by (auto simp: later_def)

lemma scramble_hidden:
  assumes "p + n \<le> length (room m)"
  shows "\<exists>w' m'. scramble keep w m p n = Some (w', m') \<and> later w w'
    \<and> hidden (\<lambda>i. p \<le> i \<and> i < p + n \<and> room m ! i \<notin> keep) m m'"
  using assms
proof (induction n arbitrary: w m p)
  case 0
  then show ?case using hidden_cong [OF hidden_none] by (simp add: later_refl)
next
  case (Suc n)
  let ?c = "room m ! p"
  define P where "P = (\<lambda>i. i = p \<and> ?c \<notin> keep)"
  obtain w1 m1 where 1: "(if ?c \<in> keep then Some (w, m) else put_random w m p) = Some (w1, m1)"
    "later w w1" "hidden P m m1"
  proof (cases "?c \<in> keep")
    case True
    then show ?thesis using that [of w m] hidden_none by (simp add: P_def later_refl)
  next
    case False
    then show ?thesis using that put_random_hidden [of p m w] Suc.prems by (force simp: P_def)
  qed
  have l: "length (room m1) = length (room m)" by (rule hidden_shape(1) [OF 1(3)])
  obtain w2 m2 where 2: "scramble keep w1 m1 (Suc p) n = Some (w2, m2)" "later w1 w2"
    "hidden (\<lambda>i. Suc p \<le> i \<and> i < Suc p + n \<and> room m1 ! i \<notin> keep) m1 m2"
    using Suc.IH [of "Suc p" m1 w1] Suc.prems l by auto
  have "scramble keep w m p (Suc n) = Some (w2, m2)"
    using 1(1) 2(1) Suc.prems by (simp add: get8_Some)
  moreover have "hidden (\<lambda>i. p \<le> i \<and> i < p + Suc n \<and> room m ! i \<notin> keep) m m2"
    by (rule hidden_cong [OF hidden_trans [OF 1(3) 2(3)]])
      (use hidden_nth [OF 1(3)] in \<open>auto simp: P_def le_less_Suc_eq Suc_le_eq\<close>)
  ultimately show ?case using 1(2) 2(2) by (auto simp: later_trans)
qed

section \<open>Names in DNS messages\<close>

text \<open>
  A name without compression: each label behind its length, the last one behind it is empty.
\<close>

fun name_at :: "mbuf \<Rightarrow> nat \<Rightarrow> u8 list list \<Rightarrow> bool" where
  "name_at m p [] \<longleftrightarrow> p < length (room m) \<and> room m ! p = 0"
| "name_at m p (l # ls) \<longleftrightarrow> 0 < length l \<and> length l < 128 \<and> 0 \<notin> set l
     \<and> p < length (room m) \<and> room m ! p = of_nat (length l)
     \<and> take (length l) (drop (Suc p) (room m)) = l \<and> name_at m (Suc p + length l) ls"

fun dotted :: "u8 list list \<Rightarrow> u8 list" where
  "dotted [] = []"
| "dotted [l] = l"
| "dotted (l # l' # ls) = l @ [46] @ dotted (l' # ls)"

text \<open>The number of its bytes, and the positions of the characters of its labels.\<close>

fun name_size :: "u8 list list \<Rightarrow> nat" where
  "name_size [] = 1"
| "name_size (l # ls) = Suc (length l) + name_size ls"

fun in_label :: "nat \<Rightarrow> u8 list list \<Rightarrow> nat \<Rightarrow> bool" where
  "in_label p [] i \<longleftrightarrow> False"
| "in_label p (l # ls) i \<longleftrightarrow> Suc p \<le> i \<and> i < Suc p + length l \<or> in_label (Suc p + length l) ls i"

lemma in_label_range: "in_label p ls i \<Longrightarrow> p < i"
  by (induction ls arbitrary: p) force+

lemma name_at_size: "name_at m p ls \<Longrightarrow> p + name_size ls \<le> length (room m)"
  by (induction ls arbitrary: p) force+

lemma name_at_cong:
  assumes "length (room m') = length (room m)" and "\<And>i. p \<le> i \<Longrightarrow> i < length (room m) \<Longrightarrow> room m' ! i = room m ! i"
  shows "name_at m' p ls = name_at m p ls"
  using assms
proof (induction ls arbitrary: p)
  case (Cons l ls)
  have "take (length l) (drop (Suc p) (room m')) = take (length l) (drop (Suc p) (room m))"
    by (rule nth_equalityI) (auto simp: Cons.prems)
  then show ?case using Cons.IH [of "Suc p + length l"] Cons.prems by (auto simp: le_imp_less_Suc)
qed auto

lemma name_at_length: "name_at m p (l # ls) \<Longrightarrow> sint (room m ! p) = int (length l)"
  and name_at_end: "name_at m p [] \<Longrightarrow> sint (room m ! p) = 0"
proof -
  assume a: "name_at m p (l # ls)"
  then have "unat (room m ! p) = length l" by (simp add: unat_of_nat)
  then have "uint (room m ! p) = int (length l)" by (metis uint_nat)
  then show "sint (room m ! p) = int (length l)"
    using a unfolding sint_uint by (simp add: signed_take_bit_int_eq_self)
qed simp


lemma read_label_name:
  "p + n \<le> length (room m) \<Longrightarrow> length nm + n \<le> NAME_DNS \<Longrightarrow>
     read_label m p n nm = Some (nm @ take n (drop p (room m)))"
proof (induction n arbitrary: p nm)
  case (Suc n)
  then show ?case
    using Cons_nth_drop_Suc [of p "room m"] by (simp add: get8_Some) (metis take_Suc_Cons)
qed simp

lemma too_long_iff:
  assumes "0 \<le> n" and "n < 2 ^ 63" and "int len + 12 \<le> dnslen" and "dnslen < 2 ^ 63"
  shows "too_long n dnslen len \<longleftrightarrow> dnslen - int len - 12 \<le> n"
proof -
  have e: "of_int dnslen - (of_nat len + 12) = (of_int (dnslen - int len - 12) :: u64)" by simp
  have u: "uint (of_int x :: u64) = x" if "0 \<le> x" "x < 2 ^ 63" for x
    using that by (simp add: uint_word_of_int)
  have d: "0 \<le> dnslen - int len - 12" "dnslen - int len - 12 < 2 ^ 63" using assms by simp_all
  show ?thesis unfolding too_long_def e word_le_def u [OF d] u [OF assms(1,2)] ..
qed

lemma read_question_name:
  assumes "name_at m p (l # ls)" and "int (p + name_size (l # ls)) - (int len + 12) + int len + 12 \<le> P"
    and "P - (int p - (int len + 12)) - int (length l) \<le> dnslen" and "len + 12 \<le> p" and "dnslen < 2 ^ 63"
    and "length nm + length (dotted (l # ls)) < NAME_DNS"
  shows "read_question m (Suc p) (int (length l)) dnslen len nm = Some (Some (nm @ dotted (l # ls)))"
  using assms
proof (induction ls arbitrary: p l dnslen nm)
  case Nil
  have r: "read_label m (Suc p) (length l) nm = Some (nm @ l)"
    using read_label_name [of "Suc p" "length l" m nm] Nil by simp
  have z: "Suc p + length l < length (room m)" "room m ! (Suc p + length l) = 0" using Nil by simp_all
  have t: "\<not> too_long 0 dnslen len" using Nil by (subst too_long_iff) auto
  show ?case
    using Nil r z t by (subst read_question.simps) (simp add: Let_def, subst read_question.simps, simp)
next
  case (Cons l' ls)
  let ?q = "Suc p + length l"
  have q: "name_at m ?q (l' # ls)" using Cons.prems(1) by simp
  have r: "read_label m (Suc p) (length l) nm = Some (nm @ l)"
    using read_label_name [of "Suc p" "length l" m nm] Cons.prems name_at_size [OF Cons.prems(1)] by simp
  have z: "?q < length (room m)" "sint (room m ! ?q) = int (length l')" "0 < length l'"
    using q name_at_length [OF q] by simp_all
  have t: "\<not> too_long (int (length l')) dnslen len" using Cons.prems q by (subst too_long_iff) auto
  have IH: "read_question m (Suc ?q) (int (length l')) (dnslen - int (length l')) len (nm @ l @ [46])
      = Some (Some ((nm @ l @ [46]) @ dotted (l' # ls)))"
    by (rule Cons.IH [OF q]) (use Cons.prems in auto)
  show ?case
    using Cons.prems r z t IH by (subst read_question.simps) (simp add: Let_def)
qed


text \<open>Replacing a name writes letters at the characters of its labels.\<close>

lemma hide_question_name:
  assumes "name_at m p ls"
  shows "\<exists>w' m'. hide_question w m (Suc p) (sint (room m ! p)) = Some (w', m', p + name_size ls)
    \<and> later w w' \<and> hidden (in_label p ls) m m'"
  using assms
proof (induction ls arbitrary: w m p)
  case Nil
  have "hidden (in_label p []) m m" by (rule hidden_cong [OF hidden_none]) simp
  then show ?case using name_at_end [OF Nil] by (subst hide_question.simps) (simp add: later_refl)
next
  case (Cons l ls)
  let ?q = "Suc p + length l"
  have n: "sint (room m ! p) = int (length l)" by (rule name_at_length [OF Cons.prems])
  have q: "name_at m ?q ls" "?q < length (room m)" "0 < length l"
    using Cons.prems name_at_size [OF Cons.prems] by (cases ls; simp)+
  obtain w1 m1 where 1: "scramble {} w m (Suc p) (length l) = Some (w1, m1)" "later w w1"
    "hidden (\<lambda>i. Suc p \<le> i \<and> i < ?q) m m1"
    using scramble_hidden [of "Suc p" "length l" m "{}" w] q(2) by auto
  have l: "length (room m1) = length (room m)" and b: "room m1 ! ?q = room m ! ?q"
    using hidden_shape(1) [OF 1(3)] hidden_nth [OF 1(3) q(2)] by simp_all
  have "name_at m1 ?q ls"
    by (subst name_at_cong [OF l]) (use hidden_nth [OF 1(3)] q(1) in auto)
  then obtain w2 m2 where 2: "hide_question w1 m1 (Suc ?q) (sint (room m1 ! ?q)) = Some (w2, m2, ?q + name_size ls)"
    "later w1 w2" "hidden (in_label ?q ls) m1 m2"
    using Cons.IH by blast
  have "hide_question w m (Suc p) (sint (room m ! p)) = Some (w2, m2, ?q + name_size ls)"
    using n q 1(1) 2(1) l b by (subst hide_question.simps) (simp add: get8_Some)
  moreover have "hidden (in_label p (l # ls)) m m2"
    by (rule hidden_cong [OF hidden_trans [OF 1(3) 2(3)]]) simp
  ultimately show ?case using 1(2) 2(2) by (auto simp: later_trans simp del: in_label.simps)
qed


lemma dotted_no_zero: "name_at m p ls \<Longrightarrow> cstr (dotted ls) = dotted ls"
proof -
  assume n: "name_at m p ls"
  have "0 \<notin> set (dotted ls)" using n by (induction ls arbitrary: p rule: dotted.induct) force+
  then show ?thesis unfolding cstr_def takeWhile_eq_all_conv by auto
qed

lemma dotted_not_empty: "name_at m p (l # ls) \<Longrightarrow> dotted (l # ls) \<noteq> []"
  by (cases ls) auto

lemma sint_pkt_len: "mbuf_ok m \<Longrightarrow> sint (pkt_len m) = int (unat (pkt_len m))"
proof -
  assume "mbuf_ok m"
  then have "unat (pkt_len m) < 2147483648" by (simp add: mbuf_ok_def)
  then have "int (unat (pkt_len m)) < int 2147483648" by (simp only: of_nat_less_iff)
  then have u: "uint (pkt_len m) < 2147483648" "0 \<le> uint (pkt_len m)" by simp_all
  have "signed_take_bit 31 x = x" if "0 \<le> x" "x < 2147483648" for x :: int
    by (rule signed_take_bit_int_eq_self) (use that in simp_all)
  then have "signed_take_bit 31 (uint (pkt_len m)) = uint (pkt_len m)" using u by blast
  then show ?thesis by (simp add: sint_uint)
qed

lemma dns_name_at:
  assumes "mbuf_ok m" and "name_at m (len + 12) (l # ls)"
    and "len + 12 + name_size (l # ls) \<le> unat (pkt_len m)" and "length (dotted (l # ls)) < NAME_DNS"
  shows "dns_name m (sint (pkt_len m)) len = Some (Some (dotted (l # ls)))"
proof -
  define N where "N = unat (pkt_len m)"
  have fits: "len + 12 + name_size (l # ls) \<le> N" using assms(3) by (simp add: N_def)
  have s: "sint (pkt_len m) = int N" "N < 2147483648"
    using sint_pkt_len [OF assms(1)] assms(1) by (simp_all add: N_def mbuf_ok_def)
  have n: "sint (room m ! (len + 12)) = int (length l)" by (rule name_at_length [OF assms(2)])
  have t: "\<not> too_long (int (length l)) (int N) len" using assms(2) fits s by (subst too_long_iff) auto
  have r: "read_question m (Suc (len + 12)) (int (length l)) ((int N) - int (length l)) len []
      = Some (Some ([] @ dotted (l # ls)))"
    by (rule read_question_name [OF assms(2)]) (use assms(4) fits s in auto)
  have "len + 12 < length (room m)" using assms(2) by simp
  then show ?thesis
    using n s t r dotted_no_zero [OF assms(2)] dotted_not_empty [OF assms(2)]
    by (simp add: dns_name_def get8_Some add.commute [of len])
qed

lemma dnsEntry_question:
  assumes "44 < length (room m)" and "room m ! 44 < 128" and "42 < unat (pkt_len m)"
  shows "dnsEntry w m 1 True f k d = dns_question w m 42 f k d"
proof -
  have "unat (room m ! 44) < 128" using assms(2) by (simp add: word_less_nat_alt)
  then have "dns_qr (room m ! 44) = 0" by (simp add: dns_qr_def drop_bit_eq_div word_arith_nat_div)
  then show ?thesis
    using assms(1,3) by (simp add: dnsEntry_def dns_header_extractor_def offset_extractor_def sizeof_defs get8_Some ntohs_def)
qed

section \<open>Skipping compressed names\<close>

text \<open>
  A name at \<open>p\<close> of a segment from \<open>s\<close> up to \<open>hi\<close>, which takes \<open>k\<close> bytes there: labels and the end, or a
  pointer to a name that lies before the segment.  \<open>b\<close> is the start of the message.
\<close>

inductive encodes :: "mbuf \<Rightarrow> nat \<Rightarrow> nat \<Rightarrow> nat \<Rightarrow> nat \<Rightarrow> nat \<Rightarrow> bool" for m b where
  encodes_end: "p < hi \<Longrightarrow> room m ! p = 0 \<Longrightarrow> encodes m b s hi p 1"
| encodes_label: "0 < n \<Longrightarrow> n < 192 \<Longrightarrow> room m ! p = of_nat n \<Longrightarrow>
    \<forall>i. p < i \<and> i \<le> p + n \<longrightarrow> 0 < room m ! i \<and> room m ! i < 192 \<Longrightarrow>
    p + n < hi \<Longrightarrow> encodes m b s hi (Suc p + n) k \<Longrightarrow> encodes m b s hi p (Suc n + k)"
| encodes_pointer: "Suc p < hi \<Longrightarrow> 192 \<le> room m ! p \<Longrightarrow>
    q = b + (unat (room m ! p) * 256 + unat (room m ! Suc p) - 49152) \<Longrightarrow> q < s \<Longrightarrow>
    encodes m b q s q k \<Longrightarrow> encodes m b s hi p 2"

lemma read_name_chars:
  assumes "first + j = cnt" and "p + j \<le> length (room m)"
    and "\<forall>i. p \<le> i \<and> i < p + j \<longrightarrow> 0 < room m ! i \<and> room m ! i < 192"
  shows "\<exists>w' m'. read_name_loop w m p b first cnt True jumped count
      = read_name_loop w' m' (p + j) b cnt cnt True jumped (if jumped then count else count + j)
    \<and> hidden (\<lambda>i. p \<le> i \<and> i < p + j) m m'"
  using assms
proof (induction j arbitrary: w m p first count)
  case 0
  then show ?case using hidden_cong [OF hidden_none, of m "\<lambda>i. p \<le> i \<and> i < p"] by fastforce
next
  case (Suc j)
  have c: "room m ! p \<noteq> 0" "\<not> 192 \<le> room m ! p" using Suc.prems(3) by auto
  obtain m1 where 1: "put_random w m p = Some (w\<lparr>w_ticks := Suc (w_ticks w)\<rparr>, m1)" "hidden (\<lambda>i. i = p) m m1"
    using put_random_hidden [of p m w] Suc.prems(2) by auto
  define w1 where "w1 = w\<lparr>w_ticks := Suc (w_ticks w)\<rparr>"
  define count1 where "count1 = (if jumped then count else count + 1)"
  have step: "read_name_loop w m p b first cnt True jumped count
    = read_name_loop w1 m1 (Suc p) b (first + 1) cnt True jumped count1"
    using c 1(1) Suc.prems(1,2) by (subst read_name_loop.simps) (simp add: get8_Some w1_def count1_def)
  have l: "length (room m1) = length (room m)" by (rule hidden_shape(1) [OF 1(2)])
  obtain w2 m2 where 2: "read_name_loop w1 m1 (Suc p) b (first + 1) cnt True jumped count1
      = read_name_loop w2 m2 (Suc p + j) b cnt cnt True jumped (if jumped then count1 else count1 + j)"
    "hidden (\<lambda>i. Suc p \<le> i \<and> i < Suc p + j) m1 m2"
  proof -
    have "\<forall>i. Suc p \<le> i \<and> i < Suc p + j \<longrightarrow> 0 < room m1 ! i \<and> room m1 ! i < 192"
      using hidden_nth [OF 1(2)] Suc.prems(2,3) by auto
    then show ?thesis using Suc.IH [of "first + 1" "Suc p" m1 w1 count1] Suc.prems l that by auto
  qed
  have "hidden (\<lambda>i. p \<le> i \<and> i < p + Suc j) m m2"
    by (rule hidden_cong [OF hidden_trans [OF 1(2) 2(2)]]) auto
  then show ?case using step 2(1) by (auto simp: count1_def)
qed

lemma read_name_loop_encoded:
  assumes "encodes m b s hi p k" and "s \<le> p" and "hi \<le> length (room m)"
    and "length (room m') = length (room m)"
    and "\<forall>i. i < s \<or> p \<le> i \<and> i < hi \<longrightarrow> room m' ! i = room m ! i"
    and "if ctrl then first = cnt else first = 0"
  shows "\<exists>w' m''. read_name_loop w m' p b first cnt ctrl jumped count
    = Some (w', m'', if jumped then count + 1 else count + k - 1)"
  using assms
proof (induction arbitrary: w m' first cnt ctrl jumped count rule: encodes.induct)
  case (encodes_end p hi s)
  then show ?case by (subst read_name_loop.simps) (auto simp: get8_Some)
next
  case (encodes_label n p hi s k)
  have b: "get8 m' p = Some (of_nat n)" using encodes_label by (simp add: get8_Some)
  have "unat (of_nat n :: u8) = n" using encodes_label(2) by (simp add: unat_of_nat)
  then have n: "(of_nat n :: u8) \<noteq> 0" "\<not> (192 :: u8) \<le> of_nat n" "unat (of_nat n :: u8) = n"
    using encodes_label(1,2) by (auto simp: word_le_nat_alt)
  define count1 where "count1 = (if jumped then count else count + 1)"
  have 1: "read_name_loop w m' p b first cnt ctrl jumped count
      = read_name_loop w m' (Suc p) b 0 n True jumped count1"
    using b n encodes_label.prems(5) by (cases ctrl; subst read_name_loop.simps) (auto simp: count1_def)
  obtain w2 m2 where 2: "read_name_loop w m' (Suc p) b 0 n True jumped count1
      = read_name_loop w2 m2 (Suc p + n) b n n True jumped (if jumped then count1 else count1 + n)"
    "hidden (\<lambda>i. Suc p \<le> i \<and> i < Suc p + n) m' m2"
    using read_name_chars [of 0 n n "Suc p" m' w b jumped count1] encodes_label by (auto simp: Suc_le_eq)
  have "\<forall>i. i < s \<or> Suc p + n \<le> i \<and> i < hi \<longrightarrow> room m2 ! i = room m ! i"
    using hidden_nth [OF 2(2)] encodes_label.prems encodes_label.hyps(5) by auto
  then show ?case
    unfolding 1 2(1) using encodes_label.IH [of m2 True n n w2 jumped "if jumped then count1 else count1 + n"]
      encodes_label.prems hidden_shape(1) [OF 2(2)] by (auto simp: count1_def)
next
  case (encodes_pointer p hi q s k)
  then have c: "get8 m' p = Some (room m ! p)" "get8 m' (p + 1) = Some (room m ! Suc p)" "room m ! p \<noteq> 0"
    by (auto simp: get8_Some)
  have "read_name_loop w m' p b first cnt ctrl jumped count
      = read_name_loop w m' q b first cnt ctrl True count"
    using c encodes_pointer(2,3) by (subst read_name_loop.simps) simp
  then show ?case using encodes_pointer.IH [of m' ctrl first cnt w True count] encodes_pointer by auto
qed

lemma read_label_overflow:
  assumes "NAME_DNS < length nm + n" and "length nm \<le> NAME_DNS"
  shows "read_label m p n nm = None"
  using assms by (induction n arbitrary: p nm) (auto simp: get8_def)

section \<open>Host names\<close>

lemma read_host_copies:
  assumes "read_host m ptr len nm = Some (Some (nm', len'))"
  shows "\<exists>n. nm' = nm @ take n (drop ptr (room m)) \<and> ptr + n < length (room m)"
  using assms
proof (induction "64 - length nm" arbitrary: ptr len nm rule: less_induct)
  case less
  obtain c where c: "get8 m ptr = Some c"
    using less.prems by (subst (asm) read_host.simps) (auto split: Option.bind_splits)
  then have p: "ptr < length (room m)" "c = room m ! ptr" by (auto simp: get8_def split: if_splits)
  show ?case
  proof (cases "line_end c")
    case True
    then show ?thesis using less.prems c p(1) by (subst (asm) read_host.simps) (auto intro: exI [of _ 0])
  next
    case False
    then have "length nm \<le> 63" and r: "read_host m (Suc ptr) (Suc len) (nm @ [c]) = Some (Some (nm', len'))"
      using less.prems c by (subst (asm) read_host.simps, auto split: if_splits)+
    then obtain n where "nm' = (nm @ [c]) @ take n (drop (Suc ptr) (room m))" "Suc ptr + n < length (room m)"
      using less.hyps [OF _ r] \<open>length nm \<le> 63\<close> by fastforce
    then show ?thesis
      using p Cons_nth_drop_Suc [OF p(1)] by (intro exI [of _ "Suc n"]) (auto simp flip: Cons_nth_drop_Suc)
  qed
qed

lemma hide_request_host:
  assumes "hide_request w m pkt l h nm = Some (w', m')"
  shows "\<exists>w1 m1. scramble {46} w m h (length nm) = Some (w1, m1) \<and> lettered m1 m'"
  using assms unfolding hide_request_def Let_def
  by (auto split: Option.bind_splits if_splits option.splits dest!: hide_path_letters hide_referrer_letters)
    (meson lettered_trans)+

lemma lettered_letter: "lettered m m' \<Longrightarrow> i < length (room m) \<Longrightarrow> letter (room m ! i) \<Longrightarrow> letter (room m' ! i)"
  unfolding lettered_def letter_def by metis


end
