(* ===== verification/Handler_Properties.thy ===== *)
theory Handler_Properties
  imports Packet_Properties Hiding Names_Properties
begin

text \<open>
  Properties of the handlers of names and external addresses: what they hide, when, and what they miss.
\<close>

section \<open>External addresses\<close>

lemma put32_loads:
  assumes "put32 m p a = Some m'"
  shows "get32 m' p = Some a"
  using assms by (simp add: put32_def get32_bytes32)

lemma put32_Some: "p + 4 \<le> length (room m) \<Longrightarrow> \<exists>m'. put32 m p a = Some m'"
  by (simp add: put32_def put_bytes_def bytes32_def)

lemma decide_passes:
  "find_connection w f = Some (w1, fl) \<Longrightarrow> toAnon (get_flow w1 fl) = 0 \<Longrightarrow> decide w m f handler = Some (w1, m)"
  by (simp add: decide_def)

text \<open>
  C36.  A decision for an external address lasts one packet.  A packet of a connection that is to be
  anonymised gets the address of the connection, but leaves it marked as not to be anonymised: the
  handler that adds nothing to \<^verbatim>\<open>flag\<close> overwrites \<^verbatim>\<open>toAnon\<close> with 0.  Every later packet of the connection
  then passes unchanged, with the address it came with.
\<close>

theorem external_decision_lapses:
  fixes f :: flow and k d :: int
  assumes "find_connection w f = Some (w1, fl)" and "toAnon (get_flow w1 fl) = 1"
    and "map_option ntohs (get16 m 12) = Some 0x0800" and "34 \<le> length (room m)"
    and "w_flows w (flow_hash f) \<noteq> []" and "\<not> w_oom w (w_ticks w)"
    and "probability (w_clock w (w_ticks w)) \<le> 50" and "probability (w_clock w (Suc (w_ticks w))) \<le> 50"
  defines "handler \<equiv> \<lambda>m w fl. external_ip w m 1 fl f k d"
  shows "\<exists>w2 m2. decide w m f (handler m) = Some (w2, m2)
    \<and> get32 m2 30 = Some (ipv4_anon (get_flow w1 fl))
    \<and> (\<forall>m t. \<exists>w3. decide w2 m (f\<lparr>timestamp := t\<rparr>) (handler m) = Some (w3, m))"
proof -
  let ?a = "ipv4_anon (get_flow w1 fl)"
  obtain h c fs where fl: "fl = (h, c)"
    and r: "reference_flow (w_flows w) f (w_clock w (w_ticks w)) (Some (w_entry w (w_ticks w))) = Some (fs, h, c)"
    and w1: "w1 = w\<lparr>w_ticks := Suc (w_ticks w), w_flows := fs\<rparr>"
    using assms(1,6) by (auto simp: find_connection_def rte_get_tsc_cycles_def Let_def split: Option.bind_splits)
  note again = entry_found_again [OF r assms(5) _ assms(7), simplified]
  obtain m2 where m2: "put32 m 30 ?a = Some m2" using put32_Some [of 30 m ?a] assms(4) by auto
  have "external_ip w1 m 1 fl f k d = Some (w1, m2, 0)"
    using assms(2,3) m2 by (auto simp: external_ip_def Let_def sizeof_defs)
  then have 1: "decide w m f (handler m) = Some (set_toAnon w1 fl 0, m2)"
    using assms(1,2) by (simp add: decide_def handler_def)
  have "\<exists>w3. find_connection (set_toAnon w1 fl 0) (f\<lparr>timestamp := t\<rparr>) = Some (w3, fl)
    \<and> toAnon (get_flow w3 fl) = 0" for t
    using again(3) [of "(fs h ! c)\<lparr>toAnon := 0\<rparr>" "w_clock w (Suc (w_ticks w))" "f\<lparr>timestamp := t\<rparr>"] again(1,2) assms(8)
    by (auto simp: find_connection_def rte_get_tsc_cycles_def set_toAnon_def set_flow_def get_flow_def w1 fl)
  then have "\<exists>w3. decide (set_toAnon w1 fl 0) m (f\<lparr>timestamp := t\<rparr>) hd = Some (w3, m)" for m t hd
    by (metis decide_passes)
  then show ?thesis using 1 put32_loads [OF m2] by blast
qed

definition after_decision :: "world \<Rightarrow> world" where
  "after_decision w = w\<lparr>w_flows := (\<lambda>_. [(new_flow blank_flow (https 1 2 0))\<lparr>ipv4_anon := 7, toAnon := 1\<rparr>]),
     w_clock := (\<lambda>_. 0), w_oom := (\<lambda>_. False)\<rparr>"

definition ipv4_room :: "u8 list" where
  "ipv4_room = (replicate 60 0)[12 := 8]"

theorem external_decision_lapses_witness:
  "\<forall>w. \<exists>w2 m2. decide (after_decision w) (mk_packet ipv4_room 60) (https 1 2 1)
        (\<lambda>w fl. external_ip w (mk_packet ipv4_room 60) 1 fl (https 1 2 1) 5 10) = Some (w2, m2)
      \<and> get32 m2 30 = Some 7"
proof
  fix w
  let ?w = "after_decision w" and ?f = "https 1 2 1" and ?m = "mk_packet ipv4_room 60"
  let ?e = "(new_flow blank_flow (https 1 2 0))\<lparr>ipv4_anon := 7, toAnon := 1\<rparr>"
  have "flow_match ?e ?f" by (simp add: flow_match_def new_flow_def https_def flow_at_def)
  then obtain w1 where w1: "find_connection ?w ?f = Some (w1, flow_hash ?f, 0)" "get_flow w1 (flow_hash ?f, 0) = ?e\<lparr>t_timestamp := 1\<rparr>"
    by (auto simp: find_connection_def after_decision_def rte_get_tsc_cycles_def reference_flow_def probability_values
        bucket_flow_def find_flow.simps get_flow_def Let_def https_def flow_at_def)
  show "\<exists>w2 m2. decide ?w ?m ?f (\<lambda>w fl. external_ip w ?m 1 fl ?f 5 10) = Some (w2, m2) \<and> get32 m2 30 = Some 7"
    using external_decision_lapses [OF w1(1), of ?m 5 10] w1(2)
    by (force simp: mk_packet_def ipv4_room_def get16_def get8_def ntohs_def after_decision_def probability_values)
qed

section \<open>Names in messages\<close>

text \<open>A world in which no name has been used yet, for the examples.\<close>

definition fresh_world :: "world \<Rightarrow> world" where
  "fresh_world w = w\<lparr>w_heap := empty_heap, w_names := table_init blank_table, w_oom := (\<lambda>_. False)\<rparr>"

lemma add_name_fresh:
  assumes "ipv f = 4" and "length nm < NAME_DNS" and "0 \<le> k" and "0 \<le> d"
  obtains w1 ret where "add_name (fresh_world w) f nm k d = Some (w1, ret)" and "ret \<le> 1"
    and "w_clock w1 = w_clock w"
proof -
  let ?n = "w_ticks w"
  let ?q = "\<lparr>req_flow = f, req_name = nm, req_tsc = w_clock w ?n, req_i = w_int w ?n, req_oom = False,
    req_junk = w_client w ?n\<rparr>"
  have ft: "fresh_table (table_init blank_table)"
    by (simp add: fresh_table_def table_init_def blank_table_def new_names_def no_client_def)
  have ok: "req_ok ?q" using assms by (simp add: req_ok_def)
  have o: "0 < brk empty_heap" by (simp add: empty_heap_def)
  obtain h db rs where r: "table_run empty_heap (table_init blank_table) k d [?q] = Some (h, db, rs)"
    "length rs = 1" "sound_result k d [?q] (rs ! 0)"
    using table_run_sound [OF ft o no_oom_empty assms(4,3), of "[?q]"] ok by auto
  obtain ret where t: "table_add empty_heap (table_init blank_table) f nm k d (w_clock w ?n) (w_int w ?n) False
      (w_client w ?n) = Some (h, db, ret)" "rs = [ret]"
    using r(1) by (auto split: Option.bind_splits)
  have "users nm [?q] = {source f}" by (auto simp: users_def)
  then have "ret \<le> 1" using r(3) t(2) by (simp add: sound_result_def)
  then show ?thesis
    using that t(1) by (simp add: add_name_def fresh_world_def rte_get_tsc_cycles_def)
qed

text \<open>
  C11.  The server name of a TLS client hello.  Its extension is let through with a name that enough
  clients used, and otherwise every character of the name but the dots becomes a letter, nothing
  else changes, and the handler reports it.  The name is neither counted nor hidden when the memory
  behind it does not continue with a zero byte: the code compares the announced length with that
  of the C string.
\<close>

theorem server_name_hidden:
  fixes k d :: int
  assumes "map_option ntohs (get16 m cur) = Some 0" and "cur < maxchar" and "get16 m (cur + 2) \<noteq> None"
    and "map_option (unat \<circ> ntohs) (get16 m (cur + 7)) = Some n" and "string_at m (cur + 9) = Some s"
    and "add_name w f s k d = Some (w1, ret)"
  shows "if n = 0 \<or> n \<noteq> length s then extensions w m cur maxchar f k d = Some (w, m, 0)
    else if ret < k then \<exists>w2 m2. extensions w m cur maxchar f k d = Some (w2, m2, 1)
      \<and> hidden (\<lambda>i. cur + 9 \<le> i \<and> i < cur + 9 + n \<and> room m ! i \<noteq> 46) m m2
    else extensions w m cur maxchar f k d = Some (w1, m, 0)"
proof -
  have e: "extensions w m cur maxchar f k d = server_name w m (cur + 4) f k d"
    using assms(1-3) by (subst extensions.simps) auto
  have len: "cur + 9 + length s \<le> length (room m)"
  proof -
    have "0 \<in> set (drop (cur + 9) (room m))" "s = cstr (drop (cur + 9) (room m))"
      using assms(5) by (auto simp: string_at_def Let_def split: if_splits)
    then have "cur + 9 < length (room m)" "length s \<le> length (room m) - (cur + 9)"
      using length_takeWhile_le [of "\<lambda>c. c \<noteq> 0" "drop (cur + 9) (room m)"]
      by (auto simp: cstr_def) (metis drop_all empty_iff empty_set leI)
    then show ?thesis by linarith
  qed
  have s: "server_name w m (cur + 4) f k d =
    (if n = 0 \<or> n \<noteq> length s then Some (w, m, 0)
     else if ret < k then do { (w, m) \<leftarrow> scramble {46} w1 m (cur + 9) n; Some (w, m, 1) }
     else Some (w1, m, 0))"
  proof -
    have a: "cur + 4 + 3 = cur + 7" "cur + 7 + 2 = cur + 9" by simp_all
    show ?thesis using assms(4-6) unfolding server_name_def Let_def a by auto
  qed
  show ?thesis
    using scramble_hidden [of "cur + 9" n m "{46}" w1] len unfolding e s by auto
qed


theorem server_name_hidden_witness:
  "\<forall>w. \<exists>w2 m2. extensions (fresh_world w) (mk_packet [0, 0, 0, 0, 0, 0, 0, 0, 3, 97, 46, 98, 0] 13) 0 13 (flow_at 0) 2 10
      = Some (w2, m2, 1) \<and> letter (room m2 ! 9) \<and> room m2 ! 10 = 46 \<and> letter (room m2 ! 11) \<and> room m2 ! 12 = 0"
proof
  fix w
  let ?m = "mk_packet [0, 0, 0, 0, 0, 0, 0, 0, 3, 97, 46, 98, 0] 13"
  obtain w1 ret where a: "add_name (fresh_world w) (flow_at 0) [97, 46, 98] 2 10 = Some (w1, ret)" "ret \<le> 1"
    by (rule add_name_fresh [of "flow_at 0" "[97, 46, 98]" 2 10 w]) (simp_all add: flow_at_def NAME_DNS_def)
  obtain w2 m2 where "extensions (fresh_world w) ?m 0 13 (flow_at 0) 2 10 = Some (w2, m2, 1)"
    "hidden (\<lambda>i. 9 \<le> i \<and> i < 12 \<and> room ?m ! i \<noteq> 46) ?m m2"
    using server_name_hidden [of ?m 0 13 3 "[97, 46, 98]" "fresh_world w" "flow_at 0" 2 10 w1 ret] a
    by (auto simp: get16_def get8_def mk_packet_def ntohs_def string_at_def cstr_def)
  then show "\<exists>w2 m2. extensions (fresh_world w) ?m 0 13 (flow_at 0) 2 10 = Some (w2, m2, 1)
      \<and> letter (room m2 ! 9) \<and> room m2 ! 10 = 46 \<and> letter (room m2 ! 11) \<and> room m2 ! 12 = 0"
    by (auto simp: hidden_def mk_packet_def)
qed

lemma question_hidden:
  fixes k d :: int
  assumes "mbuf_ok m" and "44 < length (room m)" and "room m ! 44 < 128" and "name_at m 54 (l # ls)"
    and "54 + name_size (l # ls) \<le> unat (pkt_len m)" and "length (dotted (l # ls)) < NAME_DNS"
    and "add_name w f (dotted (l # ls)) k d = Some (w1, ret)"
  shows "if ret < k then \<exists>w2 m2. dnsEntry w m 1 True f k d = Some (w2, m2) \<and> hidden (in_label 54 (l # ls)) m m2
    else dnsEntry w m 1 True f k d = Some (w1, m)"
proof -
  have e: "dnsEntry w m 1 True f k d = dns_question w m 42 f k d"
    by (rule dnsEntry_question) (use assms(2,3,5) in simp_all)
  have "dns_name m (sint (pkt_len m)) 42 = Some (Some (dotted (l # ls)))"
    using dns_name_at [of m 42 l ls] assms by simp
  moreover have "54 < length (room m)" using assms(4) by simp
  moreover obtain w2 m2 where "hide_question w1 m 55 (sint (room m ! 54)) = Some (w2, m2, 54 + name_size (l # ls))"
    "hidden (in_label 54 (l # ls)) m m2"
    using hide_question_name [OF assms(4)] by (metis Suc_numeral add_One semiring_norm(5))
  ultimately show ?thesis
    using assms(5,7) unfolding e dns_question_def by (auto simp: get8_Some)
qed

text \<open>
  C10.  DNS questions.  A message that asks for a name without compression, and contains it, is let
  through if enough clients used the name, and otherwise becomes one in which the characters of
  all labels are letters and nothing else differs.
\<close>

theorem dns_question_hidden:
  fixes k d :: int
  assumes "mbuf_ok m" and "44 < length (room m)" and "room m ! 44 < 128" and "name_at m 54 (l # ls)"
    and "54 + name_size (l # ls) \<le> unat (pkt_len m)" and "length (dotted (l # ls)) < NAME_DNS"
    and "add_name w f (dotted (l # ls)) k d = Some (w1, ret)"
  shows "if ret < k then \<exists>w2 m2. dnsEntry w m 1 True f k d = Some (w2, m2) \<and> hidden (in_label 54 (l # ls)) m m2
    else dnsEntry w m 1 True f k d = Some (w1, m)"
  by (rule question_hidden [OF assms])

definition dns_room :: "u8 list" where
  "dns_room = replicate 54 0 @ [3, 119, 119, 119, 0, 0, 1, 0, 1, 0xC0, 12, 0, 1]"

theorem dns_question_hidden_witness:
  "\<forall>w. \<exists>w2 m2. dnsEntry (fresh_world w) (mk_packet dns_room 67) 1 True (flow_at 0) 2 10 = Some (w2, m2)
    \<and> room m2 ! 54 = 3 \<and> letter (room m2 ! 55) \<and> letter (room m2 ! 57) \<and> room m2 ! 58 = 0"
proof
  fix w
  let ?m = "mk_packet dns_room 67"
  obtain w1 ret where a: "add_name (fresh_world w) (flow_at 0) [119, 119, 119] 2 10 = Some (w1, ret)" "ret \<le> 1"
    by (rule add_name_fresh [of "flow_at 0" "[119, 119, 119]" 2 10 w]) (simp_all add: flow_at_def NAME_DNS_def)
  have r: "room ?m ! 54 = 3" "room ?m ! 55 = 119" "room ?m ! 56 = 119" "room ?m ! 57 = 119" "room ?m ! 58 = 0"
    "room ?m ! 44 = 0" "length (room ?m) = 67" "unat (pkt_len ?m) = 67" "take (Suc (Suc (Suc 0))) (drop 55 (room ?m)) = [119, 119, 119]"
    by (simp_all add: mk_packet_def dns_room_def nth_append)
  obtain w2 m2 where "dnsEntry (fresh_world w) ?m 1 True (flow_at 0) 2 10 = Some (w2, m2)"
    "hidden (in_label 54 [[119, 119, 119]]) ?m m2"
    using dns_question_hidden [of ?m "[119, 119, 119]" "[]" "fresh_world w" "flow_at 0" 2 10 w1 ret] a r
    by (auto simp: mbuf_ok_def NAME_DNS_def)
  then show "\<exists>w2 m2. dnsEntry (fresh_world w) ?m 1 True (flow_at 0) 2 10 = Some (w2, m2)
      \<and> room m2 ! 54 = 3 \<and> letter (room m2 ! 55) \<and> letter (room m2 ! 57) \<and> room m2 ! 58 = 0"
    using r by (auto simp: hidden_def)
qed

text \<open>
  C24.  Termination.  \<^verbatim>\<open>ReadName\<close> returns on every name whose pointers lead to names that lie before
  the part with the pointer, however many there are.  It reports the bytes the name takes in its place and
  writes letters only.
\<close>

theorem ReadName_returns:
  assumes "encodes m b p (length (room m)) p k" and "\<not> w_oom w (w_ticks w)"
  shows "\<exists>w' m'. ReadName w m p b = Some (w', m', k, False) \<and> lettered m m'"
proof -
  have k: "0 < k" using assms(1) by (cases rule: encodes.cases) auto
  obtain w' m' where "read_name_loop w m p b 0 0 False False 1 = Some (w', m', 1 + k - 1)"
    using read_name_loop_encoded [OF assms(1), of m False 0 0 w False 1] by auto
  then have "ReadName w m p b = Some (w', m', k, False)" using assms(2) k by (simp add: ReadName_def)
  then show ?thesis using ReadName_letters by blast
qed


theorem ReadName_returns_witness:
  "\<forall>w. \<exists>w' m'. ReadName (fresh_world w) (mk_packet dns_room 67) 63 42 = Some (w', m', 2, False)"
proof
  fix w
  let ?m = "mk_packet dns_room 67"
  have r: "room ?m ! 54 = 3" "room ?m ! 55 = 119" "room ?m ! 56 = 119" "room ?m ! 57 = 119" "room ?m ! 58 = 0"
    "room ?m ! 63 = 0xC0" "room ?m ! 64 = 12" "length (room ?m) = 67"
    by (simp_all add: mk_packet_def dns_room_def nth_append)
  have c: "0 < room ?m ! i \<and> room ?m ! i < 192" if "54 < i \<and> i \<le> 54 + 3" for i
  proof -
    have "i = 55 \<or> i = 56 \<or> i = 57" using that by linarith
    then show ?thesis using r by auto
  qed
  have "encodes ?m 42 54 63 (Suc 54 + 3) 1" by (rule encodes_end) (simp_all add: r)
  then have "encodes ?m 42 54 63 54 (Suc 3 + 1)"
    by (rule encodes_label [rotated -1]) (use c r in simp_all)
  then have "encodes ?m 42 63 67 63 2" by (rule encodes_pointer [rotated 4]) (simp_all add: r)
  then show "\<exists>w' m'. ReadName (fresh_world w) ?m 63 42 = Some (w', m', 2, False)"
    using ReadName_returns [of ?m 42 63 2 "fresh_world w"] r(8) by (auto simp: fresh_world_def)
qed


text \<open>
  C40.  A question with four labels of 127 characters in a row is copied beyond the end of \<^verbatim>\<open>name[500]\<close>:
  the length is checked between the labels only.
\<close>

theorem long_query_name_overflows:
  assumes "mbuf_ok m" and "600 \<le> unat (pkt_len m)" and "room m ! 44 < 128"
    and "room m ! 54 = 127" and "room m ! 182 = 127" and "room m ! 310 = 127" and "room m ! 438 = 127"
  shows "dnsEntry w m 1 True f k d = None"
proof -
  define N where "N = unat (pkt_len m)"
  have N: "600 \<le> N" "N < 2147483648" "N \<le> length (room m)"
    using assms(1,2) by (simp_all add: mbuf_ok_def N_def)
  have s: "sint (pkt_len m) = int N" using sint_pkt_len [OF assms(1)] by (simp add: N_def)
  have b: "sint (127 :: u8) = 127" by (simp add: sint_uint signed_take_bit_int_eq_self)
  have label: "read_question m p 127 D 42 nm
      = read_question m (p + 128) 127 (D - 127) 42 (nm @ take 127 (drop p (room m)) @ [46])"
    if "p + 127 < 600" "room m ! (p + 127) = 127" "length nm + 127 < NAME_DNS" "181 < D" "D \<le> int N" for p D nm
  proof -
    have r: "read_label m p 127 nm = Some (nm @ take 127 (drop p (room m)))"
      by (rule read_label_name) (use that N in auto)
    have t: "\<not> too_long 127 D 42" using that N by (subst too_long_iff) auto
    show ?thesis using that r t N b by (subst read_question.simps) (simp add: Let_def add.commute [of p])
  qed
  have full: "read_question m p 127 D 42 nm = None" if "373 < length nm" "length nm \<le> NAME_DNS" for p D nm
    using read_label_overflow [of nm 127 m p] that by (subst read_question.simps) (simp add: NAME_DNS_def)
  have l: "length (take 127 (drop p (room m))) = 127" if "p + 127 < 600" for p using that N by simp
  have "read_question m 55 127 (int N - 127) 42 [] = None"
    using label [of 55 "[]" "int N - 127"] assms(5)
      label [of 183 "take 127 (drop 55 (room m)) @ [46]" "int N - 254"] assms(6)
      label [of 311 "take 127 (drop 55 (room m)) @ [46] @ take 127 (drop 183 (room m)) @ [46]" "int N - 381"] assms(7)
      full [of "take 127 (drop 55 (room m)) @ [46] @ take 127 (drop 183 (room m)) @ [46]
        @ take 127 (drop 311 (room m)) @ [46]" 439 "int N - 508"] N l [of 55] l [of 183] l [of 311]
    by (simp add: NAME_DNS_def)
  moreover have "\<not> too_long 127 (int N) 42" using N by (subst too_long_iff) auto
  ultimately have "dns_name m (sint (pkt_len m)) 42 = None"
    using N b assms(4) by (simp add: dns_name_def get8_Some s)
  then have "dns_question w m 42 f k d = None" using N(1) by (simp add: dns_question_def N_def)
  then show ?thesis using dnsEntry_question [of m w f k d] assms(3) N by (simp add: N_def)
qed

definition long_query :: "u8 list" where
  "long_query = (replicate 600 97)[44 := 0, 54 := 127, 182 := 127, 310 := 127, 438 := 127]"

theorem long_query_name_overflows_witness:
  "\<forall>w. dnsEntry w (mk_packet long_query 600) 1 True (flow_at 0) 2 10 = None"
  by (intro allI long_query_name_overflows) (simp_all add: mk_packet_def long_query_def mbuf_ok_def)

text \<open>
  C12.  HTTP requests.  If the handler returns, either the packet is as it was, or there is a host
  name in it that was counted and found not used enough, the handler reports it, every character of the name
  but the dots is a letter, and no byte of the packet has become anything but a letter.
\<close>

theorem http_host_hidden:
  fixes k d :: int
  assumes "httpEntry w m 0 True off f k d = Some (w', m', flag)"
  shows "flag = 0 \<and> m' = m \<or>
    (\<exists>pkt h nm w1 ret. flag = 1 \<and> http_header_extractor m 0 True = Some (Some pkt)
      \<and> search_at m pkt HOST_str = Some (Some h) \<and> nm \<noteq> [] \<and> take (length nm) (drop (h + 6) (room m)) = nm
      \<and> add_name w f nm k d = Some (w1, ret) \<and> ret < k \<and> lettered m m'
      \<and> (\<forall>i. h + 6 \<le> i \<and> i < h + 6 + length nm \<and> room m ! i \<noteq> 46 \<longrightarrow> letter (room m' ! i)))"
proof (cases "flag = 0 \<and> m' = m")
  case False
  obtain pkt h nm len w1 ret where o: "flag = 1" "http_header_extractor m 0 True = Some (Some pkt)"
    "search_at m pkt HOST_str = Some (Some h)" "read_host m (h + 6) len [] = Some (Some nm)"
    "cstr (fst nm) \<noteq> []" "add_name w f (cstr (fst nm)) k d = Some (w1, ret)" "ret < k"
    "\<exists>l. hide_request w1 m pkt l (h + 6) (cstr (fst nm)) = Some (w', m')"
    using assms False unfolding httpEntry_def Let_def
    by (auto split: Option.bind_splits if_splits option.splits prod.splits) blast
  obtain n where n: "fst nm = take n (drop (h + 6) (room m))" "h + 6 + n < length (room m)"
    using read_host_copies [of m "h + 6" len "[]" "fst nm" "snd nm"] o(4) by auto
  let ?nm = "cstr (fst nm)"
  have c1: "take (length ?nm) (fst nm) = ?nm" unfolding cstr_def by (rule takeWhile_eq_take [symmetric])
  have c: "length ?nm \<le> n"
    using length_takeWhile_le [of "\<lambda>c. c \<noteq> 0" "fst nm"] n by (simp add: cstr_def)
  then have t: "take (length ?nm) (drop (h + 6) (room m)) = ?nm" using c1 unfolding n(1) by (simp add: min_absorb1)
  obtain w2 m2 where s: "scramble {46} w1 m (h + 6) (length ?nm) = Some (w2, m2)" "lettered m2 m'"
    using o(8) hide_request_host by blast
  then have hid: "hidden (\<lambda>i. h + 6 \<le> i \<and> i < h + 6 + length ?nm \<and> room m ! i \<notin> {46}) m m2"
    using scramble_hidden [of "h + 6" "length ?nm" m "{46}" w1] c n(2) by auto
  have "letter (room m' ! i)" if "h + 6 \<le> i \<and> i < h + 6 + length ?nm \<and> room m ! i \<noteq> 46" for i
  proof -
    have "i < length (room m)" using that c n(2) by linarith
    then show ?thesis
      using hid that lettered_letter [OF s(2)] hidden_shape(1) [OF hid] by (auto simp: hidden_def)
  qed
  moreover have "lettered m m'" by (rule httpEntry_letters [OF assms])
  ultimately show ?thesis using o t by blast
qed simp

definition http_room :: "u8 list" where
  "http_room = replicate 46 0 @ [0x50] @ replicate 7 0 @
     [71, 69, 84, 32, 47, 32, 72, 84, 84, 80, 13, 10, 72, 111, 115, 116, 58, 32, 97, 46, 98, 13, 10, 0]"

theorem http_host_hidden_witness:
  "\<forall>w. \<exists>w' m'. httpEntry (fresh_world (w\<lparr>w_clock := \<lambda>_. 0\<rparr>)) (mk_packet http_room 80) 0 True 0x50 (flow_at 0) 2 10
      = Some (w', m', 1) \<and> letter (room m' ! 72)"
proof
  fix w
  let ?w = "fresh_world (w\<lparr>w_clock := \<lambda>_. 0\<rparr>)" and ?m = "mk_packet http_room 80"
  obtain w1 ret where a: "add_name ?w (flow_at 0) [97, 46, 98] 2 10 = Some (w1, ret)" "ret \<le> 1" "w_clock w1 = (\<lambda>_. 0)"
    using add_name_fresh [of "flow_at 0" "[97, 46, 98]" 2 10 "w\<lparr>w_clock := \<lambda>_. 0\<rparr>"]
    by (auto simp: flow_at_def NAME_DNS_def)
  have e: "http_header_extractor ?m 0 True = Some (Some 54)" "offset_extractor_http 0 True 0x50 = Some 54"
    by (simp_all add: http_header_extractor_def offset_extractor_http_def get8_def mk_packet_def http_room_def
        nth_append sizeof_defs)
  have h: "search_at ?m 54 HOST_str = Some (Some 66)"
    by (simp add: search_at_def mk_packet_def http_room_def HOST_str_def tolower_def)
  have rh: "read_host ?m 72 73 [] = Some (Some ([97, 46, 98], 76))"
    by (simp add: read_host.simps get8_def mk_packet_def http_room_def nth_append line_end_def)
  have r: "randChar 0 = 65" by (simp add: randChar_def)
  have "scramble {46} w1 ?m 72 (Suc (Suc (Suc 0))) = Some (w1\<lparr>w_ticks := Suc (Suc (w_ticks w1))\<rparr>, ?m\<lparr>room := (room ?m)[72 := 65, 74 := 65]\<rparr>)"
    by (simp add: get8_def put_random_def rte_get_tsc_cycles_def a(3) r put8_def mk_packet_def http_room_def
        nth_append list_update_append Let_def)
  then have "\<exists>w' m'. hide_request w1 ?m 54 54 72 [97, 46, 98] = Some (w', m')"
    by (simp add: hide_request_def search_at_def mk_packet_def http_room_def GET_str_def POST_str_def HTTP_str_def
        REFER_str_def tolower_def hide_path.simps get8_def list_update_append nth_append del: scramble.simps)
  then obtain w' m' where e1: "httpEntry ?w ?m 0 True 0x50 (flow_at 0) 2 10 = Some (w', m', 1)"
    using e h rh a by (auto simp: httpEntry_def cstr_def mk_packet_def)
  have n: "drop 72 (room ?m) = [97, 46, 98, 13, 10, 0]" "room ?m ! 72 = 97" "room ?m ! 74 = 98"
    by (simp_all add: mk_packet_def http_room_def nth_append)
  show "\<exists>w' m'. httpEntry ?w ?m 0 True 0x50 (flow_at 0) 2 10
      = Some (w', m', 1) \<and> letter (room m' ! 72)"
    using http_host_hidden [OF e1] e1 e(1) h n
    by (auto simp: neq_Nil_conv)
qed

end
