(* ===== verification/Process_Properties.thy ===== *)
theory Process_Properties
  imports Handler_Properties Crypto_Properties
begin

text \<open>
  Properties of the lists of networks, of protocol detection, and of the handling of a packet as a
  whole.
\<close>

section \<open>Networks\<close>

text \<open>The bits of an address, most significant first.\<close>

definition address_bits :: "u8 list \<Rightarrow> bool list" where
  "address_bits bs = concat (map byte_bits bs)"

lemma byte_bits_inject [simp]: "byte_bits a = byte_bits b \<longleftrightarrow> a = b"
proof
  assume "byte_bits a = byte_bits b"
  then have e: "bit a (7 - i) = bit b (7 - i)" if "i < 8" for i using that by (simp add: byte_bits_def)
  show "a = b"
  proof (rule bit_word_eqI)
    fix i assume "i < LENGTH(8)"
    then show "bit a i = bit b i" using e [of "7 - i"] by simp
  qed
qed simp

lemma length_address_bits [simp]: "length (address_bits bs) = 8 * length bs"
  by (induction bs) (simp_all add: address_bits_def)

lemma take_address_bits:
  assumes "f < length bs" and "p < 8"
  shows "take (8 * f + p) (address_bits bs) = address_bits (take f bs) @ take p (byte_bits (bs ! f))"
proof -
  have "bs = take f bs @ bs ! f # drop (Suc f) bs" by (rule id_take_nth_drop [OF assms(1)])
  then have "address_bits bs = address_bits (take f bs) @ byte_bits (bs ! f) @ address_bits (drop (Suc f) bs)"
    unfolding address_bits_def by (metis concat.simps(2) concat_append list.simps(9) map_append)
  then show ?thesis using assms by simp
qed

lemma address_bits_inject: "length a = length b \<Longrightarrow> address_bits a = address_bits b \<longleftrightarrow> a = b"
  by (induction a b rule: list_induct2) (simp_all add: address_bits_def)

lemma masked_byte:
  assumes "0 < p" and "p < 8"
  shows "a AND masks ! (p - 1) = b AND masks ! (p - 1) \<longleftrightarrow> take p (byte_bits a) = take p (byte_bits b)"
proof -
  have m: "masks ! (p - 1) = NOT (mask (8 - p))"
  proof -
    have "p \<in> {1, 2, 3, 4, 5, 6, 7}" using assms by auto
    then show ?thesis by (auto simp: masks_def mask_eq_exp_minus_1)
  qed
  have "a AND masks ! (p - 1) = b AND masks ! (p - 1) \<longleftrightarrow> (\<forall>i < 8. 8 - p \<le> i \<longrightarrow> bit a i = bit b i)"
    unfolding m by (auto simp: bit_eq_iff bit_simps)
  also have "\<dots> \<longleftrightarrow> (\<forall>i < p. bit a (7 - i) = bit b (7 - i))"
  proof
    assume r: "\<forall>i < p. bit a (7 - i) = bit b (7 - i)"
    show "\<forall>i < 8. 8 - p \<le> i \<longrightarrow> bit a i = bit b i"
    proof (intro allI impI)
      fix i :: nat assume "i < 8" "8 - p \<le> i"
      then show "bit a i = bit b i" using r [rule_format, of "7 - i"] assms by simp
    qed
  qed (use assms in auto)
  also have "\<dots> \<longleftrightarrow> take p (byte_bits a) = take p (byte_bits b)"
    using assms by (auto simp: byte_bits_def list_eq_iff_nth_eq)
  finally show ?thesis .
qed

lemma network6_prefixes:
  assumes "length adx = 16" and "\<forall>(net, n) \<in> set nets. length net = 16 \<and> n \<le> 128"
  shows "match_ipv6_net adx nets
    = Some (\<exists>(net, n) \<in> set nets. take n (address_bits adx) = take n (address_bits net))"
  using assms(2)
proof (induction nets)
  case (Cons p nets)
  obtain net n where p: "p = (net, n)" "length net = 16" "n \<le> 128" using Cons.prems by auto
  let ?same = "take n (address_bits adx) = take n (address_bits net)"
  have "match_ipv6_net adx ((net, n) # nets) = (if ?same then Some True else match_ipv6_net adx nets)"
  proof (cases "n = 128")
    case True
    then show ?thesis using assms(1) p by (simp add: address_bits_inject)
  next
    case False
    define f q where "f = n div 8" and "q = n mod 8"
    have n: "n = 8 * f + q" "f < 16" "q < 8" using False p(3) by (simp_all add: f_def q_def)
    have "?same \<longleftrightarrow> take f adx = take f net \<and> take q (byte_bits (adx ! f)) = take q (byte_bits (net ! f))"
      using assms(1) p(2) n(2,3) unfolding n(1) by (simp add: take_address_bits address_bits_inject)
    moreover have "take q (byte_bits (adx ! f)) = take q (byte_bits (net ! f)) \<longleftrightarrow>
        q = 0 \<or> adx ! f AND masks ! (q - 1) = net ! f AND masks ! (q - 1)"
      using masked_byte [of q "adx ! f" "net ! f"] n(3) by (cases "q = 0") auto
    ultimately show ?thesis using p(3) by (auto simp: Let_def f_def q_def)
  qed
  then show ?case using Cons p by (auto split: if_splits)
qed simp

text \<open>
  C29.  An IPv6 network of \<open>n\<close> bits contains exactly the addresses that share its first \<open>n\<close> bits: the
  comparison by whole bytes and a mask for the rest of the bits is a comparison of bit prefixes, for
  every length from 0 to 128 and every list of networks.
\<close>

theorem ipv6_networks_are_prefixes:
  assumes "length adx = 16" and "\<forall>(net, n) \<in> set nets. length net = 16 \<and> n \<le> 128"
  shows "match_ipv6_net adx nets
    = Some (\<exists>(net, n) \<in> set nets. take n (address_bits adx) = take n (address_bits net))"
  by (rule network6_prefixes [OF assms])

theorem ipv6_networks_are_prefixes_witness:
  "match_ipv6_net (0x20 # 1 # replicate 14 7) [(0x20 # 3 # replicate 14 0, 14)] = Some True"
proof -
  have "take 14 (address_bits (0x20 # 1 # replicate 14 7)) = take 14 (address_bits (0x20 # 3 # replicate 14 0))"
    by code_simp
  then show ?thesis
    using ipv6_networks_are_prefixes [of "0x20 # 1 # replicate 14 7" "[(0x20 # 3 # replicate 14 0, 14)]"] by simp
qed


section \<open>Addresses\<close>

text \<open>The image of an IPv4 address that is in the lists of networks to anonymise.\<close>

definition anon_image :: "world \<Rightarrow> u32 \<Rightarrow> u32" where
  "anon_image w = translate (w_rj w) (m_pad (w_self w))"

definition image_in :: "nets \<Rightarrow> world \<Rightarrow> u32 \<Rightarrow> u32" where
  "image_in nets w a = (if anon_ip_check nets a then anon_image w a else a)"

definition working :: "world \<Rightarrow> bool" where
  "working w \<longleftrightarrow> operational (w_self w) (w_rj w)"

lemma anonymise_ip_working:
  assumes "working w"
  obtains w' where "anonymise_ip w a = Some (w', anon_image w a)" and "working w'" and "anon_image w' = anon_image w"
proof -
  obtain self' where "retrieve_crypto_ip (w_self w) (w_rj w) a = Some (self', anon_image w a)"
    "operational self' (w_rj w)" "m_pad self' = m_pad (w_self w)"
    using retrieve_crypto_ip_operational [of "w_self w" "w_rj w" a] assms by (auto simp: working_def anon_image_def)
  then show ?thesis
    using that [of "w\<lparr>w_self := self'\<rparr>"] by (simp add: anonymise_ip_def working_def anon_image_def)
qed

lemma image_in_cong: "anon_image w' = anon_image w \<Longrightarrow> image_in nets w' = image_in nets w"
  by (simp add: image_in_def fun_eq_iff)

text \<open>One address: at \<open>p\<close> the image is written, everything else stays.\<close>

lemma address_written:
  assumes "working w" and "p + 4 \<le> length (room m)"
  shows "\<exists>w' m' r. translate_at nets w m p a c = Some (w', m', r)
    \<and> working w' \<and> anon_image w' = anon_image w \<and> same_shape m m'
    \<and> (get32 m p = Some a \<longrightarrow> get32 m' p = Some (image_in nets w a))
    \<and> (\<forall>i < length (room m). i < p \<or> p + 4 \<le> i \<longrightarrow> room m' ! i = room m ! i)"
proof (cases "anon_ip_check nets a")
  case True
  obtain w' where w: "anonymise_ip w a = Some (w', anon_image w a)" "working w'" "anon_image w' = anon_image w"
    by (rule anonymise_ip_working [OF assms(1)])
  obtain m' where m: "put32 m p (anon_image w a) = Some m'" using put32_Some [OF assms(2)] by blast
  have "room m' ! i = room m ! i" if "i < length (room m)" "i < p \<or> p + 4 \<le> i" for i
    using put_bytes_nth(1) [of m p "bytes32 (anon_image w a)" m' i] m that by (auto simp: put32_def bytes32_def)
  then show ?thesis
    using True w m put32_loads [OF m] put32_shape [OF m] by (auto simp: translate_at_def image_in_def)
qed (use assms in \<open>auto simp: translate_at_def image_in_def\<close>)

definition ipv4_packet :: "mbuf \<Rightarrow> bool" where
  "ipv4_packet m \<longleftrightarrow> 34 \<le> length (room m) \<and> map_option ntohs (get16 m 12) = Some 0x0800"

definition source_of :: "mbuf \<Rightarrow> u32" where "source_of m = the (get32 m 26)"
definition destination_of :: "mbuf \<Rightarrow> u32" where "destination_of m = the (get32 m 30)"

definition translated :: "nets \<Rightarrow> world \<Rightarrow> mbuf \<Rightarrow> mbuf \<Rightarrow> bool" where
  "translated nets w m m' \<longleftrightarrow> same_shape m m'
     \<and> source_of m' = image_in nets w (source_of m) \<and> destination_of m' = image_in nets w (destination_of m)
     \<and> (\<forall>i < length (room m). i < 26 \<or> 34 \<le> i \<longrightarrow> room m' ! i = room m ! i)"

text \<open>The settings under which only addresses are anonymised, and the packets they apply to.\<close>

definition addresses_only :: "out_interface_sett \<Rightarrow> bool" where
  "addresses_only s \<longleftrightarrow> anon_mac_enabled s \<notin> {1, 2} \<and> anon_ip_enabled s = 1 \<and> anon_ip_key_mode s = static_str
     \<and> payload_drop_enabled s \<noteq> 1 \<and> engine s = 0"

definition not_exempt :: "nets \<Rightarrow> mbuf \<Rightarrow> bool" where
  "not_exempt nets m \<longleftrightarrow> \<not> no_anon_ip_check nets (source_of m) \<and> \<not> no_anon_ip_check nets (destination_of m)"

text \<open>Packets with an address in the exempt networks keep both addresses.\<close>

definition unless_exempt :: "nets \<Rightarrow> mbuf \<Rightarrow> (u32 \<Rightarrow> u32) \<Rightarrow> u32 \<Rightarrow> u32" where
  "unless_exempt nets m f a = (if not_exempt nets m then f a else a)"

definition handled :: "nets \<Rightarrow> world \<Rightarrow> mbuf \<Rightarrow> mbuf \<Rightarrow> bool" where
  "handled nets w m m' \<longleftrightarrow> same_shape m m'
     \<and> source_of m' = unless_exempt nets m (image_in nets w) (source_of m)
     \<and> destination_of m' = unless_exempt nets m (image_in nets w) (destination_of m)
     \<and> (\<forall>i < length (room m). i < 26 \<or> 34 \<le> i \<longrightarrow> room m' ! i = room m ! i)"

lemma get32_some: "p + 4 \<le> length (room m) \<Longrightarrow> get32 m p = Some (the (get32 m p))"
  by (simp add: get32_def get8_def)

lemma get_fields [simp]:
  "get16 (m\<lparr>l2_len := x\<rparr>) p = get16 m p" "get16 (m\<lparr>l3_len := x\<rparr>) p = get16 m p"
  "get32 (m\<lparr>l2_len := x\<rparr>) p = get32 m p" "get32 (m\<lparr>l3_len := x\<rparr>) p = get32 m p"
  by (simp_all add: get16_def get32_def get8_def)

lemma translate_v4_working:
  assumes "working w" and "34 \<le> length (room m)"
  shows "\<exists>w' m' r. translate_v4 nets w m 14 = Some (w', m', r) \<and> working w' \<and> anon_image w' = anon_image w \<and> translated nets w m m'"
proof -
  obtain sa da where g: "get32 m 26 = Some sa" "get32 m 30 = Some da"
    using get32_some [of 26 m] get32_some [of 30 m] assms(2) by auto
  then have f: "source_of m = sa" "destination_of m = da" by (simp_all add: source_of_def destination_of_def)
  obtain w1 m1 r1 where 1: "translate_at nets w m 26 sa 10 = Some (w1, m1, r1)" "working w1" "anon_image w1 = anon_image w"
    "same_shape m m1" "get32 m1 26 = Some (image_in nets w sa)"
    "\<forall>i < length (room m). i < 26 \<or> 30 \<le> i \<longrightarrow> room m1 ! i = room m ! i"
    using address_written [OF assms(1), of 26 m nets sa 10] assms(2) g(1) by auto
  have l: "length (room m1) = length (room m)" using 1(4) by (simp add: same_shape_def)
  have d: "get32 m1 30 = Some da"
    using g(2) get32_cong [of 30 m1 m] 1(6) assms(2) l by (simp add: get8_def)
  obtain w2 m2 r2 where 2: "translate_at nets w1 m1 30 da 1 = Some (w2, m2, r2)" "working w2" "anon_image w2 = anon_image w1"
    "same_shape m1 m2" "get32 m2 30 = Some (image_in nets w1 da)"
    "\<forall>i < length (room m1). i < 30 \<or> 34 \<le> i \<longrightarrow> room m2 ! i = room m1 ! i"
    using address_written [OF 1(2), of 30 m1 nets da 1] assms(2) l d by auto
  have l2: "length (room m2) = length (room m)" using 2(4) l by (simp add: same_shape_def)
  have s: "get32 m2 26 = Some (image_in nets w sa)"
    using 1(5) get32_cong [of 26 m2 m1] 2(6) assms(2) l l2 by (simp add: get8_def)
  have "room m2 ! i = room m ! i" if "i < length (room m)" "i < 26 \<or> 34 \<le> i" for i
    using 1(6) 2(6) l that by auto
  then have "translated nets w m m2"
    using s 2(5) f same_shape_trans [OF 1(4) 2(4)] image_in_cong [OF 1(3)]
    by (simp add: translated_def source_of_def destination_of_def)
  moreover have "translate_v4 nets w m 14 = Some (w2, m2, r1 + r2)" using g 1(1) 2(1) by (simp add: translate_v4_def)
  moreover have "anon_image w2 = anon_image w" using 1(3) 2(3) by simp
  ultimately show ?thesis using 2(2) by blast
qed

lemma process_packet_working:
  assumes "working w" and "addresses_only s" and "ipv4_packet m" and "not_exempt nets m"
  shows "\<exists>w' m'. process_packet nets w m s tv = Some (w', m') \<and> working w' \<and> anon_image w' = anon_image w \<and> translated nets w m m'"
proof -
  let ?m = "m\<lparr>l2_len := 14, l3_len := 20\<rparr>"
  obtain w' m' r where t: "translate_v4 nets w ?m 14 = Some (w', m', r)" "working w'" "anon_image w' = anon_image w"
    "translated nets w ?m m'"
    using translate_v4_working [OF assms(1), of ?m nets] assms(3) by (auto simp: ipv4_packet_def)
  obtain sa da where g: "get32 m 26 = Some sa" "get32 m 30 = Some da"
    using get32_some [of 26 m] get32_some [of 30 m] assms(3) by (auto simp: ipv4_packet_def)
  then have f: "source_of m = sa" "destination_of m = da" by (simp_all add: source_of_def destination_of_def)
  have "translated nets w m m'" using t(4) by (simp add: translated_def source_of_def destination_of_def same_shape_def)
  then show ?thesis
    using assms t g f
    by (auto simp: process_packet_def process_packet_eth_def process_packet_ip_def Let_def sizeof_defs addresses_only_def
        ipv4_packet_def not_exempt_def)
qed

lemma process_packet_handled:
  assumes "working w" and "addresses_only s" and "ipv4_packet m"
  shows "\<exists>w' m'. process_packet nets w m s tv = Some (w', m') \<and> working w' \<and> anon_image w' = anon_image w \<and> handled nets w m m'"
proof (cases "not_exempt nets m")
  case True
  then show ?thesis
    using process_packet_working [OF assms True, of tv] by (simp add: handled_def translated_def unless_exempt_def)
next
  case False
  obtain sa da where g: "get32 m 26 = Some sa" "get32 m 30 = Some da"
    using get32_some [of 26 m] get32_some [of 30 m] assms(3) by (auto simp: ipv4_packet_def)
  then have f: "source_of m = sa" "destination_of m = da" by (simp_all add: source_of_def destination_of_def)
  let ?m = "m\<lparr>l2_len := 14, l3_len := 20\<rparr>"
  have "process_packet nets w m s tv = Some (w, ?m)"
    using assms(2,3) False g f
    by (auto simp: process_packet_def process_packet_eth_def process_packet_ip_def Let_def sizeof_defs addresses_only_def
        ipv4_packet_def not_exempt_def)
  moreover have "handled nets w m ?m"
    using False by (simp add: handled_def unless_exempt_def source_of_def destination_of_def same_shape_def)
  ultimately show ?thesis using assms(1) by blast
qed

fun process_all ::
  "nets \<Rightarrow> world \<Rightarrow> out_interface_sett \<Rightarrow> (mbuf \<times> int) list \<Rightarrow> (world \<times> mbuf list) option" where
  "process_all nets w s [] = Some (w, [])"
| "process_all nets w s ((m, tv) # ps) = do {
     (w, m) \<leftarrow> process_packet nets w m s tv;
     (w, ms) \<leftarrow> process_all nets w s ps;
     Some (w, m # ms)
   }"

text \<open>
  C4.  The whole path of the addresses.  When only addresses are anonymised and the cipher is set up, every
  sequence of IPv4 packets that contain the header of IP is handled without a fault.  A packet with an address
  in the exempt networks stays as it is; in every other packet both addresses are replaced by the image
  under one and the same translation, if they lie in the networks to anonymise, and nothing else
  changes; the translation is the one for which prefix preservation is proved, and it does not
  change from packet to packet.
\<close>

theorem packets_translated:
  assumes "operational (w_self w) (w_rj w)" and "addresses_only s" and "\<forall>p \<in> set ps. ipv4_packet (fst p)"
  shows "\<exists>w' ms. process_all nets w s ps = Some (w', ms)
    \<and> list_all2 (\<lambda>p m'. handled nets w (fst p) m') ps ms \<and> operational (w_self w') (w_rj w')"
proof -
  have "\<exists>w' ms. process_all nets w s ps = Some (w', ms)
    \<and> list_all2 (\<lambda>p m'. handled nets w (fst p) m') ps ms \<and> working w'" if "working w" for w
    using that assms(3)
  proof (induction ps arbitrary: w)
    case (Cons p ps)
    obtain m tv where p: "p = (m, tv)" by (cases p)
    obtain w1 m1 where 1: "process_packet nets w m s tv = Some (w1, m1)" "working w1" "anon_image w1 = anon_image w"
      "handled nets w m m1"
      using process_packet_handled [OF Cons.prems(1) assms(2), of m nets tv] Cons.prems(2) p by auto
    have "handled nets w1 = handled nets w"
      by (simp add: handled_def image_in_cong [OF 1(3)] fun_eq_iff)
    then show ?case using Cons.IH [OF 1(2)] Cons.prems(2) 1 p by auto
  qed simp
  then show ?thesis using assms(1) by (simp add: working_def)
qed


definition address_settings :: out_interface_sett where
  "address_settings = \<lparr>anon_enabled = 0, anon_mac_enabled = 0, anon_ip_enabled = 1, anon_ip_key_mode = static_str, anon_ip_key = [],
     anon_ip_rotation_delay = 0, anon_subnet_file = [], no_anon_subnet_file = [], payload_drop_enabled = 0, engine = 0, anon_ext_ip = 0, s_dns = 0, s_tls = 0, s_http = 0, s_alpha = 0, s_delta = 0\<rparr>"

definition office :: nets where
  "office = \<lparr>anon_nets = [(10, 255)], anon_nets6 = [], no_anon_nets = [(11, 255)], no_anon_nets6 = []\<rparr>"

definition office_room :: "u8 list" where
  "office_room = (replicate 60 0)[12 := 8, 26 := 10, 29 := 1, 30 := 9]"

lemma office_packet:
  "ipv4_packet (mk_packet office_room 60)" "source_of (mk_packet office_room 60) = 0x0100000a"
  "destination_of (mk_packet office_room 60) = 9"
  by (simp_all add: ipv4_packet_def mk_packet_def office_room_def get16_def get32_def get8_def ntohs_def source_of_def
      destination_of_def)

text \<open>A packet of the office, and one with an exempt source to the office.\<close>

definition exempt_office_room :: "u8 list" where
  "exempt_office_room = (replicate 60 0)[12 := 8, 26 := 11, 30 := 10]"

lemma exempt_office_packet:
  "ipv4_packet (mk_packet exempt_office_room 60)" "source_of (mk_packet exempt_office_room 60) = 11"
  "destination_of (mk_packet exempt_office_room 60) = 10"
  by (simp_all add: ipv4_packet_def mk_packet_def exempt_office_room_def get16_def get32_def get8_def ntohs_def source_of_def
      destination_of_def)

theorem packets_translated_witness:
  "\<exists>x y. \<forall>w. let w = w\<lparr>w_self := warm_crypto_ip x y, w_rj := ready_rijndael\<rparr> in
     \<exists>w' m' m''. process_all office w address_settings [(mk_packet office_room 60, 0), (mk_packet exempt_office_room 60, 1)]
         = Some (w', [m', m''])
       \<and> source_of m' = anon_image w 0x0100000a \<and> destination_of m' = 9 \<and> destination_of m'' = 10"
proof -
  obtain x y where o: "operational (warm_crypto_ip x y) ready_rijndael" using operational_example by blast
  have s: "addresses_only address_settings" by (simp add: addresses_only_def address_settings_def)
  have n: "not_exempt office (mk_packet office_room 60)"
    by (simp add: not_exempt_def office_packet no_anon_ip_check_def office_def)
  have x: "\<not> not_exempt office (mk_packet exempt_office_room 60)"
    by (simp add: not_exempt_def exempt_office_packet no_anon_ip_check_def office_def)
  have i: "image_in office w 0x0100000a = anon_image w 0x0100000a" "image_in office w 9 = 9" for w
    by (simp_all add: image_in_def anon_ip_check_def office_def)
  have "\<exists>w' m' m''. process_all office w address_settings [(mk_packet office_room 60, 0), (mk_packet exempt_office_room 60, 1)]
         = Some (w', [m', m''])
       \<and> source_of m' = anon_image w 0x0100000a \<and> destination_of m' = 9 \<and> destination_of m'' = 10"
    if "w_self w = warm_crypto_ip x y" "w_rj w = ready_rijndael" for w
    using packets_translated [of w address_settings "[(mk_packet office_room 60, 0), (mk_packet exempt_office_room 60, 1)]" office]
      o s n x that
    by (auto simp: office_packet exempt_office_packet handled_def unless_exempt_def i list_all2_Cons1)
  then show ?thesis unfolding Let_def by (intro exI [of _ x] exI [of _ y] allI) simp
qed

section \<open>What is not removed\<close>

definition exempt_room :: "u8 list" where
  "exempt_room = (replicate 60 17)[12 := 8, 13 := 0, 26 := 11]"

lemma exempt_packet:
  "map_option ntohs (get16 (mk_packet exempt_room 60) 12) = Some 0x0800"
  "get32 (mk_packet exempt_room 60) 26 = Some 0x1111110b" "get32 (mk_packet exempt_room 60) 30 = Some 0x11111111"
  "length (room (mk_packet exempt_room 60)) = 60" "room (mk_packet exempt_room 60) ! 55 = 17"
  "no_anon_ip_check office 0x1111110b"
  by (simp_all add: mk_packet_def exempt_room_def get16_def get32_def get8_def ntohs_def no_anon_ip_check_def office_def)

lemma bytes_of_in6_length [simp]: "length (bytes_of_in6 a) = 16"
  by (cases a) (simp add: bytes32_def)

lemma put_bytes_behind:
  "put_bytes m p bs = Some m' \<Longrightarrow> p + length bs \<le> i \<Longrightarrow> i < length (room m) \<Longrightarrow> room m' ! i = room m ! i"
  by (simp add: put_bytes_nth)

lemma translate_v6_behind:
  assumes "translate_v6 nets w m 14 = Some (w', m')" and "54 \<le> i" and "i < length (room m)"
  shows "room m' ! i = room m ! i"
proof -
  have put: "length (room m2) = length (room m1) \<and> (i < length (room m1) \<longrightarrow> room m2 ! i = room m1 ! i)"
    if "put_bytes m1 p (bytes_of_in6 a) = Some m2" "p \<le> 38" for m1 m2 p a
    using put_bytes_behind [OF that(1)] put_bytes_shape [OF that(1)] that(2) assms(2) by (simp add: same_shape_def)
  show ?thesis
    using assms(1,3) unfolding translate_v6_def
    by (auto split: Option.bind_splits if_splits dest!: put)
qed

section \<open>IPv6 addresses\<close>

definition ipv6_packet :: "mbuf \<Rightarrow> bool" where
  "ipv6_packet m \<longleftrightarrow> 54 \<le> length (room m) \<and> map_option ntohs (get16 m 12) = Some 0x86DD"

text \<open>The sixteen bytes of an address in the packet, and of its image.\<close>

definition address_at :: "mbuf \<Rightarrow> nat \<Rightarrow> u8 list" where
  "address_at m p = take 16 (drop p (room m))"

definition anon_image6 :: "world \<Rightarrow> u8 list \<Rightarrow> u8 list" where
  "anon_image6 w bs = bytes_of_in6 (translate6 (w_rj w) (m_pad (w_self w)) (in6_of_bytes bs))"

definition in_networks6 :: "(u8 list \<times> nat) list \<Rightarrow> u8 list \<Rightarrow> bool" where
  "in_networks6 nets bs \<longleftrightarrow> (\<exists>(net, n) \<in> set nets. take n (address_bits bs) = take n (address_bits net))"

definition image6_in :: "nets \<Rightarrow> world \<Rightarrow> u8 list \<Rightarrow> u8 list" where
  "image6_in nets w bs = (if in_networks6 (anon_nets6 nets) bs then anon_image6 w bs else bs)"

definition networks6_ok :: "nets \<Rightarrow> bool" where
  "networks6_ok nets \<longleftrightarrow> (\<forall>(net, n) \<in> set (anon_nets6 nets). length net = 16 \<and> n \<le> 128)"

definition translated6 :: "nets \<Rightarrow> world \<Rightarrow> mbuf \<Rightarrow> mbuf \<Rightarrow> bool" where
  "translated6 nets w m m' \<longleftrightarrow> same_shape m m'
     \<and> address_at m' 22 = image6_in nets w (address_at m 22) \<and> address_at m' 38 = image6_in nets w (address_at m 38)
     \<and> (\<forall>i < length (room m). i < 22 \<or> 54 \<le> i \<longrightarrow> room m' ! i = room m ! i)"

lemma checkv6_networks:
  assumes "networks6_ok nets" and "length bs = 16"
  shows "anon_ip_checkv6 nets bs = Some (in_networks6 (anon_nets6 nets) bs)"
  using network6_prefixes [OF assms(2)] assms(1) by (simp add: anon_ip_checkv6_def in_networks6_def networks6_ok_def)

lemma anonymise_ip6_working:
  assumes "working w"
  obtains w' where "anonymise_ip6 w (in6_of_bytes bs) = Some (w', translate6 (w_rj w) (m_pad (w_self w)) (in6_of_bytes bs))"
    and "working w'" and "anon_image6 w' = anon_image6 w"
proof -
  obtain self' where "retrieve_crypto_ipv6 (w_self w) (w_rj w) (in6_of_bytes bs)
      = Some (self', translate6 (w_rj w) (m_pad (w_self w)) (in6_of_bytes bs))"
    "operational self' (w_rj w)" "m_pad self' = m_pad (w_self w)"
    using retrieve_crypto_ipv6_operational [of "w_self w" "w_rj w" "in6_of_bytes bs"] assms by (auto simp: working_def)
  then show thesis
    using that [of "w\<lparr>w_self := self'\<rparr>"] by (simp add: anonymise_ip6_def working_def anon_image6_def fun_eq_iff)
qed

text \<open>One address at \<open>p\<close>, when \<open>b\<close> says that it is to be translated.\<close>

lemma address6_written:
  assumes "working w" and "p + 16 \<le> length (room m)"
  shows "\<exists>w' m'. (if b then do {
          (w, a) \<leftarrow> anonymise_ip6 w (in6_of_bytes bs);
          m \<leftarrow> put_bytes m p (bytes_of_in6 a);
          Some (w, m)
        } else Some (w, m)) = Some (w', m')
    \<and> working w' \<and> anon_image6 w' = anon_image6 w \<and> same_shape m m'
    \<and> address_at m' p = (if b then anon_image6 w bs else address_at m p)
    \<and> (\<forall>i < length (room m). i < p \<or> p + 16 \<le> i \<longrightarrow> room m' ! i = room m ! i)"
proof (cases b)
  case True
  obtain w' where w: "anonymise_ip6 w (in6_of_bytes bs) = Some (w', translate6 (w_rj w) (m_pad (w_self w)) (in6_of_bytes bs))"
    "working w'" "anon_image6 w' = anon_image6 w"
    by (rule anonymise_ip6_working [OF assms(1)])
  obtain m' where m: "put_bytes m p (anon_image6 w bs) = Some m'" using assms(2) by (simp add: put_bytes_def anon_image6_def)
  have "room m' = take p (room m) @ anon_image6 w bs @ drop (p + 16) (room m)"
    using m assms(2) by (auto simp: put_bytes_def anon_image6_def)
  then have "address_at m' p = anon_image6 w bs"
    using assms(2) by (simp add: address_at_def anon_image6_def)
  moreover have "room m' ! i = room m ! i" if "i < length (room m)" "i < p \<or> p + 16 \<le> i" for i
    using put_bytes_nth(1) [OF m that(1)] that(2) by (auto simp: anon_image6_def)
  ultimately show ?thesis
    using True w m put_bytes_shape [OF m] by (auto simp: anon_image6_def)
qed (use assms in auto)

lemma address_at_cong:
  assumes "length (room m') = length (room m)" and "p + 16 \<le> length (room m)" and "\<forall>i. p \<le> i \<and> i < p + 16 \<longrightarrow> room m' ! i = room m ! i"
  shows "address_at m' p = address_at m p"
  by (rule nth_equalityI) (use assms in \<open>auto simp: address_at_def\<close>)

lemma translate_v6_working:
  assumes "working w" and "54 \<le> length (room m)" and "networks6_ok nets"
  shows "\<exists>w' m'. translate_v6 nets w m 14 = Some (w', m') \<and> working w' \<and> anon_image6 w' = anon_image6 w \<and> translated6 nets w m m'"
proof -
  let ?src = "address_at m 22" and ?dst = "address_at m 38"
  have g: "get_bytes m 22 16 = Some ?src" "get_bytes m 38 16 = Some ?dst"
    using assms(2) by (simp_all add: get_bytes_def address_at_def)
  have c: "anon_ip_checkv6 nets ?src = Some (in_networks6 (anon_nets6 nets) ?src)"
    "anon_ip_checkv6 nets ?dst = Some (in_networks6 (anon_nets6 nets) ?dst)"
    using checkv6_networks [OF assms(3)] assms(2) by (simp_all add: address_at_def)
  obtain w1 m1 where 1: "(if in_networks6 (anon_nets6 nets) ?src then do {
          (w, a) \<leftarrow> anonymise_ip6 w (in6_of_bytes ?src);
          m \<leftarrow> put_bytes m 22 (bytes_of_in6 a);
          Some (w, m)
        } else Some (w, m)) = Some (w1, m1)" "working w1" "anon_image6 w1 = anon_image6 w" "same_shape m m1"
    "address_at m1 22 = image6_in nets w ?src" "\<forall>i < length (room m). i < 22 \<or> 38 \<le> i \<longrightarrow> room m1 ! i = room m ! i"
    using address6_written [OF assms(1), of 22 m "in_networks6 (anon_nets6 nets) ?src" ?src] assms(2)
    unfolding image6_in_def by auto
  have l: "length (room m1) = length (room m)" using 1(4) by (simp add: same_shape_def)
  have d: "address_at m1 38 = ?dst" by (rule address_at_cong) (use 1(6) l assms(2) in auto)
  obtain w2 m2 where 2: "(if in_networks6 (anon_nets6 nets) ?dst then do {
          (w, a) \<leftarrow> anonymise_ip6 w1 (in6_of_bytes ?dst);
          m \<leftarrow> put_bytes m1 38 (bytes_of_in6 a);
          Some (w, m)
        } else Some (w1, m1)) = Some (w2, m2)" "working w2" "anon_image6 w2 = anon_image6 w1" "same_shape m1 m2"
    "address_at m2 38 = image6_in nets w ?dst" "\<forall>i < length (room m1). i < 38 \<or> 54 \<le> i \<longrightarrow> room m2 ! i = room m1 ! i"
    using address6_written [OF 1(2), of 38 m1 "in_networks6 (anon_nets6 nets) ?dst" ?dst] assms(2) l
    unfolding image6_in_def d 1(3) by auto
  have "address_at m2 22 = address_at m1 22"
    by (rule address_at_cong) (use 2(4,6) l assms(2) in \<open>auto simp: same_shape_def\<close>)
  moreover have "room m2 ! i = room m ! i" if "i < length (room m)" "i < 22 \<or> 54 \<le> i" for i
    using 1(6) 2(6) l that by auto
  ultimately have "translated6 nets w m m2"
    using 1(5) 2(5) same_shape_trans [OF 1(4) 2(4)] by (simp add: translated6_def)
  moreover have "translate_v6 nets w m 14 = Some (w2, m2)"
  proof -
    have "14 + 8 = (22 :: nat)" "14 + 24 = (38 :: nat)" by simp_all
    then show ?thesis by (simp only: translate_v6_def g c Option.bind.bind_lunit 1(1) 2(1) prod.case)
  qed
  ultimately show ?thesis using 2(2,3) 1(3) by metis
qed

text \<open>Addresses are translated on this port; nothing is said of payload, engine and the rest.\<close>

definition static_addresses :: "out_interface_sett \<Rightarrow> bool" where
  "static_addresses s \<longleftrightarrow> anon_mac_enabled s \<notin> {1, 2} \<and> anon_ip_enabled s = 1 \<and> anon_ip_key_mode s = static_str"

lemma process_packet_v6:
  assumes "working w" and "static_addresses s" and "ipv6_packet m" and "networks6_ok nets"
  shows "\<exists>w' m'. process_packet nets w m s tv = Some (w', m') \<and> working w' \<and> anon_image6 w' = anon_image6 w \<and> translated6 nets w m m'"
proof -
  let ?m = "m\<lparr>l2_len := 14, l3_len := 40\<rparr>"
  obtain w' m' where t: "translate_v6 nets w ?m 14 = Some (w', m')" "working w'" "anon_image6 w' = anon_image6 w"
    "translated6 nets w ?m m'"
    using translate_v6_working [OF assms(1) _ assms(4), of ?m] assms(3) by (auto simp: ipv6_packet_def)
  have "translated6 nets w m m'" using t(4) by (simp add: translated6_def address_at_def same_shape_def)
  then show ?thesis
    using assms(2,3) t
    by (auto simp: process_packet_def process_packet_eth_def process_packet_ip_def Let_def sizeof_defs static_addresses_def
        ipv6_packet_def)
qed

text \<open>
  C32.  The whole path of IPv6 addresses.  When the translation of addresses is enabled for a port, its cipher is
  set up, the networks have at most 128 bits and Ethernet addresses stay, every sequence of packets that contain
  the header of IPv6 is handled without a fault: both addresses are replaced by their images under one
  translation, the one for which prefix preservation is proved, if their first bits are those of a
  network to anonymise, and every other byte stays.  This is so whatever the other settings and the exempt
  networks say: IPv6 packets are never exempt, their payload is not removed and the engine never sees them.
\<close>

theorem ipv6_packets_translated:
  assumes "operational (w_self w) (w_rj w)" and "static_addresses s" and "networks6_ok nets"
    and "\<forall>p \<in> set ps. ipv6_packet (fst p)"
  shows "\<exists>w' ms. process_all nets w s ps = Some (w', ms)
    \<and> list_all2 (\<lambda>p m'. translated6 nets w (fst p) m') ps ms \<and> operational (w_self w') (w_rj w')"
proof -
  have "\<exists>w' ms. process_all nets w s ps = Some (w', ms)
    \<and> list_all2 (\<lambda>p m'. translated6 nets w (fst p) m') ps ms \<and> working w'" if "working w" for w
    using that assms(4)
  proof (induction ps arbitrary: w)
    case (Cons p ps)
    obtain m tv where p: "p = (m, tv)" by (cases p)
    obtain w1 m1 where 1: "process_packet nets w m s tv = Some (w1, m1)" "working w1" "anon_image6 w1 = anon_image6 w"
      "translated6 nets w m m1"
      using process_packet_v6 [OF Cons.prems(1) assms(2) _ assms(3), of m tv] Cons.prems(2) p by auto
    have "translated6 nets w1 = translated6 nets w"
      by (simp add: translated6_def image6_in_def 1(3) fun_eq_iff)
    then show ?case using Cons.IH [OF 1(2)] Cons.prems(2) 1 p by auto
  qed simp
  then show ?thesis using assms(1) by (simp add: working_def)
qed

text \<open>The source is in a network of 16 bits; it is also in an exempt one, and payload is to be removed.\<close>

definition campus :: nets where
  "campus = \<lparr>anon_nets = [], anon_nets6 = [(0x20 # 1 # replicate 14 0, 16)], no_anon_nets = [], no_anon_nets6 = [(replicate 16 0, 0)]\<rparr>"

definition campus_room :: "u8 list" where
  "campus_room = (replicate 60 7)[12 := 0x86, 13 := 0xDD, 22 := 0x20, 23 := 1]"

definition strict_settings :: out_interface_sett where
  "strict_settings = address_settings\<lparr>payload_drop_enabled := 1, engine := 1\<rparr>"

lemma campus_networks:
  "in_networks6 (anon_nets6 campus) (0x20 # 1 # replicate 14 7)" "\<not> in_networks6 (anon_nets6 campus) (replicate 16 7)"
  unfolding campus_def in_networks6_def by code_simp+

theorem ipv6_packets_translated_witness:
  "\<exists>x y. \<forall>w. let w = w\<lparr>w_self := warm_crypto_ip x y, w_rj := ready_rijndael\<rparr> in
     \<exists>w' m'. process_all campus w strict_settings [(mk_packet campus_room 60, 0)] = Some (w', [m'])
       \<and> address_at m' 22 = anon_image6 w (0x20 # 1 # replicate 14 7) \<and> address_at m' 38 = replicate 16 7 \<and> room m' ! 55 = 7"
proof -
  obtain x y where o: "operational (warm_crypto_ip x y) ready_rijndael" using operational_example by blast
  have s: "static_addresses strict_settings" by (simp add: static_addresses_def strict_settings_def address_settings_def)
  have n: "networks6_ok campus" by (simp add: networks6_ok_def campus_def)
  have m: "ipv6_packet (mk_packet campus_room 60)" "room (mk_packet campus_room 60) ! 55 = 7" "length (room (mk_packet campus_room 60)) = 60"
    by (simp_all add: ipv6_packet_def mk_packet_def campus_room_def get16_def get8_def ntohs_def)
  have a: "address_at (mk_packet campus_room 60) 22 = 0x20 # 1 # replicate 14 7" "address_at (mk_packet campus_room 60) 38 = replicate 16 7"
    by code_simp+
  have "\<exists>w' m'. process_all campus w strict_settings [(mk_packet campus_room 60, 0)] = Some (w', [m'])
       \<and> address_at m' 22 = anon_image6 w (0x20 # 1 # replicate 14 7) \<and> address_at m' 38 = replicate 16 7 \<and> room m' ! 55 = 7"
    if "w_self w = warm_crypto_ip x y" "w_rj w = ready_rijndael" for w
    using ipv6_packets_translated [of w strict_settings campus "[(mk_packet campus_room 60, 0)]"] o s n m a campus_networks that
    by (auto simp: translated6_def image6_in_def list_all2_Cons1)
  then show ?thesis unfolding Let_def by (intro exI [of _ x] exI [of _ y] allI) simp
qed

text \<open>
  Payload that stays.  With the removal of payload enabled and the engine running, a packet that
  concerns an exempt network, and every IPv6 packet, keeps all bytes behind its addresses: both leave before
  the code that would remove them.
\<close>

theorem payload_kept:
  fixes nets :: nets
  assumes "process_packet_ip nets w m s tv = Some (w', m')"
    and "map_option ntohs (get16 m 12) = Some 0x86DD
      \<or> map_option ntohs (get16 m 12) = Some 0x0800 \<and> \<not> not_exempt nets m"
    and "54 \<le> i" and "i < length (room m)"
  shows "room m' ! i = room m ! i"
  using assms(2)
proof (elim disjE conjE)
  assume "map_option ntohs (get16 m 12) = Some 0x86DD"
  then have "(\<exists>w1. translate_v6 nets w (m\<lparr>l3_len := 40\<rparr>) 14 = Some (w1, m')) \<or> m' = m\<lparr>l3_len := 40\<rparr>"
    using assms(1) by (auto simp: process_packet_ip_def Let_def sizeof_defs split: Option.bind_splits if_splits)
  then show ?thesis using translate_v6_behind [of nets w "m\<lparr>l3_len := 40\<rparr>" _ m' i] assms(3,4) by auto
next
  assume "map_option ntohs (get16 m 12) = Some 0x0800" "\<not> not_exempt nets m"
  then have "m' = m\<lparr>l3_len := 20\<rparr>"
    using assms(1) by (auto simp: process_packet_ip_def Let_def sizeof_defs not_exempt_def source_of_def destination_of_def
        split: Option.bind_splits if_splits)
  then show ?thesis by simp
qed

theorem payload_kept_witness:
  "\<forall>w. \<exists>w' m'. process_packet_ip office w (mk_packet exempt_room 60) strict_settings 0 = Some (w', m') \<and> room m' ! 55 = 17"
proof
  fix w
  let ?m = "mk_packet exempt_room 60"
  have n: "\<not> not_exempt office ?m" by (simp add: not_exempt_def source_of_def exempt_packet)
  have "process_packet_ip office w ?m strict_settings 0 = Some (w, ?m\<lparr>l3_len := 20\<rparr>)"
    using exempt_packet by (auto simp: process_packet_ip_def Let_def sizeof_defs)
  from payload_kept [OF this, of 55] this
  show "\<exists>w' m'. process_packet_ip office w ?m strict_settings 0 = Some (w', m') \<and> room m' ! 55 = 17"
    using exempt_packet n by auto
qed

section \<open>Detection\<close>

text \<open>
  A segment is taken for a TLS client hello exactly if, behind the TCP header with its options, the record
  type is 22, the major version 3 and the type of the handshake 1; the test of the minor version has no effect.
\<close>

theorem tls_detected:
  assumes "get8 m 46 = Some data_off" and h_def: "h = 34 + unat (drop_bit 4 data_off) * 4"
    and "h + 6 \<le> length (room m)"
  shows "isTls m 0 True = Some (room m ! h = 22 \<and> room m ! (h + 1) = 3 \<and> room m ! (h + 5) = 1)"
proof -
  have "unat data_off < 2 ^ LENGTH(8)" by (rule unsigned_less)
  moreover have "(2 :: nat) ^ LENGTH(8) = 16 * 16" by simp
  ultimately have "unat data_off < 16 * 16" by (simp only:)
  then have "unat (drop_bit 4 data_off) < 16"
  proof -
    have "unat (drop_bit 4 data_off) = unat data_off div 2 ^ 4"
      unfolding unat_drop_bit_eq by (rule drop_bit_eq_div)
    then show "unat data_off < 16 * 16 \<Longrightarrow> ?thesis" by (simp add: less_mult_imp_div_less)
  qed
  then have u: "unat (drop_bit 4 data_off * 4) = unat (drop_bit 4 data_off) * 4" "\<not> 60 < drop_bit 4 data_off * 4"
    by (simp_all add: unat_word_ariths word_less_nat_alt)
  have "tls_header_extractor m 0 True = Some (Some h)"
    using assms(1) u by (simp add: tls_header_extractor_def offset_extractor_tls_def Let_def sizeof_defs h_def)
  moreover have "get8 m (h + k) = Some (room m ! (h + k))" if "k < 6" for k
    using assms(3) that by (simp add: get8_def)
  from this [of 0] this [of 1] this [of 2] this [of 5]
  have "get8 m h = Some (room m ! h)" "get8 m (h + 1) = Some (room m ! (h + 1))"
    "get8 m (h + 2) = Some (room m ! (h + 2))" "get8 m (h + 5) = Some (room m ! (h + 5))" by simp_all
  ultimately show ?thesis by (auto simp: isTls_def)
qed

definition tls_room :: "u8 list" where
  "tls_room = (replicate 60 0)[46 := 0x50, 54 := 22, 55 := 3, 59 := 1]"

theorem tls_detected_witness:
  "isTls (mk_packet tls_room 60) 0 True = Some True"
proof -
  let ?m = "mk_packet tls_room 60"
  have f: "get8 ?m 46 = Some 0x50" "room ?m ! 54 = 22" "room ?m ! 55 = 3" "room ?m ! 59 = 1" "length (room ?m) = 60"
    by (simp_all add: mk_packet_def tls_room_def get8_def)
  have "unat (drop_bit 4 (0x50 :: u8)) = 5" by code_simp
  then show ?thesis using tls_detected [OF f(1), of 54] f by simp
qed

text \<open>
  Only ordinary queries are recognised as DNS: of the operation codes 0, 1, 2, 4 and 5 that the code
  lists, all but 0 are refused, because a field of four bits is converted from network order as if it had sixteen.
\<close>

theorem dns_other_opcodes_missed:
  assumes "isDns m 1 True inport outport = Some True"
  shows "42 < unat (pkt_len m) \<and> 45 < length (room m) \<and> dns_opcode (room m ! 44) = 0 \<and> (inport = 53 \<or> outport = 53)"
proof -
  have b: "bit (ntohs y) i \<longleftrightarrow> (if i < 8 then bit y (i + 8) else bit y (i - 8) \<and> i < 16)" for y i
    using bit_imp_le_length [of y "i + 8"] by (auto simp: ntohs_def bit_push_bit_iff bit_drop_bit_eq bit_or_iff add.commute)
  have u: "\<not> bit (ucast x :: u16) (i + 8)" for x :: u8 and i
    using bit_imp_le_length [of x "i + 8"] by (auto simp: bit_ucast_iff)
  have low: "\<not> bit (ntohs (ucast x)) i" if "i < 8" for x :: u8 and i
    using that u by (simp add: b)
  have ne: "ntohs (ucast x) \<noteq> c" if "bit c i" "i < 8" for x :: u8 and c i
    using low [OF that(2), of x] that(1) by metis
  have one: "bit (1 :: u16) 0" and two: "bit (2 :: u16) 1" and four: "bit (4 :: u16) 2" and five: "bit (5 :: u16) 0"
    by code_simp+
  have n: "ntohs (ucast x) \<notin> {1, 2, 4, 5}" for x :: u8
    using ne [OF one, of x] ne [OF two, of x] ne [OF four, of x] ne [OF five, of x] by simp
  have z: "x = 0" if "ntohs (ucast x) = 0" for x :: u8
  proof (rule bit_word_eqI)
    fix i assume "i < LENGTH(8)"
    then have "bit (ntohs (ucast x)) (i + 8) = bit x i" by (simp add: b bit_ucast_iff)
    then show "bit x i = bit 0 i" using that by simp
  qed
  show ?thesis
    using assms z [of "dns_opcode (room m ! 44)"] n [of "dns_opcode (room m ! 44)"]
    by (auto simp: isDns_def dns_header_extractor_def offset_extractor_def sizeof_defs get8_def
        split: Option.bind_splits if_splits)
qed


theorem dns_other_opcodes_missed_witness:
  "isDns (mk_packet dns_room 67) 1 True 50000 53 = Some True \<and> dns_opcode (room (mk_packet dns_room 67) ! 44) = 0"
proof -
  let ?m = "mk_packet dns_room 67"
  have f: "room ?m ! 44 = 0" "room ?m ! 45 = 0" "length (room ?m) = 67" "unat (pkt_len ?m) = 67"
    by (simp_all add: mk_packet_def dns_room_def nth_append)
  have d: "isDns ?m 1 True 50000 53 = Some True"
    by (simp add: isDns_def dns_header_extractor_def offset_extractor_def sizeof_defs get8_def f dns_qr_def dns_z_def
        dns_opcode_def dns_aa_def dns_tc_def dns_rd_def dns_ra_def ntohs_def)
  then show ?thesis using dns_other_opcodes_missed [OF d] by simp
qed

end
