(* ===== verification/Net_File.thy ===== *)
theory Net_File
  imports Ip_Utils
begin

text \<open>
  Reading the file of a class of networks: \<^verbatim>\<open>ParseNetFile\<close> of \<^verbatim>\<open>src/ip_utils.c\<close>, with the functions of the
  C library it uses.  A string is the bytes before its end.
\<close>

section \<open>The C library\<close>

text \<open>
  \<^verbatim>\<open>inet_pton\<close> for the two families and \<^verbatim>\<open>inet_aton\<close> are arguments: they give the address in the order
  of the network, or \<open>None\<close> for a text that they refuse.  \<^verbatim>\<open>inet_addr\<close> is \<^verbatim>\<open>inet_aton\<close> with the
  all-ones address for a refusal.
\<close>

record inet =
  pton4 :: "u8 list \<Rightarrow> u32 option"
  pton6 :: "u8 list \<Rightarrow> u8 list option"
  aton :: "u8 list \<Rightarrow> u32 option"

definition inet_addr :: "inet \<Rightarrow> u8 list \<Rightarrow> u32" where
  "inet_addr n s = (case aton n s of Some a \<Rightarrow> a | None \<Rightarrow> 0xFFFFFFFF)"

text \<open>\<^verbatim>\<open>strtok\<close> with the delimiter \<^verbatim>\<open>/\<close>: the token and the rest of the string.\<close>

definition strtok :: "u8 list \<Rightarrow> u8 list option \<times> u8 list" where
  "strtok s = (let s = dropWhile (\<lambda>c. c = 47) s in
     if s = [] then (None, [])
     else (Some (takeWhile (\<lambda>c. c \<noteq> 47) s), drop 1 (dropWhile (\<lambda>c. c \<noteq> 47) s)))"

text \<open>
  \<^verbatim>\<open>strtol\<close> with base 10: the value, which saturates, and the string at \<^verbatim>\<open>err\<close>.
\<close>

definition is_digit :: "u8 \<Rightarrow> bool" where "is_digit c \<longleftrightarrow> 48 \<le> c \<and> c \<le> 57"
definition is_space :: "u8 \<Rightarrow> bool" where "is_space c \<longleftrightarrow> c = 32 \<or> 9 \<le> c \<and> c \<le> 13"

definition digits_value :: "u8 list \<Rightarrow> int" where
  "digits_value ds = foldl (\<lambda>v d. 10 * v + int (unat d - 48)) 0 ds"

definition strtol :: "u8 list \<Rightarrow> int \<times> u8 list" where
  "strtol s = (let t = dropWhile is_space s;
       neg = (t \<noteq> [] \<and> hd t = 45);
       t = (if t \<noteq> [] \<and> hd t \<in> {43, 45} then tl t else t);
       ds = takeWhile is_digit t;
       v = (if neg then - digits_value ds else digits_value ds)
     in if ds = [] then (0, s) else (max (- (2 ^ 63)) (min (2 ^ 63 - 1) v), dropWhile is_digit t))"

text \<open>\<^verbatim>\<open>sprintf\<close> of an address in the order of the machine.\<close>

fun decimal :: "nat \<Rightarrow> u8 list" where
  "decimal n = (if n < 10 then [of_nat (48 + n)] else decimal (n div 10) @ [of_nat (48 + n mod 10)])"

declare decimal.simps [simp del]

definition dotted_quad :: "u32 \<Rightarrow> u8 list" where
  "dotted_quad a = decimal (unat (drop_bit 24 a)) @ [46] @ decimal (unat (drop_bit 16 a AND 0xFF)) @ [46]
     @ decimal (unat (drop_bit 8 a AND 0xFF)) @ [46] @ decimal (unat (a AND 0xFF))"

section \<open>One entry\<close>

text \<open>The mask of an IPv4 network: the network and the mask, \<open>None\<close> for an early return.\<close>

definition parse_mask4 :: "inet \<Rightarrow> u32 \<Rightarrow> u8 list \<Rightarrow> (u32 \<times> u32) option" where
  "parse_mask4 n net mask_string =
     (if 46 \<notin> set mask_string then
        let (mask_bits, err) = strtol mask_string in
        if err \<noteq> [] \<or> mask_bits < 0 \<or> 32 < mask_bits then None
        else let net = (if mask_bits = 0 then 0 else net);
                 full_local_mask = (if net = 0 then 0 else push_bit (32 - nat mask_bits) 0xFFFFFFFF);
                 msk = inet_addr n (dotted_quad full_local_mask)
             in Some (net AND msk, msk)
      else if aton n mask_string = None then None
      else let msk = inet_addr n mask_string in Some (net AND msk, msk))"

definition parse_mask6 :: "u8 list \<Rightarrow> u8 list \<Rightarrow> (u8 list \<times> nat) option" where
  "parse_mask6 net mask_string =
     (if 46 \<notin> set mask_string then
        let (mask_bits, err) = strtol mask_string in
        if err \<noteq> [] \<or> mask_bits < 0 \<or> 128 < mask_bits then None else Some (net, nat mask_bits)
      else None)"

text \<open>A line with a slash: an IPv4 network on the left, an IPv6 network on the right.\<close>

definition parse_slash :: "inet \<Rightarrow> u8 list \<Rightarrow> ((u32 \<times> u32) + (u8 list \<times> nat)) option" where
  "parse_slash n line = do {
     let (ip_string, rest) = strtok line;
     let (mask_string, _) = strtok rest;
     mask_string \<leftarrow> mask_string;
     ip_string \<leftarrow> ip_string;
     if 58 \<in> set ip_string then do {
       net \<leftarrow> pton6 n ip_string;
       map_option Inr (parse_mask6 net mask_string)
     }
     else do {
       net \<leftarrow> pton4 n ip_string;
       map_option Inl (parse_mask4 n net mask_string)
     }
   }"

text \<open>The older format, with the mask in the next line of the file.\<close>

definition chomp :: "u8 list \<Rightarrow> u8 list" where
  "chomp line = (if last line = 10 then butlast line else line)"

definition parse_pair :: "inet \<Rightarrow> u8 list \<Rightarrow> u8 list \<Rightarrow> ((u32 \<times> u32) \<times> u8 list) option" where
  "parse_pair n ip_string fp = do {
     net \<leftarrow> aton n ip_string;
     let (line, fp) = readline fp True True;
     mask_string \<leftarrow> map_option chomp line;
     _ \<leftarrow> aton n mask_string;
     let msk = inet_addr n mask_string;
     Some ((net AND msk, msk), fp)
   }"

section \<open>The file\<close>

lemma readline_loop_shorter:
  "readline_loop sc sv fp buf comment = (buf', fp') \<Longrightarrow> length fp' \<le> length fp \<and> (fp \<noteq> [] \<longrightarrow> length fp' < length fp)"
  by (induction sc sv fp buf comment arbitrary: buf' fp' rule: readline_loop.induct)
    (auto simp: Let_def split: if_splits, (fastforce dest: le_less_trans)+)

lemma readline_shorter: "readline fp sc sv = (Some line, fp') \<Longrightarrow> length fp' < length fp"
  using readline_loop_shorter [of sc sv fp "[]" False]
  by (cases fp) (auto simp: readline_def Let_def split: prod.splits if_splits)


lemma parse_pair_shorter: "parse_pair n s fp = Some (e, fp') \<Longrightarrow> length fp' < length fp"
  by (auto simp: parse_pair_def Let_def split: Option.bind_splits prod.splits dest: readline_shorter)

text \<open>
  The loop over the entries; the result has the return value and the networks with their masks, whose
  numbers are \<^verbatim>\<open>*tot_CLASS_nets\<close> and \<^verbatim>\<open>*tot_CLASS_netsv6\<close>.
\<close>

function parse_entries ::
  "inet \<Rightarrow> u8 list \<Rightarrow> nat \<Rightarrow> (u32 \<times> u32) list \<Rightarrow> (u8 list \<times> nat) list
     \<Rightarrow> bool \<times> (u32 \<times> u32) list \<times> (u8 list \<times> nat) list" where
  "parse_entries n fp max_entries nets4 nets6 = (case readline fp True True of
     (None, _) \<Rightarrow> (True, nets4, nets6)
   | (Some line, fp) \<Rightarrow>
       if length nets4 = max_entries \<or> length nets6 = max_entries then (False, nets4, nets6)
       else if 47 \<in> set (chomp line) then (case parse_slash n (chomp line) of
           None \<Rightarrow> (False, nets4, nets6)
         | Some (Inl e) \<Rightarrow> parse_entries n fp max_entries (nets4 @ [e]) nets6
         | Some (Inr e) \<Rightarrow> parse_entries n fp max_entries nets4 (nets6 @ [e]))
       else (case parse_pair n (chomp line) fp of
           None \<Rightarrow> (False, nets4, nets6)
         | Some (e, fp) \<Rightarrow> parse_entries n fp max_entries (nets4 @ [e]) nets6))"
  by pat_completeness auto
termination
  by (relation "measure (\<lambda>(n, fp, max_entries, nets4, nets6). length fp)")
    (auto dest!: readline_shorter [OF sym] parse_pair_shorter)

declare parse_entries.simps [simp del]

definition ParseNetFile ::
  "inet \<Rightarrow> u8 list \<Rightarrow> nat \<Rightarrow> bool \<times> (u32 \<times> u32) list \<times> (u8 list \<times> nat) list" where
  "ParseNetFile n fp max_entries = parse_entries n fp max_entries [] []"

end
