(* ===== verification/Net_Properties.thy ===== *)
theory Net_Properties
  imports Net_File Crypto_Ip_Correct
begin

text \<open>
  Properties of the reading of networks: numbers and addresses in text, lines, and files of prefixes.
\<close>

section \<open>Facts\<close>

lemma chomp_line [simp]: "chomp (l @ [10]) = l"
  by (simp add: chomp_def)

lemma unat_digit: "k < 10 \<Longrightarrow> unat (of_nat (48 + k) :: u8) = 48 + k"
  by (simp add: unat_of_nat del: of_nat_add)

lemma is_digit_digit: "k < 10 \<Longrightarrow> is_digit (of_nat (48 + k))"
  unfolding is_digit_def word_le_nat_alt unat_digit by simp

lemma decimal_digits: "decimal n \<noteq> [] \<and> (\<forall>c \<in> set (decimal n). is_digit c)"
proof (induction n rule: decimal.induct)
  case (1 n)
  show ?case
    using 1 is_digit_digit [of n] is_digit_digit [of "n mod 10"]
    by (subst (1 2) decimal.simps) (auto simp del: of_nat_add)
qed

lemma digits_value_decimal: "digits_value (decimal n) = int n"
proof (induction n rule: decimal.induct)
  case (1 n)
  have "10 * int (n div 10) + int (n mod 10) = int n" by presburger
  then show ?case
    using 1 unat_digit [of n] unat_digit [of "n mod 10"]
    by (subst decimal.simps) (auto simp: digits_value_def simp del: of_nat_add)
qed

lemma strtol_decimal:
  assumes "n < 1000"
  shows "strtol (decimal n) = (int n, [])"
proof -
  note d = decimal_digits [of n]
  then obtain c cs where c: "decimal n = c # cs" "is_digit c" by (cases "decimal n") auto
  have s: "\<not> is_space c" "c \<notin> {43, 45}"
    using c(2) by (auto simp: is_digit_def is_space_def word_le_nat_alt)
  have e: "takeWhile is_digit cs = cs" "dropWhile is_digit cs = []"
    unfolding takeWhile_eq_all_conv dropWhile_eq_Nil_conv using d c(1) by auto
  show ?thesis
    using c s assms digits_value_decimal [of n] by (simp add: strtol_def Let_def e)
qed

lemma while_delimiter:
  "d \<notin> set a \<Longrightarrow> takeWhile (\<lambda>c. c \<noteq> d) (a @ d # rest) = a \<and> dropWhile (\<lambda>c. c \<noteq> d) (a @ d # rest) = d # rest"
  "d \<notin> set a \<Longrightarrow> takeWhile (\<lambda>c. c \<noteq> d) a = a \<and> dropWhile (\<lambda>c. c \<noteq> d) a = []"
  by (induction a) auto

lemma strtok_first:
  assumes "a \<noteq> []" and "47 \<notin> set a"
  shows "strtok (a @ 47 # rest) = (Some a, rest)"
proof -
  have "dropWhile (\<lambda>c. c = 47) (a @ 47 # rest) = a @ 47 # rest" using assms by (cases a) auto
  then show ?thesis using while_delimiter(1) [OF assms(2), of rest] by (simp add: strtok_def)
qed

lemma strtok_last:
  assumes "a \<noteq> []" and "47 \<notin> set a"
  shows "strtok a = (Some a, [])"
proof -
  have "dropWhile (\<lambda>c. c = 47) a = a" using assms by (cases a) auto
  moreover have "takeWhile (\<lambda>c. c \<noteq> 47) a = a" "dropWhile (\<lambda>c. c \<noteq> 47) a = []"
    using while_delimiter(2) [OF assms(2)] by blast+
  ultimately show ?thesis using assms(1) by (simp only: strtok_def Let_def) simp
qed

lemma readline_loop_line:
  "buf @ l \<noteq> [] \<Longrightarrow> hd (buf @ l) \<noteq> 10 \<Longrightarrow> 10 \<notin> set l \<Longrightarrow> 35 \<notin> set l \<Longrightarrow>
     readline_loop True True (l @ 10 # fp) buf False = (buf @ l @ [10], fp)"
  by (induction l arbitrary: buf) (auto simp: Let_def)

lemma readline_line:
  assumes "l \<noteq> []" and "10 \<notin> set l" and "35 \<notin> set l"
  shows "readline (l @ 10 # fp) True True = (Some (l @ [10]), fp)"
proof -
  have "hd l \<noteq> 10" using assms(1,2) by (cases l) auto
  then show ?thesis using readline_loop_line [of "[]" l fp] assms by (simp add: readline_def)
qed

lemma htonl_0 [simp]: "htonl 0 = 0"
  by (simp add: htonl_def)

lemma htonl_AND: "htonl (a AND b) = htonl a AND htonl b"
proof (rule bit_word_eqI)
  have "\<forall>n < 32. bit (htonl (a AND b)) n = bit (htonl a AND htonl b) n"
    unfolding all_bits_32 by (simp add: upt_rec htonl_def bit_simps) (auto dest: bit_imp_le_length)
  then show "bit (htonl (a AND b)) n = bit (htonl a AND htonl b) n" if "n < LENGTH(32)" for n
    using that by simp
qed

lemma prefix_mask:
  fixes a c :: u32
  assumes "b \<le> 32"
  shows "a AND push_bit (32 - b) 0xFFFFFFFF = c AND push_bit (32 - b) 0xFFFFFFFF \<longleftrightarrow>
    take b (word_bits a) = take b (word_bits c)"
proof -
  have m: "bit (push_bit (32 - b) (0xFFFFFFFF :: u32)) i \<longleftrightarrow> 32 - b \<le> i \<and> i < 32" for i
  proof -
    have "(0xFFFFFFFF :: u32) = - 1" by simp
    then show ?thesis by (simp only: bit_push_bit_iff bit_minus_1_iff) auto
  qed
  have "a AND push_bit (32 - b) 0xFFFFFFFF = c AND push_bit (32 - b) 0xFFFFFFFF \<longleftrightarrow>
    (\<forall>i < 32. 32 - b \<le> i \<longrightarrow> bit a i = bit c i)"
    by (auto simp: bit_eq_iff bit_and_iff m)
  also have "\<dots> \<longleftrightarrow> (\<forall>i < b. bit a (31 - i) = bit c (31 - i))"
  proof
    assume r: "\<forall>i < b. bit a (31 - i) = bit c (31 - i)"
    show "\<forall>i < 32. 32 - b \<le> i \<longrightarrow> bit a i = bit c i"
    proof (intro allI impI)
      fix i :: nat assume "i < 32" "32 - b \<le> i"
      then show "bit a i = bit c i" using r [rule_format, of "31 - i"] assms by simp
    qed
  qed (use assms in auto)
  also have "\<dots> \<longleftrightarrow> take b (word_bits a) = take b (word_bits c)"
    using assms by (auto simp: word_bits_def list_eq_iff_nth_eq)
  finally show ?thesis .
qed


section \<open>Files of prefixes\<close>

text \<open>A line with an IPv4 network and the number of its bits, and the entry it stands for.\<close>

definition prefix_line :: "u8 list \<times> nat \<Rightarrow> u8 list" where
  "prefix_line e = fst e @ 47 # decimal (snd e) @ [10]"

definition network :: "inet \<Rightarrow> u8 list \<times> nat \<Rightarrow> u32 \<times> u32" where
  "network n e = (let net = the (pton4 n (fst e));
       msk = htonl (if net = 0 \<or> snd e = 0 then 0 else push_bit (32 - snd e) 0xFFFFFFFF)
     in (net AND msk, msk))"

definition prefix_entry :: "inet \<Rightarrow> u8 list \<times> nat \<Rightarrow> bool" where
  "prefix_entry n e \<longleftrightarrow> fst e \<noteq> [] \<and> set (fst e) \<inter> {10, 35, 47, 58} = {} \<and> pton4 n (fst e) \<noteq> None \<and> snd e \<le> 32"

text \<open>What \<^verbatim>\<open>inet_addr\<close> is relied on for: reading back the mask that was printed.\<close>

definition reads_masks :: "inet \<Rightarrow> bool" where
  "reads_masks n \<longleftrightarrow> (\<forall>m. aton n (dotted_quad m) = Some (htonl m))"

lemma decimal_plain: "is_digit c \<Longrightarrow> c \<notin> {10, 35, 46, 47, 58}"
  by (auto simp: is_digit_def word_le_nat_alt)

lemma decimal_set: "set (decimal b) \<inter> {10, 35, 46, 47, 58} = {}"
  using decimal_digits [of b] decimal_plain by blast

lemma parse_slash_prefix:
  assumes "prefix_entry n e" and "reads_masks n"
  shows "parse_slash n (fst e @ 47 # decimal (snd e)) = Some (Inl (network n e))"
proof -
  obtain a b net where e: "e = (a, b)" "pton4 n a = Some net" "a \<noteq> []" "47 \<notin> set a" "58 \<notin> set a" "b \<le> 32"
    using assms(1) by (cases e) (auto simp: prefix_entry_def)
  have d: "strtok (a @ 47 # decimal b) = (Some a, decimal b)" "strtok (decimal b) = (Some (decimal b), [])"
    using strtok_first [OF e(3,4)] strtok_last [of "decimal b"] decimal_digits [of b] decimal_set [of b] by auto
  have m: "parse_mask4 n net (decimal b) = Some (network n e)"
    using strtol_decimal [of b] decimal_set [of b] e(6) assms(2)
    by (auto simp: parse_mask4_def network_def e(1,2) Let_def inet_addr_def reads_masks_def)
  show ?thesis using d m e(2,5) by (simp add: parse_slash_def e(1))
qed

lemma parse_entries_prefixes:
  assumes "\<forall>e \<in> set es. prefix_entry n e" and "reads_masks n" and "length nets4 + length es \<le> max_entries"
    and "0 < max_entries"
  shows "parse_entries n (concat (map prefix_line es) @ rest) max_entries nets4 []
    = parse_entries n rest max_entries (nets4 @ map (network n) es) []"
  using assms(1,3)
proof (induction es arbitrary: nets4)
  case (Cons e es)
  let ?fp = "concat (map prefix_line es) @ rest"
  define l where "l = fst e @ 47 # decimal (snd e)"
  have p: "l \<noteq> []" "47 \<in> set l" "10 \<notin> set l" "35 \<notin> set l"
    using Cons.prems(1) decimal_set [of "snd e"] by (auto simp: prefix_entry_def l_def)
  have r: "readline (l @ 10 # ?fp) True True = (Some (l @ [10]), ?fp)" by (rule readline_line [OF p(1,3,4)])
  have f: "concat (map prefix_line (e # es)) @ rest = l @ 10 # ?fp" by (simp add: prefix_line_def l_def)
  have s: "parse_slash n l = Some (Inl (network n e))" using parse_slash_prefix Cons.prems(1) assms(2) by (simp add: l_def)
  show ?case
    unfolding f using r s p(2) Cons assms(4) by (subst parse_entries.simps) simp
qed simp

lemma network_match:
  assumes "prefix_entry n e"
  shows "adx AND snd (network n e) = fst (network n e) \<longleftrightarrow> the (pton4 n (fst e)) = 0
    \<or> take (snd e) (word_bits (htonl adx)) = take (snd e) (word_bits (htonl (the (pton4 n (fst e)))))"
proof -
  define net where "net = the (pton4 n (fst e))"
  show ?thesis
  proof (cases "net = 0 \<or> snd e = 0")
    case True
    then show ?thesis by (auto simp: network_def Let_def net_def)
  next
    case False
    have "adx AND htonl x = net AND htonl x \<longleftrightarrow> htonl adx AND x = htonl net AND x" for x
      by (metis htonl_AND htonl_htonl)
    then show ?thesis
      using False prefix_mask [of "snd e" "htonl adx" "htonl net"] assms
      by (simp add: network_def Let_def prefix_entry_def flip: net_def)
  qed
qed

lemma match_net_exists: "match_net adx nets \<longleftrightarrow> (\<exists>e \<in> set nets. adx AND snd e = fst e)"
  by (induction adx nets rule: match_net.induct) auto

text \<open>
  C30.  A file with one IPv4 network and its number of bits in each line is read completely, and
  membership in the result is sharing that many bits with one of the networks.  The network 0.0.0.0 is an
  exception: with any number of bits it contains every address.
\<close>

theorem parsed_networks:
  assumes "\<forall>e \<in> set es. prefix_entry n e" and "reads_masks n" and "length es \<le> max_entries" and "0 < max_entries"
  shows "\<exists>nets4. ParseNetFile n (concat (map prefix_line es)) max_entries = (True, nets4, [])
    \<and> length nets4 = length es
    \<and> (\<forall>adx. match_net adx nets4 \<longleftrightarrow> (\<exists>e \<in> set es. the (pton4 n (fst e)) = 0
        \<or> take (snd e) (word_bits (htonl adx)) = take (snd e) (word_bits (htonl (the (pton4 n (fst e)))))))"
proof -
  have "parse_entries n [] max_entries nets4 [] = (True, nets4, [])" for nets4
    by (subst parse_entries.simps) (simp add: readline_def)
  then have "ParseNetFile n (concat (map prefix_line es)) max_entries = (True, map (network n) es, [])"
    using parse_entries_prefixes [OF assms(1,2) _ assms(4), of "[]" "[]"] assms(3) by (simp add: ParseNetFile_def)
  then show ?thesis using network_match assms(1) by (simp add: match_net_exists)
qed

text \<open>
  C39.  A line that is refused ends the reading: the networks in the lines before it are in force, all
  networks behind it are dropped, and 0 is returned, which the caller ignores.
\<close>

theorem refused_line_truncates:
  assumes "\<forall>e \<in> set es. prefix_entry n e" and "reads_masks n" and "length es < max_entries"
    and "bad \<noteq> []" and "set bad \<inter> {10, 35} = {}"
    and "if 47 \<in> set bad then parse_slash n bad = None else aton n bad = None"
  shows "ParseNetFile n (concat (map prefix_line es) @ bad @ 10 # rest) max_entries = (False, map (network n) es, [])"
proof -
  have "readline (bad @ 10 # rest) True True = (Some (bad @ [10]), rest)"
    by (rule readline_line) (use assms(4,5) in auto)
  then have "parse_entries n (bad @ 10 # rest) max_entries (map (network n) es) [] = (False, map (network n) es, [])"
    using assms(3,6) by (subst parse_entries.simps) (auto simp: parse_pair_def split: if_splits)
  then show ?thesis
    using parse_entries_prefixes [OF assms(1,2), of "[]" max_entries "bad @ 10 # rest"] assms(3)
    by (simp add: ParseNetFile_def)
qed


text \<open>A library for the examples, with two texts for addresses.\<close>

definition field :: "u8 list \<Rightarrow> u32 \<times> u8 list" where
  "field s = (of_int (digits_value (takeWhile (\<lambda>c. c \<noteq> 46) s)), drop 1 (dropWhile (\<lambda>c. c \<noteq> 46) s))"

definition read_quad :: "u8 list \<Rightarrow> u32 option" where
  "read_quad s = (if 46 \<notin> set s then None
     else let (a, s) = field s; (b, s) = field s; (c, s) = field s; (d, s) = field s
       in Some (htonl (push_bit 24 a OR push_bit 16 b OR push_bit 8 c OR d)))"

definition some_inet :: inet where
  "some_inet = \<lparr>pton4 = (\<lambda>s. if s = [97] then Some 10 else if s = [122] then Some 0 else None),
     pton6 = (\<lambda>_. None), aton = read_quad\<rparr>"

lemma field_decimal:
  "field (decimal x @ 46 # s) = (of_nat x, s)" "field (decimal x) = (of_nat x, [])"
proof -
  have d: "46 \<notin> set (decimal x)" using decimal_set [of x] by auto
  show "field (decimal x @ 46 # s) = (of_nat x, s)"
    using while_delimiter(1) [OF d, of s] digits_value_decimal [of x] by (simp add: field_def)
  have "takeWhile (\<lambda>c. c \<noteq> 46) (decimal x) = decimal x" "dropWhile (\<lambda>c. c \<noteq> 46) (decimal x) = []"
    using while_delimiter(2) [OF d] by blast+
  note e = this
  show "field (decimal x) = (of_nat x, [])"
    unfolding field_def e digits_value_decimal by simp
qed

lemma quad_word:
  "push_bit 24 (drop_bit 24 m) OR push_bit 16 (drop_bit 16 m AND 0xFF) OR push_bit 8 (drop_bit 8 m AND 0xFF)
     OR m AND 0xFF = m" for m :: u32
proof -
  have m8: "x AND 0xFF = take_bit 8 x" for x :: u32 by (simp add: take_bit_eq_mask mask_eq_exp_minus_1)
  show ?thesis
    unfolding m8
  proof (rule bit_word_eqI)
    fix i assume "i < LENGTH(32)"
    then show "bit (push_bit 24 (drop_bit 24 m) OR push_bit 16 (take_bit 8 (drop_bit 16 m))
        OR push_bit 8 (take_bit 8 (drop_bit 8 m)) OR take_bit 8 m) i = bit m i"
      by (cases "24 \<le> i"; cases "16 \<le> i"; cases "8 \<le> i")
        (auto simp: bit_or_iff bit_push_bit_iff bit_drop_bit_eq bit_take_bit_iff)
  qed
qed

lemma reads_masks_some_inet: "reads_masks some_inet"
  unfolding reads_masks_def
proof
  fix m
  have "46 \<in> set (dotted_quad m)" by (simp add: dotted_quad_def)
  then show "aton some_inet (dotted_quad m) = Some (htonl m)"
    using quad_word [of m] by (simp add: some_inet_def read_quad_def dotted_quad_def field_decimal)
qed

lemma some_entries: "prefix_entry some_inet ([97], 8)" "prefix_entry some_inet ([122], 8)"
  by (simp_all add: prefix_entry_def some_inet_def)

theorem parsed_networks_witness:
  "\<exists>nets4. ParseNetFile some_inet (prefix_line ([97], 8) @ prefix_line ([122], 8)) 256 = (True, nets4, []) \<and> length nets4 = 2"
  using parsed_networks [of "[([97], 8), ([122], 8)]" some_inet 256] some_entries reads_masks_some_inet by auto

theorem refused_line_truncates_witness:
  "\<exists>e. ParseNetFile some_inet (prefix_line ([97], 8) @ [98] @ 10 # prefix_line ([97], 24)) 256 = (False, [e], [])"
  using refused_line_truncates [of "[([97], 8)]" some_inet 256 "[98]" "prefix_line ([97], 24)"]
    some_entries reads_masks_some_inet by (auto simp: some_inet_def read_quad_def)

end
