(* ===== verification/Pad.thy ===== *)
theory Pad
  imports World "HOL-Library.Signed_Division"
begin

text \<open>
  What nothing calls any more: \<^verbatim>\<open>padEncrypt\<close> and \<^verbatim>\<open>padDecrypt\<close> of \<^verbatim>\<open>src/rijndael.c\<close>, which take texts of
  any length, and \<^verbatim>\<open>StringEncryptedBase64\<close> of \<^verbatim>\<open>src/crypto_ip.c\<close>.  The buffers are lists of bytes here; as in
  the other drivers, access behind them is a fault.
\<close>

section \<open>Padding\<close>

definition RIJNDAEL_CORRUPTED_DATA :: int where "RIJNDAEL_CORRUPTED_DATA = -7"

definition chunk :: "u8 list \<Rightarrow> nat \<Rightarrow> block" where
  "chunk bs i = bytes_block (take 16 (drop (16 * i) bs))"

definition blocks_bytes :: "block list \<Rightarrow> u8 list" where
  "blocks_bytes bs = concat (map block_bytes bs)"

definition overwrite :: "u8 list \<Rightarrow> u8 list \<Rightarrow> u8 list" where
  "overwrite new out = new @ drop (length new) out"

text \<open>The loop of mode CBC; \<^verbatim>\<open>input32\<close> stays at the first block \<open>p\<close>.\<close>

fun pad_chain :: "rijndael \<Rightarrow> block \<Rightarrow> block \<Rightarrow> nat \<Rightarrow> block list" where
  "pad_chain self p iv 0 = []"
| "pad_chain self p iv (Suc n) = (let c = r_encrypt self (xor_block p iv) in c # pad_chain self p c n)"

text \<open>
  In mode ECB the padding goes to \<open>block + 4 - padLen\<close>, which counts words: behind \<open>4 * (4 - padLen)\<close> bytes,
  or before the buffer.  \<open>stack\<close> is what the variable \<^verbatim>\<open>block\<close> holds.
\<close>

definition ecb_last :: "u8 list \<Rightarrow> u8 list \<Rightarrow> nat \<Rightarrow> u8 list option" where
  "ecb_last stack rest padLen =
     (if 4 < padLen then None
      else let b = overwrite rest stack; i = 4 * (4 - padLen)
        in Some (take i b @ replicate padLen (of_nat padLen) @ drop (i + padLen) b))"

definition padEncrypt ::
  "rijndael \<Rightarrow> u8 list \<Rightarrow> u8 list option \<Rightarrow> int \<Rightarrow> u8 list \<Rightarrow> (int \<times> u8 list) option" where
  "padEncrypt self stack input inputOctets outBuffer =
     (if m_state self \<noteq> Valid then Some (RIJNDAEL_NOT_INITIALIZED, outBuffer)
      else if m_direction self \<noteq> Encrypt then Some (RIJNDAEL_NOT_INITIALIZED, outBuffer)
      else case input of None \<Rightarrow> Some (0, outBuffer) | Some input \<Rightarrow>
      if inputOctets \<le> 0 then Some (0, outBuffer)
      else let n = nat inputOctets; numBlocks = n div 16; padLen = 16 - (n - 16 * numBlocks);
          rest = take (16 - padLen) (drop (16 * numBlocks) input) in
      if m_mode self \<notin> {ECB, CBC} then Some (-1, outBuffer)
      else if length input < n \<or> length outBuffer < 16 * (numBlocks + 1) \<or> \<not> rounds_ok self then None
      else do {
        cs \<leftarrow> (if m_mode self = ECB then do {
            b \<leftarrow> ecb_last stack rest padLen;
            Some (map (\<lambda>i. r_encrypt self (chunk input i)) [0..<numBlocks] @ [r_encrypt self (bytes_block b)])
          } else
            let cs = pad_chain self (chunk input 0) (m_initVector self) numBlocks;
                iv = last (m_initVector self # cs)
            in Some (cs @ [r_encrypt self (xor_block (bytes_block (rest @ replicate padLen (of_nat padLen))) iv)]));
        Some (16 * (int numBlocks + 1), overwrite (blocks_bytes cs) outBuffer)
      })"

text \<open>Block \<open>i\<close> of the plaintext, padding included.\<close>

definition pad_plain :: "rijndael \<Rightarrow> u8 list \<Rightarrow> nat \<Rightarrow> block" where
  "pad_plain self input i =
     (if m_mode self = ECB then r_decrypt self (chunk input i)
      else xor_block (r_decrypt self (chunk input i)) (if i = 0 then m_initVector self else chunk input (i - 1)))"

definition padDecrypt ::
  "rijndael \<Rightarrow> u8 list option \<Rightarrow> int \<Rightarrow> u8 list \<Rightarrow> (int \<times> u8 list) option" where
  "padDecrypt self input inputOctets outBuffer =
     (if m_state self \<noteq> Valid then Some (RIJNDAEL_NOT_INITIALIZED, outBuffer)
      else if m_direction self \<noteq> Decrypt then Some (RIJNDAEL_BAD_DIRECTION, outBuffer)
      else case input of None \<Rightarrow> Some (0, outBuffer) | Some input \<Rightarrow>
      if inputOctets \<le> 0 then Some (0, outBuffer)
      else if inputOctets mod 16 \<noteq> 0 then Some (RIJNDAEL_CORRUPTED_DATA, outBuffer)
      else let numBlocks = nat inputOctets div 16 in
      if m_mode self \<notin> {ECB, CBC} then Some (-1, outBuffer)
      else if length input < 16 * numBlocks \<or> length outBuffer < 16 * (numBlocks - 1) \<or> \<not> rounds_ok self then None
      else let
          plain = pad_plain self input;
          out = overwrite (blocks_bytes (map plain [0..<numBlocks - 1])) outBuffer;
          b = block_bytes (plain (numBlocks - 1));
          padLen = unat (b ! 15)
        in if m_mode self = ECB \<and> 16 \<le> padLen \<or> m_mode self = CBC \<and> (padLen = 0 \<or> 16 < padLen)
             then Some (RIJNDAEL_CORRUPTED_DATA, out)
           else if drop (16 - padLen) b \<noteq> replicate padLen (b ! 15) then Some (RIJNDAEL_CORRUPTED_DATA, out)
           else if length outBuffer < 16 * numBlocks - padLen then None
           else Some (16 * int numBlocks - int padLen,
             overwrite (blocks_bytes (map plain [0..<numBlocks - 1]) @ take (16 - padLen) b) outBuffer))"

section \<open>Strings\<close>

text \<open>The sizes of the static buffers, 0 before they are allocated.\<close>

definition SE_BUFFER_SIZE :: nat where "SE_BUFFER_SIZE = 80"
definition SE_BUFFER_SIZE_B64 :: nat where "SE_BUFFER_SIZE_B64 = 120"

record se_buffers =
  in_buffer_size :: nat
  enc_out_buffer_size :: nat
  b64_result_size :: nat

definition blocks_of :: "u8 list \<Rightarrow> block list" where
  "blocks_of bs = map (chunk bs) [0..<length bs div 16]"

text \<open>
  The lengths are of type \<^verbatim>\<open>int\<close>.  \<open>int_result\<close> is the result of an operation on them, of which an overflow is
  undefined and a fault here; \<open>as_int\<close> is the conversion of a size.
\<close>

definition int_result :: "int \<Rightarrow> int option" where
  "int_result i = (if - (2 ^ 31) \<le> i \<and> i < 2 ^ 31 then Some i else None)"

definition as_int :: "nat \<Rightarrow> int" where
  "as_int n = sint (of_nat n :: u32)"

definition se_allocate :: "se_buffers \<Rightarrow> int \<Rightarrow> se_buffers option" where
  "se_allocate b input_len =
     (let b = (if in_buffer_size b = 0
            then \<lparr>in_buffer_size = SE_BUFFER_SIZE, enc_out_buffer_size = SE_BUFFER_SIZE, b64_result_size = SE_BUFFER_SIZE_B64\<rparr>
            else b)
      in do {
        need \<leftarrow> int_result (input_len + 15);
        if int (in_buffer_size b) < need
        then do {
          times \<leftarrow> int_result (1 + need sdiv int SE_BUFFER_SIZE);
          size \<leftarrow> int_result (times * int SE_BUFFER_SIZE);
          size_b64 \<leftarrow> int_result (times * int SE_BUFFER_SIZE_B64);
          Some \<lparr>in_buffer_size = nat size, enc_out_buffer_size = nat size, b64_result_size = nat size_b64\<rparr>
        }
        else Some b
      })"

definition padded_size :: "int \<Rightarrow> int option" where
  "padded_size input_len = (if input_len smod 16 = 0 then Some input_len else int_result (16 * (1 + input_len sdiv 16)))"

text \<open>
  \<open>fails\<close> says that an allocation of this call fails; every null pointer is written through.  \<open>string\<close> holds
  the bytes from the pointer on.
\<close>

definition StringEncryptedBase64 ::
  "bool \<Rightarrow> rijndael \<Rightarrow> se_buffers \<Rightarrow> u8 list \<Rightarrow> (se_buffers \<times> u8 list) option" where
  "StringEncryptedBase64 fails rj b string =
     (let input_len = as_int (length (cstr string)) in
      if fails then None
      else do {
        b \<leftarrow> se_allocate b input_len;
        let in_buffer = overwrite (take (in_buffer_size b - 1) (cstr string)) (replicate (in_buffer_size b) 0);
        padded_len \<leftarrow> padded_size input_len;
        inputLen \<leftarrow> int_result (padded_len * 8);
        (retval, enc) \<leftarrow> blockEncrypt rj (Some (blocks_of in_buffer)) inputLen
          (replicate (enc_out_buffer_size b div 16) 0);
        let b64 = base64 (take (nat (retval sdiv 8)) (blocks_bytes enc));
        Some (b, take (b64_result_size b - 1) b64)
      })"

end
