(* ===== verification/Pad_Properties.thy ===== *)
theory Pad_Properties
  imports Pad Cipher_Properties
begin

text \<open>
  Properties of the encryption of texts of any length: what padding in mode CBC restores, why padding in mode
  ECB cannot work, and what the encryption of strings computes.
\<close>

section \<open>Bytes and blocks\<close>

lemma block_columns: obtains a b c d e f g h i j k l m n x y
  where "bl = Block (Col a b c d) (Col e f g h) (Col i j k l) (Col m n x y)"
  by (metis block.exhaust col.exhaust)

lemma length_block_bytes [simp]: "length (block_bytes b) = 16"
  by (cases b rule: block_columns) simp

lemma bytes_block_bytes [simp]: "bytes_block (block_bytes b) = b"
  by (cases b rule: block_columns) (simp add: bytes_block_def key_matrix_def upt_rec)

lemma block_bytes_block: "length bs = 16 \<Longrightarrow> block_bytes (bytes_block bs) = bs"
  by (auto simp: bytes_block_def key_matrix_def upt_rec numeral_eq_Suc length_Suc_conv)

lemma length_blocks_bytes [simp]: "length (blocks_bytes bs) = 16 * length bs"
  by (induction bs) (simp_all add: blocks_bytes_def)

lemma chunk_blocks_bytes: "i < length bs \<Longrightarrow> chunk (blocks_bytes bs @ rest) i = bs ! i"
proof (induction bs arbitrary: i)
  case (Cons b bs)
  then show ?case by (cases i) (simp_all add: chunk_def blocks_bytes_def)
qed simp

lemma xor_block_twice [simp]: "xor_block (xor_block a b) b = a"
  by (simp add: xor_block_plus add.assoc)

lemma overwrite_all: "length out \<le> length new \<Longrightarrow> overwrite new out = new"
  by (simp add: overwrite_def)

lemma length_overwrite: "length new \<le> length out \<Longrightarrow> length (overwrite new out) = length out"
  by (simp add: overwrite_def)

section \<open>Mode CBC\<close>

lemma length_pad_chain [simp]: "length (pad_chain self p iv n) = n"
  by (induction n arbitrary: iv) (simp_all add: Let_def)

lemma pad_chain_nth: "i < n \<Longrightarrow> pad_chain self p iv n ! i = r_encrypt self (xor_block p ((iv # pad_chain self p iv n) ! i))"
proof (induction n arbitrary: iv i)
  case (Suc n)
  then show ?case by (cases i) (simp_all add: Let_def)
qed simp

text \<open>What padDecrypt in mode CBC finds in the output of padEncrypt, with \<open>p\<close> in front of the last block.\<close>

lemma cbc_plain:
  assumes "\<And>x. r_decrypt d (r_encrypt e x) = x" and "m_initVector d = m_initVector e"
    and "cs = pad_chain e p (m_initVector e) n @ [r_encrypt e (xor_block q (last (m_initVector e # pad_chain e p (m_initVector e) n)))]"
    and "i \<le> n"
  shows "xor_block (r_decrypt d (chunk (blocks_bytes cs) i)) (if i = 0 then m_initVector d else chunk (blocks_bytes cs) (i - 1))
    = (if i < n then p else q)"
proof -
  let ?ps = "pad_chain e p (m_initVector e) n"
  have c: "chunk (blocks_bytes cs) j = cs ! j" if "j \<le> n" for j
    using chunk_blocks_bytes [of j cs "[]"] that by (simp add: assms(3))
  have prev: "(if i = 0 then m_initVector d else chunk (blocks_bytes cs) (i - 1)) = (m_initVector e # ?ps) ! i"
    using c [of "i - 1"] assms(4) by (cases i) (simp_all add: assms(2,3) nth_append)
  have "cs ! i = r_encrypt e (xor_block (if i < n then p else q) ((m_initVector e # ?ps) ! i))"
    using assms(4) pad_chain_nth [of i n e p "m_initVector e"] last_conv_nth [of "m_initVector e # ?ps"]
    by (auto simp: assms(3) nth_append)
  then show ?thesis unfolding prev using c [OF assms(4)] assms(1) by simp
qed

text \<open>
  C37.  Padding in mode CBC.  With contexts set up for encryption and decryption with the same key and
  initial vector, padDecrypt accepts the output of padEncrypt and returns the length of the input, but instead
  of every complete block it restores the first one; only inputs of less than 32 bytes come back.
\<close>

theorem pad_cbc:
  assumes "tables_loaded s1" and "shaped (m_expandedKey s1)" and "tables_loaded s2" and "shaped (m_expandedKey s2)"
    and "key_length_of keyLen = Some (n, Nr)" and "n \<le> length key" and "input \<noteq> []"
    and "length out = 16 * (length input div 16 + 1)" and "length input \<le> length out'"
  shows "\<exists>e d cipher len. rijndael_init s1 CBC Encrypt (Some key) keyLen iv = Some (e, RIJNDAEL_SUCCESS)
    \<and> rijndael_init s2 CBC Decrypt (Some key) keyLen iv = Some (d, RIJNDAEL_SUCCESS)
    \<and> len = 16 * (int (length input div 16) + 1)
    \<and> padEncrypt e stack (Some input) (int (length input)) out = Some (len, cipher)
    \<and> padDecrypt d (Some cipher) len out' = Some (int (length input),
        concat (replicate (length input div 16) (take 16 input)) @ drop (16 * (length input div 16)) input @ drop (length input) out')"
proof -
  obtain e where e: "rijndael_init s1 CBC Encrypt (Some key) keyLen iv = Some (e, RIJNDAEL_SUCCESS)"
    "keyed e n Nr key" "m_mode e = CBC" "m_direction e = Encrypt" "m_initVector e = (case iv of Some v \<Rightarrow> v | None \<Rightarrow> 0)"
    using rijndael_init_keyed [OF assms(1,2), of CBC Encrypt keyLen n Nr key iv] assms(5,6) by (metis insertI1 insertI2)
  obtain d where d: "rijndael_init s2 CBC Decrypt (Some key) keyLen iv = Some (d, RIJNDAEL_SUCCESS)"
    "keyed d n Nr key" "m_mode d = CBC" "m_direction d = Decrypt" "m_initVector d = (case iv of Some v \<Rightarrow> v | None \<Rightarrow> 0)"
    using rijndael_init_keyed [OF assms(3,4), of CBC Decrypt keyLen n Nr key iv] assms(5,6) by (metis insertI1 insertI2)
  have inv: "r_decrypt d (r_encrypt e x) = x" for x using e(2,4) d(2,4) by (simp add: keyed_def aes.inv_aes_aes)
  note r = keyed_rounds_ok [OF e(2) assms(5)] keyed_rounds_ok [OF d(2) assms(5)]
  define nb where "nb = length input div 16"
  define padLen where "padLen = 16 - (length input - 16 * nb)"
  have p: "0 < padLen" "padLen \<le> 16" "length input = 16 * nb + (16 - padLen)" unfolding nb_def padLen_def by presburger+
  define rest where "rest = drop (16 * nb) input"
  have rest: "length rest = 16 - padLen" using p by (simp add: rest_def)
  define q where "q = bytes_block (rest @ replicate padLen (of_nat padLen))"
  have q: "block_bytes q = rest @ replicate padLen (of_nat padLen)"
    unfolding q_def by (rule block_bytes_block) (use rest p in simp)
  define cs where "cs = pad_chain e (chunk input 0) (m_initVector e) nb
    @ [r_encrypt e (xor_block q (last (m_initVector e # pad_chain e (chunk input 0) (m_initVector e) nb)))]"
  have len: "length cs = Suc nb" by (simp add: cs_def)
  have enc: "padEncrypt e stack (Some input) (int (length input)) out = Some (16 * (int nb + 1), blocks_bytes cs)"
  proof -
    have t: "take (16 - padLen) (drop (16 * nb) input) = rest" using rest by (simp add: rest_def)
    have o: "length out = 16 * (nb + 1)" using assms(8) by (simp add: nb_def)
    have "m_state e = Valid" "\<not> length input < length input" "0 < length input" using e(2) assms(7) by (simp_all add: keyed_def)
    then show ?thesis
      unfolding padEncrypt_def Let_def nat_int nb_def [symmetric] padLen_def [symmetric] t
      using e(3,4) r(1) o len by (simp add: overwrite_all rijndael_enums t cs_def q_def)
  qed
  have pad: "unat (block_bytes q ! 15) = padLen" "drop (16 - padLen) (block_bytes q) = replicate padLen (block_bytes q ! 15)"
    "take (16 - padLen) (block_bytes q) = rest"
    using p rest by (auto simp: q nth_append unat_of_nat)
  have first: "block_bytes (chunk input 0) = take 16 input" if "0 < nb"
    unfolding chunk_def by (subst block_bytes_block) (use that p in auto)
  have dec: "padDecrypt d (Some (blocks_bytes cs)) (16 * (int nb + 1)) out' = Some (int (length input),
      concat (replicate nb (take 16 input)) @ rest @ drop (length input) out')"
  proof -
    let ?plain = "pad_plain d (blocks_bytes cs)"
    have plain: "?plain i = (if i < nb then chunk input 0 else q)" if "i \<le> nb" for i
      using cbc_plain [OF inv _ cs_def that] d(3,5) e(5) by (simp add: pad_plain_def rijndael_enums)
    have all: "map ?plain [0..<nb] = replicate nb (chunk input 0)"
      by (rule nth_equalityI) (simp_all add: plain)
    have bytes: "blocks_bytes (map ?plain [0..<nb]) = concat (replicate nb (take 16 input))"
      unfolding all using first by (cases nb) (simp_all add: blocks_bytes_def)
    have "length (concat (replicate nb (take 16 input)) @ rest) = length input"
      using p rest by (cases nb) (simp_all add: length_concat sum_list_replicate)
    then have ow: "overwrite (concat (replicate nb (take 16 input)) @ rest) out' = concat (replicate nb (take 16 input)) @ rest @ drop (length input) out'"
      by (simp add: overwrite_def)
    have n: "nat (16 * (int nb + 1)) div 16 = nb + 1" "nb + 1 - 1 = nb" by simp_all
    have "m_state d = Valid" "m_mode d \<in> {ECB, CBC}" "m_mode d \<noteq> ECB" using d(2,3) by (simp_all add: keyed_def rijndael_enums)
    then show ?thesis
      unfolding padDecrypt_def Let_def n
      using d(4) r(2) len p assms(9) pad ow plain [OF le_refl] bytes by auto
  qed
  show ?thesis
    using e(1) d(1) enc dec by (simp add: nb_def rest_def)
qed

theorem pad_cbc_witness:
  "\<exists>e d cipher len. rijndael_init (init_rijndael_OP zero_rijndael) CBC Encrypt (Some (replicate 32 7)) Key32Bytes None = Some (e, RIJNDAEL_SUCCESS)
    \<and> rijndael_init (init_rijndael_OP zero_rijndael) CBC Decrypt (Some (replicate 32 7)) Key32Bytes None = Some (d, RIJNDAEL_SUCCESS)
    \<and> padEncrypt e (replicate 16 0) (Some (replicate 16 1 @ replicate 20 2)) 36 (replicate 48 0) = Some (len, cipher)
    \<and> padDecrypt d (Some cipher) len (replicate 36 0) = Some (36, replicate 16 1 @ replicate 16 1 @ replicate 4 2)"
  using pad_cbc [OF tables_loaded_init shaped_zero tables_loaded_init shaped_zero, of Key32Bytes 32 14 "replicate 32 7"
      "replicate 16 1 @ replicate 20 2" "replicate 48 0" "replicate 36 0" None "replicate 16 0"]
  by (auto simp: key_length_of_def rijndael_enums numeral_2_eq_2)

section \<open>Mode ECB\<close>

text \<open>
  Error behaviour.  Padding in mode ECB faults, by writing before its buffer, unless the last block of
  the input is at most four bytes short; and when it is one to three bytes short, the last byte of the padded
  block, which padDecrypt reads as the length of the padding, is not assigned.
\<close>

theorem pad_ecb_broken:
  assumes "m_state self = Valid" and "m_mode self = ECB" and "m_direction self = Encrypt" and "input \<noteq> []"
    and "length stack = 16"
  shows "(length input mod 16 < 12 \<longrightarrow> padEncrypt self stack (Some input) (int (length input)) out = None)
    \<and> (12 < length input mod 16 \<longrightarrow> rounds_ok self \<longrightarrow> 16 * (length input div 16 + 1) \<le> length out \<longrightarrow>
        (\<exists>b. length b = 16 \<and> b ! 15 = stack ! 15 \<and> padEncrypt self stack (Some input) (int (length input)) out
          = Some (16 * (int (length input div 16) + 1),
              overwrite (blocks_bytes (map (\<lambda>i. r_encrypt self (chunk input i)) [0..<length input div 16] @ [r_encrypt self (bytes_block b)])) out)))"
proof -
  define nb where "nb = length input div 16"
  define padLen where "padLen = 16 - (length input - 16 * nb)"
  define rest where "rest = take (16 - padLen) (drop (16 * nb) input)"
  have p: "0 < padLen" "padLen \<le> 16" "length input = 16 * nb + (16 - padLen)" "length input mod 16 = 16 - padLen"
    unfolding nb_def padLen_def by presburger+
  have rest: "length rest = 16 - padLen" using p by (simp add: rest_def)
  have e: "padEncrypt self stack (Some input) (int (length input)) out =
      (if length out < 16 * (nb + 1) \<or> \<not> rounds_ok self then None
       else ecb_last stack rest padLen \<bind> (\<lambda>b. Some (16 * (int nb + 1),
         overwrite (blocks_bytes (map (\<lambda>i. r_encrypt self (chunk input i)) [0..<nb] @ [r_encrypt self (bytes_block b)])) out)))"
    unfolding padEncrypt_def Let_def nat_int nb_def [symmetric] padLen_def [symmetric]
    using assms(1-4) by (simp add: rijndael_enums rest_def)
  let ?b = "overwrite rest stack" and ?i = "4 * (4 - padLen)"
  define b where "b = take ?i ?b @ replicate padLen (of_nat padLen) @ drop (?i + padLen) ?b"
  have l: "ecb_last stack rest padLen = (if 4 < padLen then None else Some b)"
    by (simp add: ecb_last_def Let_def b_def)
  have o: "length ?b = 16" "?b ! 15 = stack ! 15"
    using rest assms(5) p(1,2) by (auto simp: overwrite_def nth_append)
  have b: "length b = 16" "b ! 15 = stack ! 15" if "padLen < 4"
  proof -
    have "?i + padLen \<le> 15" "\<not> 15 - ?i < padLen" using that p(1) by simp_all
    then show "length b = 16" "b ! 15 = stack ! 15" using o by (simp_all add: b_def nth_append)
  qed
  show ?thesis
    unfolding e l nb_def [symmetric] p(4) using p(1,2) b by (auto intro!: exI [of _ b])
qed

theorem pad_ecb_broken_witness:
  "padEncrypt (zero_rijndael\<lparr>m_uRounds := 10\<rparr>) (replicate 16 9) (Some [1, 2, 3]) 3 (replicate 16 0) = None
    \<and> (\<exists>b. b ! 15 = 9 \<and> padEncrypt (zero_rijndael\<lparr>m_uRounds := 10\<rparr>) (replicate 16 9) (Some (replicate 15 1)) 15 (replicate 16 0)
      = Some (16, block_bytes (r_encrypt (zero_rijndael\<lparr>m_uRounds := 10\<rparr>) (bytes_block b))))"
  using pad_ecb_broken [of "zero_rijndael\<lparr>m_uRounds := 10\<rparr>" "[1, 2, 3]" "replicate 16 9" "replicate 16 0"]
    pad_ecb_broken [of "zero_rijndael\<lparr>m_uRounds := 10\<rparr>" "replicate 15 1" "replicate 16 9" "replicate 16 0"]
  by (auto simp: zero_rijndael_def rijndael_enums rounds_ok_def overwrite_def blocks_bytes_def)

section \<open>Strings\<close>

text \<open>The buffers before the first call and after any.\<close>

definition buffers_ok :: "se_buffers \<Rightarrow> bool" where
  "buffers_ok b \<longleftrightarrow> (\<exists>t. in_buffer_size b = t * 80 \<and> enc_out_buffer_size b = t * 80 \<and> b64_result_size b = t * 120)"

text \<open>A string with the zero bytes that complete its last block.\<close>

definition zero_padded :: "u8 list \<Rightarrow> u8 list" where
  "zero_padded s = s @ replicate ((16 - length s mod 16) mod 16) 0"

definition padded_blocks :: "u8 list \<Rightarrow> nat" where
  "padded_blocks s = (length s + 15) div 16"

lemma length_zero_padded: "length (zero_padded s) = 16 * padded_blocks s"
proof -
  define q r where "q = length s div 16" and "r = length s mod 16"
  have l: "length s = 16 * q + r" "r < 16" by (simp_all add: q_def r_def)
  have "length (zero_padded s) = 16 * q + r + (16 - r) mod 16" 
    using l(2) by (simp add: zero_padded_def l(1))
  moreover have "padded_blocks s = q + (r + 15) div 16" by (simp add: padded_blocks_def l(1) add.assoc)
  moreover have "(r + 15) div 16 = (if r = 0 then 0 else 1)" using l(2) by auto
  ultimately show ?thesis using l(2) by (cases "r = 0") simp_all
qed

lemma chunk_take: "16 * i + 16 \<le> m \<Longrightarrow> chunk (take m bs) i = chunk bs i"
  by (simp add: chunk_def drop_take)

lemma blocks_of_zero_padded:
  assumes "length s + 15 \<le> n"
  shows "take (padded_blocks s) (blocks_of (s @ replicate (n - length s) 0)) = blocks_of (zero_padded s)"
proof (rule nth_equalityI)
  let ?k = "padded_blocks s" and ?bs = "s @ replicate (n - length s) (0 :: u8)"
  have k: "16 * ?k \<le> n" using assms by (simp add: padded_blocks_def)
  have len: "length ?bs = n" using assms by simp
  have z: "zero_padded s = take (16 * ?k) ?bs"
  proof -
    obtain d where d: "zero_padded s = s @ replicate d 0" by (auto simp: zero_padded_def)
    then have "16 * ?k = length s + d" using length_zero_padded [of s] by simp
    then show ?thesis using k d by simp
  qed
  show "length (take ?k (blocks_of ?bs)) = length (blocks_of (zero_padded s))"
    using k len by (simp add: blocks_of_def length_zero_padded)
  fix i assume "i < length (take ?k (blocks_of ?bs))"
  then have i: "i < ?k" by simp
  have "chunk (zero_padded s) i = chunk ?bs i" unfolding z by (rule chunk_take) (use i in simp)
  then show "take ?k (blocks_of ?bs) ! i = blocks_of (zero_padded s) ! i"
    using i k len by (simp add: blocks_of_def length_zero_padded)
qed

lemma blocks_bytes_append [simp]: "blocks_bytes (bs @ bs') = blocks_bytes bs @ blocks_bytes bs'"
  by (simp add: blocks_bytes_def)

lemma as_int_small: "n < 2 ^ 31 \<Longrightarrow> as_int n = int n"
proof -
  assume n: "n < 2 ^ 31"
  have "sint (of_nat n :: u32) = signed_take_bit 31 (int n)" by transfer simp
  then show "as_int n = int n" using n by (simp add: as_int_def signed_take_bit_int_eq_self)
qed

lemma sdiv_pos: "0 \<le> a \<Longrightarrow> 0 < b \<Longrightarrow> a sdiv b = a div b" for a b :: int
  by (cases "a = 0") (simp_all add: signed_divide_int_def)

lemma smod_pos: "0 \<le> a \<Longrightarrow> 0 < b \<Longrightarrow> a smod b = a mod b" for a b :: int
  by (cases "a = 0") (simp_all add: signed_modulo_int_def)

lemma se_allocate_ok:
  assumes "buffers_ok b" and "l \<le> 2 ^ 28"
  obtains b' t where "se_allocate b (int l) = Some b'" and "in_buffer_size b' = t * 80" and "enc_out_buffer_size b' = t * 80"
    and "b64_result_size b' = t * 120" and "l + 15 \<le> t * 80"
proof -
  define b1 where "b1 = (if in_buffer_size b = 0 then \<lparr>in_buffer_size = SE_BUFFER_SIZE, enc_out_buffer_size = SE_BUFFER_SIZE,
      b64_result_size = SE_BUFFER_SIZE_B64\<rparr> else b)"
  obtain t1 where 1: "in_buffer_size b1 = t1 * 80" "enc_out_buffer_size b1 = t1 * 80" "b64_result_size b1 = t1 * 120"
    using assms(1)
    by (cases "in_buffer_size b = 0") (auto simp: b1_def buffers_ok_def SE_BUFFER_SIZE_def SE_BUFFER_SIZE_B64_def intro: that [of 1])
  define t where "t = 1 + (l + 15) div 80"
  have d: "1 + (int l + 15) sdiv 80 = int t" by (simp add: t_def sdiv_pos zdiv_int)
  have t: "l + 15 \<le> t * 80" "t \<le> 2 ^ 22"
    using div_mult_mod_eq [of "l + 15" 80] mod_less_divisor [of 80 "l + 15"] assms(2) by (simp_all add: t_def)
  show thesis
  proof (cases "in_buffer_size b1 < l + 15")
    case True
    then show thesis using that [of "\<lparr>in_buffer_size = t * 80, enc_out_buffer_size = t * 80, b64_result_size = t * 120\<rparr>" t] t d assms(2)
      by (simp add: se_allocate_def Let_def int_result_def SE_BUFFER_SIZE_def SE_BUFFER_SIZE_B64_def nat_mult_distrib flip: b1_def)
  next
    case False
    then show thesis using 1 that [of b1 t1] assms(2) by (simp add: se_allocate_def Let_def int_result_def flip: b1_def)
  qed
qed

lemma padded_len:
  assumes "n \<le> 2 ^ 30"
  shows "padded_size (int n) = Some (16 * int ((n + 15) div 16))"
proof -
  define q r where "q = n div 16" and "r = n mod 16"
  have l: "n = 16 * q + r" "r < 16" by (simp_all add: q_def r_def)
  have "(n + 15) div 16 = q + (r + 15) div 16" by (simp add: l(1) add.assoc)
  moreover have "(r + 15) div 16 = (if r = 0 then 0 else 1)" using l(2) by auto
  moreover have "int n sdiv 16 = int q" "int n smod 16 = int r" by (simp_all add: sdiv_pos smod_pos q_def r_def zdiv_int zmod_int)
  ultimately show ?thesis using l(2) assms by (auto simp: l(1) padded_size_def int_result_def)
qed

lemma base64_fits: "k \<le> t * 5 \<Longrightarrow> 0 < t \<Longrightarrow> length bs = 16 * k \<Longrightarrow> length (base64 bs) \<le> t * 120 - 1"
proof -
  assume a: "k \<le> t * 5" "0 < t" "length bs = 16 * k"
  have "(16 * k + 2) div 3 \<le> (80 * t + 2) div 3" using a(1) by (intro div_le_mono) simp
  moreover have "4 * ((80 * t + 2) div 3) \<le> t * 120 - 1" using a(2) by (cases t) (auto simp: div_le_dividend)
  ultimately show ?thesis using a(3) by (simp add: length_base64)
qed

lemma blockEncrypt_string:
  assumes "keyed e n Nr key" and "rounds_ok e" and "m_mode e = ECB" and "m_direction e = Encrypt" and "length s + 15 \<le> t * 80"
  shows "blockEncrypt e (Some (blocks_of (s @ replicate (t * 80 - length s) 0))) (int (16 * padded_blocks s * 8)) (replicate (t * 5) 0)
    = Some (128 * int (padded_blocks s), map (aes sbox (n div 4) Nr (key_matrix key (n div 4))) (blocks_of (zero_padded s))
        @ replicate (t * 5 - padded_blocks s) 0)"
proof (cases "padded_blocks s = 0")
  case True
  then have "blocks_of (zero_padded s) = []" by (simp add: blocks_of_def length_zero_padded)
  then show ?thesis using True assms(1,4) by (simp add: blockEncrypt_def keyed_def)
next
  case False
  have "padded_blocks s \<le> t * 5" using assms(5) by (simp add: padded_blocks_def)
  moreover have "length (blocks_of (s @ replicate (t * 80 - length s) 0)) = t * 5" using assms(5) by (simp add: blocks_of_def)
  moreover have "int (16 * padded_blocks s * 8) = 128 * int (padded_blocks s)" by simp
  ultimately show ?thesis
    using blockEncrypt_ecb [OF assms(1-4), of "padded_blocks s" "blocks_of (s @ replicate (t * 80 - length s) 0)" "replicate (t * 5) 0"]
      False blocks_of_zero_padded [OF assms(5)] by simp
qed

lemma string_encrypted_short:
  assumes "keyed e n Nr key" and "rounds_ok e" and "m_mode e = ECB" and "m_direction e = Encrypt" and "buffers_ok b"
    and "length (cstr s) \<le> 2 ^ 28 - 16"
  shows "\<exists>b'. StringEncryptedBase64 False e b s
      = Some (b', base64 (blocks_bytes (map (aes sbox (n div 4) Nr (key_matrix key (n div 4))) (blocks_of (zero_padded (cstr s))))))
    \<and> buffers_ok b'"
proof -
  let ?s = "cstr s"
  let ?k = "padded_blocks ?s"
  let ?cs = "map (aes sbox (n div 4) Nr (key_matrix key (n div 4))) (blocks_of (zero_padded ?s))"
  obtain b' t where t: "se_allocate b (int (length ?s)) = Some b'" "in_buffer_size b' = t * 80" "enc_out_buffer_size b' = t * 80"
    "b64_result_size b' = t * 120" "length ?s + 15 \<le> t * 80"
    by (rule se_allocate_ok [OF assms(5), of "length ?s"]) (use assms(6) in simp_all)
  have buf: "overwrite (take (in_buffer_size b' - 1) ?s) (replicate (in_buffer_size b') 0) = ?s @ replicate (t * 80 - length ?s) 0"
    using t by (simp add: overwrite_def min_def)
  have cs: "length ?cs = ?k" by (simp add: blocks_of_def length_zero_padded)
  have k: "16 * ?k < 2 ^ 28" using assms(6) by (simp add: padded_blocks_def)
  then have i: "int_result (16 * int ?k * 8) = Some (int (16 * ?k * 8))" by (simp add: int_result_def)
  have "StringEncryptedBase64 False e b s = Some (b', take (b64_result_size b' - 1) (base64 (take (nat (128 * int ?k sdiv 8))
      (blocks_bytes (?cs @ replicate (t * 5 - ?k) 0)))))"
    unfolding StringEncryptedBase64_def Let_def
    using blockEncrypt_string [OF assms(1-4) t(5)] assms(6) i
    by (simp add: as_int_small t(1,3) buf padded_len mult.commute [of 5 t] flip: padded_blocks_def del: One_nat_def)
  moreover have "nat (128 * int ?k sdiv 8) = 16 * ?k" by (simp add: sdiv_pos)
  moreover have "length (base64 (blocks_bytes ?cs)) \<le> t * 120 - 1"
    by (rule base64_fits [of ?k]) (use t(5) cs in \<open>auto simp: padded_blocks_def\<close>)
  ultimately have "StringEncryptedBase64 False e b s = Some (b', base64 (blocks_bytes ?cs))"
    using cs t(4) by simp
  then show ?thesis using t by (auto simp: buffers_ok_def)
qed

lemma string_encrypted_long:
  assumes "2 ^ 28 - 16 < length (cstr s)" and "length (cstr s) < 2 ^ 31"
  shows "StringEncryptedBase64 False e b s = None"
proof (cases "se_allocate b (int (length (cstr s)))")
  case None
  then show ?thesis using as_int_small [OF assms(2)] by (simp add: StringEncryptedBase64_def Let_def)
next
  case (Some b')
  let ?n = "length (cstr s)"
  have n: "as_int ?n = int ?n" by (rule as_int_small [OF assms(2)])
  have "padded \<ge> 2 ^ 28" if "padded_size (int ?n) = Some padded" for padded
    using that assms by (auto simp: padded_size_def int_result_def sdiv_pos smod_pos split: if_splits; presburger)
  then have "int_result (padded * 8) = None"
    if "padded_size (int ?n) = Some padded" for padded
    using that by (fastforce simp: int_result_def)
  then show ?thesis using Some by (auto simp: StringEncryptedBase64_def n Let_def split: Option.bind_splits)
qed

text \<open>
  C33.  Encryption of strings, and its bounds.  In mode ECB with any key and when no allocation fails,
  StringEncryptedBase64 returns, after any calls before, for a string of up to 2^28 - 16 characters the
  base 64 text of its blocks, completed with zero bytes, each under the cipher of FIPS-197: the buffers,
  enlarged when needed, hold everything and the text is never cut.  For every longer string whose length an
  int can hold, the length in bits overflows.
\<close>

theorem string_encrypted:
  assumes "tables_loaded s" and "shaped (m_expandedKey s)" and "key_length_of keyLen = Some (n, Nr)" and "n \<le> length key"
    and "buffers_ok b"
  shows "\<exists>e. rijndael_init s ECB Encrypt (Some key) keyLen iv = Some (e, RIJNDAEL_SUCCESS)
    \<and> (length (cstr string) \<le> 2 ^ 28 - 16 \<longrightarrow> (\<exists>b'. StringEncryptedBase64 False e b string
      = Some (b', base64 (blocks_bytes (map (aes sbox (n div 4) Nr (key_matrix key (n div 4))) (blocks_of (zero_padded (cstr string))))))
      \<and> buffers_ok b'))
    \<and> (2 ^ 28 - 16 < length (cstr string) \<and> length (cstr string) < 2 ^ 31 \<longrightarrow> StringEncryptedBase64 False e b string = None)"
proof -
  obtain e where e: "rijndael_init s ECB Encrypt (Some key) keyLen iv = Some (e, RIJNDAEL_SUCCESS)"
    "keyed e n Nr key" "m_mode e = ECB" "m_direction e = Encrypt"
    using rijndael_init_keyed [OF assms(1,2), of ECB Encrypt keyLen n Nr key iv] assms(3,4) by (metis insertI1)
  then show ?thesis
    using string_encrypted_short [OF e(2) keyed_rounds_ok [OF e(2) assms(3)] e(3,4) assms(5)] string_encrypted_long by blast
qed

text \<open>A string that makes the buffers grow, and one that is too long.\<close>

theorem string_encrypted_witness:
  "(\<exists>e b'. rijndael_init (init_rijndael_OP zero_rijndael) ECB Encrypt (Some fips_key) Key16Bytes None = Some (e, RIJNDAEL_SUCCESS)
    \<and> StringEncryptedBase64 False e \<lparr>in_buffer_size = 0, enc_out_buffer_size = 0, b64_result_size = 0\<rparr> (replicate 70 65 @ [0, 66])
      = Some (b', base64 (blocks_bytes (map (aes sbox 4 10 (key_matrix fips_key 4)) (blocks_of (replicate 70 65 @ replicate 10 0))))))
    \<and> (\<exists>e. rijndael_init (init_rijndael_OP zero_rijndael) ECB Encrypt (Some fips_key) Key16Bytes None = Some (e, RIJNDAEL_SUCCESS)
    \<and> StringEncryptedBase64 False e \<lparr>in_buffer_size = 0, enc_out_buffer_size = 0, b64_result_size = 0\<rparr> (replicate 268435441 65) = None)"
proof -
  have c: "cstr (replicate n 65 @ [0, 66]) = replicate n 65" "cstr (replicate n 65) = replicate n 65" for n
    by (simp_all add: cstr_def takeWhile_append takeWhile_eq_all_conv)
  show ?thesis
    using string_encrypted [OF tables_loaded_init shaped_zero, of Key16Bytes 16 10 fips_key
        "\<lparr>in_buffer_size = 0, enc_out_buffer_size = 0, b64_result_size = 0\<rparr>" None "replicate 70 65 @ [0, 66]"]
      string_encrypted [OF tables_loaded_init shaped_zero, of Key16Bytes 16 10 fips_key
        "\<lparr>in_buffer_size = 0, enc_out_buffer_size = 0, b64_result_size = 0\<rparr>" None "replicate 268435441 65"]
    by (auto simp: key_length_of_def rijndael_enums fips_key_def buffers_ok_def zero_padded_def c)
qed

end
