(* ===== verification/Idle.thy ===== *)
theory Idle
  imports Process_Properties
begin

text \<open>
  Which operations of the handlers leave the table of names alone: \<open>idle\<close> relates worlds with the same
  table and the same translation of addresses.  Everything but \<^verbatim>\<open>table_add\<close> does.
\<close>

section \<open>Steps without a request\<close>

definition idle :: "world \<Rightarrow> world \<Rightarrow> bool" where
  "idle w w' \<longleftrightarrow> w_heap w' = w_heap w \<and> w_names w' = w_names w
     \<and> (working w \<longrightarrow> working w' \<and> anon_image w' = anon_image w)"

named_theorems quiet \<open>operations that make no request\<close>

lemma idle_refl [simp]: "idle w w"
  by (simp add: idle_def)

lemma idle_trans [trans]: "idle w w' \<Longrightarrow> idle w' w'' \<Longrightarrow> idle w w''"
  by (auto simp: idle_def)

lemma working_fields [simp]:
  "working (w\<lparr>w_ticks := n\<rparr>) = working w" "working (w\<lparr>w_flows := fs\<rparr>) = working w"
  "working (w\<lparr>w_heap := h\<rparr>) = working w" "working (w\<lparr>w_names := db\<rparr>) = working w"
  "anon_image (w\<lparr>w_ticks := n\<rparr>) = anon_image w" "anon_image (w\<lparr>w_flows := fs\<rparr>) = anon_image w"
  "anon_image (w\<lparr>w_heap := h\<rparr>) = anon_image w" "anon_image (w\<lparr>w_names := db\<rparr>) = anon_image w"
  by (simp_all add: working_def anon_image_def)

lemma idle_fields [simp]:
  "idle w (w'\<lparr>w_ticks := n\<rparr>) = idle w w'" "idle w (w'\<lparr>w_flows := fs\<rparr>) = idle w w'"
  "idle (w\<lparr>w_ticks := n\<rparr>) w' = idle w w'" "idle (w\<lparr>w_flows := fs\<rparr>) w' = idle w w'"
  by (simp_all add: idle_def)

lemma set_flow_idle [simp]: "idle w (set_flow w' p g) = idle w w'"
  by (simp add: set_flow_def)

lemma set_toAnon_idle [simp]: "idle w (set_toAnon w' p g) = idle w w'"
  by (simp add: set_toAnon_def)

lemma find_connection_idle [quiet]: "find_connection w f = Some (w', p) \<Longrightarrow> idle w w'"
  by (auto simp: find_connection_def rte_get_tsc_cycles_def Let_def split: Option.bind_splits)

lemma anonymise_ip_idle [quiet]: "anonymise_ip w a = Some (w', a') \<Longrightarrow> idle w w'"
  using retrieve_crypto_ip_operational [of "w_self w" "w_rj w" a]
  by (fastforce simp: anonymise_ip_def idle_def working_def anon_image_def split: Option.bind_splits)

lemma anonymise_ip6_idle [quiet]: "anonymise_ip6 w a = Some (w', a') \<Longrightarrow> idle w w'"
  using retrieve_crypto_ipv6_operational [of "w_self w" "w_rj w" a]
  by (fastforce simp: anonymise_ip6_def idle_def working_def anon_image_def split: Option.bind_splits)

lemma put_random_idle [quiet]: "put_random w m p = Some (w', m') \<Longrightarrow> idle w w'"
  by (auto simp: put_random_def rte_get_tsc_cycles_def Let_def split: Option.bind_splits)

lemma random_bytes_idle [quiet]: "random_bytes w n = (bs, w') \<Longrightarrow> idle w w'"
  by (induction n arbitrary: w bs w') (auto simp: rte_get_tsc_cycles_def Let_def split: prod.splits, fastforce)

lemma scramble_idle [quiet]: "scramble keep w m p n = Some (w', m') \<Longrightarrow> idle w w'"
proof (induction n arbitrary: w m p)
  case (Suc n)
  from Suc.prems show ?case
    by (auto split: Option.bind_splits if_splits dest!: put_random_idle Suc.IH intro: idle_trans)
qed simp

lemma hide_path_idle [quiet]: "hide_path w m ptr len nf = Some (w', m', r) \<Longrightarrow> idle w w'"
proof (induction "nf - ptr" arbitrary: w m ptr len rule: less_induct)
  case less
  from less.prems show ?case
    by (subst (asm) hide_path.simps)
      (auto split: Option.bind_splits if_splits dest!: put_random_idle less.hyps [rotated] intro: idle_trans)
qed

lemma hide_referrer_idle [quiet]: "hide_referrer w m ptr len i = Some (w', m') \<Longrightarrow> idle w w'"
proof (induction "64 - i" arbitrary: w m ptr len i rule: less_induct)
  case less
  from less.prems show ?case
    by (subst (asm) hide_referrer.simps)
      (auto split: Option.bind_splits if_splits dest!: put_random_idle less.hyps [rotated] intro: idle_trans)
qed

lemma hide_request_idle [quiet]: "hide_request w m pkt l h nm = Some (w', m') \<Longrightarrow> idle w w'"
  unfolding hide_request_def Let_def
  by (auto split: Option.bind_splits if_splits option.splits
      dest!: scramble_idle hide_path_idle hide_referrer_idle)
    (meson idle_trans)+

lemma read_name_loop_idle:
  assumes "read_name_loop w m reader buffer first cnt ctrl jumped n = Some y"
  shows "idle w (fst y)"
proof (rule read_name_loop.raw_induct
    [where P = "\<lambda>w m reader buffer first cnt ctrl jumped n y. idle w (fst y)", OF _ assms])
  fix loop w m reader buffer first cnt ctrl jumped n and y :: "world \<times> mbuf \<times> nat"
  assume IH: "\<And>w m reader buffer first cnt ctrl jumped n y.
      loop w m reader buffer first cnt ctrl jumped n = Some y \<Longrightarrow> idle w (fst y)"
    and r: "do {
       c \<leftarrow> get8 m reader;
       if c = 0 then Some (w, m, if jumped then n + 1 else n)
       else if 192 \<le> c then do {
         d \<leftarrow> get8 m (reader + 1);
         let offset = unat c * 256 + unat d - 49152;
         loop w m (buffer + offset) buffer first cnt ctrl True n
       }
       else do {
         let n = (if jumped then n else n + 1);
         if first = 0 \<and> \<not> ctrl then
           loop w m (reader + 1) buffer first (unat c) True jumped n
         else if first = cnt then
           loop w m (reader + 1) buffer 0 (unat c) ctrl jumped n
         else do {
           (w, m) \<leftarrow> put_random w m reader;
           loop w m (reader + 1) buffer (first + 1) cnt ctrl jumped n
         }
       }
     } = Some y"
  show "idle w (fst y)"
    using r by (auto simp: Let_def split: Option.bind_splits if_splits
        dest!: IH dest: put_random_idle intro: idle_trans)
qed

lemma ReadName_idle [quiet]: "ReadName w m reader buffer = Some (w', m', r) \<Longrightarrow> idle w w'"
  unfolding ReadName_def by (auto split: if_splits dest!: read_name_loop_idle)

lemma hide_question_idle':
  assumes "hide_question w m buff n = Some y"
  shows "idle w (fst y)"
proof (rule hide_question.raw_induct [where P = "\<lambda>w m buff n y. idle w (fst y)", OF _ assms])
  fix loop w m buff n and y :: "world \<times> mbuf \<times> nat"
  assume IH: "\<And>w m buff n y. loop w m buff n = Some y \<Longrightarrow> idle w (fst y)"
    and r: "(if n = 0 then Some (w, m, buff)
      else do {
        (w, m) \<leftarrow> scramble {} w m buff (nat n);
        c \<leftarrow> get8 m (buff + nat n);
        loop w m (buff + nat n + 1) (sint c)
      }) = Some y"
  show "idle w (fst y)"
    using r by (auto split: Option.bind_splits if_splits dest!: IH dest: scramble_idle intro: idle_trans)
qed

lemma hide_question_idle [quiet]: "hide_question w m buff n = Some (w', m', r) \<Longrightarrow> idle w w'"
  using hide_question_idle' by fastforce

lemma anonymise_rdata_idle [quiet]: "anonymise_rdata w m buff n = Some (w', m') \<Longrightarrow> idle w w'"
  unfolding anonymise_rdata_def Let_def
  by (auto split: Option.bind_splits if_splits dest: anonymise_ip_idle)

lemma dns_answers_idle [quiet]: "dns_answers w m buff bs len i n = Some (w', m', r) \<Longrightarrow> idle w w'"
proof (induction n arbitrary: w m buff len i)
  case (Suc n)
  from Suc.prems show ?case
    by (auto simp: Let_def split: Option.bind_splits if_splits
        dest!: ReadName_idle anonymise_rdata_idle Suc.IH)
      (meson idle_trans)+
qed simp

lemma dns_authorities_idle [quiet]: "dns_authorities w m buff bs len i n = Some (w', m', r) \<Longrightarrow> idle w w'"
proof (induction n arbitrary: w m buff len i)
  case (Suc n)
  from Suc.prems show ?case
    by (auto simp: Let_def split: Option.bind_splits if_splits dest!: ReadName_idle Suc.IH)
      (meson idle_trans)+
qed simp

lemma dns_additional_idle [quiet]: "dns_additional w m buff bs len i n = Some (w', m', r) \<Longrightarrow> idle w w'"
proof (induction n arbitrary: w m buff len i)
  case (Suc n)
  from Suc.prems show ?case
    by (auto simp: Let_def split: Option.bind_splits if_splits
        dest!: ReadName_idle anonymise_rdata_idle Suc.IH)
      (meson idle_trans)+
qed simp

lemma hide_response_idle [quiet]: "hide_response w m bs nm a b c = Some (w', m') \<Longrightarrow> idle w w'"
  unfolding hide_response_def Let_def
  by (auto split: Option.bind_splits if_splits option.splits
      dest!: hide_question_idle dns_answers_idle dns_authorities_idle dns_additional_idle)
    (meson idle_trans)+

lemma translate_idle [quiet]:
  "translate_v4 nets w m ip = Some (w', m', r) \<Longrightarrow> idle w w'"
  "translate_v6 nets w m ip = Some (w', m') \<Longrightarrow> idle w w'"
  unfolding translate_v4_def translate_at_def translate_v6_def
  by (auto split: Option.bind_splits if_splits dest!: anonymise_ip_idle anonymise_ip6_idle)
    (meson idle_trans)+

end
