(* ===== verification/Requests.thy ===== *)
theory Requests
  imports Idle
begin

text \<open>
  The requests that the handlers make to the table of names.  The handling of a packet takes the table
  from one state to another by calls of \<^verbatim>\<open>table_add\<close>; \<open>asks\<close> collects them in a sequence, to which
  \<open>table_run_returned\<close> of the table of names applies, and says which flow and which names they have.
\<close>

section \<open>Steps with requests\<close>

text \<open>
  From the first world to the second by requests to the table of names that satisfy \<open>P\<close>, one after the
  other, all at the time \<open>t\<close>.
\<close>

definition asks :: "out_interface_sett \<Rightarrow> (request \<Rightarrow> bool) \<Rightarrow> world \<Rightarrow> world \<Rightarrow> bool" where
  "asks s P w w' \<longleftrightarrow> (working w \<longrightarrow> working w' \<and> anon_image w' = anon_image w)
     \<and> (\<exists>qs rs. (\<forall>q \<in> set qs. P q)
          \<and> table_run (w_heap w) (w_names w) (s_alpha s) (s_delta s) qs = Some (w_heap w', w_names w', rs))"

lemma table_run_append:
  "table_run h db k d (qs @ qs') = do {
     (h, db, rs) \<leftarrow> table_run h db k d qs;
     (h, db, rs') \<leftarrow> table_run h db k d qs';
     Some (h, db, rs @ rs')
   }"
proof (induction qs arbitrary: h db)
  case (Cons q qs)
  show ?case
    by (cases "table_add h db (req_flow q) (req_name q) k d (req_tsc q) (req_i q) (req_oom q) (req_junk q)")
      (auto simp: Cons.IH split: option.split prod.split Option.bind_split)
qed (auto split: option.split prod.split Option.bind_split)

lemma idle_asks: "idle w w' \<Longrightarrow> asks s P w w'"
  unfolding idle_def asks_def by (auto intro: exI [of _ "[]"])

lemma asks_refl [simp]: "asks s P w w"
  by (simp add: idle_asks)

lemma asks_trans:
  assumes "asks s P w w'" and "asks s P w' w''"
  shows "asks s P w w''"
proof -
  obtain qs rs where 1: "\<forall>q \<in> set qs. P q"
    "table_run (w_heap w) (w_names w) (s_alpha s) (s_delta s) qs = Some (w_heap w', w_names w', rs)"
    using assms(1) unfolding asks_def by blast
  obtain qs' rs' where 2: "\<forall>q \<in> set qs'. P q"
    "table_run (w_heap w') (w_names w') (s_alpha s) (s_delta s) qs' = Some (w_heap w'', w_names w'', rs')"
    using assms(2) unfolding asks_def by blast
  have "\<forall>q \<in> set (qs @ qs'). P q" using 1(1) 2(1) by auto
  moreover have "table_run (w_heap w) (w_names w) (s_alpha s) (s_delta s) (qs @ qs') = Some (w_heap w'', w_names w'', rs @ rs')"
    by (simp add: table_run_append 1(2) 2(2))
  moreover have "working w \<longrightarrow> working w'' \<and> anon_image w'' = anon_image w"
    using assms unfolding asks_def by simp
  ultimately show ?thesis unfolding asks_def by blast
qed

lemma asks_idle: "asks s P w w' \<Longrightarrow> idle w' w'' \<Longrightarrow> asks s P w w''"
  and idle_then_asks: "idle w w' \<Longrightarrow> asks s P w' w'' \<Longrightarrow> asks s P w w''"
  by (blast intro: asks_trans idle_asks)+

lemma asks_mono: "asks s P w w' \<Longrightarrow> (\<And>q. P q \<Longrightarrow> Q q) \<Longrightarrow> asks s Q w w'"
  unfolding asks_def by blast

lemma asks_fields [simp]:
  "asks s P w (w'\<lparr>w_ticks := n\<rparr>) = asks s P w w'" "asks s P w (w'\<lparr>w_flows := fs\<rparr>) = asks s P w w'"
  "asks s P (w\<lparr>w_ticks := n\<rparr>) w' = asks s P w w'" "asks s P (w\<lparr>w_flows := fs\<rparr>) w' = asks s P w w'"
  by (simp_all add: asks_def)

lemma asks_set [simp]:
  "asks s P w (set_flow w' p g) = asks s P w w'" "asks s P w (set_toAnon w' p x) = asks s P w w'"
  by (simp_all add: set_flow_def set_toAnon_def)

text \<open>The request that \<^verbatim>\<open>table_add\<close> is given in a world.\<close>

definition request_in :: "world \<Rightarrow> flow \<Rightarrow> u8 list \<Rightarrow> request" where
  "request_in w f nm = (let n = w_ticks w in \<lparr>req_flow = f, req_name = nm, req_tsc = w_clock w n,
     req_i = w_int w n, req_oom = w_oom w n, req_junk = w_client w n\<rparr>)"

lemma add_name_request:
  "add_name w f nm (s_alpha s) (s_delta s) = Some (w', r) \<longleftrightarrow>
     (\<exists>h db. table_run (w_heap w) (w_names w) (s_alpha s) (s_delta s) [request_in w f nm] = Some (h, db, [r])
       \<and> w' = w\<lparr>w_ticks := Suc (w_ticks w), w_heap := h, w_names := db\<rparr>)"
  by (auto simp: add_name_def request_in_def rte_get_tsc_cycles_def Let_def split: Option.bind_splits)

text \<open>The names in requests for a packet.\<close>

definition used_by :: "flow \<Rightarrow> u8 list set \<Rightarrow> request \<Rightarrow> bool" where
  "used_by f N q \<longleftrightarrow> req_flow q = f \<and> req_name q \<in> N"

lemma add_name_asks:
  assumes "add_name w f nm (s_alpha s) (s_delta s) = Some (w', r)" and "nm \<in> N"
  shows "asks s (used_by f N) w w'"
proof -
  obtain h db where *: "table_run (w_heap w) (w_names w) (s_alpha s) (s_delta s) [request_in w f nm] = Some (h, db, [r])"
    "w' = w\<lparr>w_ticks := Suc (w_ticks w), w_heap := h, w_names := db\<rparr>"
    using assms(1) by (auto simp: add_name_request)
  have "\<forall>q \<in> set [request_in w f nm]. used_by f N q"
    using assms(2) by (simp add: used_by_def request_in_def Let_def)
  moreover have "table_run (w_heap w) (w_names w) (s_alpha s) (s_delta s) [request_in w f nm] = Some (w_heap w', w_names w', [r])"
    using * by simp
  moreover have "working w' = working w \<and> anon_image w' = anon_image w" by (simp add: *(2))
  ultimately show ?thesis unfolding asks_def by blast
qed

section \<open>The handlers\<close>

text \<open>The names that a handler can find in the payload: \<open>carries\<close> is about the bytes behind the IPv4 header.\<close>

definition payload :: "mbuf \<Rightarrow> u8 list" where
  "payload m = drop 34 (room m)"

definition dns_asked :: "mbuf \<Rightarrow> u8 list set" where
  "dns_asked m = {nm. dns_name m (sint (pkt_len m)) 42 = Some (Some nm)}"

definition text_names :: "mbuf \<Rightarrow> u8 list set" where
  "text_names m = {nm. sublist nm (payload m)}"

lemma sublist_drop_take:
  assumes "34 \<le> p"
  shows "take n (drop p (room m)) \<in> text_names m"
proof -
  have "drop p (room m) = drop (p - 34) (payload m)" using assms by (simp add: payload_def)
  then show ?thesis
    unfolding text_names_def by (metis mem_Collect_eq sublist_drop sublist_order.order_trans sublist_take)
qed

lemma cstr_text:
  assumes "nm \<in> text_names m"
  shows "cstr nm \<in> text_names m"
proof -
  have "cstr nm = take (length (cstr nm)) nm" unfolding cstr_def by (rule takeWhile_eq_take)
  then have "sublist (cstr nm) nm" by (metis sublist_take)
  then show ?thesis using assms unfolding text_names_def by (auto intro: sublist_order.order_trans)
qed

lemma string_text:
  assumes "string_at m p = Some nm" and "34 \<le> p"
  shows "nm \<in> text_names m"
proof -
  have "drop p (room m) \<in> text_names m" using sublist_drop_take [OF assms(2), where n = "length (room m)" and m = m] by simp
  then show ?thesis using assms(1) cstr_text by (auto simp: string_at_def Let_def split: if_splits)
qed

lemma server_name_asks:
  assumes "server_name w m cur f (s_alpha s) (s_delta s) = Some (w', m', r)" and "34 \<le> cur"
  shows "asks s (used_by f (text_names m)) w w'"
proof -
  have p: "34 \<le> cur + 3 + 2" using assms(2) by simp
  show ?thesis
    using assms(1) unfolding server_name_def Let_def
    by (auto split: Option.bind_splits if_splits dest!: add_name_asks [OF _ string_text [OF _ p]] scramble_idle
        intro: asks_idle)
qed

lemma extensions_asks:
  assumes "extensions w m cur maxchar f (s_alpha s) (s_delta s) = Some (w', m', r)" and "34 \<le> cur"
  shows "asks s (used_by f (text_names m)) w w'"
  using assms
proof (induction "maxchar - cur" arbitrary: cur rule: less_induct)
  case less
  from less.prems show ?case
    by (subst (asm) extensions.simps)
      (auto split: Option.bind_splits if_splits dest!: server_name_asks less.hyps [rotated])
qed

lemma tlsHelloEntry_asks:
  assumes "tlsHelloEntry w m 0 True off f (s_alpha s) (s_delta s) = Some (w', m', r)"
  shows "asks s (used_by f (text_names m)) w w'"
proof -
  have "\<not> 60 < drop_bit 4 off * 4"
  proof -
    have "unat off < 2 ^ LENGTH(8)" by (rule unsigned_less)
    then have "unat off < 16 * 2 ^ 4" by simp
    then have "drop_bit 4 (unat off) < 16" unfolding drop_bit_eq_div by (rule less_mult_imp_div_less)
    then have "unat (drop_bit 4 off) < 16" by (simp add: unat_drop_bit_eq)
    then show ?thesis by (simp add: word_less_nat_alt unat_word_ariths)
  qed
  then show ?thesis
    using assms unfolding tlsHelloEntry_def offset_extractor_tls_def Let_def
    by (auto simp: sizeof_defs split: Option.bind_splits dest!: extensions_asks)
qed

lemma strcasestr_behind: "strcasestr mem needle p = Some (Some q) \<Longrightarrow> p \<le> q"
  by (induction mem needle p rule: strcasestr.induct) (fastforce dest: Suc_leD split: option.splits bool.splits if_splits)+

lemma httpEntry_asks:
  assumes "httpEntry w m 0 True off f (s_alpha s) (s_delta s) = Some (w', m', r)"
  shows "asks s (used_by f (text_names m)) w w'"
proof -
  have nm: "cstr nm \<in> text_names m"
    if h: "http_header_extractor m 0 True = Some (Some pkt)" "search_at m pkt HOST_str = Some (Some h)"
      and r: "read_host m (h + 6) len [] = Some (Some (nm, len'))" for pkt h len nm len'
  proof -
    have "34 \<le> pkt"
      using h(1) by (auto simp: http_header_extractor_def offset_extractor_http_def sizeof_defs Let_def
          split: Option.bind_splits if_splits)
    then have p: "34 \<le> h + 6" using strcasestr_behind h(2) by (fastforce simp: search_at_def)
    obtain n where "nm = [] @ take n (drop (h + 6) (room m))" using read_host_copies [OF r] by blast
    then show ?thesis using cstr_text [OF sublist_drop_take [OF p]] by simp
  qed
  show ?thesis
    using assms unfolding httpEntry_def Let_def
    by (auto split: Option.bind_splits if_splits option.splits dest!: nm hide_request_idle)
      (blast intro: add_name_asks asks_idle)+
qed

lemma dns_question_asks:
  assumes "dns_question w m 42 f (s_alpha s) (s_delta s) = Some (w', m')"
  shows "asks s (used_by f (dns_asked m)) w w'"
proof -
  have nm: "nm \<in> dns_asked m" if "dns_name m (sint (pkt_len m)) 42 = Some (Some nm)" for nm
    using that by (simp add: dns_asked_def)
  show ?thesis
    using assms unfolding dns_question_def
    by (auto split: Option.bind_splits if_splits option.splits dest!: nm hide_question_idle)
      (blast intro: add_name_asks asks_idle)+
qed

lemma dns_response_asks:
  assumes "dns_response w m dns 42 f (s_alpha s) (s_delta s) = Some (w', m')"
  shows "asks s (used_by f (dns_asked m)) w w'"
proof -
  have nm: "nm \<in> dns_asked m" if "dns_name m (sint (pkt_len m)) 42 = Some (Some nm)" for nm
    using that by (simp add: dns_asked_def)
  show ?thesis
    using assms unfolding dns_response_def
    by (auto split: Option.bind_splits if_splits option.splits dest!: nm hide_response_idle)
      (blast intro: add_name_asks asks_idle)+
qed

lemma dnsEntry_asks:
  assumes "dnsEntry w m 1 True f (s_alpha s) (s_delta s) = Some (w', m')"
  shows "asks s (used_by f (dns_asked m)) w w'"
  using assms unfolding dnsEntry_def offset_extractor_def
  by (auto simp: sizeof_defs split: Option.bind_splits if_splits option.splits
      dest!: dns_question_asks dns_response_asks)

end
