(* ===== verification/Tracking.thy ===== *)
theory Tracking
  imports Requests
begin

text \<open>
  The requests of whole packets and of sequences of them.  The translation of addresses and the handler
  of external addresses leave the payload alone, so every name asked for is one that the packet carries as
  it arrives, and every request has the source address of the packet as the engine sees it.
\<close>

section \<open>Packets with the same payload\<close>

definition kept :: "mbuf \<Rightarrow> mbuf \<Rightarrow> bool" where
  "kept m m' \<longleftrightarrow> same_shape m m' \<and> payload m' = payload m"

lemma kept_refl [simp]: "kept m m"
  by (simp add: kept_def)

lemma kept_trans: "kept m m' \<Longrightarrow> kept m' m'' \<Longrightarrow> kept m m''"
  by (simp add: kept_def same_shape_def)

lemma kept_headers [simp]:
  "kept m (m'\<lparr>l2_len := a\<rparr>) = kept m m'" "kept m (m'\<lparr>l3_len := a\<rparr>) = kept m m'" "kept m (m'\<lparr>l4_len := a\<rparr>) = kept m m'"
  by (simp_all add: kept_def payload_def)

lemma kept_nth: "kept m m' \<Longrightarrow> 34 \<le> i \<Longrightarrow> i < length (room m) \<Longrightarrow> room m' ! i = room m ! i"
proof -
  assume a: "kept m m'" "34 \<le> i" "i < length (room m)"
  have l: "length (room m') = length (room m)" and p: "payload m' = payload m"
    using a(1) by (simp_all add: kept_def same_shape_def)
  have "room m' ! i = payload m' ! (i - 34)" using a(2,3) l by (simp add: payload_def)
  also have "\<dots> = payload m ! (i - 34)" by (simp only: p)
  also have "\<dots> = room m ! i" using a by (simp add: payload_def)
  finally show ?thesis .
qed

lemma keptI: "same_shape m m' \<Longrightarrow> (\<And>i. 34 \<le> i \<Longrightarrow> i < length (room m) \<Longrightarrow> room m' ! i = room m ! i) \<Longrightarrow> kept m m'"
  by (simp add: kept_def payload_def same_shape_def list_eq_iff_nth_eq)

lemma kept_get8: "kept m m' \<Longrightarrow> 34 \<le> p \<Longrightarrow> get8 m' p = get8 m p"
  using kept_nth [of m m' p] by (auto simp: get8_def kept_def same_shape_def)

lemma put_bytes_kept: "put_bytes m p bs = Some m' \<Longrightarrow> p + length bs \<le> 34 \<Longrightarrow> kept m m'"
  by (rule keptI) (auto simp: put_bytes_nth dest: put_bytes_shape)

lemma put32_kept: "put32 m p a = Some m' \<Longrightarrow> p + 4 \<le> 34 \<Longrightarrow> kept m m'"
  unfolding put32_def by (rule put_bytes_kept) (assumption, simp add: bytes32_def)

lemma text_names_kept: "kept m m' \<Longrightarrow> text_names m' = text_names m"
  by (simp add: text_names_def kept_def)

lemma read_label_kept: "kept m m' \<Longrightarrow> 34 \<le> p \<Longrightarrow> read_label m' p n nm = read_label m p n nm"
  by (induction n arbitrary: p nm) (simp_all add: kept_get8 cong: if_cong)

lemma read_question_kept:
  "kept m m' \<Longrightarrow> 34 \<le> p \<Longrightarrow> read_question m' p n D len nm = read_question m p n D len nm"
proof (induction "length (room m) - p" arbitrary: p n D nm rule: less_induct)
  case less
  have l: "length (room m') = length (room m)" using less.prems(1) by (simp add: kept_def same_shape_def)
  have n: "room m' ! (p + nat n) = room m ! (p + nat n)" if "p + nat n < length (room m)"
    using kept_nth [OF less.prems(1), of "p + nat n"] less.prems(2) that by simp
  have IH: "read_question m' (Suc (p + nat n)) n' D' len nm' = read_question m (Suc (p + nat n)) n' D' len nm'"
    if "p + nat n < length (room m)" for n' D' nm'
    using less.hyps [of "Suc (p + nat n)"] less.prems that by simp
  show ?case
    by (subst read_question.simps [of m'], subst read_question.simps [of m])
      (auto simp: read_label_kept [OF less.prems] l n IH Let_def split: option.splits)
qed

lemma dns_asked_kept: "kept m m' \<Longrightarrow> dns_asked m' = dns_asked m"
proof -
  assume k: "kept m m'"
  have "dns_name m' D 42 = dns_name m D 42" for D
    by (simp add: dns_name_def kept_get8 [OF k] read_question_kept [OF k] cong: if_cong)
  moreover have "pkt_len m' = pkt_len m" using k by (simp add: kept_def same_shape_def)
  ultimately show ?thesis by (simp add: dns_asked_def)
qed

section \<open>External addresses\<close>

definition address_names :: "u8 list set" where
  "address_names = {nm. length nm \<le> 4}"

lemma addressV4_name_short: "addressV4_name a \<in> address_names"
  unfolding address_names_def addressV4_name_def cstr_def by (simp add: order_trans [OF length_takeWhile_le])

lemma hide_v4_asks:
  assumes "hide_v4 w m p fl f (s_alpha s) (s_delta s) = Some (w', m', r)" and "p = 26 \<or> p = 30"
  shows "asks s (used_by f (address_names)) w w' \<and> kept m m'"
proof -
  obtain a w1 ret where 1: "get32 m p = Some a" "add_name w f (addressV4_name a) (s_alpha s) (s_delta s) = Some (w1, ret)"
    and 2: "idle w1 w'" "m' = m \<or> (\<exists>v. put32 m p v = Some m')"
    using assms(1) unfolding hide_v4_def Let_def
    by (auto simp: rte_get_tsc_cycles_def split: Option.bind_splits if_splits) (metis idle_refl)
  have "asks s (used_by f (address_names)) w w1" by (rule add_name_asks [OF 1(2) addressV4_name_short])
  moreover have "kept m m'" using 2(2) put32_kept [of m p _ m'] assms(2) by auto
  ultimately show ?thesis using asks_idle 2(1) by blast
qed

lemma external_ip_v4:
  assumes "map_option ntohs (get16 m 12) = Some 0x0800"
  shows "external_ip w m orig fl f k d =
    (let fixed = (\<lambda>w m p. if toAnon (get_flow w fl) = 1 then put32 m p (ipv4_anon (get_flow w fl)) else Some m) in
     if orig = 10 \<and> toAnon (get_flow w fl) = -1 then do {
       (w, m, flag) \<leftarrow> hide_v4 w m 26 fl f k d; m \<leftarrow> fixed w m 26; Some (w, m, flag) }
     else if orig = 1 then do {
       (w, m, flag) \<leftarrow> (if toAnon (get_flow w fl) = -1 then hide_v4 w m 30 fl f k d else Some (w, m, 0));
       m \<leftarrow> fixed w m 30; Some (w, m, flag) }
     else Some (w, m, 0))"
proof -
  obtain z where z: "get16 m 12 = Some z" "ntohs z = 0x0800" using assms by auto
  consider "orig = 10" | "orig = 1" | "orig \<noteq> 10" "orig \<noteq> 1" by blast
  then show ?thesis
    by cases (simp_all add: external_ip_def z Let_def sizeof_defs split_def cong: if_cong)
qed

lemma external_ip_asks:
  assumes "external_ip w m orig fl f (s_alpha s) (s_delta s) = Some (w', m', r)"
    and "map_option ntohs (get16 m 12) = Some 0x0800"
  shows "asks s (used_by f (address_names)) w w' \<and> kept m m'"
  using assms(1) unfolding external_ip_v4 [OF assms(2)] Let_def
  by (auto split: Option.bind_splits if_splits dest!: hide_v4_asks put32_kept intro: kept_trans)


section \<open>The handling of a packet\<close>

lemma decide_asks:
  assumes "decide w m f handler = Some (w', m')"
    and "\<And>w1 fl w2 m2 r. handler w1 fl = Some (w2, m2, r) \<Longrightarrow> asks s P w1 w2 \<and> Q m2" and "Q m"
  shows "asks s P w w' \<and> Q m'"
proof -
  obtain w1 fl where 1: "find_connection w f = Some (w1, fl)" using assms(1) by (auto simp: decide_def split: Option.bind_splits)
  then show ?thesis
    using assms(1,3) by (auto simp: decide_def split: Option.bind_splits if_splits
        dest!: assms(2) find_connection_idle intro: idle_then_asks idle_asks)
qed

text \<open>The names that any handler may ask for in a packet; those of addresses have at most four characters.\<close>

definition mentions :: "mbuf \<Rightarrow> u8 list set" where
  "mentions m = dns_asked m \<union> text_names m \<union> address_names"

lemma used_by_mono: "used_by f N q \<Longrightarrow> N \<subseteq> N' \<Longrightarrow> used_by f N' q"
  by (auto simp: used_by_def)

lemma asks_mentions:
  "asks s (used_by f (text_names m)) w w' \<Longrightarrow> asks s (used_by f (mentions m)) w w'"
  "asks s (used_by f (dns_asked m)) w w' \<Longrightarrow> asks s (used_by f (mentions m)) w w'"
  "asks s (used_by f (address_names)) w w' \<Longrightarrow> asks s (used_by f (mentions m)) w w'"
  by (rule asks_mono, assumption, erule used_by_mono, auto simp: mentions_def)+

lemma external_step:
  assumes "decide w m f (\<lambda>w fl. external_ip w m orig fl f (s_alpha s) (s_delta s)) = Some (w', m')"
    and "map_option ntohs (get16 m 12) = Some 0x0800"
  shows "asks s (used_by f (mentions m)) w w' \<and> kept m m'"
  by (rule decide_asks [OF assms(1)]) (use external_ip_asks [OF _ assms(2)] asks_mentions(3) in \<open>blast, simp\<close>)

lemma mentions_kept:
  assumes "asks s (used_by f (dns_asked m' \<union> text_names m')) w w'" and "kept m m'"
  shows "asks s (used_by f (mentions m)) w w'"
  using assms(1) unfolding dns_asked_kept [OF assms(2)] text_names_kept [OF assms(2)]
  by (rule asks_mono) (erule used_by_mono, auto simp: mentions_def)

lemma get_fields4:
  "get8 (m\<lparr>l4_len := x\<rparr>) p = get8 m p" "get16 (m\<lparr>l4_len := x\<rparr>) p = get16 m p" "get32 (m\<lparr>l4_len := x\<rparr>) p = get32 m p"
  by (simp_all add: get8_def get16_def get32_def)

lemma mentions_l4 [simp]: "mentions (m\<lparr>l4_len := x\<rparr>) = mentions m"
  using dns_asked_kept [of m "m\<lparr>l4_len := x\<rparr>"] text_names_kept [of m "m\<lparr>l4_len := x\<rparr>"]
  by (simp add: mentions_def)

lemma new_packet_l4 [simp]: "new_packet w (m\<lparr>l4_len := x\<rparr>) ip tv = new_packet w m ip tv"
  by (simp add: new_packet_def get_fields4)

lemma tls_step:
  assumes "decide w m f (\<lambda>w _. do { data_off \<leftarrow> get8 m (sizeof_ipv4 + sizeof_ether + 12);
    tlsHelloEntry w m 0 True data_off f (s_alpha s) (s_delta s) }) = Some (w', m')"
  shows "asks s (used_by f (dns_asked m \<union> text_names m)) w w'"
proof -
  have "asks s (used_by f (dns_asked m \<union> text_names m)) w w' \<and> True"
    by (rule decide_asks [OF assms])
      (auto split: Option.bind_splits dest!: tlsHelloEntry_asks intro: asks_mono used_by_mono)
  then show ?thesis by simp
qed

lemma http_step:
  assumes "decide w m f (\<lambda>w _. do { data_off \<leftarrow> get8 m (sizeof_ipv4 + sizeof_ether + 12);
    httpEntry w m 0 True data_off f (s_alpha s) (s_delta s) }) = Some (w', m')"
  shows "asks s (used_by f (dns_asked m \<union> text_names m)) w w'"
proof -
  have "asks s (used_by f (dns_asked m \<union> text_names m)) w w' \<and> True"
    by (rule decide_asks [OF assms])
      (auto split: Option.bind_splits dest!: httpEntry_asks intro: asks_mono used_by_mono)
  then show ?thesis by simp
qed

lemma tcp_proto_asks:
  assumes "tcp_proto w m 14 tv s orig = Some (w', m')" and "map_option ntohs (get16 m 12) = Some 0x0800"
    and "new_packet w m 14 tv = Some f"
  shows "asks s (used_by f (mentions m)) w w'"
proof -
  let ?m = "m\<lparr>l4_len := sizeof_tcp\<rparr>"
  obtain w1 m1 where 1: "(if anon_ext_ip s = 1 \<and> (orig = 1 \<or> orig = 10)
      then decide w ?m f (\<lambda>w fl. external_ip w ?m orig fl f (s_alpha s) (s_delta s)) else Some (w, ?m)) = Some (w1, m1)"
    and 2: "idle w1 w' \<or> asks s (used_by f (dns_asked m1 \<union> text_names m1)) w1 w'"
    using assms(1,3) unfolding tcp_proto_def Let_def
    by (auto split: Option.bind_splits if_splits dest!: tls_step http_step)
  have k: "asks s (used_by f (mentions m)) w w1" "kept m m1"
    using 1 external_step [of w ?m f orig s w1 m1] assms(2) by (auto split: if_splits simp: kept_def same_shape_def payload_def get_fields4)
  then have "asks s (used_by f (mentions m)) w1 w'" using 2 mentions_kept idle_asks by blast
  then show ?thesis using k(1) asks_trans by blast
qed

text \<open>A packet of UDP, after its addresses have been looked at.\<close>

lemma udp_external:
  assumes "udp_proto w m 14 tv s orig = Some (w', m')" and "map_option ntohs (get16 m 12) = Some 0x0800"
    and "new_packet w m 14 tv = Some f"
  obtains w1 m1 where "asks s (used_by f (mentions m)) w w1" and "kept m m1"
    and "if s_dns s \<noteq> 0 then \<exists>d. proto_detector m1 1 True (in_port f) (out_port f) = Some d
       \<and> (if d = 53 then dnsEntry w1 m1 1 True f (s_alpha s) (s_delta s) = Some (w', m') else w1 = w')
      else w1 = w'"
proof -
  obtain w1 m1 where 1: "(if anon_ext_ip s = 1 \<and> (orig = 1 \<or> orig = 10) then do {
         (w, flusso) \<leftarrow> find_connection w f;
         if toAnon (get_flow w flusso) \<in> {-1, 1} then do {
           (w, m, _) \<leftarrow> external_ip w m orig flusso f (s_alpha s) (s_delta s);
           Some (w, m)
         }
         else Some (w, m)
       } else Some (w, m)) = Some (w1, m1)"
    and 2: "if s_dns s \<noteq> 0 then \<exists>d. proto_detector m1 1 True (in_port f) (out_port f) = Some d
       \<and> (if d = 53 then dnsEntry w1 m1 1 True f (s_alpha s) (s_delta s) = Some (w', m') else w1 = w')
      else w1 = w'"
    using assms(1,3) unfolding udp_proto_def
    by (simp split: Option.bind_splits) (auto split: Option.bind_splits if_splits)
  have "asks s (used_by f (mentions m)) w w1" "kept m m1"
    using 1 by (auto split: Option.bind_splits if_splits dest!: find_connection_idle external_ip_asks [OF _ assms(2)])
      (blast intro: idle_then_asks idle_asks asks_mentions(3))+
  then show ?thesis using that 2 by blast
qed

lemma udp_proto_asks:
  assumes "udp_proto w m 14 tv s orig = Some (w', m')" and "map_option ntohs (get16 m 12) = Some 0x0800"
    and "new_packet w m 14 tv = Some f"
  shows "asks s (used_by f (mentions m)) w w'"
proof -
  obtain w1 m1 where 1: "asks s (used_by f (mentions m)) w w1" "kept m m1"
    "if s_dns s \<noteq> 0 then \<exists>d. proto_detector m1 1 True (in_port f) (out_port f) = Some d
       \<and> (if d = 53 then dnsEntry w1 m1 1 True f (s_alpha s) (s_delta s) = Some (w', m') else w1 = w')
      else w1 = w'"
    by (rule udp_external [OF assms])
  have "asks s (used_by f (mentions m)) w1 w'"
    using 1(3) dnsEntry_asks [of w1 m1 f s w' m'] asks_mentions(2) [of s f m1]
    by (auto split: if_splits intro: mentions_kept [OF _ 1(2)] asks_mono used_by_mono)
  then show ?thesis using 1(1) asks_trans by blast
qed


text \<open>The requests of an IPv4 packet after the translation of its addresses.\<close>

definition of_packet :: "u32 \<Rightarrow> int \<Rightarrow> u8 list set \<Rightarrow> request \<Rightarrow> bool" where
  "of_packet src tv N q \<longleftrightarrow> ipv (req_flow q) = 4 \<and> source (req_flow q) = ucast src
     \<and> timestamp (req_flow q) = tv \<and> req_name q \<in> N"

lemma new_packet_fields:
  assumes "new_packet w m 14 tv = Some f"
  shows "ipv f = 4" "source f = ucast (source_of m)" "timestamp f = tv"
  using assms by (auto simp: new_packet_def source_def source_of_def split: Option.bind_splits)

lemma used_by_packet: "new_packet w m 14 tv = Some f \<Longrightarrow> used_by f N q \<Longrightarrow> of_packet (source_of m) tv N q"
  using new_packet_fields [of w m tv f] by (simp add: used_by_def of_packet_def)

lemma multiplexer_asks:
  assumes "multiplexer_proto w m (Some 14) tv s orig = Some (w', m')" and "map_option ntohs (get16 m 12) = Some 0x0800"
  shows "asks s (of_packet (source_of m) tv (mentions m)) w w'"
proof -
  consider "tcp_proto w m 14 tv s orig = Some (w', m')" | "udp_proto w m 14 tv s orig = Some (w', m')" | "w' = w"
    using assms(1) by (auto simp: multiplexer_proto_def split: Option.bind_splits if_splits)
  then show ?thesis
  proof cases
    case 1
    then obtain f where "new_packet w m 14 tv = Some f"
      by (auto simp: tcp_proto_def Let_def split: Option.bind_splits)
    then show ?thesis using tcp_proto_asks [OF 1 assms(2)] by (blast intro: asks_mono used_by_packet)
  next
    case 2
    then obtain f where "new_packet w m 14 tv = Some f" by (auto simp: udp_proto_def split: Option.bind_splits)
    then show ?thesis using udp_proto_asks [OF 2 assms(2)] by (blast intro: asks_mono used_by_packet)
  qed simp
qed

text \<open>The source address of a packet as the engine sees it.\<close>

definition translates :: "out_interface_sett \<Rightarrow> bool" where
  "translates s \<longleftrightarrow> anon_ip_enabled s = 1 \<and> anon_ip_key_mode s = static_str"

definition seen_source :: "nets \<Rightarrow> world \<Rightarrow> out_interface_sett \<Rightarrow> u32 \<Rightarrow> u32" where
  "seen_source nets w s a = (if translates s then image_in nets w a else a)"

lemma mentions_same: "kept m m' \<Longrightarrow> mentions m' = mentions m"
  by (simp add: mentions_def dns_asked_kept text_names_kept)

lemma translated_kept: "translated nets w m m' \<Longrightarrow> kept m m'"
  by (rule keptI) (auto simp: translated_def)

lemma put_bytes_get8: "put_bytes m p bs = Some m' \<Longrightarrow> p + length bs \<le> i \<Longrightarrow> get8 m' i = get8 m i"
  using put_bytes_nth [of m p bs m' i] put_bytes_nth(2) [of m p bs m'] by (auto simp: get8_def put_bytes_def split: if_splits)

lemma process_packet_eth_kept:
  assumes "process_packet_eth m e tv = Some m'"
  shows "kept m m' \<and> (\<forall>i \<ge> 12. get8 m' i = get8 m i)"
proof -
  let ?m = "m\<lparr>l2_len := sizeof_ether\<rparr>"
  have g: "get8 ?m i = get8 m i" for i by (simp add: get8_def)
  have k: "kept m' m'' = kept (m'\<lparr>l2_len := x\<rparr>) m''" for m' m'' x by (simp add: kept_def same_shape_def payload_def)
  obtain m1 bs1 bs2 where "m' = ?m \<or> put_bytes ?m 0 bs1 = Some m1 \<and> put_bytes m1 6 bs2 = Some m'
      \<and> length bs1 = 6 \<and> length bs2 = 6"
    using assms unfolding process_packet_eth_def Let_def
    by (auto split: Option.bind_splits if_splits) (metis length_replicate)+
  then show ?thesis
  proof
    assume a: "put_bytes ?m 0 bs1 = Some m1 \<and> put_bytes m1 6 bs2 = Some m' \<and> length bs1 = 6 \<and> length bs2 = 6"
    then have "kept ?m m1" "kept m1 m'" using put_bytes_kept [of ?m 0 bs1 m1] put_bytes_kept [of m1 6 bs2 m'] by auto
    then have "kept m m'" using kept_trans k by blast
    moreover have "get8 m' i = get8 m i" if "12 \<le> i" for i
      using a that put_bytes_get8 [of ?m 0 bs1 m1 i] put_bytes_get8 [of m1 6 bs2 m' i] g by simp
    ultimately show ?thesis by blast
  qed (simp add: g)
qed

lemma get_after:
  assumes "\<forall>i \<ge> 12. get8 m' i = get8 m i"
  shows "p \<ge> 12 \<Longrightarrow> get16 m' p = get16 m p" "p \<ge> 12 \<Longrightarrow> get32 m' p = get32 m p"
  using assms by (simp_all add: get16_def get32_def)

text \<open>What reaches the engine from a packet of IPv4.\<close>

definition at_engine :: "nets \<Rightarrow> world \<Rightarrow> out_interface_sett \<Rightarrow> mbuf \<Rightarrow> world \<Rightarrow> mbuf \<Rightarrow> bool" where
  "at_engine nets w s m w1 m1 \<longleftrightarrow> idle w w1 \<and> kept m m1 \<and> map_option ntohs (get16 m1 12) = Some 0x0800
     \<and> source_of m1 = seen_source nets w s (source_of m) \<and> get8 m1 23 = get8 m 23"

lemma translated_get8: "translated nets w m m' \<Longrightarrow> i < 26 \<Longrightarrow> get8 m' i = get8 m i"
  by (auto simp: translated_def same_shape_def get8_def)

lemma process_packet_engine:
  assumes "process_packet nets w m s tv = Some (w', m')" and "working w" and "payload_drop_enabled s \<noteq> 1"
    and "ipv4_packet m" and "not_exempt nets m"
  shows "\<exists>w1 m1 orig. at_engine nets w s m w1 m1
    \<and> (if engine s \<noteq> 0 then multiplexer_proto w1 m1 (Some 14) tv s orig = Some (w', m') else w' = w1)"
proof -
  obtain m0 where 0: "process_packet_eth m (anon_mac_enabled s) tv = Some m0" "process_packet_ip nets w m0 s tv = Some (w', m')"
    using assms(1) by (auto simp: process_packet_def split: Option.bind_splits)
  define m2 where "m2 = m0\<lparr>l3_len := 20\<rparr>"
  have "get8 m2 i = get8 m0 i" for i by (simp add: m2_def get8_def)
  then have k0: "kept m m2" "\<forall>i \<ge> 12. get8 m2 i = get8 m i"
    using process_packet_eth_kept [OF 0(1)] by (simp_all add: m2_def)
  note g = get_after [OF k0(2)]
  have l: "34 \<le> length (room m2)" using k0(1) assms(4) by (simp add: kept_def same_shape_def ipv4_packet_def)
  have e: "map_option ntohs (get16 m2 12) = Some 0x0800" using g(1) [of 12] assms(4) by (simp add: ipv4_packet_def)
  have f: "source_of m2 = source_of m" "destination_of m2 = destination_of m"
    by (simp_all add: source_of_def destination_of_def g(2))
  have ne: "not_exempt nets m2" using assms(5) by (simp add: not_exempt_def f)
  obtain z where z: "get16 m2 12 = Some z" "ntohs z = 0x0800" using e by auto
  have z0: "get16 m0 12 = Some z" using z(1) by (simp add: m2_def)
  obtain sa da where sd: "get32 m2 26 = Some sa" "get32 m2 30 = Some da"
    using get32_some [of 26 m2] get32_some [of 30 m2] l by auto
  have p: "(if translates s then translate_v4 nets w m2 14 else Some (w, m2, 0)) \<bind> (\<lambda>(w, m, orig).
      if engine s \<noteq> 0 then multiplexer_proto w m (Some 14) tv s orig else Some (w, m)) = Some (w', m')"
    using 0(2) ne assms(3) sd z z0
    by (simp add: process_packet_ip_def sizeof_defs not_exempt_def source_of_def destination_of_def translates_def
        flip: m2_def)
  show ?thesis
  proof (cases "translates s")
    case True
    obtain w1 m1 r where t: "translate_v4 nets w m2 14 = Some (w1, m1, r)" "translated nets w m2 m1"
      using translate_v4_working [OF assms(2) l, of nets] by blast
    have "at_engine nets w s m w1 m1"
      using translate_idle(1) [OF t(1)] kept_trans [OF k0(1) translated_kept [OF t(2)]] translated_get8 [OF t(2)] e k0(2)
        t(2) f True
      by (simp add: at_engine_def translated_def seen_source_def get16_def)
    then show ?thesis
      using p True t(1) by (intro exI [of _ w1] exI [of _ m1] exI [of _ r]) (simp split: if_splits)
  next
    case False
    have "at_engine nets w s m w m2" using k0 e f False by (simp add: at_engine_def seen_source_def)
    then show ?thesis
      using p False by (intro exI [of _ w] exI [of _ m2] exI [of _ 0]) (simp split: if_splits)
  qed
qed


lemma process_packet_idle:
  assumes "process_packet nets w m s tv = Some (w', m')" and "\<not> (ipv4_packet m \<and> not_exempt nets m)"
  shows "idle w w'"
proof -
  obtain m0 where 0: "process_packet_eth m (anon_mac_enabled s) tv = Some m0" "process_packet_ip nets w m0 s tv = Some (w', m')"
    using assms(1) by (auto simp: process_packet_def split: Option.bind_splits)
  note k0 = process_packet_eth_kept [OF 0(1)]
  note g = get_after [OF conjunct2 [OF k0]]
  have l: "length (room m0) = length (room m)" using k0 by (simp add: kept_def same_shape_def)
  obtain z where z: "get16 m0 12 = Some z" using 0(2) by (auto simp: process_packet_ip_def split: Option.bind_splits)
  show ?thesis
  proof (cases "ntohs z = 0x0800")
    case True
    obtain sa da where sd: "get32 m 26 = Some sa" "get32 m 30 = Some da"
      using 0(2) z True g(2) [of 26] g(2) [of 30]
      by (auto simp: process_packet_ip_def sizeof_defs Let_def split: Option.bind_splits)
    then have "34 \<le> length (room m)" by (auto simp: get32_def get8_def split: Option.bind_splits if_splits)
    then have "ipv4_packet m" using z True g(1) [of 12] by (simp add: ipv4_packet_def)
    then have "\<not> not_exempt nets m" using assms(2) by simp
    then show ?thesis
      using 0(2) z True sd g(2) [of 26] g(2) [of 30]
      by (auto simp: process_packet_ip_def sizeof_defs not_exempt_def source_of_def destination_of_def)
  next
    case False
    then show ?thesis
      using 0(2) z by (auto simp: process_packet_ip_def Let_def split: Option.bind_splits if_splits dest: translate_idle)
  qed
qed

lemma process_packet_asks:
  assumes "process_packet nets w m s tv = Some (w', m')" and "working w" and "payload_drop_enabled s \<noteq> 1"
  shows "asks s (of_packet (seen_source nets w s (source_of m)) tv (mentions m)) w w'"
proof (cases "ipv4_packet m \<and> not_exempt nets m")
  case True
  obtain w1 m1 orig where 1: "at_engine nets w s m w1 m1"
    "if engine s \<noteq> 0 then multiplexer_proto w1 m1 (Some 14) tv s orig = Some (w', m') else w' = w1"
    using process_packet_engine [OF assms] True by blast
  have "asks s (of_packet (seen_source nets w s (source_of m)) tv (mentions m)) w1 w'"
    using 1 multiplexer_asks [of w1 m1 tv s orig w' m'] mentions_same [of m m1]
    by (auto simp: at_engine_def split: if_splits)
  then show ?thesis using 1(1) idle_then_asks by (auto simp: at_engine_def)
qed (use process_packet_idle [OF assms(1)] idle_asks in blast)

text \<open>A sequence of packets.\<close>

lemma process_all_append:
  "process_all nets w s (ps @ ps') = do {
     (w, ms) \<leftarrow> process_all nets w s ps;
     (w, ms') \<leftarrow> process_all nets w s ps';
     Some (w, ms @ ms')
   }"
proof (induction ps arbitrary: w)
  case (Cons p ps)
  obtain m tv where p: "p = (m, tv)" by (cases p)
  show ?case
    by (cases "process_packet nets w m s tv") (auto simp: p Cons.IH split: option.split prod.split Option.bind_split)
qed (auto split: option.split prod.split Option.bind_split)

definition sent :: "nets \<Rightarrow> world \<Rightarrow> out_interface_sett \<Rightarrow> (mbuf \<times> int) list \<Rightarrow> request \<Rightarrow> bool" where
  "sent nets w s ps q \<longleftrightarrow>
     (\<exists>p \<in> set ps. of_packet (seen_source nets w s (source_of (fst p))) (snd p) (mentions (fst p)) q)"

lemma seen_source_same: "anon_image w' = anon_image w \<Longrightarrow> seen_source nets w' s = seen_source nets w s"
  by (simp add: seen_source_def image_in_def fun_eq_iff)

lemma process_all_asks:
  assumes "process_all nets w s ps = Some (w', ms)" and "working w" and "payload_drop_enabled s \<noteq> 1"
    and "sorted (map snd ps)"
  shows "working w' \<and> anon_image w' = anon_image w
    \<and> (\<exists>qs rs. (\<forall>q \<in> set qs. sent nets w s ps q) \<and> sorted (map (\<lambda>q. timestamp (req_flow q)) qs)
       \<and> table_run (w_heap w) (w_names w) (s_alpha s) (s_delta s) qs = Some (w_heap w', w_names w', rs))"
  using assms(1,4)
proof (induction ps arbitrary: w' ms rule: rev_induct)
  case Nil
  then show ?case using assms(2) by (auto intro: exI [of _ "[]"])
next
  case (snoc p ps)
  obtain w1 ms1 m' where 1: "process_all nets w s ps = Some (w1, ms1)" "process_packet nets w1 (fst p) s (snd p) = Some (w', m')"
    using snoc.prems(1) by (cases p) (auto simp: process_all_append split: Option.bind_splits)
  obtain qs rs where 2: "working w1" "anon_image w1 = anon_image w" "\<forall>q \<in> set qs. sent nets w s ps q"
    "sorted (map (\<lambda>q. timestamp (req_flow q)) qs)"
    "table_run (w_heap w) (w_names w) (s_alpha s) (s_delta s) qs = Some (w_heap w1, w_names w1, rs)"
    using snoc.IH [OF 1(1)] snoc.prems(2) by (auto simp: sorted_append)
  let ?P = "of_packet (seen_source nets w s (source_of (fst p))) (snd p) (mentions (fst p))"
  obtain qs' rs' where 3: "working w'" "anon_image w' = anon_image w" "\<forall>q \<in> set qs'. ?P q"
    "table_run (w_heap w1) (w_names w1) (s_alpha s) (s_delta s) qs' = Some (w_heap w', w_names w', rs')"
    using process_packet_asks [OF 1(2) 2(1) assms(3)] 2(1,2) seen_source_same [OF 2(2)] unfolding asks_def by auto
  have "\<forall>q \<in> set (qs @ qs'). sent nets w s (ps @ [p]) q" using 2(3) 3(3) by (auto simp: sent_def)
  moreover have "sorted (map (\<lambda>q. timestamp (req_flow q)) (qs @ qs'))"
  proof -
    have "timestamp (req_flow q) = snd p" if "q \<in> set qs'" for q using 3(3) that by (simp add: of_packet_def)
    moreover have "timestamp (req_flow q) \<le> snd p" if "q \<in> set qs" for q
      using 2(3) that snoc.prems(2) by (fastforce simp: sent_def of_packet_def sorted_append)
    moreover have "map (\<lambda>q. timestamp (req_flow q)) qs' = map (\<lambda>_. snd p) qs'" using calculation(1) by simp
    ultimately show ?thesis using 2(4) by (auto simp: sorted_append map_replicate_const)
  qed
  moreover have "table_run (w_heap w) (w_names w) (s_alpha s) (s_delta s) (qs @ qs') = Some (w_heap w', w_names w', rs @ rs')"
    by (simp add: table_run_append 2(5) 3(4))
  ultimately show ?case using 3(1,2) by blast
qed

end
