(* ===== verification/Anonymity.thy ===== *)
theory Anonymity
  imports Tracking
begin

text \<open>
  Anonymity of names from end to end: whatever packets are handled, a DNS question that leaves with its
  name readable shares the name with enough clients.
\<close>

section \<open>DNS questions\<close>

text \<open>The names that a packet carries: the one of its DNS question, and the pieces of its payload.\<close>

definition carried :: "mbuf \<Rightarrow> u8 list set" where
  "carried m = dns_asked m \<union> text_names m"

text \<open>A question over UDP from a client for a name without compression.\<close>

definition name_query :: "nets \<Rightarrow> mbuf \<Rightarrow> u8 list list \<Rightarrow> bool" where
  "name_query nets m ls \<longleftrightarrow> mbuf_ok m \<and> ipv4_packet m \<and> not_exempt nets m \<and> room m ! 23 = UDP
     \<and> map_option ntohs (get16 m 34) \<noteq> Some 53 \<and> map_option ntohs (get16 m 36) = Some 53
     \<and> room m ! 44 < 8 \<and> dns_z (room m ! 45) = 0
     \<and> ls \<noteq> [] \<and> name_at m 54 ls \<and> 54 + name_size ls \<le> unat (pkt_len m) \<and> length (dotted ls) < NAME_DNS"

lemma and_one: "x AND 1 \<in> {0, 1 :: u8}"
  by (simp add: and_one_eq mod_2_eq_odd)

lemma query_detected:
  assumes "name_query nets m ls" and "kept m m1" and "a \<noteq> 53"
  shows "proto_detector m1 1 True a 53 = Some 53"
proof -
  obtain l ls' where ls: "ls = l # ls'" using assms(1) by (cases ls) (auto simp: name_query_def)
  have len: "54 < length (room m)" "56 \<le> unat (pkt_len m)" 
    using assms(1) unfolding name_query_def ls by (auto simp: neq_Nil_conv)
  have k: "get8 m1 44 = Some (room m ! 44)" "get8 m1 45 = Some (room m ! 45)" "pkt_len m1 = pkt_len m"
    using kept_get8 [OF assms(2), of 44] kept_get8 [OF assms(2), of 45] len assms(2)
    by (simp_all add: get8_Some kept_def same_shape_def)
  have q: "unat (room m ! 44) < 8" using assms(1) by (simp add: name_query_def word_less_nat_alt)
  have o: "dns_qr (room m ! 44) = 0" "dns_opcode (room m ! 44) = 0"
    using q by (simp_all add: dns_qr_def dns_opcode_def drop_bit_eq_div word_arith_nat_div)
  have "dns_z (room m ! 45) = 0" using assms(1) by (simp add: name_query_def)
  moreover have "dns_aa b \<in> {0, 1}" "dns_tc b \<in> {0, 1}" "dns_rd b \<in> {0, 1}" for b
    unfolding dns_aa_def dns_tc_def dns_rd_def by (rule and_one)+
  moreover have "dns_ra b \<in> {0, 1}" for b
  proof -
    have "unat b < 2 ^ LENGTH(8)" by (rule unsigned_less)
    then have "drop_bit 7 (unat b) < 2" by (simp add: drop_bit_eq_div less_mult_imp_div_less)
    then have "unat (dns_ra b) = 0 \<or> unat (dns_ra b) = 1" unfolding dns_ra_def by (simp add: unat_drop_bit_eq) linarith
    then show ?thesis by (auto simp: word_unat_eq_iff)
  qed
  ultimately have "isDns m1 1 True a 53 = Some True"
    using k o assms(3) len
    by (auto simp: isDns_def dns_header_extractor_def offset_extractor_def sizeof_defs ntohs_def)
  then show ?thesis by (simp add: proto_detector_def)
qed


text \<open>The worlds before the first packet.\<close>

definition started :: "world \<Rightarrow> bool" where
  "started w \<longleftrightarrow> operational (w_self w) (w_rj w) \<and> fresh_table (w_names w) \<and> 0 < brk (w_heap w) \<and> no_oom (w_heap w)"

definition dns_settings :: "out_interface_sett \<Rightarrow> bool" where
  "dns_settings s \<longleftrightarrow> engine s \<noteq> 0 \<and> s_dns s \<noteq> 0 \<and> payload_drop_enabled s \<noteq> 1 \<and> 0 \<le> s_alpha s \<and> 0 \<le> s_delta s"

text \<open>A DNS question at the engine: all requests so far, and then its own.\<close>

lemma query_reaches:
  assumes "process_packet nets w m s tv = Some (w', m')" and "working w" and "dns_settings s" and "name_query nets m ls"
  obtains w1 m1 f where "asks s (of_packet (seen_source nets w s (source_of m)) tv (mentions m)) w w1" and "kept m m1"
    and "ipv f = 4" and "source f = ucast (seen_source nets w s (source_of m))" and "timestamp f = tv"
    and "dnsEntry w1 m1 1 True f (s_alpha s) (s_delta s) = Some (w', m')"
proof -
  let ?P = "of_packet (seen_source nets w s (source_of m)) tv (mentions m)"
  have drop: "payload_drop_enabled s \<noteq> 1" "engine s \<noteq> 0" "s_dns s \<noteq> 0" using assms(3) by (simp_all add: dns_settings_def)
  have q: "ipv4_packet m" "not_exempt nets m" "room m ! 23 = UDP" using assms(4) by (simp_all add: name_query_def)
  obtain w1 m1 orig where 1: "at_engine nets w s m w1 m1" "multiplexer_proto w1 m1 (Some 14) tv s orig = Some (w', m')"
    using process_packet_engine [OF assms(1,2) drop(1) q(1,2)] drop(2) by auto
  have k: "idle w w1" "kept m m1" "map_option ntohs (get16 m1 12) = Some 0x0800"
    "source_of m1 = seen_source nets w s (source_of m)"
    using 1(1) by (simp_all add: at_engine_def)
  have "get8 m1 23 = Some UDP" using 1(1) q(1,3) by (simp add: at_engine_def get8_Some ipv4_packet_def)
  then have u: "udp_proto w1 m1 14 tv s orig = Some (w', m')" using 1(2) by (simp add: multiplexer_proto_def TCP_def UDP_def)
  obtain f where f: "new_packet w1 m1 14 tv = Some f" using u by (auto simp: udp_proto_def split: Option.bind_splits)
  have g: "get16 m1 34 = get16 m 34" "get16 m1 36 = get16 m 36" using kept_get8 [OF k(2)] by (simp_all add: get16_def)
  have ports: "in_port f \<noteq> 53" "out_port f = 53"
    using f assms(4) g by (auto simp: new_packet_def sizeof_defs name_query_def split: Option.bind_splits)
  obtain w2 m2 where 2: "asks s (used_by f (mentions m1)) w1 w2" "kept m1 m2"
    "if s_dns s \<noteq> 0 then \<exists>d. proto_detector m2 1 True (in_port f) (out_port f) = Some d
       \<and> (if d = 53 then dnsEntry w2 m2 1 True f (s_alpha s) (s_delta s) = Some (w', m') else w2 = w')
      else w2 = w'"
    by (rule udp_external [OF u k(3) f])
  have k2: "kept m m2" by (rule kept_trans [OF k(2) 2(2)])
  have "dnsEntry w2 m2 1 True f (s_alpha s) (s_delta s) = Some (w', m')"
    using 2(3) drop(3) query_detected [OF assms(4) k2 ports(1)] ports(2) by simp
  moreover have "asks s ?P w1 w2"
    using asks_mono [OF 2(1) used_by_packet [OF f]] mentions_same [OF k(2)] k(4) by simp
  ultimately show ?thesis
    using that [of w2 m2 f] k2 idle_then_asks [OF k(1)] new_packet_fields [OF f] k(4) by simp
qed

lemma kept_name_at: "kept m m' \<Longrightarrow> 34 \<le> p \<Longrightarrow> name_at m' p ls = name_at m p ls"
  by (rule name_at_cong) (auto simp: kept_nth, simp add: kept_def same_shape_def)

lemma in_label_less: "in_label p ls j \<Longrightarrow> j < p + name_size ls"
  by (induction ls arbitrary: p) fastforce+

lemma query_answered:
  assumes "name_query nets m (l # ls)" and "kept m m1" and "add_name w f (dotted (l # ls)) k d = Some (w1, ret)"
    and "dnsEntry w m1 1 True f k d = Some (w', m')" and "ret < k" and "in_label 54 (l # ls) j"
  shows "letter (room m' ! j)"
proof -
  have q: "mbuf_ok m" "room m ! 44 < 128" "name_at m 54 (l # ls)" "54 + name_size (l # ls) \<le> unat (pkt_len m)"
    "length (dotted (l # ls)) < NAME_DNS" "room m ! 44 < 8"
    using assms(1) by (auto simp: name_query_def word_less_nat_alt)
  have len: "54 < length (room m)" using q(3) by simp
  have k: "length (room m1) = length (room m)" "pkt_len m1 = pkt_len m" "room m1 ! 44 = room m ! 44"
    using assms(2) kept_nth [OF assms(2), of 44] len by (simp_all add: kept_def same_shape_def)
  have "\<exists>w2 m2. dnsEntry w m1 1 True f k d = Some (w2, m2) \<and> hidden (in_label 54 (l # ls)) m1 m2"
    using question_hidden [of m1 l ls w f k d w1 ret] assms(2,3,5) q k len kept_name_at [OF assms(2), of 54]
    by (simp add: mbuf_ok_def del: name_at.simps name_size.simps dotted.simps)
  then have h: "hidden (in_label 54 (l # ls)) m1 m'" using assms(4) by auto
  have "j < length (room m1)"
  proof -
    have "j < 54 + name_size (l # ls)" by (rule in_label_less [OF assms(6)])
    then show ?thesis using name_at_size [OF q(3)] k(1) by linarith
  qed
  then show ?thesis using h assms(6) by (auto simp: hidden_def)
qed


text \<open>Who sent packets that carry a name.\<close>

definition senders :: "u8 list \<Rightarrow> (mbuf \<times> int) list \<Rightarrow> u32 set" where
  "senders nm ps = {source_of m | m. m \<in> fst ` set ps \<and> nm \<in> carried m}"

text \<open>The packets since a time.\<close>

definition recent :: "int \<Rightarrow> (mbuf \<times> int) list \<Rightarrow> (mbuf \<times> int) list" where
  "recent limit ps = filter (\<lambda>p. limit \<le> snd p) ps"

lemma sent_recent: "\<forall>q \<in> set qs. sent nets w s ps q \<Longrightarrow> \<forall>q \<in> set (since limit qs). sent nets w s (recent limit ps) q"
  by (fastforce simp: sent_def of_packet_def since_def recent_def)

lemma users_senders:
  assumes "\<forall>q \<in> set qs. sent nets w s ps q" and "4 < length nm"
  shows "card (users nm qs) \<le> card (senders nm ps)"
proof -
  have fin: "finite (senders nm ps)"
    by (rule finite_subset [of _ "source_of ` fst ` set ps"]) (auto simp: senders_def)
  have "users nm qs \<subseteq> (\<lambda>a. ucast (seen_source nets w s a)) ` senders nm ps"
  proof
    fix a assume "a \<in> users nm qs"
    then obtain q where q: "q \<in> set qs" "req_name q = nm" "a = source (req_flow q)" by (auto simp: users_def)
    then obtain p where p: "p \<in> set ps" "source (req_flow q) = ucast (seen_source nets w s (source_of (fst p)))"
      "nm \<in> mentions (fst p)"
      using assms(1) by (fastforce simp: sent_def of_packet_def)
    have "nm \<in> carried (fst p)" using p(3) assms(2) by (simp add: mentions_def carried_def address_names_def)
    then show "a \<in> (\<lambda>a. ucast (seen_source nets w s a)) ` senders nm ps"
      using p q(3) by (force simp: senders_def)
  qed
  then show ?thesis using fin by (meson card_image_le card_mono finite_imageI order_trans)
qed

lemma table_run_next:
  assumes "fresh_table db" and "0 < brk h" and "no_oom h" and "0 \<le> delta" and "0 \<le> k"
    and "\<forall>q \<in> set (qs @ [q]). ipv (req_flow q) \<in> {4, 6}" and "sorted (map (\<lambda>q. timestamp (req_flow q)) (qs @ [q]))"
    and "table_run h db k delta qs = Some (h1, db1, rs)" and "length (req_name q) < NAME_DNS"
  obtains h2 db2 r where "table_run h1 db1 k delta [q] = Some (h2, db2, [r])"
    and "sound_result k delta (qs @ [q]) r"
proof -
  obtain A P where t: "table_ok h1 db1 A P" "no_oom h1"
    using table_run_returned [OF assms(1-5), of qs] assms(6-8) by (auto simp: sorted_append)
  have i: "ipv (req_flow q) \<in> {4, 6}" using assms(6) by simp
  obtain h2 db2 r where a: "table_add h1 db1 (req_flow q) (req_name q) k delta (req_tsc q) (req_i q) (req_oom q) (req_junk q)
      = Some (h2, db2, r)"
    using table_add_safe [OF t(1) i t(2) assms(4), of "req_name q" k "req_tsc q" "req_i q" "req_oom q" "req_junk q"] assms(9)
    by blast
  have run: "table_run h db k delta (qs @ [q]) = Some (h2, db2, rs @ [r])" by (simp add: table_run_snoc assms(8) a)
  have "length rs = length qs" "\<forall>n < length (qs @ [q]). sound_result k delta (take (Suc n) (qs @ [q])) ((rs @ [r]) ! n)"
    using table_run_returned [OF assms(1-6) _ assms(7)] run by auto
  then have "sound_result k delta (qs @ [q]) r" by (metis length_append_singleton lessI nth_append_length order_refl take_all)
  then show ?thesis using that [of h2 db2 r] a by simp
qed

lemma process_all_nth:
  assumes "process_all nets w s ps = Some (w', ms)" and "i < length ps"
  obtains w1 w2 where "process_all nets w s (take i ps) = Some (w1, take i ms)"
    and "process_packet nets w1 (fst (ps ! i)) s (snd (ps ! i)) = Some (w2, ms ! i)"
  using assms
proof (induction ps arbitrary: w ms i thesis)
  case (Cons p ps)
  obtain w1 m1 ms1 where 1: "process_packet nets w (fst p) s (snd p) = Some (w1, m1)"
    "process_all nets w1 s ps = Some (w', ms1)" "ms = m1 # ms1"
    using Cons.prems(2) by (cases p) (auto split: Option.bind_splits)
  show ?case
  proof (cases i)
    case 0
    then show ?thesis using Cons.prems(1) 1 by simp
  next
    case (Suc j)
    obtain w2 w3 where "process_all nets w1 s (take j ps) = Some (w2, take j ms1)"
      "process_packet nets w2 (fst (ps ! j)) s (snd (ps ! j)) = Some (w3, ms1 ! j)"
      using Cons.IH [OF _ 1(2), of j] Cons.prems(3) Suc by auto
    then show ?thesis using Cons.prems(1) [of w2 w3] 1 Suc by (cases p) simp
  qed
qed simp

section \<open>The property\<close>

text \<open>
  C2.  Anonymity of DNS questions, from end to end.  The port has the engine and its DNS handler on and the
  removal of payload off, with \<open>alpha\<close> and \<open>delta\<close> not negative; the engine starts with an empty table and a set up
  cipher, and no allocation of a list node fails.  A sequence of packets, of whatever protocol and content,
  is handled in order of time without a fault.  Take a packet of it that is a query
  (\<open>name_query\<close>): IPv4 and complete, with no address in the exempt networks, over UDP from a port other than 53
  to port 53, with operation code 0 and no reserved bits, for an uncompressed name of more than 4 and
  less than 500 characters.  Then all characters of the name are replaced by letters, unless the
  name is shared: the program counted \<open>n\<close> clients, at least \<open>alpha\<close>, and at least so many
  different source addresses have sent packets that carry the name, up to and with this one; and when
  it counted more than \<open>alpha\<close>, that many have done so within the last \<open>delta\<close> seconds.

  Nothing is claimed of other questions.  Those of exempt networks pass by the engine and show their names;
  names of up to 4 characters can share their entry with an external address, whose four bytes are
  counted in the same table.
\<close>

theorem shown_names_are_shared:
  assumes "process_all nets w s ps = Some (w', ms)" and "started w" and "dns_settings s" and "sorted (map snd ps)"
    and "i < length ps" and "name_query nets (fst (ps ! i)) (l # ls)" and "4 < length (dotted (l # ls))"
  shows "(\<forall>j. in_label 54 (l # ls) j \<longrightarrow> letter (room (ms ! i) ! j))
    \<or> (\<exists>n \<ge> s_alpha s. n \<le> int (card (senders (dotted (l # ls)) (take (Suc i) ps)))
         \<and> (s_alpha s < n \<longrightarrow>
              n \<le> int (card (senders (dotted (l # ls)) (recent (snd (ps ! i) - s_delta s) (take (Suc i) ps))))))"
proof -
  let ?nm = "dotted (l # ls)" and ?m = "fst (ps ! i)" and ?run = "\<lambda>h db qs. table_run h db (s_alpha s) (s_delta s) qs"
  have set: "payload_drop_enabled s \<noteq> 1" "0 \<le> s_alpha s" "0 \<le> s_delta s" using assms(3) by (simp_all add: dns_settings_def)
  have w: "working w" "fresh_table (w_names w)" "0 < brk (w_heap w)" "no_oom (w_heap w)"
    using assms(2) by (simp_all add: started_def working_def)
  have past: "take (Suc i) ps = take i ps @ [ps ! i]" using assms(5) by (simp add: take_Suc_conv_app_nth)
  obtain w1 w2 where 1: "process_all nets w s (take i ps) = Some (w1, take i ms)"
    "process_packet nets w1 ?m s (snd (ps ! i)) = Some (w2, ms ! i)"
    by (rule process_all_nth [OF assms(1,5)])
  have st: "sorted (map snd (take (Suc i) ps))" using assms(4) by (simp add: flip: take_map)
  obtain qs rs where 2: "working w1" "anon_image w1 = anon_image w" "\<forall>q \<in> set qs. sent nets w s (take i ps) q"
    "sorted (map (\<lambda>q. timestamp (req_flow q)) qs)" "?run (w_heap w) (w_names w) qs = Some (w_heap w1, w_names w1, rs)"
    using process_all_asks [OF 1(1) w(1) set(1)] st unfolding past by (auto simp: sorted_append)
  have seen: "seen_source nets w1 s = seen_source nets w s" by (rule seen_source_same [OF 2(2)])
  obtain w3 m3 f where 3: "asks s (of_packet (seen_source nets w s (source_of ?m)) (snd (ps ! i)) (mentions ?m)) w1 w3"
    "kept ?m m3" "ipv f = 4" "source f = ucast (seen_source nets w s (source_of ?m))" "timestamp f = snd (ps ! i)"
    "dnsEntry w3 m3 1 True f (s_alpha s) (s_delta s) = Some (w2, ms ! i)"
    using query_reaches [OF 1(2) 2(1) assms(3,6)] unfolding seen by blast
  obtain qs' rs' where 4: "\<forall>q \<in> set qs'. of_packet (seen_source nets w s (source_of ?m)) (snd (ps ! i)) (mentions ?m) q"
    "?run (w_heap w1) (w_names w1) qs' = Some (w_heap w3, w_names w3, rs')"
    using 3(1) unfolding asks_def by blast
  let ?q = "request_in w3 f ?nm"
  have "?nm \<in> dns_asked ?m"
    using dns_name_at [of ?m 42 l ls] assms(6) by (simp add: dns_asked_def name_query_def del: name_at.simps name_size.simps)
  then have q: "of_packet (seen_source nets w s (source_of ?m)) (snd (ps ! i)) (mentions ?m) ?q" "req_name ?q = ?nm"
    using 3(3-5) by (simp_all add: of_packet_def request_in_def Let_def mentions_def)
  have all: "\<forall>q \<in> set ((qs @ qs') @ [?q]). sent nets w s (take (Suc i) ps) q"
    using 2(3) 4(1) q(1) unfolding past sent_def by auto
  have "sorted (map (\<lambda>q. timestamp (req_flow q)) ((qs @ qs') @ [?q]))"
  proof -
    have "timestamp (req_flow r) \<le> snd (ps ! i)" if "r \<in> set qs" for r
      using 2(3) that st unfolding past by (fastforce simp: sent_def of_packet_def sorted_append)
    moreover have "timestamp (req_flow r) = snd (ps ! i)" if "r \<in> set (qs' @ [?q])" for r
      using 4(1) q(1) that by (auto simp: of_packet_def)
    moreover have "map (\<lambda>q. timestamp (req_flow q)) (qs' @ [?q]) = map (\<lambda>_. snd (ps ! i)) (qs' @ [?q])"
      using calculation(2) by simp
    ultimately show ?thesis using 2(4) by (auto simp: sorted_append map_replicate_const)
  qed
  moreover have "\<forall>r \<in> set ((qs @ qs') @ [?q]). ipv (req_flow r) \<in> {4, 6}"
    using all by (auto simp: sent_def of_packet_def)
  moreover have "?run (w_heap w) (w_names w) (qs @ qs') = Some (w_heap w3, w_names w3, rs @ rs')"
    by (simp add: table_run_append 2(5) 4(2))
  moreover have "length (req_name ?q) < NAME_DNS" using assms(6) q(2) by (simp add: name_query_def)
  ultimately obtain h db ret where r: "?run (w_heap w3) (w_names w3) [?q] = Some (h, db, [ret])"
    "sound_result (s_alpha s) (s_delta s) ((qs @ qs') @ [?q]) ret"
    using table_run_next [OF w(2-4) set(3,2)] by metis
  have a: "add_name w3 f ?nm (s_alpha s) (s_delta s) = Some (w3\<lparr>w_ticks := Suc (w_ticks w3), w_heap := h, w_names := db\<rparr>, ret)"
    using r(1) by (simp add: add_name_request)
  show ?thesis
  proof (cases "ret < s_alpha s")
    case True
    then show ?thesis using query_answered [OF assms(6) 3(2) a 3(6)] by blast
  next
    case False
    moreover have "timestamp (req_flow ?q) = snd (ps ! i)" using q(1) by (simp add: of_packet_def)
    ultimately show ?thesis
      using r(2) q(2) users_senders [OF all assms(7)]
        users_senders [OF sent_recent [OF all, of "snd (ps ! i) - s_delta s"] assms(7)]
      by (intro disjI2 exI [of _ ret]) (auto simp: sound_result_def Let_def)
  qed
qed


text \<open>A question for \<^verbatim>\<open>www.co\<close> as the first packet.\<close>

definition query_room :: "u8 list" where
  "query_room = replicate 12 0 @ [8, 0] @ replicate 9 0 @ [17] @ replicate 13 0 @ [53] @ replicate 16 0
     @ [3, 119, 119, 119, 2, 99, 111, 0] @ replicate 8 0"

definition query_settings :: out_interface_sett where
  "query_settings = \<lparr>anon_enabled = 0, anon_mac_enabled = 0, anon_ip_enabled = 0, anon_ip_key_mode = [], anon_ip_key = [],
     anon_ip_rotation_delay = 0, anon_subnet_file = [], no_anon_subnet_file = [], payload_drop_enabled = 0,
     engine = 1, anon_ext_ip = 0, s_dns = 1, s_tls = 0, s_http = 0, s_alpha = 2, s_delta = 10\<rparr>"

definition query_world :: "u32 \<Rightarrow> u32 \<Rightarrow> world \<Rightarrow> world" where
  "query_world x y w = fresh_world (w\<lparr>w_self := warm_crypto_ip x y, w_rj := ready_rijndael\<rparr>)"

lemma query_room_facts:
  assumes "m = mk_packet query_room 70"
  shows "length (room m) = 70" "unat (pkt_len m) = 70" "room m ! 12 = 8" "room m ! 13 = 0" "room m ! 23 = 17" "room m ! 34 = 0" "room m ! 35 = 0"
    "room m ! 36 = 0" "room m ! 37 = 53" "room m ! 44 = 0" "room m ! 45 = 0" "room m ! 54 = 3" "room m ! 58 = 2" "room m ! 61 = 0"
    "take (Suc (Suc (Suc 0))) (drop 55 (room m)) = [119, 119, 119]" "take (Suc (Suc 0)) (drop 59 (room m)) = [99, 111]"
    "get32 m 26 = Some 0" "get32 m 30 = Some 0"
  by (simp_all add: assms mk_packet_def query_room_def nth_append get32_def get8_def)

lemma query_room_query: "name_query office (mk_packet query_room 70) [[119, 119, 119], [99, 111]]"
proof -
  let ?m = "mk_packet query_room 70"
  note f = query_room_facts [OF refl]
  have "mbuf_ok ?m" "ipv4_packet ?m" by (simp_all add: mbuf_ok_def ipv4_packet_def get16_def get8_Some f ntohs_def)
  moreover have "not_exempt office ?m"
    by (simp add: not_exempt_def source_of_def destination_of_def f no_anon_ip_check_def office_def)
  moreover have "map_option ntohs (get16 ?m 34) \<noteq> Some 53" "map_option ntohs (get16 ?m 36) = Some 53"
    by (simp_all add: get16_def get8_Some f ntohs_def)
  moreover have "name_at ?m 54 [[119, 119, 119], [99, 111]]" by (simp add: f)
  ultimately show ?thesis by (simp add: name_query_def f UDP_def dns_z_def NAME_DNS_def del: name_at.simps)
qed

lemma query_processed:
  "\<exists>w' m'. process_all office (query_world x y w) query_settings [(mk_packet query_room 70, 0)] = Some (w', [m'])"
proof -
  let ?m = "mk_packet query_room 70\<lparr>l2_len := 14, l3_len := 20\<rparr>" and ?w = "query_world x y w" and ?s = query_settings
  note f = query_room_facts [OF refl]
  obtain f where n: "new_packet ?w ?m 14 0 = Some f" "ipv f = 4" "in_port f = 0" "out_port f = 53"
    by (simp add: new_packet_def get32_def get16_def get8_def f sizeof_defs ntohs_def)
  obtain w1 ret where a: "add_name ?w f [119, 119, 119, 46, 99, 111] 2 10 = Some (w1, ret)"
    using add_name_fresh [OF n(2), of "[119, 119, 119, 46, 99, 111]" 2 10 "w\<lparr>w_self := warm_crypto_ip x y, w_rj := ready_rijndael\<rparr>"]
    by (simp add: query_world_def NAME_DNS_def) blast
  have k: "kept (mk_packet query_room 70) ?m" by simp
  have d: "proto_detector ?m 1 True 0 53 = Some 53" by (rule query_detected [OF query_room_query k]) simp
  obtain w2 m2 where e: "dnsEntry ?w ?m 1 True f 2 10 = Some (w2, m2)"
  proof -
    have q: "mbuf_ok ?m" "44 < length (room ?m)" "room ?m ! 44 < 128" "name_at ?m 54 [[119, 119, 119], [99, 111]]"
      "54 + name_size [[119, 119, 119], [99, 111 :: u8]] \<le> unat (pkt_len ?m)"
      "length (dotted [[119, 119, 119], [99, 111]]) < NAME_DNS"
      using query_room_query kept_name_at [OF k, of 54] f by (simp_all add: name_query_def mbuf_ok_def)
    show ?thesis
      using question_hidden [OF q, of ?w f 2 10 w1 ret] a that by (auto split: if_splits)
  qed
  have "multiplexer_proto ?w ?m (Some 14) 0 ?s 0 = Some (w2, m2)"
    using n d e by (simp add: multiplexer_proto_def get8_def f UDP_def TCP_def udp_proto_def query_settings_def)
  moreover have "get16 ?m 12 = Some 8" "get32 ?m 26 = Some 0" "get32 ?m 30 = Some 0"
    using f(17,18) by (simp_all add: get16_def get8_def f)
  ultimately have "process_packet office ?w (mk_packet query_room 70) ?s 0 = Some (w2, m2)"
    by (simp add: process_packet_def process_packet_eth_def process_packet_ip_def query_settings_def sizeof_defs ntohs_def
        no_anon_ip_check_def office_def)
  then show ?thesis by simp
qed

theorem shown_names_are_shared_witness:
  "\<exists>x y. \<forall>w. \<exists>w' m'. process_all office (query_world x y w) query_settings [(mk_packet query_room 70, 0)] = Some (w', [m'])
     \<and> letter (room m' ! 55) \<and> letter (room m' ! 57) \<and> letter (room m' ! 60)"
proof -
  obtain x y where o: "operational (warm_crypto_ip x y) ready_rijndael" using operational_example by blast
  let ?p = "(mk_packet query_room 70, 0)" and ?ls = "[[99, 111 :: u8]]" and ?l = "[119, 119, 119 :: u8]"
  have "\<exists>w' m'. process_all office (query_world x y w) query_settings [?p] = Some (w', [m'])
     \<and> letter (room m' ! 55) \<and> letter (room m' ! 57) \<and> letter (room m' ! 60)" for w
  proof -
    obtain w' m' where 1: "process_all office (query_world x y w) query_settings [?p] = Some (w', [m'])"
      using query_processed by blast
    have r: "started (query_world x y w)"
      using o no_oom_empty
      by (simp add: started_def query_world_def fresh_world_def fresh_table_def table_init_def blank_table_def new_names_def
          no_client_def empty_heap_def)
    have s: "dns_settings query_settings" by (simp add: dns_settings_def query_settings_def)
    have "senders (dotted (?l # ?ls)) [?p] \<subseteq> {source_of (fst ?p)}" by (auto simp: senders_def)
    then have "card (senders (dotted (?l # ?ls)) [?p]) \<le> 1" using card_mono [of "{source_of (fst ?p)}"] by simp
    then have "\<forall>j. in_label 54 (?l # ?ls) j \<longrightarrow> letter (room m' ! j)"
      using shown_names_are_shared [OF 1 r s, of 0 ?l ?ls] query_room_query by (auto simp: query_settings_def)
    then show ?thesis using 1 by simp
  qed
  then show ?thesis by blast
qed

end
