(* ===== verification/Ini.thy ===== *)
theory Ini
  imports Net_File World
begin

text \<open>
  Reading a file of settings: \<^verbatim>\<open>src/ini.c\<close>, with the options that \<^verbatim>\<open>src/ini.h\<close> sets.  A string is the
  bytes before its end, or a buffer that \<open>cstr\<close> cuts there; the handler is an argument that returns its state with the return value, or a fault.
\<close>

section \<open>Strings\<close>

text \<open>A string of the source as bytes.\<close>

definition str :: "string \<Rightarrow> u8 list" where
  "str s = map of_char s"

lemma of_char_u8_inject: "of_char c = (of_char d :: u8) \<longleftrightarrow> c = d"
proof
  assume "of_char c = (of_char d :: u8)"
  then have "(of_nat (of_char c) :: u8) = of_nat (of_char d)" by (simp add: of_nat_of_char)
  then have "unat (of_nat (of_char c) :: u8) = unat (of_nat (of_char d) :: u8)" by simp
  then have "(of_char c :: nat) mod 256 = of_char d mod 256" by (simp add: unat_of_nat)
  moreover have "(of_char c :: nat) < 256" "(of_char d :: nat) < 256" by (rule nat_of_char_less_256)+
  ultimately show "c = d" by simp
qed simp

lemma str_inject [simp]: "str s = str t \<longleftrightarrow> s = t"
  unfolding str_def by (simp add: inj_map_eq_map inj_def of_char_u8_inject)

lemma length_str [simp]: "length (str s) = length s"
  by (simp add: str_def)

definition rstrip :: "u8 list \<Rightarrow> u8 list" where
  "rstrip s = rev (dropWhile is_space (rev s))"

definition lskip :: "u8 list \<Rightarrow> u8 list" where
  "lskip s = dropWhile is_space s"

text \<open>
  The string before the first of \<open>chars\<close> or the comment, and the string from there on.  An empty \<open>chars\<close>
  is \<^verbatim>\<open>NULL\<close>; \<open>w\<close> is \<^verbatim>\<open>was_space\<close>.
\<close>

fun find_chars_or_comment :: "u8 list \<Rightarrow> bool \<Rightarrow> u8 list \<Rightarrow> u8 list \<times> u8 list" where
  "find_chars_or_comment chars w [] = ([], [])"
| "find_chars_or_comment chars w (c # s) =
     (if c \<in> set chars \<or> w \<and> c = 59 then ([], c # s)
      else let (a, b) = find_chars_or_comment chars (is_space c) s in (c # a, b))"

definition strncpy0 :: "u8 list \<Rightarrow> nat \<Rightarrow> u8 list" where
  "strncpy0 src n = take (n - 1) src"

text \<open>\<^verbatim>\<open>fgets\<close>: at most \<open>n\<close> characters, the end of the line included, and the rest of the file.\<close>

fun fgets :: "nat \<Rightarrow> u8 list \<Rightarrow> u8 list \<times> u8 list" where
  "fgets 0 fp = ([], fp)"
| "fgets n [] = ([], [])"
| "fgets (Suc n) (c # fp) = (if c = 10 then ([c], fp) else let (line, fp) = fgets n fp in (c # line, fp))"

text \<open>A reader gives the next line and the rest of its stream; the inner \<open>None\<close> is \<^verbatim>\<open>NULL\<close>.\<close>

type_synonym 't ini_reader = "nat \<Rightarrow> 't \<Rightarrow> (u8 list \<times> 't) option option"

definition fgets_reader :: "u8 list ini_reader" where
  "fgets_reader num fp = Some (if fp = [] then None else Some (fgets (num - 1) fp))"

record ini_parse_string_ctx =
  ptr :: "u8 list"
  num_left :: nat

fun reader_loop :: "nat \<Rightarrow> u8 list \<Rightarrow> nat \<Rightarrow> (u8 list \<times> u8 list \<times> nat) option" where
  "reader_loop num ctx_ptr left =
     (if 1 < num \<and> left \<noteq> 0 then
        case ctx_ptr of
          [] \<Rightarrow> None
        | c # ctx_ptr \<Rightarrow>
            if c = 10 then Some ([c], ctx_ptr, left - 1)
            else do {
              (line, ctx_ptr, left) \<leftarrow> reader_loop (num - 1) ctx_ptr (left - 1);
              Some (c # line, ctx_ptr, left)
            }
      else Some ([], ctx_ptr, left))"

declare reader_loop.simps [simp del]

definition ini_reader_string :: "ini_parse_string_ctx ini_reader" where
  "ini_reader_string num ctx =
     (if num_left ctx = 0 \<or> num < 2 then Some None
      else do {
        (line, ctx_ptr, left) \<leftarrow> reader_loop num (ptr ctx) (num_left ctx);
        Some (Some (line, \<lparr>ptr = ctx_ptr, num_left = left\<rparr>))
      })"

section \<open>Parsing\<close>

definition INI_MAX_LINE :: nat where "INI_MAX_LINE = 200"
definition MAX_SECTION :: nat where "MAX_SECTION = 50"
definition MAX_NAME :: nat where "MAX_NAME = 50"

text \<open>The variables of the loop over the lines; \<open>user\<close> is what the handler works on.\<close>

record 's ini_state =
  user :: 's
  section_name :: "u8 list"
  prev_name :: "u8 list"
  lineno :: nat
  error :: nat

type_synonym 's ini_handler = "'s \<Rightarrow> u8 list \<Rightarrow> u8 list \<Rightarrow> u8 list \<Rightarrow> ('s \<times> int) option"

definition line_error :: "'s ini_state \<Rightarrow> 's ini_state" where
  "line_error st = (if error st = 0 then st\<lparr>error := lineno st\<rparr> else st)"

definition call_handler ::
  "'s ini_handler \<Rightarrow> 's ini_state \<Rightarrow> u8 list \<Rightarrow> u8 list \<Rightarrow> 's ini_state option" where
  "call_handler handler st nm value = do {
     (u, r) \<leftarrow> handler (user st) (section_name st) nm value;
     let st = st\<lparr>user := u\<rparr>;
     Some (if r = 0 then line_error st else st)
   }"

definition ini_line :: "'s ini_handler \<Rightarrow> u8 list \<Rightarrow> 's ini_state \<Rightarrow> 's ini_state option" where
  "ini_line handler line st = (
     let st = st\<lparr>lineno := Suc (lineno st)\<rparr>;
         line = cstr line;
         bom = (lineno st = 1 \<and> take 3 line = [0xEF, 0xBB, 0xBF]);
         start = rstrip (if bom then drop 3 line else line);
         behind = (bom \<or> start \<noteq> [] \<and> is_space (hd start));
         start = lskip start
     in if start = [] \<or> hd start \<in> {59, 35} then Some st
        else if prev_name st \<noteq> [] \<and> behind then call_handler handler st (prev_name st) start
        else if hd start = 91 then
          let (a, b) = find_chars_or_comment [93] False (tl start) in
          if b \<noteq> [] \<and> hd b = 93 then Some (st\<lparr>section_name := strncpy0 a MAX_SECTION, prev_name := []\<rparr>)
          else Some (line_error st)
        else
          let (a, b) = find_chars_or_comment [61] False start in
          if b \<noteq> [] \<and> (hd b = 61 \<or> hd b = 58) then
            let nm = rstrip a;
                (value, _) = find_chars_or_comment [] False (tl b);
                value = rstrip (lskip value)
            in call_handler handler (st\<lparr>prev_name := strncpy0 nm MAX_NAME\<rparr>) nm value
          else Some (line_error st))"

partial_function (option) ini_lines ::
  "'t ini_reader \<Rightarrow> 's ini_handler \<Rightarrow> 't \<Rightarrow> 's ini_state \<Rightarrow> 's ini_state option" where
  "ini_lines reader handler stream st = do {
     r \<leftarrow> reader INI_MAX_LINE stream;
     case r of
       None \<Rightarrow> Some st
     | Some (line, stream) \<Rightarrow> do {
         st \<leftarrow> ini_line handler line st;
         ini_lines reader handler stream st
       }
   }"

definition ini_parse_stream :: "'t ini_reader \<Rightarrow> 't \<Rightarrow> 's ini_handler \<Rightarrow> 's \<Rightarrow> ('s \<times> nat) option" where
  "ini_parse_stream reader stream handler u = do {
     st \<leftarrow> ini_lines reader handler stream \<lparr>user = u, section_name = [], prev_name = [], lineno = 0, error = 0\<rparr>;
     Some (user st, error st)
   }"

definition ini_parse_file :: "u8 list \<Rightarrow> 's ini_handler \<Rightarrow> 's \<Rightarrow> ('s \<times> nat) option" where
  "ini_parse_file fp handler u = ini_parse_stream fgets_reader fp handler u"

text \<open>
  \<open>string\<close> holds the bytes from the pointer on, up to a zero byte or beyond it; \<^verbatim>\<open>strlen\<close> counts up to the first.
\<close>

definition ini_parse_string :: "u8 list \<Rightarrow> 's ini_handler \<Rightarrow> 's \<Rightarrow> ('s \<times> nat) option" where
  "ini_parse_string string handler u = ini_parse_stream ini_reader_string \<lparr>ptr = string, num_left = length (cstr string)\<rparr> handler u"

text \<open>\<^verbatim>\<open>ini_parse\<close>: \<open>fs\<close> gives the contents of the files; the result is negative for a file that is missing.\<close>

definition ini_parse ::
  "(u8 list \<Rightarrow> u8 list option) \<Rightarrow> 's ini_handler \<Rightarrow> u8 list \<Rightarrow> 's \<Rightarrow> ('s \<times> int) option" where
  "ini_parse fs handler filename u = (case fs filename of
     None \<Rightarrow> Some (u, -1)
   | Some fp \<Rightarrow> map_option (\<lambda>(u, e). (u, int e)) (ini_parse_file fp handler u))"

end
