(* ===== verification/Config.thy ===== *)
theory Config
  imports Ini
begin

text \<open>
  The settings of the program: \<^verbatim>\<open>parse_ini\<close> and \<^verbatim>\<open>parse_args\<close> of \<^verbatim>\<open>src/traffic_anon.c\<close>, which fill
  the settings of the groups, of the output ports and the mappings from input to output ports.

  An index outside an array, a string that does not fit, and the use of \<^verbatim>\<open>config\<close> before it is
  allocated or after it is freed are the fault \<open>None\<close>.
\<close>

section \<open>State\<close>

definition MAX_STR :: nat where "MAX_STR = 256"

record in_interface_sett =
  in_id :: int
  in_address :: "u8 list"
  n_out :: int
  out_ports :: "int list"

text \<open>The pointer \<^verbatim>\<open>config\<close> with what it points to.\<close>

datatype groups = Null | Freed | Groups "out_interface_sett list"

record configuration =
  mempool_elem_nb :: int
  config :: groups
  out_interface :: "out_interface_sett list"
  in_interface :: "in_interface_sett list"
  in_interface_cnt :: nat
  used_ports :: "int list"

text \<open>
  What the environment decides: the port of a name, for which \<^verbatim>\<open>rte_eth_dev_get_port_by_name\<close> assigns
  nothing when it knows none; what the memory of \<^verbatim>\<open>malloc\<close> holds, and whether it fails.
\<close>

record machine =
  port_by_name :: "u8 list \<Rightarrow> u16 option"
  memory :: "nat \<Rightarrow> out_interface_sett"
  malloc_fails :: bool

definition zero_sett :: out_interface_sett where
  "zero_sett = \<lparr>anon_enabled = 0, anon_mac_enabled = 0, anon_ip_enabled = 0, anon_ip_key_mode = [], anon_ip_key = [],
     anon_ip_rotation_delay = 0, anon_subnet_file = [], no_anon_subnet_file = [], payload_drop_enabled = 0,
     engine = 0, anon_ext_ip = 0, s_dns = 0, s_tls = 0, s_http = 0, s_alpha = 0, s_delta = 0\<rparr>"

definition zero_in :: in_interface_sett where
  "zero_in = \<lparr>in_id = 0, in_address = [], n_out = 0, out_ports = replicate MAX_INTERFACES 0\<rparr>"

text \<open>Static memory is zero when the program starts.\<close>

definition initial_configuration :: configuration where
  "initial_configuration = \<lparr>mempool_elem_nb = 0, config = Null, out_interface = replicate MAX_INTERFACES zero_sett,
     in_interface = replicate MAX_INTERFACES zero_in, in_interface_cnt = 0, used_ports = replicate MAX_INTERFACES 0\<rparr>"

section \<open>The C library\<close>

text \<open>\<^verbatim>\<open>atoi\<close> is the value of \<^verbatim>\<open>strtol\<close> as an \<^verbatim>\<open>int\<close>.\<close>

definition atoi :: "u8 list \<Rightarrow> int" where
  "atoi s = sint (word_of_int (fst (strtol s)) :: u32)"

definition strcpy :: "u8 list \<Rightarrow> nat \<Rightarrow> u8 list option" where
  "strcpy s n = (if length s < n then Some s else None)"

fun strstr :: "u8 list \<Rightarrow> u8 list \<Rightarrow> u8 list option" where
  "strstr s needle = (if take (length needle) s = needle then Some s
     else case s of [] \<Rightarrow> None | c # s \<Rightarrow> strstr s needle)"

definition store :: "int list \<Rightarrow> nat \<Rightarrow> int \<Rightarrow> int list option" where
  "store xs i x = (if i < length xs then Some (xs[i := x]) else None)"

section \<open>The handler of an entry\<close>

definition with_group ::
  "configuration \<Rightarrow> int \<Rightarrow> (out_interface_sett \<Rightarrow> out_interface_sett option) \<Rightarrow> (configuration \<times> int) option" where
  "with_group st i f = (case config st of
     Groups cs \<Rightarrow>
       if 0 \<le> i \<and> nat i < length cs then do {
         c \<leftarrow> f (cs ! nat i);
         Some (st\<lparr>config := Groups (cs[nat i := c])\<rparr>, 1)
       }
       else None
   | _ \<Rightarrow> None)"

text \<open>A line in the section of a group.\<close>

definition group_entry ::
  "configuration \<Rightarrow> int \<Rightarrow> u8 list \<Rightarrow> u8 list \<Rightarrow> (configuration \<times> int) option" where
  "group_entry st i nm value =
     (if nm = str ''anon_mac'' then with_group st i (\<lambda>c. Some (c\<lparr>anon_mac_enabled := atoi value\<rparr>))
      else if nm = str ''anon_ip'' then with_group st i (\<lambda>c. Some (c\<lparr>anon_ip_enabled := atoi value\<rparr>))
      else if nm = str ''key_mode'' then
        with_group st i (\<lambda>c. do { v \<leftarrow> strcpy value MAX_STR; Some (c\<lparr>anon_ip_key_mode := v\<rparr>) })
      else if nm = str ''key'' then
        with_group st i (\<lambda>c. do { v \<leftarrow> strcpy value MAX_STR; Some (c\<lparr>anon_ip_key := v\<rparr>) })
      else if nm = str ''rotation_delay'' then
        with_group st i (\<lambda>c. Some (c\<lparr>anon_ip_rotation_delay := atoi value\<rparr>))
      else if nm = str ''anon_subnet_file'' then
        with_group st i (\<lambda>c. do { v \<leftarrow> strcpy value MAX_STR; Some (c\<lparr>anon_subnet_file := v\<rparr>) })
      else if nm = str ''no_anon_subnet_file'' then
        with_group st i (\<lambda>c. do { v \<leftarrow> strcpy value MAX_STR; Some (c\<lparr>no_anon_subnet_file := v\<rparr>) })
      else if nm = str ''payload_drop'' then with_group st i (\<lambda>c. Some (c\<lparr>payload_drop_enabled := atoi value\<rparr>))
      else if nm = str ''engine'' then with_group st i (\<lambda>c. Some (c\<lparr>engine := atoi value\<rparr>))
      else if nm = str ''external_ip'' then with_group st i (\<lambda>c. Some (c\<lparr>anon_ext_ip := atoi value\<rparr>))
      else if nm = str ''dns'' then with_group st i (\<lambda>c. Some (c\<lparr>s_dns := atoi value\<rparr>))
      else if nm = str ''tls'' then with_group st i (\<lambda>c. Some (c\<lparr>s_tls := atoi value\<rparr>))
      else if nm = str ''http'' then with_group st i (\<lambda>c. Some (c\<lparr>s_http := atoi value\<rparr>))
      else if nm = str ''alpha'' then with_group st i (\<lambda>c. Some (c\<lparr>s_alpha := atoi value\<rparr>))
      else if nm = str ''delta'' then with_group st i (\<lambda>c. Some
        (if s_alpha c \<noteq> 0 then if 0 < atoi value then c\<lparr>s_delta := atoi value\<rparr> else c
         else c\<lparr>s_delta := atoi value\<rparr>))
      else Some (st, 1))"

text \<open>A line in the section of the mappings; the search reads the entry behind the last one, too.\<close>

definition port_of :: "machine \<Rightarrow> u8 list \<Rightarrow> nat" where
  "port_of mc nm = (case port_by_name mc nm of Some p \<Rightarrow> unat p | None \<Rightarrow> 65535)"

fun find_in :: "in_interface_sett list \<Rightarrow> nat \<Rightarrow> nat \<Rightarrow> nat \<Rightarrow> nat option option" where
  "find_in ins cnt port_in 0 = Some None"
| "find_in ins cnt port_in (Suc n) =
     (let i = cnt - n in
      if length ins \<le> i then None
      else if in_id (ins ! i) = int port_in \<and> cnt \<noteq> 0 then Some (Some i)
      else find_in ins cnt port_in n)"

definition add_out :: "in_interface_sett \<Rightarrow> nat \<Rightarrow> in_interface_sett option" where
  "add_out e port_out =
     (if 0 \<le> n_out e \<and> nat (n_out e) < length (out_ports e)
      then Some (e\<lparr>out_ports := (out_ports e)[nat (n_out e) := int port_out], n_out := n_out e + 1\<rparr>) else None)"

definition mapping_entry ::
  "machine \<Rightarrow> configuration \<Rightarrow> u8 list \<Rightarrow> u8 list \<Rightarrow> (configuration \<times> int) option" where
  "mapping_entry mc st nm value = do {
     let port_in = port_of mc nm;
     let port_out = port_of mc value;
     used \<leftarrow> store (used_ports st) port_in 1;
     used \<leftarrow> store used port_out 1;
     let st = st\<lparr>used_ports := used\<rparr>;
     let cnt = in_interface_cnt st;
     found \<leftarrow> find_in (in_interface st) cnt port_in (Suc cnt);
     st \<leftarrow> (case found of
         Some i \<Rightarrow> do {
           e \<leftarrow> add_out (in_interface st ! i) port_out;
           Some (st\<lparr>in_interface := (in_interface st)[i := e]\<rparr>)
         }
       | None \<Rightarrow> Some st);
     if found = None \<or> cnt = 0 then
       if length (in_interface st) \<le> cnt then None
       else do {
         a \<leftarrow> strcpy nm MAX_STR;
         e \<leftarrow> add_out ((in_interface st ! cnt)\<lparr>in_id := int port_in, in_address := a\<rparr>) port_out;
         Some (st\<lparr>in_interface := (in_interface st)[cnt := e], in_interface_cnt := Suc cnt\<rparr>, 1)
       }
     else Some (st, 1)
   }"

definition parse_ini ::
  "machine \<Rightarrow> configuration \<Rightarrow> u8 list \<Rightarrow> u8 list \<Rightarrow> u8 list \<Rightarrow> (configuration \<times> int) option" where
  "parse_ini mc st sec nm value =
     (if sec = str ''general'' then
        if nm = str ''mempool_elem_nb'' then Some (st\<lparr>mempool_elem_nb := atoi value\<rparr>, 1)
        else if nm = str ''num_config'' then
          Some (st\<lparr>config := (if malloc_fails mc \<or> atoi value < 0 then Null
            else Groups (map (memory mc) [0..<nat (atoi value)]))\<rparr>, 1)
        else Some (st, 1)
      else if sec = str ''interfaces_mappings'' then mapping_entry mc st nm value
      else case strstr sec (str ''group_'') of
        Some start \<Rightarrow> do {
          _ \<leftarrow> strcpy sec 100;
          group_entry st (atoi (drop (length ''group_'') start)) nm value
        }
      | None \<Rightarrow>
          if sec = str ''interface_conf'' then
            case port_by_name mc nm of
              None \<Rightarrow> Some (st, 1)
            | Some port_out \<Rightarrow> (case config st of
                Groups cs \<Rightarrow>
                  if 0 \<le> atoi value \<and> nat (atoi value) < length cs \<and> unat port_out < length (out_interface st) then
                    Some (st\<lparr>out_interface := (out_interface st)[unat port_out := cs ! nat (atoi value)]\<rparr>, 1)
                  else None
              | _ \<Rightarrow> None)
          else if sec = str ''end'' then (case config st of
              Freed \<Rightarrow> None
            | Null \<Rightarrow> Some (st, 1)
            | Groups _ \<Rightarrow> Some (st\<lparr>config := Freed\<rparr>, 1))
          else Some (st, 1))"

text \<open>
  The options of the command line, as \<^verbatim>\<open>getopt\<close> returns them: \<open>Inl\<close> is the argument of \<^verbatim>\<open>-c\<close>,
  \<open>Inr\<close> anything else.  The inner \<open>None\<close> of the result is the return value -1.
\<close>

fun options :: "u8 list \<Rightarrow> (u8 list + u8) list \<Rightarrow> u8 list option option" where
  "options ini_file [] = Some (Some ini_file)"
| "options ini_file (Inl optarg # opts) = do { f \<leftarrow> strcpy optarg MAX_STR; options f opts }"
| "options ini_file (Inr _ # opts) = Some None"

definition parse_args ::
  "machine \<Rightarrow> (u8 list \<Rightarrow> u8 list option) \<Rightarrow> (u8 list + u8) list \<Rightarrow> configuration \<Rightarrow> (configuration \<times> int) option" where
  "parse_args mc fs opts st = do {
     f \<leftarrow> options [] opts;
     case f of
       None \<Rightarrow> Some (st, -1)
     | Some ini_file \<Rightarrow> do {
         (st, r) \<leftarrow> ini_parse fs (parse_ini mc) ini_file st;
         Some (st, if r < 0 then -1 else 0)
       }
   }"

end
