(* ===== verification/Program.thy ===== *)
theory Program
  imports Process_Packet Config
begin

text \<open>
  The program around the handling of a packet: \<^verbatim>\<open>proto_init\<close> of \<^verbatim>\<open>src/proto_mng.c\<close>,
  \<^verbatim>\<open>process_packet_init\<close> of \<^verbatim>\<open>src/process_packet.c\<close>, and in \<^verbatim>\<open>main_loop\<close> of \<^verbatim>\<open>src/traffic_anon.c\<close>
  what happens to a burst of packets that an input port has received.
\<close>

section \<open>State\<close>

definition MAX_CORES :: nat where "MAX_CORES = 100"
definition MAX_SUBNETS :: nat where "MAX_SUBNETS = 256"

text \<open>
  \<open>p_crypto\<close> holds \<^verbatim>\<open>crypto_data\<close> and \<^verbatim>\<open>rijndael_OP\<close>, by core and port; the handling of a packet works on
  the entry of its core and port, which the fields \<open>w_self\<close> and \<open>w_rj\<close> of \<open>p_world\<close> stand for meanwhile.
\<close>

record program =
  p_world :: world
  p_crypto :: "nat \<Rightarrow> nat \<Rightarrow> crypto_ip \<times> rijndael"
  p_nets :: nets

section \<open>Initialisation\<close>

text \<open>\<^verbatim>\<open>proto_init\<close>; \<open>fails\<close> says which of its allocations fail and \<open>mem\<close> what they hold.\<close>

definition proto_init :: "(nat \<Rightarrow> bool) \<Rightarrow> hash_struct \<Rightarrow> (nat \<Rightarrow> table_flow) \<Rightarrow> world \<Rightarrow> world" where
  "proto_init fails mem mem_flows w =
     (if fails 0 then w
      else if fails 1 then w
      else w\<lparr>w_names := table_init mem, w_flows := flow_table_init mem_flows\<rparr>)"

text \<open>The keys of a port; \<open>stack\<close> is the unassigned pointer of each call of \<^verbatim>\<open>initialize_crypto\<close>.\<close>

fun init_cores ::
  "(nat \<Rightarrow> nat \<Rightarrow> nat) \<Rightarrow> u8 list \<Rightarrow> nat \<Rightarrow> (nat \<Rightarrow> nat \<Rightarrow> crypto_ip \<times> rijndael) \<Rightarrow> nat
     \<Rightarrow> (nat \<Rightarrow> nat \<Rightarrow> crypto_ip \<times> rijndael) option" where
  "init_cores stack key i data 0 = Some data"
| "init_cores stack key i data (Suc j) = do {
     data \<leftarrow> init_cores stack key i data j;
     let (self, rj) = data j i;
     c \<leftarrow> (if j < MAX_CORES then initialize_crypto (stack j i) self rj (Some key) i else None);
     Some (data(j := (data j)(i := c)))
   }"

text \<open>A port; reading from a file that could not be opened is a fault.\<close>

definition init_port_data ::
  "inet \<Rightarrow> (u8 list \<Rightarrow> u8 list option) \<Rightarrow> (nat \<Rightarrow> nat \<Rightarrow> nat) \<Rightarrow> nat \<Rightarrow> out_interface_sett \<Rightarrow> nat \<Rightarrow> program
     \<Rightarrow> program option" where
  "init_port_data inet fs stack cores s i p =
     (if anon_ip_enabled s = 1 then do {
        data \<leftarrow> (if anon_ip_key_mode s = static_str then init_cores stack (anon_ip_key s) i (p_crypto p) cores
          else Some (p_crypto p));
        fp \<leftarrow> fs (anon_subnet_file s);
        let (_, nets4, nets6) = ParseNetFile inet fp MAX_SUBNETS;
        fp \<leftarrow> fs (no_anon_subnet_file s);
        let (_, no_nets4, no_nets6) = ParseNetFile inet fp MAX_SUBNETS;
        Some (p\<lparr>p_crypto := data, p_nets := \<lparr>anon_nets = nets4, anon_nets6 = nets6,
          no_anon_nets = no_nets4, no_anon_nets6 = no_nets6\<rparr>\<rparr>)
      } else Some p)"

fun init_ports ::
  "inet \<Rightarrow> (u8 list \<Rightarrow> u8 list option) \<Rightarrow> (nat \<Rightarrow> nat \<Rightarrow> nat) \<Rightarrow> nat \<Rightarrow> out_interface_sett list \<Rightarrow> nat \<Rightarrow> program
     \<Rightarrow> program option" where
  "init_ports inet fs stack cores [] i p = Some p"
| "init_ports inet fs stack cores (s # ss) i p = do {
     p \<leftarrow> init_port_data inet fs stack cores s i p;
     init_ports inet fs stack cores ss (Suc i) p
   }"

definition process_packet_init ::
  "inet \<Rightarrow> (u8 list \<Rightarrow> u8 list option) \<Rightarrow> (nat \<Rightarrow> nat \<Rightarrow> nat) \<Rightarrow> (nat \<Rightarrow> bool) \<Rightarrow> hash_struct \<Rightarrow> (nat \<Rightarrow> table_flow)
     \<Rightarrow> nat \<Rightarrow> configuration \<Rightarrow> program \<Rightarrow> program option" where
  "process_packet_init inet fs stack fails mem mem_flows cores conf p = do {
     p \<leftarrow> init_ports inet fs stack cores (out_interface conf) 0 p;
     Some (p\<lparr>p_world := proto_init fails mem mem_flows (p_world p)\<rparr>)
   }"

section \<open>A burst of packets\<close>

text \<open>A packet on its way to a port.\<close>

definition at_port :: "program \<Rightarrow> nat \<Rightarrow> nat \<Rightarrow> world" where
  "at_port p core port = (p_world p)\<lparr>w_self := fst (p_crypto p core port), w_rj := snd (p_crypto p core port)\<rparr>"

definition back_from :: "program \<Rightarrow> nat \<Rightarrow> nat \<Rightarrow> world \<Rightarrow> program" where
  "back_from p core port w = p\<lparr>p_world := w,
     p_crypto := (p_crypto p)(core := (p_crypto p core)(port := (w_self w, w_rj w)))\<rparr>"

definition forward ::
  "configuration \<Rightarrow> program \<Rightarrow> nat \<Rightarrow> nat \<Rightarrow> mbuf \<Rightarrow> int \<Rightarrow> (program \<times> mbuf) option" where
  "forward conf p core port m tv =
     (if port < length (out_interface conf) then do {
        (w, m) \<leftarrow> process_packet (p_nets p) (at_port p core port) m (out_interface conf ! port) tv;
        Some (back_from p core port w, m)
      } else None)"

text \<open>
  The copy of a packet into a buffer of the same length; \<open>fresh\<close> is what the buffer holds, the bytes behind
  the data are not assigned.
\<close>

definition deep_copy :: "(nat \<Rightarrow> u8) \<Rightarrow> mbuf \<Rightarrow> mbuf" where
  "deep_copy fresh m = m\<lparr>room := take (unat (pkt_len m)) (room m) @ map fresh [unat (pkt_len m)..<length (room m)]\<rparr>"

text \<open>The packets of a burst to one port; \<open>clock\<close> gives the time for the \<open>n\<close>-th packet that is handled.\<close>

fun forward_all ::
  "configuration \<Rightarrow> program \<Rightarrow> nat \<Rightarrow> nat \<Rightarrow> mbuf list \<Rightarrow> (nat \<Rightarrow> int) \<Rightarrow> nat \<Rightarrow> (program \<times> mbuf list) option" where
  "forward_all conf p core port [] clock n = Some (p, [])"
| "forward_all conf p core port (m # ms) clock n = do {
     (p, m) \<leftarrow> forward conf p core port m (clock n);
     (p, ms) \<leftarrow> forward_all conf p core port ms clock (Suc n);
     Some (p, m # ms)
   }"

text \<open>
  The loop over the output ports.  All but the last get copies, the last the packets themselves; the result
  has what is transmitted, with the port.
\<close>

fun dispatch ::
  "configuration \<Rightarrow> program \<Rightarrow> nat \<Rightarrow> nat list \<Rightarrow> mbuf list \<Rightarrow> (nat \<Rightarrow> nat \<Rightarrow> u8) \<Rightarrow> (nat \<Rightarrow> int) \<Rightarrow> nat
     \<Rightarrow> (program \<times> (nat \<times> mbuf) list) option" where
  "dispatch conf p core [] ms fresh clock n = Some (p, [])"
| "dispatch conf p core (port # ports) ms fresh clock n = do {
     let pkts = (if ports = [] then ms else map2 (\<lambda>k m. deep_copy (fresh k) m) [n..<n + length ms] ms);
     (p, outs) \<leftarrow> forward_all conf p core port pkts clock n;
     (p, sent) \<leftarrow> dispatch conf p core ports ms fresh clock (n + length ms);
     Some (p, map (Pair port) outs @ sent)
   }"

text \<open>The output ports of an input port.\<close>

definition destinations :: "in_interface_sett \<Rightarrow> nat list" where
  "destinations e = map nat (take (nat (n_out e)) (out_ports e))"

section \<open>The main loop\<close>

text \<open>
  One round over the input ports \<open>es\<close>; each has received a burst, which may be empty.  \<open>n\<close> counts the packets
  that were handled.
\<close>

fun poll ::
  "configuration \<Rightarrow> program \<Rightarrow> nat \<Rightarrow> in_interface_sett list \<Rightarrow> mbuf list list \<Rightarrow> (nat \<Rightarrow> nat \<Rightarrow> u8) \<Rightarrow> (nat \<Rightarrow> int) \<Rightarrow> nat
     \<Rightarrow> (program \<times> (nat \<times> mbuf) list \<times> nat) option" where
  "poll conf p core (e # es) (ms # bursts) fresh clock n = do {
     (p, sent) \<leftarrow> (if ms = [] then Some (p, []) else dispatch conf p core (destinations e) ms fresh clock n);
     (p, sent', n) \<leftarrow> poll conf p core es bursts fresh clock (n + length sent);
     Some (p, sent @ sent', n)
   }"
| "poll conf p core _ _ fresh clock n = Some (p, [], n)"

text \<open>\<^verbatim>\<open>main_loop\<close> on a core for any number of rounds, with what the input ports receive in each.\<close>

fun main_loop ::
  "configuration \<Rightarrow> program \<Rightarrow> nat \<Rightarrow> mbuf list list list \<Rightarrow> (nat \<Rightarrow> nat \<Rightarrow> u8) \<Rightarrow> (nat \<Rightarrow> int) \<Rightarrow> nat
     \<Rightarrow> (program \<times> (nat \<times> mbuf) list) option" where
  "main_loop conf p core [] fresh clock n = Some (p, [])"
| "main_loop conf p core (bursts # rounds) fresh clock n = do {
     (p, sent, n) \<leftarrow> poll conf p core (take (in_interface_cnt conf) (in_interface conf)) bursts fresh clock n;
     (p, sent') \<leftarrow> main_loop conf p core rounds fresh clock n;
     Some (p, sent @ sent')
   }"

end
