(* ===== verification/Setup.thy ===== *)
theory Setup
  imports Program
begin

text \<open>
  The start of the program: \<^verbatim>\<open>main\<close> and \<^verbatim>\<open>init_port\<close> of \<^verbatim>\<open>src/traffic_anon.c\<close>.  The calls that set up the
  ports are recorded in their order; what they return is an argument.
\<close>

section \<open>State\<close>

text \<open>
  What DPDK reports: the results of the calls, which are negative for errors, by port and queue.
  \<open>pools\<close> says which of the two pools of packets can be created.
\<close>

record dpdk =
  eal_init :: int
  lcore_count :: nat
  dev_count :: nat
  pools :: "nat \<Rightarrow> bool"
  max_rx_queues :: "nat \<Rightarrow> nat"
  fast_free_capa :: "nat \<Rightarrow> bool"
  dev_configure :: "nat \<Rightarrow> bool \<Rightarrow> int"
  adjust_desc :: "nat \<Rightarrow> int"
  rx_queue_setup :: "nat \<Rightarrow> nat \<Rightarrow> int"
  tx_queue_setup :: "nat \<Rightarrow> nat \<Rightarrow> int"
  dev_start :: "nat \<Rightarrow> int"

text \<open>
  The calls that change a port.  \<^verbatim>\<open>rte_eth_dev_configure\<close> gets the numbers of queues, whether
  \<^verbatim>\<open>FAST_FREE\<close> is set, and the seed of the hash that chooses the queue of a packet.
\<close>

datatype port_call =
    Configure nat nat nat bool "u8 list"
  | Adjust nat
  | Rx_queue nat nat
  | Rx_stats nat nat
  | Tx_queue nat nat
  | Tx_stats nat nat
  | Start nat
  | Promiscuous nat

fun port_of_call :: "port_call \<Rightarrow> nat" where
  "port_of_call (Configure i _ _ _ _) = i"
| "port_of_call (Adjust i) = i"
| "port_of_call (Rx_queue i _) = i"
| "port_of_call (Rx_stats i _) = i"
| "port_of_call (Tx_queue i _) = i"
| "port_of_call (Tx_stats i _) = i"
| "port_of_call (Start i) = i"
| "port_of_call (Promiscuous i) = i"

text \<open>The flag \<^verbatim>\<open>FAST_FREE\<close> of the static \<^verbatim>\<open>port_conf\<close>, and the calls so far.\<close>

record set_up =
  fast_free :: bool
  calls :: "port_call list"

definition call :: "port_call \<Rightarrow> set_up \<Rightarrow> set_up" where
  "call c s = s\<lparr>calls := calls s @ [c]\<rparr>"

definition rss_seed :: "u8 list" where
  "rss_seed = [0x6d, 0x5a, 0x6d, 0x5a, 0x6d, 0x5a, 0x6d, 0x5a,
               0x6d, 0x5a, 0x6d, 0x5a, 0x6d, 0x5a, 0x6d, 0x5a,
               0x6d, 0x5a, 0x6d, 0x5a, 0x6d, 0x5a, 0x6d, 0x5a,
               0x6d, 0x5a, 0x6d, 0x5a, 0x6d, 0x5a, 0x6d, 0x5a,
               0x6d, 0x5a, 0x6d, 0x5a, 0x6d, 0x5a, 0x6d, 0x5a]"

section \<open>Ports\<close>

text \<open>The queues of port \<open>i\<close>; \<open>Inl\<close> is the exit after an error.\<close>

fun init_queues :: "dpdk \<Rightarrow> nat \<Rightarrow> nat list \<Rightarrow> set_up \<Rightarrow> set_up + set_up" where
  "init_queues d i [] s = Inr s"
| "init_queues d i (j # js) s =
     (let s = call (Rx_queue i j) s in
      if rx_queue_setup d i j < 0 then Inl s
      else let s = call (Tx_queue i j) (call (Rx_stats i j) s) in
      if tx_queue_setup d i j < 0 then Inl s
      else init_queues d i js (call (Tx_stats i j) s))"

definition init_port :: "dpdk \<Rightarrow> nat \<Rightarrow> nat \<Rightarrow> set_up \<Rightarrow> set_up + set_up" where
  "init_port d nb_sys_cores i s =
     (if max_rx_queues d i < nb_sys_cores then Inl s
      else
        let s = (if fast_free_capa d i then s\<lparr>fast_free := True\<rparr> else s);
            s = call (Configure i nb_sys_cores nb_sys_cores (fast_free s) rss_seed) s in
        if dev_configure d i (fast_free s) < 0 then Inl s
        else
          let s = call (Adjust i) s in
          if adjust_desc d i < 0 then Inl s
          else (case init_queues d i [0..<nb_sys_cores] s of
            Inl s \<Rightarrow> Inl s
          | Inr s \<Rightarrow>
              let s = call (Start i) s in
              if dev_start d i < 0 then Inl s else Inr (call (Promiscuous i) s)))"

text \<open>The loop over the ports; reading behind \<^verbatim>\<open>used_ports\<close> is a fault.\<close>

fun init_used :: "dpdk \<Rightarrow> nat \<Rightarrow> int list \<Rightarrow> nat list \<Rightarrow> set_up \<Rightarrow> (set_up + set_up) option" where
  "init_used d cores used [] s = Some (Inr s)"
| "init_used d cores used (i # ports) s =
     (if length used \<le> i then None
      else case (if used ! i = 1 then init_port d cores i s else Inr s) of
        Inl s \<Rightarrow> Some (Inl s)
      | Inr s \<Rightarrow> init_used d cores used ports s)"

section \<open>The start\<close>

text \<open>The program exits with an error, or runs the main loop on each core.\<close>

datatype started_as = Fatal_error "port_call list" | Running configuration program "port_call list"

definition main ::
  "dpdk \<Rightarrow> machine \<Rightarrow> inet \<Rightarrow> (u8 list \<Rightarrow> u8 list option) \<Rightarrow> (nat \<Rightarrow> nat \<Rightarrow> nat) \<Rightarrow> (nat \<Rightarrow> bool) \<Rightarrow> hash_struct
     \<Rightarrow> (nat \<Rightarrow> table_flow) \<Rightarrow> (u8 list + u8) list \<Rightarrow> program \<Rightarrow> started_as option" where
  "main d mc inet fs stack fails mem mem_flows opts p =
     (if eal_init d < 0 then Some (Fatal_error [])
      else do {
        (conf, ret) \<leftarrow> parse_args mc fs opts initial_configuration;
        if ret < 0 then Some (Fatal_error [])
        else do {
          p \<leftarrow> process_packet_init inet fs stack fails mem mem_flows (lcore_count d) conf p;
          if dev_count d = 0 then Some (Fatal_error [])
          else if \<not> pools d 0 \<or> \<not> pools d 1 then Some (Fatal_error [])
          else do {
            r \<leftarrow> init_used d (lcore_count d) (used_ports conf) [0..<dev_count d] \<lparr>fast_free = False, calls = []\<rparr>;
            Some (case r of Inl s \<Rightarrow> Fatal_error (calls s) | Inr s \<Rightarrow> Running conf p (calls s))
          }
        }
      })"

end
