(* ===== verification/Rss.thy ===== *)
theory Rss
  imports Setup
begin

text \<open>
  What the seed of the ports is for.  The ports choose the queue of a packet, and with it the core that
  handles it, by the Toeplitz hash of its addresses and ports, which is written here from the specification
  of receive side scaling.
\<close>

section \<open>The hash\<close>

text \<open>Bits from the most significant one on.\<close>

definition byte_bits :: "u8 list \<Rightarrow> bool list" where
  "byte_bits bs = concat (map (\<lambda>b. map (\<lambda>i. bit b (7 - i)) [0..<8]) bs)"

text \<open>The first 32 bits of the key that is left.\<close>

definition key_window :: "bool list \<Rightarrow> u32" where
  "key_window key = horner_sum of_bool 2 (rev (take 32 key))"

fun toeplitz :: "bool list \<Rightarrow> bool list \<Rightarrow> u32" where
  "toeplitz key [] = 0"
| "toeplitz key (b # bs) = (if b then key_window key else 0) XOR toeplitz (tl key) bs"

text \<open>The input of the hash: the addresses and the ports as they are in the packet.\<close>

definition rss_input :: "u8 list \<Rightarrow> u8 list \<Rightarrow> u8 list \<Rightarrow> u8 list \<Rightarrow> bool list" where
  "rss_input src dst sport dport = byte_bits (src @ dst @ sport @ dport)"

text \<open>The verification suite of the specification: 66.9.149.187:2794 to 161.142.100.80:1766.\<close>

lemma toeplitz_test_vector:
  "toeplitz (byte_bits [0x6d, 0x5a, 0x56, 0xda, 0x25, 0x5b, 0x0e, 0xc2, 0x41, 0x67, 0x25, 0x3d, 0x43, 0xa3, 0x8f, 0xb0,
      0xd0, 0xca, 0x2b, 0xcb, 0xae, 0x7b, 0x30, 0xb4, 0x77, 0xcb, 0x2d, 0xa3, 0x80, 0x30, 0xf2, 0x0c,
      0x6a, 0x42, 0xb7, 0x3b, 0xbe, 0xac, 0x01, 0xfa])
    (rss_input [66, 9, 149, 187] [161, 142, 100, 80] [10, 234] [6, 230]) = 0x51ccc178"
  by (simp add: rss_input_def byte_bits_def key_window_def upt_rec numeral_3_eq_3 bit_numeral_rec)

section \<open>Periodic keys\<close>

lemma key_window_take: "32 \<le> n \<Longrightarrow> key_window (take n key) = key_window key"
  by (simp add: key_window_def min_absorb1)

lemma toeplitz_take: "length bs + 31 \<le> n \<Longrightarrow> toeplitz (take n key) bs = toeplitz key bs"
proof (induction bs arbitrary: key n)
  case (Cons b bs)
  have "toeplitz (tl (take n key)) bs = toeplitz (tl key) bs"
    using Cons.IH [of "n - 1" "tl key"] Cons.prems by (simp add: tl_take)
  then show ?case using Cons.prems by (simp add: key_window_take)
qed simp

lemma toeplitz_append: "toeplitz key (xs @ ys) = toeplitz key xs XOR toeplitz (drop (length xs) key) ys"
  by (induction xs arbitrary: key) (simp_all add: xor.assoc drop_Suc)

text \<open>The hash under a key of \<open>n\<close> copies of a word is the exclusive or over the words of the input.\<close>

definition hash_words :: "(bool list \<Rightarrow> u32) \<Rightarrow> bool list list \<Rightarrow> u32" where
  "hash_words f ws = fold (XOR) (map f ws) 0"

lemma fold_xor: "fold (XOR) (map f ws) x = x XOR fold (XOR) (map f ws) (0 :: u32)"
proof (induction ws arbitrary: x)
  case (Cons w ws)
  show ?case using Cons.IH [of "f w XOR x"] Cons.IH [of "f w"] by (simp add: xor.assoc xor.left_commute xor.commute)
qed simp

lemma toeplitz_periodic:
  assumes "\<forall>w \<in> set ws. length w = length c" and "16 \<le> length c" and "length ws + 2 \<le> n"
  shows "toeplitz (concat (replicate n c)) (concat ws) = hash_words (toeplitz (concat (replicate 3 c))) ws"
  using assms(1,3)
proof (induction ws arbitrary: n)
  case (Cons w ws)
  obtain m where n: "n = Suc (Suc (Suc m))" using Cons.prems(2) by (metis Suc_le_D add_2_eq_Suc' length_Cons Suc_le_mono)
  have "toeplitz (concat (replicate n c)) w = toeplitz (take (length w + 31) (concat (replicate n c))) w" by (simp add: toeplitz_take)
  also have "take (length w + 31) (concat (replicate n c)) = take (length w + 31) (concat (replicate 3 c))"
    using Cons.prems(1) assms(2) by (simp add: n numeral_3_eq_3)
  also have "toeplitz \<dots> w = toeplitz (concat (replicate 3 c)) w" by (simp add: toeplitz_take)
  finally have w: "toeplitz (concat (replicate n c)) w = toeplitz (concat (replicate 3 c)) w" .
  have "toeplitz (drop (length w) (concat (replicate n c))) (concat ws) = hash_words (toeplitz (concat (replicate 3 c))) ws"
    using Cons.IH [of "Suc (Suc m)"] Cons.prems by (simp add: n)
  then show ?case
    using fold_xor [of _ ws "toeplitz (concat (replicate 3 c)) w"] w by (simp add: toeplitz_append hash_words_def)
qed (simp add: hash_words_def)

section \<open>The seed\<close>

lemma rss_seed_periodic: "byte_bits rss_seed = concat (replicate 20 (byte_bits [0x6d, 0x5a]))"
  by (simp add: rss_seed_def byte_bits_def numeral_eq_Suc)

lemma byte_bits_append: "byte_bits (xs @ ys) = byte_bits xs @ byte_bits ys"
  by (simp add: byte_bits_def)

text \<open>The words of a string of bytes of even length.\<close>

fun pairs :: "u8 list \<Rightarrow> u8 list list" where
  "pairs (a # b # bs) = [a, b] # pairs bs"
| "pairs _ = []"

lemma pairs_append: "even (length xs) \<Longrightarrow> pairs (xs @ ys) = pairs xs @ pairs ys"
  by (induction xs rule: pairs.induct) auto

lemma byte_bits_pairs: "even (length bs) \<Longrightarrow> byte_bits bs = concat (map byte_bits (pairs bs))"
  by (induction bs rule: pairs.induct) (auto simp: byte_bits_def)

lemma length_pairs: "length (pairs bs) = length bs div 2"
  by (induction bs rule: pairs.induct) auto

lemma pairs_length: "\<forall>w \<in> set (pairs bs). length w = 2"
  by (induction bs rule: pairs.induct) auto

lemma seed_hash:
  assumes "even (length bs)" and "length bs \<le> 36"
  shows "toeplitz (byte_bits rss_seed) (byte_bits bs)
    = hash_words (toeplitz (concat (replicate 3 (byte_bits [0x6d, 0x5a])))) (map byte_bits (pairs bs))"
  unfolding rss_seed_periodic byte_bits_pairs [OF assms(1)]
  by (rule toeplitz_periodic) (use pairs_length [of bs] length_pairs [of bs] assms(2) in \<open>auto simp: byte_bits_def length_concat sum_list_triv comp_def\<close>)

lemma hash_words_append: "hash_words f (xs @ ys) = hash_words f xs XOR hash_words f ys"
  unfolding hash_words_def map_append fold_append comp_def by (subst fold_xor) (rule refl)

text \<open>
  C26.  The seed is symmetric, as its comment says: for IPv4 and for IPv6 the Toeplitz hash of a packet of
  one direction of a connection is that of a packet of the other direction, so that both reach the same
  queue of a port and are handled on the same core.
\<close>

theorem rss_symmetric:
  assumes "length src = length dst" and "length dst \<in> {4, 16}" and "length sport = 2" and "length dport = 2"
  shows "toeplitz (byte_bits rss_seed) (rss_input src dst sport dport) = toeplitz (byte_bits rss_seed) (rss_input dst src dport sport)"
proof -
  have e: "even (length src)" "even (length dst)" "even (length sport)" "even (length dport)" using assms by auto
  show ?thesis using assms e
    by (auto simp: rss_input_def seed_hash pairs_append hash_words_append xor.assoc xor.left_commute xor.commute)
qed

theorem rss_symmetric_witness:
  "toeplitz (byte_bits rss_seed) (rss_input [10, 0, 0, 1] [8, 8, 4, 4] [4, 210] [0, 53])
    = toeplitz (byte_bits rss_seed) (rss_input [8, 8, 4, 4] [10, 0, 0, 1] [0, 53] [4, 210])"
  by (rule rss_symmetric) simp_all

end
