(* ===== verification/Ini_Properties.thy ===== *)
theory Ini_Properties
  imports Ini
begin

text \<open>
  Properties of the reading of settings: a file in the usual layout is read back as the entries that were
  written, each under its section, and what the handler refuses is reported with its line.
\<close>

section \<open>Files\<close>

text \<open>The lines of a file: the head of a section, an entry, an empty line or a comment.\<close>

datatype item = Section "u8 list" | Entry "u8 list" "u8 list" | Comment "u8 list"

fun item_text :: "item \<Rightarrow> u8 list" where
  "item_text (Section s) = 91 # s @ [93, 10]"
| "item_text (Entry n v) = n @ [32, 61, 32] @ v @ [10]"
| "item_text (Comment c) = c @ [10]"

definition file_text :: "item list \<Rightarrow> u8 list" where
  "file_text items = concat (map item_text items)"

text \<open>Text without an end, and without blanks at its ends.\<close>

definition plain_text :: "u8 list \<Rightarrow> bool" where
  "plain_text s \<longleftrightarrow> set s \<inter> {0, 10, 59} = {}"

definition trimmed :: "u8 list \<Rightarrow> bool" where
  "trimmed s \<longleftrightarrow> s = [] \<or> \<not> is_space (hd s) \<and> \<not> is_space (last s)"

fun item_ok :: "item \<Rightarrow> bool" where
  "item_ok (Section s) \<longleftrightarrow> plain_text s \<and> 93 \<notin> set s \<and> length s < MAX_SECTION"
| "item_ok (Entry n v) \<longleftrightarrow> plain_text n \<and> plain_text v \<and> trimmed n \<and> trimmed v \<and> n \<noteq> [] \<and> 61 \<notin> set n
     \<and> hd n \<notin> {35, 91, 0xEF} \<and> length n + length v + 4 < INI_MAX_LINE"
| "item_ok (Comment c) \<longleftrightarrow> set c \<inter> {0, 10} = {} \<and> (c = [] \<or> hd c \<in> {35, 59}) \<and> length c + 1 < INI_MAX_LINE"

text \<open>
  The handler on the entries in their order; the second result is the first line where it returned 0, or 0.
\<close>

fun run :: "'s ini_handler \<Rightarrow> u8 list \<Rightarrow> nat \<Rightarrow> item list \<Rightarrow> 's \<Rightarrow> ('s \<times> nat) option" where
  "run handler sec l [] u = Some (u, 0)"
| "run handler sec l (Section s # items) u = run handler s (Suc l) items u"
| "run handler sec l (Comment c # items) u = run handler sec (Suc l) items u"
| "run handler sec l (Entry n v # items) u = do {
     (u, r) \<leftarrow> handler u sec n v;
     (u, e) \<leftarrow> run handler sec (Suc l) items u;
     Some (u, if r = 0 then l else e)
   }"

section \<open>Lines\<close>

lemma fgets_line: "10 \<notin> set l \<Longrightarrow> length l < n \<Longrightarrow> fgets n (l @ 10 # fp) = (l @ [10], fp)"
proof (induction l arbitrary: n)
  case Nil
  then show ?case by (cases n) auto
next
  case (Cons c l)
  then show ?case by (cases n) auto
qed

lemma cstr_line: "0 \<notin> set l \<Longrightarrow> cstr (l @ [10]) = l @ [10]"
  by (induction l) (auto simp: cstr_def)

lemma is_space_facts [simp]:
  "is_space 10" "is_space 32" "\<not> is_space 35" "\<not> is_space 59" "\<not> is_space 61" "\<not> is_space 91" "\<not> is_space 93"
  by (simp_all add: is_space_def word_le_nat_alt)

lemma rstrip_snoc [simp]: "rstrip (s @ [c]) = (if is_space c then rstrip s else s @ [c])"
  by (simp add: rstrip_def)

lemma rstrip_trimmed: "trimmed s \<Longrightarrow> rstrip s = s"
  by (cases s rule: rev_cases) (auto simp: trimmed_def rstrip_def)

lemma lskip_trimmed: "trimmed s \<Longrightarrow> lskip s = s"
  by (cases s) (auto simp: trimmed_def lskip_def)

lemma find_chars_here: "set s \<inter> set chars = {} \<Longrightarrow> 59 \<notin> set s \<Longrightarrow> c \<in> set chars \<Longrightarrow>
    find_chars_or_comment chars w (s @ c # t) = (s, c # t)"
  by (induction s arbitrary: w) auto

lemma find_chars_none: "set s \<inter> set chars = {} \<Longrightarrow> 59 \<notin> set s \<Longrightarrow> find_chars_or_comment chars w s = (s, [])"
  by (induction s arbitrary: w) auto

lemma ini_line_section:
  assumes "item_ok (Section s)"
  shows "ini_line handler (item_text (Section s)) st
    = Some (st\<lparr>lineno := Suc (lineno st), section_name := s, prev_name := []\<rparr>)"
proof -
  have "cstr (item_text (Section s)) = 91 # s @ [93, 10]"
    using cstr_line [of "91 # s @ [93]"] assms by (auto simp: plain_text_def)
  moreover have "rstrip (91 # s @ [93, 10]) = 91 # s @ [93]"
    using rstrip_snoc [of "91 # s @ [93]" 10] rstrip_snoc [of "91 # s" 93] by simp
  ultimately show ?thesis
    using assms find_chars_here [of s "[93]" 93 False "[]"]
    by (simp add: ini_line_def lskip_def plain_text_def strncpy0_def MAX_SECTION_def)
qed

lemma ini_line_comment:
  assumes "item_ok (Comment c)"
  shows "ini_line handler (item_text (Comment c)) st = Some (st\<lparr>lineno := Suc (lineno st)\<rparr>)"
proof -
  have e: "cstr (item_text (Comment c)) = c @ [10]" using cstr_line [of c] assms by auto
  show ?thesis
  proof (cases c)
    case Nil
    then show ?thesis using e by (simp add: ini_line_def lskip_def rstrip_def)
  next
    case (Cons d ds)
    have d: "d \<in> {35, 59}" using assms Cons by simp
    have "\<exists>t. rstrip (c @ [10]) = d # t"
    proof -
      have "dropWhile is_space (rev (c @ [10])) = dropWhile is_space (rev ds @ [d])" by (simp add: Cons)
      moreover have "dropWhile is_space (rev ds @ [d]) = dropWhile is_space (rev ds) @ [d]"
        using d by (auto simp: dropWhile_append dropWhile_eq_Nil_conv)
      ultimately show ?thesis by (simp add: rstrip_def)
    qed
    then obtain t where t: "rstrip (c @ [10]) = d # t" by blast
    show ?thesis using e t d Cons by (auto simp: ini_line_def lskip_def Let_def)
  qed
qed

lemma trimmed_snoc: "trimmed n \<Longrightarrow> n \<noteq> [] \<Longrightarrow> rstrip (n @ [32]) = n"
  by (simp add: rstrip_trimmed)

lemma ini_line_entry:
  assumes "item_ok (Entry n v)"
  shows "ini_line handler (item_text (Entry n v)) st
    = call_handler handler (st\<lparr>lineno := Suc (lineno st), prev_name := strncpy0 n MAX_NAME\<rparr>) n v"
proof -
  let ?b = "if v = [] then [61] else [61, 32] @ v"
  have n: "plain_text n" "trimmed n" "n \<noteq> []" "61 \<notin> set n" "hd n \<notin> {35, 91, 0xEF}" and v: "plain_text v" "trimmed v"
    using assms by auto
  have c: "cstr (item_text (Entry n v)) = (n @ [32, 61, 32] @ v) @ [10]"
    using cstr_line [of "n @ [32, 61, 32] @ v"] n(1) v(1) by (auto simp: plain_text_def)
  have r: "rstrip ((n @ [32, 61, 32] @ v) @ [10]) = n @ 32 # ?b"
  proof (cases v rule: rev_cases)
    case Nil
    then show ?thesis using rstrip_snoc [of "n @ [32, 61, 32]" 10] rstrip_snoc [of "n @ [32, 61]" 32] rstrip_snoc [of "n @ [32]" 61] by simp
  next
    case (snoc vs c)
    then show ?thesis using rstrip_snoc [of "n @ [32, 61, 32] @ v" 10] rstrip_snoc [of "n @ [32, 61, 32] @ vs" c] v(2)
      by (simp add: trimmed_def)
  qed
  have h: "hd (n @ s) = hd n" "\<not> is_space (hd n)" "hd n \<noteq> 59" for s
    using n by (cases n; auto simp: trimmed_def plain_text_def)+
  have l: "lskip (n @ 32 # ?b) = n @ 32 # ?b" using n(3) h(2) by (cases n) (auto simp: lskip_def)
  have bom: "take 3 ((n @ [32, 61, 32] @ v) @ [10]) \<noteq> [0xEF, 0xBB, 0xBF]" using n(3,5) by (cases n) auto
  have f: "find_chars_or_comment [61] False (n @ 32 # ?b) = (n @ [32], ?b)"
    using find_chars_here [of "n @ [32]" "[61]" 61 False "tl ?b"] n(1,4) by (auto simp: plain_text_def split: if_splits)
  have g: "find_chars_or_comment [] False (tl ?b) = (tl ?b, [])"
    using find_chars_none [of "tl ?b" "[]" False] v(1) by (auto simp: plain_text_def)
  have val: "rstrip (lskip (tl ?b)) = v"
    using rstrip_trimmed [OF v(2)] lskip_trimmed [OF v(2)] by (auto simp: lskip_def rstrip_def)
  define line where "line = (n @ [32, 61, 32] @ v) @ [10]"
  define b where "b = ?b"
  define start where "start = n @ 32 # b"
  have s: "start \<noteq> []" "hd start = hd n" using h(1) n(3) by (simp_all add: start_def)
  have "rstrip line = start" "lskip start = start" "cstr (item_text (Entry n v)) = line" "take 3 line \<noteq> [0xEF, 0xBB, 0xBF]"
    "find_chars_or_comment [61] False start = (n @ [32], b)" "b \<noteq> []" "hd b = 61"
    "find_chars_or_comment [] False (tl b) = (tl b, [])" "rstrip (lskip (tl b)) = v"
    using r l c bom f g val by (simp_all add: line_def start_def b_def)
  then show ?thesis
    using s n(5) h(2,3) trimmed_snoc [OF n(2,3)] by (simp add: ini_line_def Let_def del: item_text.simps)
qed

section \<open>The file\<close>

lemma item_fgets:
  assumes "item_ok i"
  shows "fgets (INI_MAX_LINE - 1) (item_text i @ fp) = (item_text i, fp)" and "item_text i \<noteq> []"
proof -
  show "fgets (INI_MAX_LINE - 1) (item_text i @ fp) = (item_text i, fp)"
  proof (cases i)
    case (Section s)
    then show ?thesis using assms fgets_line [of "91 # s @ [93]" "INI_MAX_LINE - 1" fp]
      by (auto simp: plain_text_def MAX_SECTION_def INI_MAX_LINE_def)
  next
    case (Entry n v)
    then show ?thesis using assms fgets_line [of "n @ [32, 61, 32] @ v" "INI_MAX_LINE - 1" fp] by (auto simp: plain_text_def)
  next
    case (Comment c)
    then show ?thesis using assms fgets_line [of c "INI_MAX_LINE - 1" fp] by auto
  qed
qed (cases i, auto)

text \<open>The two readers read the same lines.\<close>

lemma reader_loop_fgets: "n \<noteq> 0 \<Longrightarrow> reader_loop n (s @ rest) (length s)
    = Some (fst (fgets (n - 1) s), snd (fgets (n - 1) s) @ rest, length (snd (fgets (n - 1) s)))"
proof (induction "n - 1" s arbitrary: n rule: fgets.induct)
  case (3 m c s)
  then obtain k where n: "n = Suc (Suc k)" "m = k" by (cases n; cases "n - 1") auto
  show ?case using 3(1) [of "Suc k"] by (subst reader_loop.simps) (auto simp: n split_def Let_def)
next
  case (2 v)
  then have "n = Suc (Suc v)" by simp
  then show ?case by (subst reader_loop.simps) simp
qed (subst reader_loop.simps; simp)+

lemma fgets_shorter: "s \<noteq> [] \<Longrightarrow> length (snd (fgets (INI_MAX_LINE - 1) s)) < length s"
proof -
  have le: "length (snd (fgets n s)) \<le> length s" for n s
    by (induction n s rule: fgets.induct) (auto simp: split_def Let_def)
  obtain k where k: "INI_MAX_LINE - 1 = Suc k" by (simp add: INI_MAX_LINE_def that [of 198])
  show "s \<noteq> [] \<Longrightarrow> length (snd (fgets (INI_MAX_LINE - 1) s)) < length s"
    using le [of k "tl s"] unfolding k by (cases s) (simp_all add: split_def Let_def less_Suc_eq_le)
qed

lemma ini_lines_file:
  "ini_lines fgets_reader handler fp st = (if fp = [] then Some st
     else ini_line handler (fst (fgets (INI_MAX_LINE - 1) fp)) st \<bind> ini_lines fgets_reader handler (snd (fgets (INI_MAX_LINE - 1) fp)))"
  by (subst ini_lines.simps) (simp add: fgets_reader_def split_def)

section \<open>Readers\<close>

text \<open>
  What the loop over the lines needs of a reader: it gives the lines of the bytes that are left, as
  \<^verbatim>\<open>fgets\<close> cuts them, and \<^verbatim>\<open>NULL\<close> when none are left.
\<close>

locale line_reader =
  fixes reader :: "'t ini_reader" and ok :: "'t \<Rightarrow> bool" and left :: "'t \<Rightarrow> u8 list"
  assumes at_end: "ok s \<Longrightarrow> left s = [] \<Longrightarrow> reader INI_MAX_LINE s = Some None"
    and reads: "ok s \<Longrightarrow> left s \<noteq> [] \<Longrightarrow>
      \<exists>s'. reader INI_MAX_LINE s = Some (Some (fst (fgets (INI_MAX_LINE - 1) (left s)), s'))
        \<and> ok s' \<and> left s' = snd (fgets (INI_MAX_LINE - 1) (left s))"
begin

lemma lines_agree: "ok s \<Longrightarrow> ini_lines reader handler s st = ini_lines fgets_reader handler (left s) st"
proof (induction "length (left s)" arbitrary: s st rule: less_induct)
  case less
  show ?case
  proof (cases "left s = []")
    case True
    then show ?thesis using at_end [OF less.prems] by (subst ini_lines.simps) (simp add: ini_lines_file)
  next
    case False
    obtain s' where s': "reader INI_MAX_LINE s = Some (Some (fst (fgets (INI_MAX_LINE - 1) (left s)), s'))"
      "ok s'" "left s' = snd (fgets (INI_MAX_LINE - 1) (left s))"
      using reads [OF less.prems False] by blast
    have "ini_lines reader handler s' = ini_lines fgets_reader handler (left s')"
      using less.hyps [of s'] fgets_shorter [OF False] s'(2,3) by (intro ext) simp
    then show ?thesis using False s'(1,3) by (subst ini_lines.simps) (simp add: ini_lines_file [of _ "left s"])
  qed
qed

lemma lines_return:
  assumes "ok s" and line: "\<And>line st. \<exists>st'. ini_line handler line st = Some st'"
  shows "\<exists>st'. ini_lines reader handler s st = Some st'"
proof -
  have "\<exists>st'. ini_lines fgets_reader handler bytes st = Some st'" for bytes st
  proof (induction "length bytes" arbitrary: bytes st rule: less_induct)
    case less
    obtain st1 where "ini_line handler (fst (fgets (INI_MAX_LINE - 1) bytes)) st = Some st1" using line by blast
    then show ?case using less [OF fgets_shorter] by (subst ini_lines_file) auto
  qed
  then show ?thesis by (simp add: lines_agree [OF assms(1)])
qed

end

interpretation in_file: line_reader fgets_reader "\<lambda>_. True" "\<lambda>fp. fp"
  by unfold_locales (auto simp: fgets_reader_def)

text \<open>The bytes that \<^verbatim>\<open>num_left\<close> still counts, and those behind them.\<close>

definition unread :: "ini_parse_string_ctx \<Rightarrow> u8 list" where
  "unread ctx = take (num_left ctx) (ptr ctx)"

interpretation in_string: line_reader ini_reader_string "\<lambda>ctx. num_left ctx \<le> length (ptr ctx)" unread
proof unfold_locales
  fix s :: ini_parse_string_ctx
  assume s: "num_left s \<le> length (ptr s)"
  then have n: "length (unread s) = num_left s" by (simp add: unread_def)
  show "ini_reader_string INI_MAX_LINE s = Some None" if "unread s = []" using n that by (simp add: ini_reader_string_def)
  show "\<exists>s'. ini_reader_string INI_MAX_LINE s = Some (Some (fst (fgets (INI_MAX_LINE - 1) (unread s)), s'))
      \<and> num_left s' \<le> length (ptr s') \<and> unread s' = snd (fgets (INI_MAX_LINE - 1) (unread s))" if "unread s \<noteq> []"
  proof -
    define rest where "rest = drop (num_left s) (ptr s)"
    have "ptr s = unread s @ rest" by (simp add: unread_def rest_def)
    then show ?thesis using n that reader_loop_fgets [of INI_MAX_LINE "unread s" rest]
      by (auto simp: ini_reader_string_def INI_MAX_LINE_def unread_def)
  qed
qed

section \<open>Reading\<close>

lemma ini_lines_run:
  "\<forall>i \<in> set items. item_ok i \<Longrightarrow>
     map_option (\<lambda>st. (user st, error st)) (ini_lines fgets_reader handler (file_text items) st)
     = map_option (\<lambda>(u, e). (u, if error st = 0 then e else error st))
         (run handler (section_name st) (Suc (lineno st)) items (user st))"
proof (induction items arbitrary: st)
  case Nil
  then show ?case by (simp add: file_text_def ini_lines_file)
next
  case (Cons i items)
  have step: "ini_lines fgets_reader handler (file_text (i # items)) st =
      ini_line handler (item_text i) st \<bind> ini_lines fgets_reader handler (file_text items)"
    using item_fgets(1) [of i "file_text items"] item_fgets(2) [of i] Cons.prems by (subst ini_lines_file) (simp add: file_text_def)
  have IH: "map_option (\<lambda>st. (user st, error st)) (ini_lines fgets_reader handler (file_text items) st)
     = map_option (\<lambda>(u, e). (u, if error st = 0 then e else error st))
         (run handler (section_name st) (Suc (lineno st)) items (user st))" for st
    using Cons by simp
  show ?case
  proof (cases i)
    case (Section s)
    then show ?thesis using Cons.prems step IH ini_line_section [of s handler st] by (simp cong: if_cong)
  next
    case (Entry n v)
    note e = Entry Cons.prems step IH ini_line_entry [of n v handler st]
    show ?thesis
    proof (cases "handler (user st) (section_name st) n v")
      case None
      then show ?thesis using e by (simp add: call_handler_def)
    next
      case (Some ur)
      then show ?thesis using e
        by (cases ur; cases "run handler (section_name st) (Suc (Suc (lineno st))) items (fst ur)")
          (auto simp: call_handler_def line_error_def Let_def)
    qed
  next
    case (Comment c)
    then show ?thesis using Cons.prems step IH ini_line_comment [of c handler st] by (simp cong: if_cong)
  qed
qed

lemma ini_parse_file_run:
  assumes "\<forall>i \<in> set items. item_ok i"
  shows "ini_parse_file (file_text items) handler u = run handler [] 1 items u"
proof -
  let ?st = "\<lparr>user = u, section_name = [], prev_name = [], lineno = 0, error = 0\<rparr>"
  have "ini_parse_file (file_text items) handler u
      = map_option (\<lambda>st. (user st, error st)) (ini_lines fgets_reader handler (file_text items) ?st)"
    by (cases "ini_lines fgets_reader handler (file_text items) ?st") (simp_all add: ini_parse_file_def ini_parse_stream_def)
  also have "\<dots> = map_option (\<lambda>(u, e). (u, e)) (run handler [] 1 items u)"
    using ini_lines_run [OF assms, of handler ?st] by simp
  finally show ?thesis by (simp add: option.map_id)
qed

lemma cstr_split: obtains rest where "s = cstr s @ rest"
  unfolding cstr_def using takeWhile_dropWhile_id by metis

lemma ini_parse_string_file: "ini_parse_string s handler u = ini_parse_file (cstr s) handler u"
proof -
  obtain rest where "s = cstr s @ rest" by (rule cstr_split)
  then have "length (cstr s) \<le> length s" "take (length (cstr s)) s = cstr s" by (metis length_append le_add1, metis append_eq_conv_conj)
  then show ?thesis by (simp add: ini_parse_string_def ini_parse_file_def ini_parse_stream_def in_string.lines_agree unread_def)
qed

lemma file_text_string: "\<forall>i \<in> set items. item_ok i \<Longrightarrow> cstr (file_text items) = file_text items"
proof -
  assume ok: "\<forall>i \<in> set items. item_ok i"
  have "0 \<notin> set (item_text i)" if "item_ok i" for i using that by (cases i) (auto simp: plain_text_def)
  then have "0 \<notin> set (file_text items)" using ok by (auto simp: file_text_def)
  then show ?thesis unfolding cstr_def takeWhile_eq_all_conv by auto
qed

text \<open>
  C18.  Round trip.  A file of sections, entries, comments and empty lines in the usual layout, whose lines
  fit, is read as these entries in their order, each with the name of its section; the result is the first
  line whose entry the handler refused, or 0.  The same text in a string is read in the same way.
\<close>

theorem ini_round_trip:
  assumes "\<forall>i \<in> set items. item_ok i"
  shows "ini_parse_file (file_text items) handler u = run handler [] 1 items u
    \<and> ini_parse_string (file_text items) handler u = run handler [] 1 items u"
  by (simp add: ini_parse_file_run [OF assms] ini_parse_string_file file_text_string [OF assms])

definition collect :: "(u8 list \<times> u8 list \<times> u8 list) list ini_handler" where
  "collect u sec n v = Some (u @ [(sec, n, v)], if v = [] then 0 else 1)"

theorem ini_round_trip_witness:
  "ini_parse_string
     (file_text [Comment [59, 32, 103], Section [103], Entry [97] [48, 32, 58], Comment [], Section [104, 32], Entry [98] []]) collect []
   = Some ([([103], [97], [48, 32, 58]), ([104, 32], [98], [])], 6)"
  by (subst ini_round_trip [THEN conjunct2])
    (simp_all add: collect_def plain_text_def trimmed_def is_space_def INI_MAX_LINE_def MAX_SECTION_def word_le_nat_alt)

lemma if_returns: "\<exists>y. a = Some y \<Longrightarrow> \<exists>y. b = Some y \<Longrightarrow> \<exists>y. (if c then a else b) = Some y"
  by simp

lemma some_returns: "\<exists>y. Some x = Some y"
  by simp

text \<open>
  C25.  Termination.  Whatever the bytes of a file, or of a buffer that is read as a string, reading them
  comes to an end when the handler returns, and within the buffers: in every line that is read the reader
  has consumed a character.  The string gives what a file of its bytes before the first zero byte gives;
  a file with a zero byte is read on behind it.
\<close>

theorem ini_parse_returns:
  assumes "\<forall>u sec n v. handler u sec n v \<noteq> None"
  shows "(\<exists>r. ini_parse_file bytes handler u = Some r) \<and> (\<exists>r. ini_parse_string bytes handler u = Some r)
    \<and> ini_parse_string bytes handler u = ini_parse_file (cstr bytes) handler u"
proof -
  have call: "\<exists>st'. call_handler handler st n v = Some st'" for st n v
  proof -
    obtain u r where "handler (user st) (section_name st) n v = Some (u, r)"
      using assms by (metis not_None_eq surj_pair)
    then show ?thesis by (simp add: call_handler_def Let_def)
  qed
  have line: "\<exists>st'. ini_line handler line st = Some st'" for line st
    unfolding ini_line_def Let_def split_def by (intro if_returns call some_returns)
  have "\<exists>r. ini_parse_file s handler u = Some r" for s
  proof -
    obtain st' where "ini_lines fgets_reader handler s \<lparr>user = u, section_name = [], prev_name = [], lineno = 0, error = 0\<rparr> = Some st'"
      using in_file.lines_return line by blast
    then show ?thesis by (simp add: ini_parse_file_def ini_parse_stream_def)
  qed
  then show ?thesis by (simp add: ini_parse_string_file)
qed

text \<open>A line without its bracket, a zero byte, and behind it an entry that only the file shows.\<close>

theorem ini_parse_returns_witness:
  "(\<exists>r. ini_parse_file [91, 97, 10, 0, 10, 97, 61, 49] collect [] = Some r)
    \<and> ini_parse_string [91, 97, 10, 0, 10, 97, 61, 49] collect [] = ini_parse_file [91, 97, 10] collect []"
  using ini_parse_returns [of collect "[91, 97, 10, 0, 10, 97, 61, 49]" "[]"] by (simp add: collect_def cstr_def)

end
