(* ===== verification/Config_Properties.thy ===== *)
theory Config_Properties
  imports Program Ini_Properties
begin

text \<open>
  Properties of the settings: which settings a port gets from the file of settings, and which output ports
  an input port.
\<close>

section \<open>Loading\<close>

text \<open>The entries of a file with their sections, and the effect of one after the other.\<close>

type_synonym entry = "u8 list \<times> u8 list \<times> u8 list"

fun entries :: "u8 list \<Rightarrow> item list \<Rightarrow> entry list" where
  "entries sec [] = []"
| "entries sec (Section s # items) = entries s items"
| "entries sec (Comment c # items) = entries sec items"
| "entries sec (Entry n v # items) = (sec, n, v) # entries sec items"

fun load_all :: "machine \<Rightarrow> entry list \<Rightarrow> configuration \<Rightarrow> configuration option" where
  "load_all mc [] st = Some st"
| "load_all mc ((sec, n, v) # es) st = do { (st, r) \<leftarrow> parse_ini mc st sec n v; load_all mc es st }"

lemma load_append: "load_all mc (es @ es') st = load_all mc es st \<bind> load_all mc es'"
  by (induction es arbitrary: st) (auto split: prod.splits Option.bind_splits)

lemma with_group_returns: "with_group st i f = Some (st', r) \<Longrightarrow> r = 1"
  by (auto simp: with_group_def split: groups.splits if_splits Option.bind_splits)

lemma group_entry_returns: "group_entry st i n v = Some (st', r) \<Longrightarrow> r = 1"
  by (auto simp: group_entry_def split: if_splits dest: with_group_returns)

lemma mapping_entry_returns: "mapping_entry mc st n v = Some (st', r) \<Longrightarrow> r = 1"
  by (auto simp: mapping_entry_def Let_def split: if_splits Option.bind_splits option.splits)

lemma parse_ini_returns: "parse_ini mc st sec n v = Some (st', r) \<Longrightarrow> r = 1"
  by (auto simp: parse_ini_def split: if_splits Option.bind_splits option.splits groups.splits
      dest: group_entry_returns mapping_entry_returns)

lemma run_load: "run (parse_ini mc) sec l items st = map_option (\<lambda>st. (st, 0)) (load_all mc (entries sec items) st)"
proof (induction items arbitrary: sec l st)
  case (Cons i items)
  then show ?case
    by (cases i) (auto simp: map_option_bind split: Option.bind_splits prod.splits dest: parse_ini_returns)
qed simp

lemma parse_args_load:
  assumes "fs f = Some (file_text items)" and "\<forall>i \<in> set items. item_ok i" and "length f < MAX_STR"
  shows "parse_args mc fs [Inl f] st = map_option (\<lambda>st. (st, 0)) (load_all mc (entries [] items) st)"
  using assms
  by (simp add: parse_args_def strcpy_def ini_parse_def ini_parse_file_run run_load option.map_comp comp_def)
    (cases "load_all mc (entries [] items) st", simp_all)

section \<open>Groups\<close>

text \<open>The group of a section, and the lines of a group.\<close>

definition group_of :: "u8 list \<Rightarrow> int option" where
  "group_of sec = map_option (\<lambda>s. atoi (drop (length ''group_'') s)) (strstr sec (str ''group_''))"

definition group_lines :: "int \<Rightarrow> entry list \<Rightarrow> (u8 list \<times> u8 list) list" where
  "group_lines g es = map snd (filter (\<lambda>e. group_of (fst e) = Some g) es)"

text \<open>What the lines say of a group: the last line of each name counts, and a wrong pair is not taken over.\<close>

definition last_value :: "(u8 list \<times> u8 list) list \<Rightarrow> string \<Rightarrow> u8 list option" where
  "last_value ls n = map_of (rev ls) (str n)"

definition int_or :: "int \<Rightarrow> u8 list option \<Rightarrow> int" where
  "int_or d v = (case v of None \<Rightarrow> d | Some v \<Rightarrow> atoi v)"

definition text_or :: "u8 list \<Rightarrow> u8 list option \<Rightarrow> u8 list" where
  "text_or d v = (case v of None \<Rightarrow> d | Some v \<Rightarrow> v)"

fun delta_of :: "int \<Rightarrow> int \<Rightarrow> (u8 list \<times> u8 list) list \<Rightarrow> int" where
  "delta_of a d [] = d"
| "delta_of a d ((n, v) # ls) =
     (if n = str ''alpha'' then delta_of (atoi v) d ls
      else if n = str ''delta'' then delta_of a (if a \<noteq> 0 \<and> atoi v \<le> 0 then d else atoi v) ls
      else delta_of a d ls)"

definition group_settings :: "out_interface_sett \<Rightarrow> (u8 list \<times> u8 list) list \<Rightarrow> out_interface_sett" where
  "group_settings m ls = \<lparr>anon_enabled = anon_enabled m,
     anon_mac_enabled = int_or (anon_mac_enabled m) (last_value ls ''anon_mac''),
     anon_ip_enabled = int_or (anon_ip_enabled m) (last_value ls ''anon_ip''),
     anon_ip_key_mode = text_or (anon_ip_key_mode m) (last_value ls ''key_mode''),
     anon_ip_key = text_or (anon_ip_key m) (last_value ls ''key''),
     anon_ip_rotation_delay = int_or (anon_ip_rotation_delay m) (last_value ls ''rotation_delay''),
     anon_subnet_file = text_or (anon_subnet_file m) (last_value ls ''anon_subnet_file''),
     no_anon_subnet_file = text_or (no_anon_subnet_file m) (last_value ls ''no_anon_subnet_file''),
     payload_drop_enabled = int_or (payload_drop_enabled m) (last_value ls ''payload_drop''),
     engine = int_or (engine m) (last_value ls ''engine''),
     anon_ext_ip = int_or (anon_ext_ip m) (last_value ls ''external_ip''),
     s_dns = int_or (s_dns m) (last_value ls ''dns''),
     s_tls = int_or (s_tls m) (last_value ls ''tls''),
     s_http = int_or (s_http m) (last_value ls ''http''),
     s_alpha = int_or (s_alpha m) (last_value ls ''alpha''),
     s_delta = delta_of (s_alpha m) (s_delta m) ls\<rparr>"

lemma group_settings_none [simp]: "group_settings m [] = m"
  by (simp add: group_settings_def last_value_def int_or_def text_or_def)

lemma last_value_Cons: "last_value ((n, v) # ls) x = (case last_value ls x of Some y \<Rightarrow> Some y
      | None \<Rightarrow> if n = str x then Some v else None)"
  by (auto simp: last_value_def map_add_def split: option.splits)

lemma last_value_snoc: "last_value (ls @ [(n, v)]) x = (if n = str x then Some v else last_value ls x)"
  by (simp add: last_value_def)

lemma delta_of_snoc: "delta_of a d (ls @ [(n, v)]) =
    (if n = str ''delta'' \<and> \<not> (int_or a (last_value ls ''alpha'') \<noteq> 0 \<and> atoi v \<le> 0) then atoi v else delta_of a d ls)"
proof (induction a d ls rule: delta_of.induct)
  case (2 a d n' v' ls)
  consider "n' = str ''alpha''" | "n' = str ''delta''" | "n' \<notin> {str ''alpha'', str ''delta''}" by blast
  then show ?case
    by cases (use 2 in \<open>auto simp: last_value_Cons int_or_def split: option.splits\<close>)
qed (simp add: last_value_def int_or_def)

lemma int_or_Some [simp]: "int_or d (Some v) = atoi v" and text_or_Some [simp]: "text_or t (Some v) = v"
  by (simp_all add: int_or_def text_or_def)

lemma int_or_snoc: "int_or d (if b then Some v else l) = (if b then atoi v else int_or d l)"
  and text_or_snoc: "text_or t (if b then Some v else l) = (if b then v else text_or t l)"
  by (simp_all add: int_or_def text_or_def)

text \<open>One more line of a group, as the handler takes it over.\<close>

lemma group_entry_line:
  assumes "config st = Groups cs" and "0 \<le> i" and "nat i < length cs" and "cs ! nat i = group_settings m ls" and "length v < MAX_STR"
  shows "group_entry st i n v = Some (st\<lparr>config := Groups (cs[nat i := group_settings m (ls @ [(n, v)])])\<rparr>, 1)"
proof -
  note snoc = group_settings_def last_value_snoc int_or_snoc text_or_snoc delta_of_snoc
  consider "n \<in> str ` {''anon_mac'', ''anon_ip'', ''key_mode'', ''key'', ''rotation_delay'', ''anon_subnet_file'',
      ''no_anon_subnet_file'', ''payload_drop'', ''engine'', ''external_ip'', ''dns'', ''tls'', ''http'', ''alpha'', ''delta''}"
    | "n \<notin> str ` {''anon_mac'', ''anon_ip'', ''key_mode'', ''key'', ''rotation_delay'', ''anon_subnet_file'',
      ''no_anon_subnet_file'', ''payload_drop'', ''engine'', ''external_ip'', ''dns'', ''tls'', ''http'', ''alpha'', ''delta''}"
    by blast
  then show ?thesis
  proof cases
    case 1
    then show ?thesis
      unfolding image_insert image_empty insert_iff empty_iff
      by (elim disjE FalseE; use assms in \<open>simp add: group_entry_def with_group_def strcpy_def snoc\<close>)
  next
    case 2
    then have "group_settings m (ls @ [(n, v)]) = group_settings m ls" by (simp add: snoc)
    moreover have "cs[nat i := group_settings m ls] = cs" using assms(4) by (metis list_update_id)
    ultimately show ?thesis using 2 assms(1) by (simp add: group_entry_def)
  qed
qed

section \<open>Mappings\<close>

lemma find_in_find:
  assumes "cnt < length ins"
  shows "find_in ins cnt p (Suc cnt)
    = Some (if cnt = 0 then None else find (\<lambda>i. in_id (ins ! i) = int p) [0..<Suc cnt])"
proof -
  have "n \<le> Suc cnt \<Longrightarrow> find_in ins cnt p n
      = Some (if cnt = 0 then None else find (\<lambda>i. in_id (ins ! i) = int p) [Suc cnt - n..<Suc cnt])" for n
  proof (induction n)
    case (Suc n)
    have u: "[Suc cnt - Suc n..<Suc cnt] = (cnt - n) # [Suc cnt - n..<Suc cnt]"
      using Suc.prems by (subst upt_conv_Cons) (auto simp: Suc_diff_le simp del: upt_Suc)
    have "ins \<noteq> []" "\<not> length ins \<le> cnt - n" using assms by auto
    then show ?case unfolding u using Suc by (simp add: Let_def)
  qed simp
  from this [of "Suc cnt"] show ?thesis by (simp del: find_in.simps upt_Suc)
qed

text \<open>The tables of the ports after \<open>k\<close> mappings.\<close>

definition tables_ok :: "nat \<Rightarrow> configuration \<Rightarrow> bool" where
  "tables_ok k st \<longleftrightarrow> length (used_ports st) = MAX_INTERFACES \<and> length (in_interface st) = MAX_INTERFACES
     \<and> length (out_interface st) = MAX_INTERFACES \<and> in_interface_cnt st \<le> k
     \<and> (\<forall>e \<in> set (in_interface st). 0 \<le> n_out e \<and> nat (n_out e) \<le> k \<and> length (out_ports e) = MAX_INTERFACES)"

definition is_port :: "machine \<Rightarrow> u8 list \<Rightarrow> bool" where
  "is_port mc n \<longleftrightarrow> port_of mc n < MAX_INTERFACES"

text \<open>Where an entry of the mappings goes, and what it does there.\<close>

definition slot :: "configuration \<Rightarrow> nat \<Rightarrow> nat option" where
  "slot st p = (if in_interface_cnt st = 0 then None
     else find (\<lambda>i. in_id (in_interface st ! i) = int p) [0..<Suc (in_interface_cnt st)])"

definition append_out :: "in_interface_sett \<Rightarrow> nat \<Rightarrow> in_interface_sett" where
  "append_out e q = e\<lparr>out_ports := (out_ports e)[nat (n_out e) := int q], n_out := n_out e + 1\<rparr>"

definition mapped :: "configuration \<Rightarrow> nat \<Rightarrow> u8 list \<Rightarrow> nat \<Rightarrow> configuration" where
  "mapped st p n q = (let ins = in_interface st; cnt = in_interface_cnt st in
     case slot st p of
       Some i \<Rightarrow> st\<lparr>in_interface := ins[i := append_out (ins ! i) q]\<rparr>
     | None \<Rightarrow> st\<lparr>in_interface := ins[cnt := append_out ((ins ! cnt)\<lparr>in_id := int p, in_address := n\<rparr>) q],
         in_interface_cnt := Suc cnt\<rparr>)"

lemma slot_in_table: "slot st p = Some i \<Longrightarrow> i \<le> in_interface_cnt st \<and> in_interface_cnt st \<noteq> 0"
  by (auto simp: slot_def find_Some_iff nth_append split: if_splits)

lemma mapped_frame [simp]: "config (mapped st p n q) = config st" "out_interface (mapped st p n q) = out_interface st"
  by (simp_all add: mapped_def Let_def split: option.splits)

lemma mapping_entry_eq:
  assumes "tables_ok k st" and "k < MAX_INTERFACES" and "is_port mc n" and "is_port mc v" and "length n < MAX_STR"
  shows "mapping_entry mc st n v = Some ((mapped st (port_of mc n) n (port_of mc v))
    \<lparr>used_ports := (used_ports st)[port_of mc n := 1, port_of mc v := 1]\<rparr>, 1)"
proof -
  let ?used = "(used_ports st)[port_of mc n := 1, port_of mc v := 1]" and ?ins = "in_interface st" and ?cnt = "in_interface_cnt st"
  have t: "\<forall>e \<in> set ?ins. 0 \<le> n_out e \<and> nat (n_out e) < length (out_ports e)"
    and cnt: "?cnt < length ?ins" and u: "length (used_ports st) = MAX_INTERFACES"
    using assms(1,2) by (auto simp: tables_ok_def)
  have f: "find_in ?ins ?cnt (port_of mc n) (Suc ?cnt) = Some (slot st (port_of mc n))"
    unfolding slot_def by (rule find_in_find [OF cnt])
  have o: "add_out (?ins ! i) q = Some (append_out (?ins ! i) q)"
    "add_out ((?ins ! i)\<lparr>in_id := x, in_address := y\<rparr>) q = Some (append_out ((?ins ! i)\<lparr>in_id := x, in_address := y\<rparr>) q)"
    if "i \<le> ?cnt" for i q x y
    using t [rule_format, of "?ins ! i"] that cnt by (simp_all add: add_out_def append_out_def)
  show ?thesis
  proof (cases "slot st (port_of mc n)")
    case None
    then show ?thesis using u assms(3-5) f o [of ?cnt] cnt
      by (simp add: mapping_entry_def store_def is_port_def mapped_def Let_def strcpy_def del: find_in.simps)
  next
    case (Some i)
    then show ?thesis using u assms(3-5) f o(1) [of i] slot_in_table [OF Some]
      by (simp add: mapping_entry_def store_def is_port_def mapped_def Let_def del: find_in.simps)
  qed
qed

lemma mapped_tables_ok:
  assumes "tables_ok k st" and "k < MAX_INTERFACES" and "length used = MAX_INTERFACES"
  shows "tables_ok (Suc k) ((mapped st p n q)\<lparr>used_ports := used\<rparr>)"
proof -
  let ?ins = "in_interface st" and ?cnt = "in_interface_cnt st"
  have t: "\<forall>e \<in> set ?ins. 0 \<le> n_out e \<and> nat (n_out e) \<le> k \<and> length (out_ports e) = MAX_INTERFACES"
    and cnt: "?cnt < length ?ins" using assms(1,2) by (auto simp: tables_ok_def)
  have app: "0 \<le> n_out (append_out e q) \<and> nat (n_out (append_out e q)) \<le> Suc k \<and> length (out_ports (append_out e q)) = MAX_INTERFACES"
    if "0 \<le> n_out e \<and> nat (n_out e) \<le> k \<and> length (out_ports e) = MAX_INTERFACES" for e
    using that by (auto simp: append_out_def nat_add_distrib)
  have more: "0 \<le> n_out e \<and> nat (n_out e) \<le> Suc k \<and> length (out_ports e) = MAX_INTERFACES"
    if "e \<in> set (?ins[i := append_out e' q])" "e' = ?ins ! i \<or> e' = (?ins ! i)\<lparr>in_id := x, in_address := y\<rparr>" "i \<le> ?cnt" for e e' i x y
  proof -
    have "0 \<le> n_out e' \<and> nat (n_out e') \<le> k \<and> length (out_ports e') = MAX_INTERFACES"
      using that(2,3) t [rule_format, of "?ins ! i"] cnt by auto
    moreover have "e = append_out e' q \<or> e \<in> set ?ins"
      using that(1) set_update_subset_insert [of ?ins i "append_out e' q"] by auto
    ultimately show ?thesis using app t by fastforce
  qed
  show ?thesis
  proof (cases "slot st p")
    case None
    then show ?thesis using assms more [of _ ?cnt] by (auto simp: mapped_def Let_def tables_ok_def)
  next
    case (Some i)
    then show ?thesis using assms more [of _ i "?ins ! i"] slot_in_table [OF Some]
      by (auto simp: mapped_def Let_def tables_ok_def)
  qed
qed

section \<open>Settings of the ports\<close>

lemma fixed_sections [simp]:
  "group_of (str ''general'') = None" "group_of (str ''interfaces_mappings'') = None"
  "group_of (str ''interface_conf'') = None" "group_of (str ''end'') = None"
  by (simp_all add: group_of_def str_def)

text \<open>
  An entry that fits: it allocates or frees nothing, names ports that exist and one of the \<open>k\<close> groups, and
  its texts fit their buffers.
\<close>

definition entry_fits :: "machine \<Rightarrow> nat \<Rightarrow> entry \<Rightarrow> bool" where
  "entry_fits mc k e \<longleftrightarrow> (let (sec, n, v) = e in
     sec \<noteq> str ''end'' \<and> (sec = str ''general'' \<longrightarrow> n \<noteq> str ''num_config'')
     \<and> (sec = str ''interfaces_mappings'' \<longrightarrow> is_port mc n \<and> is_port mc v \<and> length n < MAX_STR)
     \<and> (\<forall>g. group_of sec = Some g \<longrightarrow> length sec < 100 \<and> 0 \<le> g \<and> nat g < k \<and> length v < MAX_STR)
     \<and> (sec = str ''interface_conf'' \<longrightarrow> is_port mc n \<and> 0 \<le> atoi v \<and> nat (atoi v) < k))"

definition mappings :: "entry list \<Rightarrow> (u8 list \<times> u8 list) list" where
  "mappings es = map snd (filter (\<lambda>e. fst e = str ''interfaces_mappings'') es)"

text \<open>The invariant of loading entries that fit, from groups \<open>cs\<close>.\<close>

definition loaded :: "out_interface_sett list \<Rightarrow> entry list \<Rightarrow> configuration \<Rightarrow> bool" where
  "loaded cs es st \<longleftrightarrow> tables_ok (length (mappings es)) st
     \<and> config st = Groups (map (\<lambda>g. group_settings (cs ! g) (group_lines (int g) es)) [0..<length cs])"

definition configures :: "machine \<Rightarrow> nat \<Rightarrow> entry \<Rightarrow> bool" where
  "configures mc p e \<longleftrightarrow> fst e = str ''interface_conf'' \<and> port_of mc (fst (snd e)) = p"

lemma is_port_known: "is_port mc n \<Longrightarrow> \<exists>w. port_by_name mc n = Some w \<and> port_of mc n = unat w \<and> unat w < MAX_INTERFACES"
  by (auto simp: is_port_def port_of_def MAX_INTERFACES_def split: option.splits)

lemma parse_ini_step:
  assumes "loaded cs es st" and "entry_fits mc (length cs) (sec, n, v)" and "length (mappings (es @ [(sec, n, v)])) \<le> MAX_INTERFACES"
  obtains st' where "parse_ini mc st sec n v = Some (st', 1)" and "loaded cs (es @ [(sec, n, v)]) st'"
    and "\<forall>p. out_interface st' ! p = (if configures mc p (sec, n, v)
       then group_settings (cs ! nat (atoi v)) (group_lines (atoi v) es) else out_interface st ! p)"
proof -
  let ?gs = "\<lambda>es. map (\<lambda>g. group_settings (cs ! g) (group_lines (int g) es)) [0..<length cs]"
  let ?e = "(sec, n, v)"
  have c: "config st = Groups (?gs es)" and t: "tables_ok (length (mappings es)) st" using assms(1) by (simp_all add: loaded_def)
  have same: "?gs (es @ [?e]) = ?gs es" if "group_of sec = None" using that by (simp add: group_lines_def)
  consider (general) "sec = str ''general''" | (mapping) "sec = str ''interfaces_mappings''" | (conf) "sec = str ''interface_conf''"
    | (group) g where "group_of sec = Some g" | (other) "group_of sec = None" "sec \<notin> {str ''general'', str ''interfaces_mappings'', str ''interface_conf''}"
    by fastforce
  then show thesis
  proof cases
    case mapping
    then have m: "mapping_entry mc st n v = Some ((mapped st (port_of mc n) n (port_of mc v))
        \<lparr>used_ports := (used_ports st)[port_of mc n := 1, port_of mc v := 1]\<rparr>, 1)"
      by (intro mapping_entry_eq [OF t]) (use assms(2,3) in \<open>auto simp: entry_fits_def mappings_def\<close>)
    have "tables_ok (Suc (length (mappings es))) ((mapped st (port_of mc n) n (port_of mc v))
        \<lparr>used_ports := (used_ports st)[port_of mc n := 1, port_of mc v := 1]\<rparr>)"
      by (rule mapped_tables_ok [OF t]) (use assms(3) mapping t in \<open>simp_all add: mappings_def tables_ok_def\<close>)
    then show thesis
      using that [OF _ _] mapping m same c by (simp add: parse_ini_def loaded_def configures_def mappings_def)
  next
    case conf
    then obtain w where w: "port_by_name mc n = Some w" "port_of mc n = unat w" "unat w < MAX_INTERFACES" "0 \<le> atoi v" "nat (atoi v) < length cs"
      using assms(2) is_port_known [of mc n] by (auto simp: entry_fits_def)
    have "group_of sec = None" using conf by simp
    then have "strstr sec (str ''group_'') = None" by (simp add: group_of_def)
    then show thesis
      using that [of "st\<lparr>out_interface := (out_interface st)[unat w := group_settings (cs ! nat (atoi v)) (group_lines (atoi v) es)]\<rparr>"] w conf c t same
      by (auto simp: parse_ini_def loaded_def configures_def mappings_def tables_ok_def nth_list_update)
  next
    case (group g)
    have o: "sec \<noteq> str ''general''" "sec \<noteq> str ''interfaces_mappings''" "sec \<noteq> str ''interface_conf''" using group by auto
    obtain s where s: "strstr sec (str ''group_'') = Some s" "g = atoi (drop (length ''group_'') s)"
      using group by (auto simp: group_of_def)
    have f: "length sec < 100" "0 \<le> g" "nat g < length cs" "length v < MAX_STR" using assms(2) group by (auto simp: entry_fits_def)
    have "(?gs es)[nat g := group_settings (cs ! nat g) (group_lines g es @ [(n, v)])] = ?gs (es @ [?e])"
      by (rule nth_equalityI) (use group f in \<open>auto simp: group_lines_def nth_list_update\<close>)
    moreover have "group_entry st g n v
        = Some (st\<lparr>config := Groups ((?gs es)[nat g := group_settings (cs ! nat g) (group_lines g es @ [(n, v)])])\<rparr>, 1)"
      by (rule group_entry_line [OF c f(2)]) (use f in simp_all)
    ultimately show thesis
      using that [of "st\<lparr>config := Groups (?gs (es @ [?e]))\<rparr>"] o s f(1) t
      by (auto simp: parse_ini_def loaded_def configures_def mappings_def tables_ok_def strcpy_def)
  next
    case general
    then show thesis
      using that [of st] that [of "st\<lparr>mempool_elem_nb := atoi v\<rparr>"] assms(2) c t same
      by (cases "n = str ''mempool_elem_nb''")
        (auto simp: parse_ini_def loaded_def configures_def mappings_def tables_ok_def entry_fits_def)
  next
    case other
    then have "strstr sec (str ''group_'') = None" by (simp add: group_of_def)
    then show thesis
      using that [of st] other assms(2) c t same
      by (auto simp: parse_ini_def loaded_def configures_def mappings_def tables_ok_def entry_fits_def)
  qed
qed

lemma load_fits:
  assumes "loaded cs es0 st" and "\<forall>e \<in> set es. entry_fits mc (length cs) e" and "length (mappings (es0 @ es)) \<le> MAX_INTERFACES"
  obtains st' where "load_all mc es st = Some st'" and "loaded cs (es0 @ es) st'"
    and "\<forall>p. (\<forall>e \<in> set es. \<not> configures mc p e) \<longrightarrow> out_interface st' ! p = out_interface st ! p"
  using assms
proof (induction es arbitrary: es0 st thesis)
  case (Cons e es)
  obtain sec n v where e: "e = (sec, n, v)" by (cases e)
  have "length (mappings (es0 @ [e])) \<le> MAX_INTERFACES" using Cons.prems(4) by (auto simp: mappings_def split: if_splits)
  then obtain st1 where 1: "parse_ini mc st sec n v = Some (st1, 1)" "loaded cs (es0 @ [e]) st1"
    "\<forall>p. out_interface st1 ! p = (if configures mc p e then group_settings (cs ! nat (atoi v)) (group_lines (atoi v) es0)
       else out_interface st ! p)"
    using parse_ini_step [OF Cons.prems(2), of mc sec n v] Cons.prems(3) by (auto simp: e)
  obtain st' where 2: "load_all mc es st1 = Some st'" "loaded cs ((es0 @ [e]) @ es) st'"
    "\<forall>p. (\<forall>e \<in> set es. \<not> configures mc p e) \<longrightarrow> out_interface st' ! p = out_interface st1 ! p"
    by (rule Cons.IH [OF _ 1(2)]) (use Cons.prems(3,4) in simp_all)
  show ?case
    by (rule Cons.prems(1) [of st']) (use 1 2 e in simp_all)
qed simp

text \<open>The file before the groups are allocated, and the configuration right after.\<close>

definition preamble :: "entry list \<Rightarrow> bool" where
  "preamble es \<longleftrightarrow> (\<forall>(sec, n, v) \<in> set es. sec = str ''general'' \<and> n \<noteq> str ''num_config'')"

lemma load_preamble: "preamble es \<Longrightarrow> \<exists>m. load_all mc es st = Some (st\<lparr>mempool_elem_nb := m\<rparr>)"
proof (induction es arbitrary: st)
  case Nil
  then show ?case by (auto intro: exI [of _ "mempool_elem_nb st"])
next
  case (Cons e es)
  obtain n v where e: "e = (str ''general'', n, v)" "n \<noteq> str ''num_config''"
    using Cons.prems by (cases e) (auto simp: preamble_def)
  obtain m where "parse_ini mc st (str ''general'') n v = Some (st\<lparr>mempool_elem_nb := m\<rparr>, 1)"
    using e(2) that [of "atoi v"] that [of "mempool_elem_nb st"]
    by (cases "n = str ''mempool_elem_nb''") (auto simp: parse_ini_def)
  moreover obtain m' where "load_all mc es (st\<lparr>mempool_elem_nb := m\<rparr>) = Some (st\<lparr>mempool_elem_nb := m, mempool_elem_nb := m'\<rparr>)"
    using Cons.IH [of "st\<lparr>mempool_elem_nb := m\<rparr>"] Cons.prems by (auto simp: preamble_def)
  ultimately show ?case by (auto simp: e intro: exI [of _ m'])
qed

lemma load_start:
  assumes "preamble pre" and "0 \<le> atoi num" and "\<not> malloc_fails mc"
  obtains st where "load_all mc (pre @ [(str ''general'', str ''num_config'', num)]) initial_configuration = Some st"
    and "loaded (map (memory mc) [0..<nat (atoi num)]) [] st" and "in_interface st = replicate MAX_INTERFACES zero_in"
    and "in_interface_cnt st = 0" and "out_interface st = replicate MAX_INTERFACES zero_sett"
proof -
  obtain m where "load_all mc pre initial_configuration = Some (initial_configuration\<lparr>mempool_elem_nb := m\<rparr>)"
    using load_preamble [OF assms(1)] by blast
  then show thesis
    using assms(2,3)
    by (intro that [of "initial_configuration\<lparr>mempool_elem_nb := m, config := Groups (map (memory mc) [0..<nat (atoi num)])\<rparr>"])
      (simp_all add: load_append parse_ini_def loaded_def tables_ok_def mappings_def group_lines_def initial_configuration_def zero_in_def
        list_eq_iff_nth_eq)
qed

text \<open>
  A file of settings that can be loaded: it allocates the groups, then has \<open>es\<close>, whose entries fit.
\<close>

definition settings_file :: "machine \<Rightarrow> (u8 list \<Rightarrow> u8 list option) \<Rightarrow> u8 list \<Rightarrow> nat \<Rightarrow> entry list \<Rightarrow> bool" where
  "settings_file mc fs f k es \<longleftrightarrow> (\<exists>items pre num. fs f = Some (file_text items) \<and> (\<forall>i \<in> set items. item_ok i) \<and> length f < MAX_STR
     \<and> entries [] items = pre @ (str ''general'', str ''num_config'', num) # es \<and> preamble pre \<and> atoi num = int k
     \<and> (\<forall>e \<in> set es. entry_fits mc k e) \<and> length (mappings es) \<le> MAX_INTERFACES)"

lemma settings_file_loads:
  assumes "settings_file mc fs f k es" and "\<not> malloc_fails mc"
  obtains st conf where "parse_args mc fs [Inl f] initial_configuration = Some (conf, 0)"
    and "load_all mc es st = Some conf" and "loaded (map (memory mc) [0..<k]) [] st"
    and "in_interface st = replicate MAX_INTERFACES zero_in" and "in_interface_cnt st = 0"
    and "out_interface st = replicate MAX_INTERFACES zero_sett" and "\<forall>e \<in> set es. entry_fits mc k e" and "length (mappings es) \<le> MAX_INTERFACES"
proof -
  obtain items pre num where f: "fs f = Some (file_text items)" "\<forall>i \<in> set items. item_ok i" "length f < MAX_STR"
    "entries [] items = (pre @ [(str ''general'', str ''num_config'', num)]) @ es" "preamble pre" "atoi num = int k"
    "\<forall>e \<in> set es. entry_fits mc k e" "length (mappings es) \<le> MAX_INTERFACES"
    using assms(1) unfolding settings_file_def by fastforce
  obtain st where st: "load_all mc (pre @ [(str ''general'', str ''num_config'', num)]) initial_configuration = Some st"
    "loaded (map (memory mc) [0..<nat (atoi num)]) [] st" "in_interface st = replicate MAX_INTERFACES zero_in"
    "in_interface_cnt st = 0" "out_interface st = replicate MAX_INTERFACES zero_sett"
    by (rule load_start [OF f(5) _ assms(2), of num]) (use f(6) in simp_all)
  obtain conf where conf: "load_all mc es st = Some conf"
    by (rule load_fits [OF st(2), of es mc]) (use f(6-8) in simp_all)
  have "load_all mc (entries [] items) initial_configuration = Some conf"
    unfolding f(4) load_append [of mc "pre @ [(str ''general'', str ''num_config'', num)]" es] using st(1) conf by simp
  then have "parse_args mc fs [Inl f] initial_configuration = Some (conf, 0)"
    using parse_args_load [of fs f items, OF f(1-3)] by simp
  then show thesis using that conf st f(6-8) by simp
qed

lemma unconfigured_port:
  assumes "settings_file mc fs f k es" and "\<not> malloc_fails mc" and "\<forall>e \<in> set es. \<not> configures mc p e" and "p < MAX_INTERFACES"
    and "parse_args mc fs [Inl f] initial_configuration = Some (conf, 0)"
  shows "out_interface conf ! p = zero_sett"
proof -
  obtain st conf' where c: "parse_args mc fs [Inl f] initial_configuration = Some (conf', 0)"
    "load_all mc es st = Some conf'" "loaded (map (memory mc) [0..<k]) [] st" "out_interface st = replicate MAX_INTERFACES zero_sett"
    "\<forall>e \<in> set es. entry_fits mc k e" "length (mappings es) \<le> MAX_INTERFACES"
    by (rule settings_file_loads [OF assms(1,2)])
  obtain conf'' where "load_all mc es st = Some conf''"
    "\<forall>p. (\<forall>e \<in> set es. \<not> configures mc p e) \<longrightarrow> out_interface conf'' ! p = out_interface st ! p"
    by (rule load_fits [OF c(3), of es mc]) (use c(5,6) in simp_all)
  then show ?thesis using c assms(3-5) by simp
qed

lemma port_settings_loaded:
  assumes "settings_file mc fs f k (before @ (str ''interface_conf'', n, v) # after)" and "\<not> malloc_fails mc"
    and "\<forall>e \<in> set after. \<not> configures mc (port_of mc n) e"
  shows "\<exists>conf. parse_args mc fs [Inl f] initial_configuration = Some (conf, 0)
    \<and> length (out_interface conf) = MAX_INTERFACES
    \<and> out_interface conf ! port_of mc n = group_settings (memory mc (nat (atoi v))) (group_lines (atoi v) before)"
proof -
  let ?es = "before @ (str ''interface_conf'', n, v) # after" and ?cs = "map (memory mc) [0..<k]"
  obtain st conf where c: "parse_args mc fs [Inl f] initial_configuration = Some (conf, 0)" "load_all mc ?es st = Some conf"
    "loaded ?cs [] st" "\<forall>e \<in> set ?es. entry_fits mc k e" "length (mappings ?es) \<le> MAX_INTERFACES"
    by (rule settings_file_loads [OF assms(1,2)])
  have v: "nat (atoi v) < k" using c(4) by (simp add: entry_fits_def)
  obtain st1 where 1: "load_all mc before st = Some st1" "loaded ?cs before st1"
    by (rule load_fits [OF c(3), of before mc]) (use c(4,5) in \<open>auto simp: mappings_def\<close>)
  obtain st2 where 2: "parse_ini mc st1 (str ''interface_conf'') n v = Some (st2, 1)" "loaded ?cs (before @ [(str ''interface_conf'', n, v)]) st2"
    "out_interface st2 ! port_of mc n = group_settings (?cs ! nat (atoi v)) (group_lines (atoi v) before)"
    by (rule parse_ini_step [OF 1(2), of mc "str ''interface_conf''" n v])
      (use c(4,5) in \<open>auto simp: mappings_def configures_def\<close>)
  obtain st3 where 3: "load_all mc after st2 = Some st3" "loaded ?cs ((before @ [(str ''interface_conf'', n, v)]) @ after) st3"
    "\<forall>p. (\<forall>e \<in> set after. \<not> configures mc p e) \<longrightarrow> out_interface st3 ! p = out_interface st2 ! p"
    by (rule load_fits [OF 2(2), of after mc]) (use c(4,5) in \<open>auto simp: mappings_def\<close>)
  have "conf = st3" using c(2) 1(1) 2(1) 3(1) by (simp add: load_append)
  then show ?thesis using c(1) 2(3) 3(2,3) v assms(3) by (simp add: loaded_def tables_ok_def)
qed

text \<open>
  C7.  Functional correctness and totality.  A file of settings that fits is loaded without a fault, and a
  port gets the settings of the group that its last line names, as the lines above it have set them: of each
  name the last line counts.  What no line sets is what the memory of the groups happens to hold, and a delta
  that is not positive is not taken over while alpha is not 0.
\<close>

theorem settings_reach_port:
  assumes "settings_file mc fs f k (before @ (str ''interface_conf'', n, v) # after)" and "\<not> malloc_fails mc"
    and "\<forall>e \<in> set after. \<not> configures mc (port_of mc n) e"
  shows "\<exists>conf. parse_args mc fs [Inl f] initial_configuration = Some (conf, 0)
    \<and> length (out_interface conf) = MAX_INTERFACES
    \<and> out_interface conf ! port_of mc n = group_settings (memory mc (nat (atoi v))) (group_lines (atoi v) before)"
  by (rule port_settings_loaded [OF assms])

definition some_machine :: machine where
  "some_machine = \<lparr>port_by_name = (\<lambda>n. if n = str ''p0'' then Some 0 else if n = str ''p1'' then Some 1
       else if n = str ''p2'' then Some 2 else None),
     memory = (\<lambda>_. zero_sett\<lparr>s_delta := 77\<rparr>), malloc_fails = False\<rparr>"

definition some_items :: "item list" where
  "some_items = [Comment (str '';one group''), Section (str ''general''), Entry (str ''mempool_elem_nb'') (str ''32768''),
     Entry (str ''num_config'') (str ''1''), Comment [], Section (str ''group_0''), Entry (str ''anon_ip'') (str ''0''),
     Entry (str ''anon_ip'') (str ''1''), Entry (str ''alpha'') (str ''10''), Entry (str ''delta'') (str ''0''),
     Section (str ''interfaces_mappings''), Entry (str ''p1'') (str ''p2''), Section (str ''interface_conf''),
     Entry (str ''p2'') (str ''0''), Section (str ''end'')]"

lemma some_machine_malloc [simp]: "\<not> malloc_fails some_machine"
  by (simp add: some_machine_def)

lemma some_items_ok: "\<forall>i \<in> set some_items. item_ok i"
  by (simp add: some_items_def plain_text_def trimmed_def is_space_def INI_MAX_LINE_def MAX_SECTION_def str_def word_le_nat_alt)

lemma atoi_examples: "atoi (str ''0'') = 0" "atoi (str ''1'') = 1" "atoi (str ''10'') = 10"
  by (simp_all add: atoi_def strtol_def str_def is_space_def is_digit_def digits_value_def word_le_nat_alt)

definition some_entries_before :: "entry list" where
  "some_entries_before = [(str ''group_0'', str ''anon_ip'', str ''0''), (str ''group_0'', str ''anon_ip'', str ''1''),
     (str ''group_0'', str ''alpha'', str ''10''), (str ''group_0'', str ''delta'', str ''0''),
     (str ''interfaces_mappings'', str ''p1'', str ''p2'')]"

lemma group_of_0: "group_of (str ''group_0'') = Some 0"
  by (simp add: group_of_def str_def atoi_def strtol_def is_space_def is_digit_def digits_value_def word_le_nat_alt)

lemma some_ports: "port_of some_machine (str ''p0'') = 0" "port_of some_machine (str ''p1'') = 1" "port_of some_machine (str ''p2'') = 2"
  by (simp_all add: port_of_def some_machine_def)

lemma some_settings_file:
  "settings_file some_machine (\<lambda>_. Some (file_text some_items)) (str ''a'') 1
     (some_entries_before @ [(str ''interface_conf'', str ''p2'', str ''0'')])"
  unfolding settings_file_def
  by (rule exI [of _ some_items], rule exI [of _ "[(str ''general'', str ''mempool_elem_nb'', str ''32768'')]"],
      rule exI [of _ "str ''1''"], use some_items_ok in \<open>simp add: some_entries_before_def entry_fits_def group_of_0 mappings_def
        preamble_def atoi_examples is_port_def some_ports MAX_INTERFACES_def MAX_STR_def\<close>)
    (simp add: some_items_def)

theorem settings_reach_port_witness:
  "\<exists>conf. parse_args some_machine (\<lambda>_. Some (file_text some_items)) [Inl (str ''a'')] initial_configuration = Some (conf, 0)
    \<and> anon_ip_enabled (out_interface conf ! 2) = 1 \<and> s_alpha (out_interface conf ! 2) = 10 \<and> s_delta (out_interface conf ! 2) = 77"
  using settings_reach_port [OF some_settings_file]
  by (simp add: some_ports atoi_examples) (auto simp: some_machine_def zero_sett_def group_settings_def last_value_def group_lines_def
      some_entries_before_def group_of_0 atoi_examples)

section \<open>Ports of the mappings\<close>

text \<open>
  The input ports of mappings in the order in which they first appear, and the output ports of one.
\<close>

definition inputs :: "machine \<Rightarrow> (u8 list \<times> u8 list) list \<Rightarrow> nat list" where
  "inputs mc ms = rev (remdups (rev (map (port_of mc \<circ> fst) ms)))"

definition outputs :: "machine \<Rightarrow> (u8 list \<times> u8 list) list \<Rightarrow> nat \<Rightarrow> nat list" where
  "outputs mc ms p = map (port_of mc \<circ> snd) (filter (\<lambda>m. port_of mc (fst m) = p) ms)"

definition table_of :: "machine \<Rightarrow> (u8 list \<times> u8 list) list \<Rightarrow> (nat \<times> nat list) list" where
  "table_of mc ms = map (\<lambda>p. (p, outputs mc ms p)) (inputs mc ms)"

lemma inputs_snoc: "inputs mc (ms @ [m]) =
    (if port_of mc (fst m) \<in> set (inputs mc ms) then inputs mc ms else inputs mc ms @ [port_of mc (fst m)])"
  by (auto simp: inputs_def)

lemma outputs_snoc: "outputs mc (ms @ [m]) p = outputs mc ms p @ (if port_of mc (fst m) = p then [port_of mc (snd m)] else [])"
  by (simp add: outputs_def)

lemma inputs_Nil: "inputs mc ms = [] \<longleftrightarrow> ms = []"
  by (simp add: inputs_def)

lemma inputs_append: "\<exists>ps. inputs mc (ms @ zs) = inputs mc ms @ ps"
proof (induction zs rule: rev_induct)
  case (snoc z zs)
  then obtain ps where "inputs mc (ms @ zs) = inputs mc ms @ ps" by blast
  then show ?case using inputs_snoc [of mc "ms @ zs" z] by auto
qed simp

lemma distinct_inputs: "distinct (inputs mc ms)"
  by (simp add: inputs_def)

lemma set_inputs: "set (inputs mc ms) = (port_of mc \<circ> fst) ` set ms"
  by (simp add: inputs_def)

lemma outputs_none: "p \<notin> set (inputs mc ms) \<Longrightarrow> outputs mc ms p = []"
  by (auto simp: set_inputs outputs_def filter_empty_conv)

lemma length_inputs: "length (inputs mc ms) \<le> length ms"
  using length_remdups_leq [of "rev (map (port_of mc \<circ> fst) ms)"] by (simp add: inputs_def)

lemma length_outputs: "length (outputs mc ms p) \<le> length ms"
  by (simp add: outputs_def)

lemma find_first: "i < n \<Longrightarrow> P i \<Longrightarrow> \<forall>j < i. \<not> P j \<Longrightarrow> find P [0..<n] = Some i"
  by (auto simp: find_Some_iff intro!: exI [of _ i])

lemma take_append_entry: "k < length xs \<Longrightarrow> take (Suc k) (xs[k := x]) = take k xs @ [x]"
  by (simp add: take_Suc_conv_app_nth)

text \<open>
  Where a mapping goes.  A table has the input ports with their output ports; next to it are the output
  ports that have been entered behind its last entry, which carries the number 0 before it is used.
\<close>

type_synonym routes = "(nat \<times> nat list) list \<times> nat list"

definition route :: "nat \<Rightarrow> nat \<Rightarrow> routes \<Rightarrow> routes" where
  "route p q r = (let (t, pend) = r in
     if p \<in> fst ` set t then (map (\<lambda>(p', outs). (p', if p' = p then outs @ [q] else outs)) t, pend)
     else if p = 0 \<and> t \<noteq> [] then (t, pend @ [q])
     else (t @ [(p, pend @ [q])], []))"

definition routed :: "machine \<Rightarrow> (u8 list \<times> u8 list) list \<Rightarrow> routes \<Rightarrow> routes" where
  "routed mc ms = fold (\<lambda>m. route (port_of mc (fst m)) (port_of mc (snd m))) ms"

definition routes_fit :: "nat \<Rightarrow> routes \<Rightarrow> bool" where
  "routes_fit k r \<longleftrightarrow> distinct (map fst (fst r)) \<and> length (fst r) \<le> k \<and> length (snd r) \<le> k
     \<and> (\<forall>x \<in> set (fst r). length (snd x) \<le> k)"


lemma route_fits:
  assumes "routes_fit k r"
  shows "routes_fit (Suc k) (route p q r)"
proof -
  obtain t pend where r: "r = (t, pend)" by (cases r)
  have t: "distinct (map fst t)" "length t \<le> k" "length pend \<le> k" "\<forall>x \<in> set t. length (snd x) \<le> k"
    using assms by (simp_all add: routes_fit_def r)
  then show ?thesis
    by (auto simp: route_def r routes_fit_def comp_def split_def le_SucI Let_def)
qed

text \<open>The table of the input ports represents these routes.\<close>

definition entry_ok :: "in_interface_sett \<Rightarrow> nat \<Rightarrow> nat list \<Rightarrow> bool" where
  "entry_ok e p outs \<longleftrightarrow> in_id e = int p \<and> n_out e = int (length outs)
     \<and> take (length outs) (out_ports e) = map int outs \<and> length (out_ports e) = MAX_INTERFACES"

definition represents :: "in_interface_sett list \<Rightarrow> nat \<Rightarrow> routes \<Rightarrow> bool" where
  "represents ins cnt r \<longleftrightarrow> length ins = MAX_INTERFACES \<and> cnt = length (fst r) \<and> cnt \<le> MAX_INTERFACES
     \<and> (\<forall>i < cnt. entry_ok (ins ! i) (fst (fst r ! i)) (snd (fst r ! i)))
     \<and> (cnt < MAX_INTERFACES \<longrightarrow> entry_ok (ins ! cnt) 0 (snd r))
     \<and> (\<forall>i. cnt < i \<longrightarrow> i < MAX_INTERFACES \<longrightarrow> ins ! i = zero_in)"

lemma entry_ok_zero [simp]: "entry_ok zero_in 0 []"
  by (simp add: entry_ok_def zero_in_def)

lemma entry_ok_append:
  "entry_ok e p outs \<Longrightarrow> length outs < MAX_INTERFACES \<Longrightarrow> entry_ok (append_out e q) p (outs @ [q])"
  using take_append_entry [of "length outs" "out_ports e" "int q"] by (simp add: entry_ok_def append_out_def)

lemma entry_ok_rename: "entry_ok e p outs \<Longrightarrow> entry_ok (e\<lparr>in_id := int p', in_address := n\<rparr>) p' outs"
  by (simp add: entry_ok_def)

lemma represents_empty: "represents (replicate MAX_INTERFACES zero_in) 0 ([], [])"
  by (simp add: represents_def)

lemma mapped_represents:
  assumes "represents (in_interface st) (in_interface_cnt st) r" and "routes_fit k r" and "k < MAX_INTERFACES"
  shows "represents (in_interface (mapped st p n q)) (in_interface_cnt (mapped st p n q)) (route p q r)"
proof -
  obtain t pend where r: "r = (t, pend)" by (cases r)
  let ?ins = "in_interface st" and ?cnt = "in_interface_cnt st"
  have d: "distinct (map fst t)" and fit: "length t \<le> k" "length pend \<le> k" "\<forall>x \<in> set t. length (snd x) \<le> k"
    using assms(2) by (simp_all add: routes_fit_def r)
  have cnt: "length ?ins = MAX_INTERFACES" "?cnt = length t" "?cnt < MAX_INTERFACES"
    using assms(1,3) fit(1) by (simp_all add: represents_def r)
  have e: "entry_ok (?ins ! i) (fst (t ! i)) (snd (t ! i))" if "i < ?cnt" for i using assms(1) that by (simp add: represents_def r)
  have new: "entry_ok (?ins ! ?cnt) 0 pend" using assms(1) cnt(3) unfolding represents_def r fst_conv snd_conv by blast
  have z: "?ins ! i = zero_in" if "?cnt < i" "i < MAX_INTERFACES" for i using assms(1) that by (simp add: represents_def r)
  have id: "in_id (?ins ! i) = int p \<longleftrightarrow> fst (t ! i) = p" if "i < ?cnt" for i using e [OF that] by (simp add: entry_ok_def)
  consider (known) i where "i < ?cnt" "fst (t ! i) = p" | (zero) "p \<notin> fst ` set t" "p = 0" "t \<noteq> []"
    | (new) "p \<notin> fst ` set t" "p \<noteq> 0 \<or> t = []"
  proof -
    have "\<exists>i < ?cnt. fst (t ! i) = p" if "p \<in> fst ` set t" using that cnt(2) by (metis imageE in_set_conv_nth)
    then show thesis using that by blast
  qed
  then show ?thesis
  proof cases
    case known
    have u: "fst (t ! j) \<noteq> p" if "j < ?cnt" "j \<noteq> i" for j
      using that known cnt(2) d nth_eq_iff_index_eq [OF d, of i j] by auto
    have "find (\<lambda>i. in_id (?ins ! i) = int p) [0..<Suc ?cnt] = Some i"
      by (rule find_first) (use known u id in auto)
    then have s: "slot st p = Some i" using known(1) by (simp add: slot_def)
    have "p \<in> fst ` set t" using known cnt(2) by (metis image_eqI nth_mem)
    then have rt: "route p q r = (map (\<lambda>(p', outs). (p', if p' = p then outs @ [q] else outs)) t, pend)"
      by (simp add: route_def r)
    have "length (snd (t ! i)) < MAX_INTERFACES" using fit(3) known(1) cnt(2) assms(3) by (metis le_less_trans nth_mem)
    then have "entry_ok (append_out (?ins ! i) q) p (snd (t ! i) @ [q])" using entry_ok_append e [OF known(1)] known(2) by metis
    then show ?thesis
      unfolding represents_def mapped_def s rt Let_def
      using cnt known(1,2) u e new z by (auto simp: nth_list_update split_def)
  next
    case zero
    have "find (\<lambda>i. in_id (?ins ! i) = int p) [0..<Suc ?cnt] = Some ?cnt"
      by (rule find_first) (use zero new id cnt(2) in \<open>auto simp: entry_ok_def\<close>)
    then have s: "slot st p = Some ?cnt" using zero(3) cnt(2) by (simp add: slot_def)
    have rt: "route p q r = (t, pend @ [q])" using zero by (simp add: route_def r)
    have "entry_ok (append_out (?ins ! ?cnt) q) 0 (pend @ [q])" using entry_ok_append [OF new] fit(2) assms(3) by simp
    then show ?thesis
      unfolding represents_def mapped_def s rt Let_def using cnt e z by (auto simp: nth_list_update)
  next
    case new': new
    have "find (\<lambda>i. in_id (?ins ! i) = int p) [0..<Suc ?cnt] = None" if "t \<noteq> []"
    proof -
      have "in_id (?ins ! ?cnt) \<noteq> int p" using new new' that by (simp add: entry_ok_def)
      moreover have "in_id (?ins ! i) \<noteq> int p" if "i < ?cnt" for i using id [OF that] new'(1) that cnt(2) by (metis image_eqI nth_mem)
      ultimately show ?thesis by (auto simp: find_None_iff less_Suc_eq)
    qed
    then have s: "slot st p = None" using cnt(2) by (simp add: slot_def)
    have rt: "route p q r = (t @ [(p, pend @ [q])], [])" using new' by (auto simp: route_def r)
    have "entry_ok (append_out ((?ins ! ?cnt)\<lparr>in_id := int p, in_address := n\<rparr>) q) p (pend @ [q])"
      by (rule entry_ok_append [OF entry_ok_rename [OF new]]) (use fit(2) assms(3) in simp)
    then show ?thesis
      unfolding represents_def mapped_def s rt Let_def
      using cnt e z by (auto simp: nth_list_update nth_append less_Suc_eq)
  qed
qed

lemma parse_ini_in_interface:
  assumes "entry_fits mc k (sec, n, v)" and "sec \<noteq> str ''interfaces_mappings''" and "parse_ini mc st sec n v = Some (st', 1)"
  shows "in_interface st' = in_interface st \<and> in_interface_cnt st' = in_interface_cnt st"
proof -
  have w: "with_group st i f = Some (st', 1) \<Longrightarrow> in_interface st' = in_interface st \<and> in_interface_cnt st' = in_interface_cnt st" for i f
    by (auto simp: with_group_def split: groups.splits if_splits Option.bind_splits)
  have g: "group_entry st i n v = Some (st', 1) \<Longrightarrow> in_interface st' = in_interface st \<and> in_interface_cnt st' = in_interface_cnt st" for i
    by (auto simp: group_entry_def split: if_splits dest: w)
  show ?thesis
    using assms by (auto simp: parse_ini_def entry_fits_def split: if_splits option.splits Option.bind_splits groups.splits dest: g)
qed

lemma load_mappings:
  assumes "loaded cs es0 st" and "\<forall>e \<in> set es. entry_fits mc (length cs) e" and "length (mappings (es0 @ es)) \<le> MAX_INTERFACES"
    and "load_all mc es st = Some st'" and "represents (in_interface st) (in_interface_cnt st) r"
    and "routes_fit (length (mappings es0)) r"
  shows "represents (in_interface st') (in_interface_cnt st') (routed mc (mappings es) r)"
  using assms
proof (induction es arbitrary: es0 st r)
  case (Cons e es)
  obtain sec n v where e: "e = (sec, n, v)" by (cases e)
  have len: "length (mappings (es0 @ [e])) \<le> MAX_INTERFACES" using Cons.prems(3) by (auto simp: mappings_def split: if_splits)
  obtain st1 where 1: "parse_ini mc st sec n v = Some (st1, 1)" "loaded cs (es0 @ [e]) st1"
    by (rule parse_ini_step [OF Cons.prems(1), of mc sec n v]) (use Cons.prems(2) len in \<open>simp_all add: e\<close>)
  show ?case
  proof (cases "sec = str ''interfaces_mappings''")
    case True
    let ?ms = "mappings es0" and ?r = "route (port_of mc n) (port_of mc v) r"
    have fits: "is_port mc n" "is_port mc v" "length n < MAX_STR" using Cons.prems(2) True by (auto simp: e entry_fits_def)
    have k: "length ?ms < MAX_INTERFACES" using len True by (simp add: e mappings_def)
    have t: "tables_ok (length ?ms) st" using Cons.prems(1) by (simp add: loaded_def)
    have "in_interface st1 = in_interface (mapped st (port_of mc n) n (port_of mc v))"
      "in_interface_cnt st1 = in_interface_cnt (mapped st (port_of mc n) n (port_of mc v))"
      using 1(1) mapping_entry_eq [OF t k fits] True by (auto simp: parse_ini_def)
    then have "represents (in_interface st1) (in_interface_cnt st1) ?r"
      using mapped_represents [OF Cons.prems(5,6) k] by simp
    moreover have "routes_fit (length (mappings (es0 @ [e]))) ?r"
      using route_fits [OF Cons.prems(6)] True by (simp add: e mappings_def)
    ultimately show ?thesis
      using Cons.IH [OF 1(2), of ?r] Cons.prems(2-4) 1(1) True by (simp add: e mappings_def routed_def)
  next
    case False
    then have "mappings (es0 @ [e]) = mappings es0" by (simp add: e mappings_def)
    then show ?thesis
      using Cons.IH [OF 1(2), of r] parse_ini_in_interface [OF _ False 1(1)] Cons.prems(2-6) 1(1) False
      by (auto simp: e mappings_def)
  qed
qed (simp add: routed_def mappings_def)

definition forwards :: "configuration \<Rightarrow> (nat \<times> nat list) list" where
  "forwards conf = map (\<lambda>e. (nat (in_id e), destinations e)) (take (in_interface_cnt conf) (in_interface conf))"

lemma represents_forwards: "represents (in_interface conf) (in_interface_cnt conf) r \<Longrightarrow> forwards conf = fst r"
  by (rule nth_equalityI) (auto simp: represents_def entry_ok_def forwards_def destinations_def comp_def)

lemma forwards_routed:
  assumes "settings_file mc fs f k es" and "\<not> malloc_fails mc"
  shows "\<exists>conf. parse_args mc fs [Inl f] initial_configuration = Some (conf, 0) \<and> forwards conf = fst (routed mc (mappings es) ([], []))"
proof -
  let ?cs = "map (memory mc) [0..<k]"
  obtain st conf where c: "parse_args mc fs [Inl f] initial_configuration = Some (conf, 0)" "load_all mc es st = Some conf"
    "loaded ?cs [] st" "in_interface st = replicate MAX_INTERFACES zero_in" "in_interface_cnt st = 0"
    "\<forall>e \<in> set es. entry_fits mc k e" "length (mappings es) \<le> MAX_INTERFACES"
    by (rule settings_file_loads [OF assms])
  have "represents (in_interface conf) (in_interface_cnt conf) (routed mc (mappings es) ([], []))"
    by (rule load_mappings [OF c(3) _ _ c(2)])
      (use c(4-7) represents_empty in \<open>simp_all add: routes_fit_def\<close>)
  then show ?thesis using c(1) represents_forwards by blast
qed

text \<open>Port 0 is the first input port, if it is one; then the routes are those of the mappings.\<close>

definition zero_first :: "nat list \<Rightarrow> bool" where
  "zero_first ps \<longleftrightarrow> (0 \<in> set ps \<longrightarrow> hd ps = 0)"

lemma routed_append: "routed mc (ms @ zs) r = routed mc zs (routed mc ms r)"
  by (simp add: routed_def)

lemma table_of_keys: "map fst (table_of mc ms) = inputs mc ms"
  by (simp add: table_of_def comp_def)

lemma route_table_of:
  assumes "port_of mc (fst m) = 0 \<longrightarrow> ms = [] \<or> 0 \<in> set (inputs mc ms)"
  shows "route (port_of mc (fst m)) (port_of mc (snd m)) (table_of mc ms, []) = (table_of mc (ms @ [m]), [])"
proof -
  let ?p = "port_of mc (fst m)" and ?q = "port_of mc (snd m)"
  have k: "fst ` set (table_of mc ms) = set (inputs mc ms)" by (metis list.set_map table_of_keys)
  have e: "table_of mc ms = [] \<longleftrightarrow> ms = []" by (simp add: table_of_def inputs_Nil)
  show ?thesis
  proof (cases "?p \<in> set (inputs mc ms)")
    case True
    then have "route ?p ?q (table_of mc ms, []) = (map (\<lambda>(p', outs). (p', if p' = ?p then outs @ [?q] else outs)) (table_of mc ms), [])"
      by (simp add: route_def k)
    then show ?thesis using True by (auto simp: table_of_def inputs_snoc outputs_snoc)
  next
    case False
    have "?p = 0 \<longrightarrow> table_of mc ms = []" using assms False e by metis
    then have "route ?p ?q (table_of mc ms, []) = (table_of mc ms @ [(?p, [?q])], [])" using False by (auto simp: route_def k)
    moreover have "map (\<lambda>p. (p, outputs mc (ms @ [m]) p)) (inputs mc ms) = table_of mc ms"
      using False by (auto simp: table_of_def outputs_snoc)
    ultimately show ?thesis using False outputs_none [OF False] by (simp add: table_of_def inputs_snoc) (simp add: outputs_snoc)
  qed
qed

lemma zero_first_append: "zero_first (inputs mc (ms @ zs)) \<Longrightarrow> zero_first (inputs mc ms)"
proof -
  assume z: "zero_first (inputs mc (ms @ zs))"
  obtain ps where ps: "inputs mc (ms @ zs) = inputs mc ms @ ps" using inputs_append by blast
  show "zero_first (inputs mc ms)" using z unfolding zero_first_def ps by (metis UnCI hd_append2 list.set(1) empty_iff set_append)
qed

lemma routed_table_of: "zero_first (inputs mc ms) \<Longrightarrow> routed mc ms ([], []) = (table_of mc ms, [])"
proof (induction ms rule: rev_induct)
  case Nil
  then show ?case by (simp add: routed_def table_of_def inputs_def)
next
  case (snoc m ms)
  have "port_of mc (fst m) = 0 \<longrightarrow> ms = [] \<or> 0 \<in> set (inputs mc ms)"
  proof (intro impI disjCI)
    assume z: "port_of mc (fst m) = 0" and no: "0 \<notin> set (inputs mc ms)"
    then have "inputs mc (ms @ [m]) = inputs mc ms @ [0]" by (simp add: inputs_snoc)
    then have "hd (inputs mc ms @ [0]) = 0" using snoc.prems by (simp add: zero_first_def)
    then show "ms = []" using no by (metis hd_append2 hd_in_set inputs_Nil)
  qed
  then show ?case
    using snoc.IH [OF zero_first_append [OF snoc.prems]] route_table_of by (simp add: routed_append) (simp add: routed_def)
qed

lemma forwards_loaded:
  assumes "settings_file mc fs f k es" and "\<not> malloc_fails mc" and "zero_first (inputs mc (mappings es))"
  shows "\<exists>conf. parse_args mc fs [Inl f] initial_configuration = Some (conf, 0) \<and> forwards conf = table_of mc (mappings es)"
  using forwards_routed [OF assms(1,2)] routed_table_of [OF assms(3)] by auto

text \<open>
  C8.  Refinement of the table of mappings.  From a file of settings that fits, the ports that are read are
  the input ports of the mappings in the order of their first lines, and each forwards to exactly the output
  ports of its lines, in their order.  Port 0 must be the first input port or none.
\<close>

theorem mappings_grouped:
  assumes "settings_file mc fs f k es" and "\<not> malloc_fails mc" and "zero_first (inputs mc (mappings es))"
  shows "\<exists>conf. parse_args mc fs [Inl f] initial_configuration = Some (conf, 0) \<and> forwards conf = table_of mc (mappings es)"
  by (rule forwards_loaded [OF assms])

theorem mappings_grouped_witness:
  "\<exists>conf. parse_args some_machine (\<lambda>_. Some (file_text some_items)) [Inl (str ''a'')] initial_configuration = Some (conf, 0)
    \<and> forwards conf = [(1, [2])]"
  using mappings_grouped [OF some_settings_file]
  by (simp add: some_ports zero_first_def table_of_def inputs_def outputs_def mappings_def some_entries_before_def)








end
