(* ===== verification/Setup_Properties.thy ===== *)
theory Setup_Properties
  imports Setup Config_Properties
begin

text \<open>
  Properties of the start: which ports are set up, and what the seed of the ports does to the directions of
  a connection.
\<close>

section \<open>Used ports\<close>

lemma with_group_used: "with_group st i f = Some (st', r) \<Longrightarrow> used_ports st' = used_ports st"
  by (auto simp: with_group_def split: groups.splits if_splits Option.bind_splits)

lemma group_entry_used: "group_entry st i n v = Some (st', r) \<Longrightarrow> used_ports st' = used_ports st"
  by (auto simp: group_entry_def split: if_splits dest: with_group_used)

lemma mapping_entry_used:
  "mapping_entry mc st n v = Some (st', r) \<Longrightarrow> used_ports st' = (used_ports st)[port_of mc n := 1, port_of mc v := 1]
     \<and> port_of mc n < length (used_ports st) \<and> port_of mc v < length (used_ports st)"
  by (auto simp: mapping_entry_def store_def Let_def split: if_splits Option.bind_splits option.splits)

lemma parse_ini_used:
  "sec \<noteq> str ''interfaces_mappings'' \<Longrightarrow> parse_ini mc st sec n v = Some (st', r) \<Longrightarrow> used_ports st' = used_ports st"
  by (auto simp: parse_ini_def split: if_splits Option.bind_splits option.splits groups.splits dest: group_entry_used)

text \<open>The ports that the mappings name.\<close>

definition mapped_ports :: "machine \<Rightarrow> (u8 list \<times> u8 list) list \<Rightarrow> nat list" where
  "mapped_ports mc ms = concat (map (\<lambda>(n, v). [port_of mc n, port_of mc v]) ms)"

lemma load_used:
  "load_all mc es st = Some st' \<Longrightarrow> length (used_ports st') = length (used_ports st)
     \<and> (\<forall>p < length (used_ports st). used_ports st' ! p = (if p \<in> set (mapped_ports mc (mappings es)) then 1 else used_ports st ! p))"
proof (induction es arbitrary: st)
  case (Cons e es)
  obtain sec n v st1 r where e: "e = (sec, n, v)" and 1: "parse_ini mc st sec n v = Some (st1, r)" "load_all mc es st1 = Some st'"
    using Cons.prems by (cases e) (auto split: Option.bind_splits)
  show ?case
  proof (cases "sec = str ''interfaces_mappings''")
    case True
    then have "mapping_entry mc st n v = Some (st1, r)" using 1(1) by (simp add: parse_ini_def)
    then show ?thesis using mapping_entry_used Cons.IH [OF 1(2)] e True
      by (auto simp: mapped_ports_def mappings_def nth_list_update)
  next
    case False
    then have "mappings (e # es) = mappings es" by (simp add: mappings_def e)
    then show ?thesis using parse_ini_used [OF False 1(1)] Cons.IH [OF 1(2)] by simp
  qed
qed (simp add: mapped_ports_def mappings_def)

lemma used_loaded:
  assumes "settings_file mc fs f k es" and "\<not> malloc_fails mc"
    and "parse_args mc fs [Inl f] initial_configuration = Some (conf, 0)"
  shows "length (used_ports conf) = MAX_INTERFACES
    \<and> (\<forall>p < MAX_INTERFACES. used_ports conf ! p = (if p \<in> set (mapped_ports mc (mappings es)) then 1 else 0))"
proof -
  obtain items pre num where f: "fs f = Some (file_text items)" "\<forall>i \<in> set items. item_ok i" "length f < MAX_STR"
    "entries [] items = pre @ (str ''general'', str ''num_config'', num) # es" "preamble pre"
    using assms(1) unfolding settings_file_def by fastforce
  have "load_all mc (entries [] items) initial_configuration = Some conf"
    using parse_args_load [of fs f items, OF f(1-3)] assms(3) by auto
  moreover have "mappings (entries [] items) = mappings es"
    using f(5) by (force simp: f(4) mappings_def preamble_def filter_empty_conv)
  ultimately show ?thesis using load_used [of mc "entries [] items" initial_configuration conf] by (simp add: initial_configuration_def)
qed

section \<open>Ports\<close>

text \<open>The calls that set up a port with \<open>n\<close> queues in each direction.\<close>

definition queue_calls :: "nat \<Rightarrow> nat list \<Rightarrow> port_call list" where
  "queue_calls i js = concat (map (\<lambda>j. [Rx_queue i j, Rx_stats i j, Tx_queue i j, Tx_stats i j]) js)"

definition port_calls :: "nat \<Rightarrow> nat \<Rightarrow> bool \<Rightarrow> port_call list" where
  "port_calls n i ff = Configure i n n ff rss_seed # Adjust i # queue_calls i [0..<n] @ [Start i, Promiscuous i]"

lemma init_queues_done: "init_queues d i js s = Inr s' \<Longrightarrow> s' = s\<lparr>calls := calls s @ queue_calls i js\<rparr>"
proof (induction js arbitrary: s)
  case (Cons j js)
  have "init_queues d i js (s\<lparr>calls := calls s @ [Rx_queue i j, Rx_stats i j, Tx_queue i j, Tx_stats i j]\<rparr>) = Inr s'"
    using Cons.prems by (auto simp: call_def Let_def split: if_splits)
  from Cons.IH [OF this] show ?case by (simp add: queue_calls_def)
qed (simp add: queue_calls_def)

lemma init_port_done:
  "init_port d n i s = Inr s' \<Longrightarrow> fast_free s' = (fast_free s \<or> fast_free_capa d i)
     \<and> calls s' = calls s @ port_calls n i (fast_free s')"
  by (auto simp: init_port_def Let_def call_def port_calls_def split: if_splits sum.splits dest!: init_queues_done)

lemma port_calls_of: "filter (\<lambda>c. port_of_call c = j) (port_calls n i ff) = (if i = j then port_calls n i ff else [])"
proof -
  have "\<forall>c \<in> set (port_calls n i ff). port_of_call c = i" by (auto simp: port_calls_def queue_calls_def)
  then show ?thesis by (auto simp: filter_id_conv filter_empty_conv)
qed

text \<open>The loop over the ports: which are set up, and with which flag.\<close>

lemma init_used_done:
  assumes "init_used d n used [k..<m] s = Some (Inr s')" and "k \<le> m"
  shows "(k < m \<longrightarrow> m \<le> length used) \<and> (\<forall>i. filter (\<lambda>c. port_of_call c = i) (calls s') = filter (\<lambda>c. port_of_call c = i) (calls s)
    @ (if k \<le> i \<and> i < m \<and> used ! i = 1
       then port_calls n i (fast_free s \<or> (\<exists>j \<in> {k..i}. used ! j = 1 \<and> fast_free_capa d j)) else []))"
  using assms
proof (induction "m - k" arbitrary: k s)
  case (Suc x)
  then have "k < m" by simp
  then have up: "[k..<m] = k # [Suc k..<m]" by (simp add: upt_conv_Cons)
  obtain s1 where k: "k < length used" and 1: "(if used ! k = 1 then init_port d n k s else Inr s) = Inr s1"
    "init_used d n used [Suc k..<m] s1 = Some (Inr s')"
    using Suc.prems(1) unfolding up by (auto split: if_splits sum.splits)
  have ff: "fast_free s1 = (fast_free s \<or> used ! k = 1 \<and> fast_free_capa d k)"
    and c: "calls s1 = calls s @ (if used ! k = 1 then port_calls n k (fast_free s1) else [])"
    using 1(1) init_port_done [of d n k s s1] by (auto split: if_splits)
  have IH: "(Suc k < m \<longrightarrow> m \<le> length used) \<and> (\<forall>i. filter (\<lambda>c. port_of_call c = i) (calls s') = filter (\<lambda>c. port_of_call c = i) (calls s1)
    @ (if Suc k \<le> i \<and> i < m \<and> used ! i = 1
       then port_calls n i (fast_free s1 \<or> (\<exists>j \<in> {Suc k..i}. used ! j = 1 \<and> fast_free_capa d j)) else []))"
    by (rule Suc.hyps(1)) (use Suc.hyps(2) \<open>k < m\<close> 1(2) in auto)
  have len: "m \<le> length used" using IH k \<open>k < m\<close> by (cases "Suc k < m") auto
  have "filter (\<lambda>c. port_of_call c = i) (calls s') = filter (\<lambda>c. port_of_call c = i) (calls s)
    @ (if k \<le> i \<and> i < m \<and> used ! i = 1
       then port_calls n i (fast_free s \<or> (\<exists>j \<in> {k..i}. used ! j = 1 \<and> fast_free_capa d j)) else [])" for i
  proof (cases "i = k")
    case True
    then show ?thesis using IH c ff \<open>k < m\<close> by (simp add: port_calls_of)
  next
    case False
    have "{k..i} = insert k {Suc k..i}" if "Suc k \<le> i" using that by auto
    then have "(\<exists>j \<in> {k..i}. used ! j = 1 \<and> fast_free_capa d j)
        = (used ! k = 1 \<and> fast_free_capa d k \<or> (\<exists>j \<in> {Suc k..i}. used ! j = 1 \<and> fast_free_capa d j))" if "Suc k \<le> i"
      using that by simp
    then show ?thesis using IH c ff False by (auto simp: port_calls_of)
  qed
  then show ?case using len by blast
qed auto

text \<open>A port whose set-up succeeds.\<close>

definition port_works :: "dpdk \<Rightarrow> nat \<Rightarrow> bool" where
  "port_works d i \<longleftrightarrow> lcore_count d \<le> max_rx_queues d i \<and> (\<forall>ff. 0 \<le> dev_configure d i ff) \<and> 0 \<le> adjust_desc d i
     \<and> (\<forall>j < lcore_count d. 0 \<le> rx_queue_setup d i j \<and> 0 \<le> tx_queue_setup d i j) \<and> 0 \<le> dev_start d i"

lemma queues_set_up:
  "\<forall>j \<in> set js. 0 \<le> rx_queue_setup d i j \<and> 0 \<le> tx_queue_setup d i j \<Longrightarrow> \<exists>s'. init_queues d i js s = Inr s'"
  by (induction js arbitrary: s) (auto simp: Let_def)

lemma port_set_up:
  assumes "port_works d i"
  shows "\<exists>s'. init_port d (lcore_count d) i s = Inr s'"
proof -
  have w: "lcore_count d \<le> max_rx_queues d i" "0 \<le> dev_configure d i ff" "0 \<le> adjust_desc d i" "0 \<le> dev_start d i" for ff
    using assms by (auto simp: port_works_def)
  have "\<exists>s'. init_queues d i [0..<lcore_count d] s = Inr s'" for s
    by (rule queues_set_up) (use assms in \<open>auto simp: port_works_def\<close>)
  then show ?thesis using w by (auto simp: init_port_def Let_def not_less split: sum.splits) (metis sum.distinct(1))+
qed

lemma used_set_up:
  "\<forall>i \<in> set ports. i < length used \<and> (used ! i = 1 \<longrightarrow> port_works d i)
    \<Longrightarrow> \<exists>s'. init_used d (lcore_count d) used ports s = Some (Inr s')"
proof (induction ports arbitrary: s)
  case (Cons i ports)
  obtain s1 where "(if used ! i = 1 then init_port d (lcore_count d) i s else Inr s) = Inr s1"
    using port_set_up [of d i s] Cons.prems by (cases "used ! i = 1") auto
  then show ?case using Cons.IH [of s1] Cons.prems by simp
qed simp

lemma main_running:
  assumes "main d mc inet fs stack fails mem mem_flows opts p = Some (Running conf p' cs)"
  shows "\<exists>s'. parse_args mc fs opts initial_configuration = Some (conf, 0) \<and> 0 < dev_count d
    \<and> process_packet_init inet fs stack fails mem mem_flows (lcore_count d) conf p = Some p'
    \<and> init_used d (lcore_count d) (used_ports conf) [0..<dev_count d] \<lparr>fast_free = False, calls = []\<rparr> = Some (Inr s')
    \<and> cs = calls s'"
  using assms
  by (auto simp: main_def parse_args_def split: if_splits Option.bind_splits sum.splits option.splits)

text \<open>
  C9.  The set-up of the ports.  When the program gets to its main loop with a file of settings that fits,
  there are at most 64 ports; every port of the machine that a mapping names, as input or output, has been
  configured with one queue per core in each direction, each of the queues has been set up, and then the port
  has been started; of all other ports none has been touched.  A port is configured with FAST_FREE when it or
  any used port before it supports that: the flag is never taken back.
\<close>

theorem ports_started:
  assumes "settings_file mc fs f k es" and "\<not> malloc_fails mc"
    and "main d mc inet fs stack fails mem mem_flows [Inl f] p = Some (Running conf p' cs)"
  shows "dev_count d \<le> MAX_INTERFACES \<and> (\<forall>i. filter (\<lambda>c. port_of_call c = i) cs =
    (if i < dev_count d \<and> i \<in> set (mapped_ports mc (mappings es))
     then port_calls (lcore_count d) i (\<exists>j \<le> i. j \<in> set (mapped_ports mc (mappings es)) \<and> fast_free_capa d j) else []))"
proof -
  let ?s = "\<lparr>fast_free = False, calls = []\<rparr>"
  obtain s' where a: "parse_args mc fs [Inl f] initial_configuration = Some (conf, 0)" "0 < dev_count d"
    and i: "init_used d (lcore_count d) (used_ports conf) [0..<dev_count d] ?s = Some (Inr s')" "cs = calls s'"
    using main_running [OF assms(3)] by blast
  note u = used_loaded [OF assms(1,2) a(1)]
  note d = init_used_done [OF i(1) le0]
  have len: "dev_count d \<le> MAX_INTERFACES" using d a(2) u by auto
  have "used_ports conf ! j = 1 \<longleftrightarrow> j \<in> set (mapped_ports mc (mappings es))" if "j < dev_count d" for j
    using u len that by simp
  then have "(\<exists>j \<in> {0..i}. used_ports conf ! j = 1 \<and> fast_free_capa d j)
      = (\<exists>j \<le> i. j \<in> set (mapped_ports mc (mappings es)) \<and> fast_free_capa d j)" if "i < dev_count d" for i
    using that by (metis atLeastAtMost_iff le0 le_less_trans)
  then show ?thesis using d len i(2) \<open>\<And>j. j < dev_count d \<Longrightarrow> used_ports conf ! j = 1 \<longleftrightarrow> _\<close> by auto
qed

end
