(* ===== verification/Program_Properties.thy ===== *)
theory Program_Properties
  imports Program Process_Properties Net_Properties
begin

text \<open>
  Properties of the program around the packets: every output port gets the packets of a burst under its
  own key, and the keys are those of the configuration.
\<close>

section \<open>Ports\<close>

definition port_ok :: "program \<Rightarrow> nat \<Rightarrow> nat \<Rightarrow> bool" where
  "port_ok p core port \<longleftrightarrow> operational (fst (p_crypto p core port)) (snd (p_crypto p core port))"

definition port_image :: "program \<Rightarrow> nat \<Rightarrow> nat \<Rightarrow> u32 \<Rightarrow> u32" where
  "port_image p core port = translate (snd (p_crypto p core port)) (m_pad (fst (p_crypto p core port)))"

lemma at_port_working: "working (at_port p core port) = port_ok p core port"
  and at_port_image: "anon_image (at_port p core port) = port_image p core port"
  by (simp_all add: at_port_def working_def port_ok_def anon_image_def port_image_def)

text \<open>The keys of a core that work go on working, with the same translation.\<close>

definition same_keys :: "nat \<Rightarrow> program \<Rightarrow> program \<Rightarrow> bool" where
  "same_keys core p p' \<longleftrightarrow> p_nets p' = p_nets p
     \<and> (\<forall>port. port_ok p core port \<longrightarrow> port_ok p' core port \<and> port_image p' core port = port_image p core port)"

lemma same_keys_refl [simp]: "same_keys core p p"
  by (simp add: same_keys_def)

lemma same_keys_trans: "same_keys core p p' \<Longrightarrow> same_keys core p' p'' \<Longrightarrow> same_keys core p p''"
  by (simp add: same_keys_def)

text \<open>What a port delivers of a packet; a packet with an exempt address keeps its addresses.\<close>

definition image_at :: "program \<Rightarrow> nat \<Rightarrow> nat \<Rightarrow> u32 \<Rightarrow> u32" where
  "image_at p core port a = (if anon_ip_check (p_nets p) a then port_image p core port a else a)"

definition delivered :: "program \<Rightarrow> nat \<Rightarrow> nat \<Rightarrow> mbuf \<Rightarrow> mbuf \<Rightarrow> bool" where
  "delivered p core port m m' \<longleftrightarrow> pkt_len m' = pkt_len m
     \<and> source_of m' = unless_exempt (p_nets p) m (image_at p core port) (source_of m)
     \<and> destination_of m' = unless_exempt (p_nets p) m (image_at p core port) (destination_of m)
     \<and> (\<forall>i < unat (pkt_len m). i < 26 \<or> 34 \<le> i \<longrightarrow> room m' ! i = room m ! i)"

lemma delivered_same_keys:
  "same_keys core p p' \<Longrightarrow> port_ok p core port \<Longrightarrow> delivered p' core port = delivered p core port"
  by (simp add: delivered_def unless_exempt_def image_at_def same_keys_def fun_eq_iff)

definition plain_port :: "configuration \<Rightarrow> program \<Rightarrow> nat \<Rightarrow> nat \<Rightarrow> bool" where
  "plain_port conf p core port \<longleftrightarrow> port < length (out_interface conf) \<and> addresses_only (out_interface conf ! port)
     \<and> port_ok p core port"

text \<open>An IPv4 packet that contains the header of IP.\<close>

definition plain_packet :: "mbuf \<Rightarrow> bool" where
  "plain_packet m \<longleftrightarrow> mbuf_ok m \<and> 34 \<le> unat (pkt_len m) \<and> ipv4_packet m"

lemma forward_delivers:
  assumes "plain_port conf p core port" and "plain_packet m"
  obtains p' m' where "forward conf p core port m tv = Some (p', m')" and "same_keys core p p'"
    and "delivered p core port m m'"
proof -
  let ?w = "at_port p core port"
  obtain w' m' where 1: "process_packet (p_nets p) ?w m (out_interface conf ! port) tv = Some (w', m')"
    "working w'" "anon_image w' = anon_image ?w" "handled (p_nets p) ?w m m'"
    using process_packet_handled [of ?w "out_interface conf ! port" m "p_nets p" tv] assms
    by (auto simp: plain_port_def plain_packet_def at_port_working)
  have "forward conf p core port m tv = Some (back_from p core port w', m')"
    using 1(1) assms(1) by (simp add: forward_def plain_port_def)
  moreover have "same_keys core p (back_from p core port w')"
    using 1(2,3) at_port_image [of p core port]
    by (auto simp: same_keys_def back_from_def port_ok_def port_image_def working_def anon_image_def)
  moreover have "delivered p core port m m'"
    using 1(4) assms(2)
    by (auto simp: delivered_def handled_def unless_exempt_def same_shape_def image_in_def image_at_def at_port_image plain_packet_def mbuf_ok_def)
  ultimately show ?thesis using that by blast
qed

lemma plain_port_same_keys: "same_keys core p p' \<Longrightarrow> plain_port conf p core port \<Longrightarrow> plain_port conf p' core port"
  by (simp add: plain_port_def same_keys_def)

lemma forward_all_delivers:
  assumes "plain_port conf p core port" and "\<forall>m \<in> set ms. plain_packet m"
  shows "\<exists>p' outs. forward_all conf p core port ms clock n = Some (p', outs) \<and> same_keys core p p'
    \<and> list_all2 (delivered p core port) ms outs"
  using assms
proof (induction ms arbitrary: p n)
  case (Cons m ms)
  obtain p1 m' where 1: "forward conf p core port m (clock n) = Some (p1, m')" "same_keys core p p1"
    "delivered p core port m m'"
    using forward_delivers [OF Cons.prems(1), of m "clock n"] Cons.prems(2) by auto
  have "\<forall>m \<in> set ms. plain_packet m" using Cons.prems(2) 1(2) by (simp add: same_keys_def)
  then obtain p' outs where "forward_all conf p1 core port ms clock (Suc n) = Some (p', outs)" "same_keys core p1 p'"
    "list_all2 (delivered p1 core port) ms outs"
    using Cons.IH [OF plain_port_same_keys [OF 1(2) Cons.prems(1)], of "Suc n"] by blast
  then show ?case
    using 1 Cons.prems(1) delivered_same_keys [OF 1(2), of port] same_keys_trans [OF 1(2)] by (auto simp: plain_port_def)
qed simp

text \<open>A copy has the data of the packet.\<close>

lemma deep_copy_nth: "mbuf_ok m \<Longrightarrow> i < unat (pkt_len m) \<Longrightarrow> room (deep_copy fresh m) ! i = room m ! i"
  by (simp add: deep_copy_def mbuf_ok_def nth_append)

lemma deep_copy_shape: "mbuf_ok m \<Longrightarrow> same_shape m (deep_copy fresh m)"
  by (simp add: deep_copy_def mbuf_ok_def same_shape_def)

lemma deep_copy_get:
  assumes "plain_packet m" and "p + 4 \<le> 34"
  shows "get16 (deep_copy fresh m) p = get16 m p" and "get32 (deep_copy fresh m) p = get32 m p"
proof -
  have "get8 (deep_copy fresh m) i = get8 m i" if "i < 34" for i
    using that deep_copy_nth [of m i fresh] deep_copy_shape [of m fresh] assms(1)
    by (auto simp: plain_packet_def get8_def same_shape_def)
  then show "get16 (deep_copy fresh m) p = get16 m p" "get32 (deep_copy fresh m) p = get32 m p"
    using assms(2) by (simp_all add: get16_def get32_def)
qed

lemma deep_copy_plain:
  assumes "plain_packet m"
  shows "plain_packet (deep_copy fresh m)" and "unless_exempt nets (deep_copy fresh m) = unless_exempt nets m"
    and "source_of (deep_copy fresh m) = source_of m" and "destination_of (deep_copy fresh m) = destination_of m"
proof -
  have "same_shape m (deep_copy fresh m)" using assms by (simp add: deep_copy_shape plain_packet_def)
  moreover show f: "source_of (deep_copy fresh m) = source_of m" "destination_of (deep_copy fresh m) = destination_of m"
    by (simp_all add: source_of_def destination_of_def deep_copy_get [OF assms])
  ultimately show "plain_packet (deep_copy fresh m)"
    using assms deep_copy_get(1) [OF assms, of 12 fresh]
    by (simp add: plain_packet_def mbuf_ok_def same_shape_def ipv4_packet_def)
  show "unless_exempt nets (deep_copy fresh m) = unless_exempt nets m" using f by (simp add: unless_exempt_def not_exempt_def fun_eq_iff)
qed

lemma delivered_copy: "plain_packet m \<Longrightarrow> delivered p core port (deep_copy fresh m) m' \<Longrightarrow> delivered p core port m m'"
  using deep_copy_plain [where m = m and fresh = fresh] deep_copy_nth [of m _ fresh] deep_copy_shape [of m fresh]
  by (auto simp: delivered_def plain_packet_def same_shape_def)

definition to_port :: "program \<Rightarrow> nat \<Rightarrow> nat \<times> mbuf \<Rightarrow> nat \<times> mbuf \<Rightarrow> bool" where
  "to_port p core x y \<longleftrightarrow> fst y = fst x \<and> delivered p core (fst x) (snd x) (snd y)"

lemma dispatch_delivers:
  assumes "\<forall>port \<in> set ports. plain_port conf p core port" and "\<forall>m \<in> set ms. plain_packet m"
  shows "\<exists>p' sent. dispatch conf p core ports ms fresh clock n = Some (p', sent) \<and> same_keys core p p'
    \<and> list_all2 (to_port p core) (List.product ports ms) sent"
  using assms
proof (induction ports arbitrary: p n)
  case (Cons port ports)
  let ?pkts = "if ports = [] then ms else map2 (\<lambda>k m. deep_copy (fresh k) m) [n..<n + length ms] ms"
  have plain: "\<forall>m \<in> set ?pkts. plain_packet m"
    using Cons.prems(2) deep_copy_plain(1) by (auto dest: set_zip_rightD)
  have copies: "list_all2 (\<lambda>m c. \<forall>m'. delivered p core port c m' \<longrightarrow> delivered p core port m m') ms ?pkts"
    using Cons.prems(2) by (auto simp: list_all2_conv_all_nth dest: delivered_copy [rotated])
  obtain p1 outs where 1: "forward_all conf p core port ?pkts clock n = Some (p1, outs)" "same_keys core p p1"
    "list_all2 (delivered p core port) ?pkts outs"
    using forward_all_delivers [OF _ plain, of conf p core port clock n] Cons.prems(1) by auto
  have outs: "list_all2 (delivered p core port) ms outs"
    by (rule list_all2_trans [OF _ copies 1(3)]) blast
  have "\<forall>port \<in> set ports. plain_port conf p1 core port" "\<forall>m \<in> set ms. plain_packet m"
    using Cons.prems plain_port_same_keys [OF 1(2)] 1(2) by (simp_all add: same_keys_def)
  then obtain p' sent where 2: "dispatch conf p1 core ports ms fresh clock (n + length ms) = Some (p', sent)" "same_keys core p1 p'"
    "list_all2 (to_port p1 core) (List.product ports ms) sent"
    using Cons.IH by blast
  have "list_all2 (to_port p core) (List.product ports ms) sent"
    by (rule list.rel_mono_strong [OF 2(3)])
      (use delivered_same_keys [OF 1(2)] Cons.prems(1) in \<open>auto simp: to_port_def plain_port_def\<close>)
  moreover have "list_all2 (to_port p core) (map (Pair port) ms) (map (Pair port) outs)"
    using outs by (simp add: list_all2_map1 list_all2_map2 to_port_def)
  ultimately show ?case using 1(1) 2(1) same_keys_trans [OF 1(2) 2(2)] by (auto simp: Let_def intro!: list_all2_appendI)
qed simp

text \<open>
  C19.  Ports that only translate addresses do not show in each other's traffic.  Let the output ports be set
  to the translation of addresses and nothing else, each with a cipher that is set up, and let the burst be
  IPv4 packets that contain the header of IP.  Then every port gets every packet of the burst, in the order of
  the ports and of the packets: a packet with an exempt address as it was received, any other with the
  addresses of the networks to anonymise translated under the key of this port and everything else as it was
  received.  So neither the copies, nor the handling of the packet itself for the last port, nor the packets
  handled before, of this port or of another, show in what such a port transmits.
\<close>

theorem every_port_delivers:
  assumes "\<forall>port \<in> set ports. plain_port conf p core port" and "\<forall>m \<in> set ms. plain_packet m"
  shows "\<exists>p' sent. dispatch conf p core ports ms fresh clock n = Some (p', sent)
    \<and> list_all2 (to_port p core) (List.product ports ms) sent"
  using dispatch_delivers [OF assms] by blast

text \<open>Two ports with keys of their own, and a packet for both.\<close>

definition two_ports :: configuration where
  "two_ports = initial_configuration\<lparr>out_interface := [address_settings, address_settings]\<rparr>"

definition two_keys :: "world \<Rightarrow> u32 \<Rightarrow> u32 \<Rightarrow> program" where
  "two_keys w x y = \<lparr>p_world = w, p_crypto = (\<lambda>_ _. (warm_crypto_ip x y, ready_rijndael)), p_nets = office\<rparr>"

theorem every_port_delivers_witness:
  "\<exists>x y. \<forall>w. \<exists>p' m0 m1. dispatch two_ports (two_keys w x y) 3 [0, 1] [mk_packet office_room 60] (\<lambda>_ _. 0xFF) (\<lambda>_. 0) 0
      = Some (p', [(0, m0), (1, m1)])
    \<and> source_of m0 = port_image (two_keys w x y) 3 0 0x0100000a \<and> destination_of m1 = 9"
proof -
  obtain x y where o: "operational (warm_crypto_ip x y) ready_rijndael" using operational_example by blast
  let ?m = "mk_packet office_room 60" and ?p = "\<lambda>w. two_keys w x y"
  have s: "addresses_only address_settings" by (simp add: addresses_only_def address_settings_def)
  have n: "plain_packet ?m"
    by (simp add: plain_packet_def office_packet mbuf_ok_def) (simp add: mk_packet_def office_room_def)
  have x: "not_exempt office ?m" by (simp add: not_exempt_def office_packet no_anon_ip_check_def office_def)
  have "\<exists>p' m0 m1. dispatch two_ports (?p w) 3 [0, 1] [?m] (\<lambda>_ _. 0xFF) (\<lambda>_. 0) 0 = Some (p', [(0, m0), (1, m1)])
    \<and> source_of m0 = port_image (?p w) 3 0 0x0100000a \<and> destination_of m1 = 9" for w
    using every_port_delivers [of "[0, 1]" two_ports "?p w" 3 "[?m]" "\<lambda>_ _. 0xFF" "\<lambda>_. 0" 0] o s n x
    by (auto simp: two_ports_def two_keys_def plain_port_def port_ok_def list_all2_Cons1 to_port_def delivered_def unless_exempt_def
        office_packet image_at_def anon_ip_check_def office_def)
  then show ?thesis by blast
qed


section \<open>Keys from the configuration\<close>

definition keyed_with :: "crypto_ip \<times> rijndael \<Rightarrow> u8 list \<Rightarrow> bool" where
  "keyed_with c key \<longleftrightarrow> operational (fst c) (snd c) \<and> r_encrypt (snd c) = key_cipher key \<and> m_pad (fst c) = key_pad key"

lemma init_cores_frame:
  "init_cores stack key i data n = Some data' \<Longrightarrow> i' \<noteq> i \<or> n \<le> c \<Longrightarrow> data' c i' = data c i'"
  by (induction n arbitrary: data') (auto simp: Let_def split: Option.bind_splits if_splits prod.splits)

lemma initialize_crypto_keyed:
  assumes "initialize_crypto stack self rj (Some (base64 key)) i = Some c" and "shaped (m_expandedKey rj)"
    and "length key = 32" and "i < MAX_INTERFACES"
  shows "keyed_with c key"
proof -
  have "stack = 0" using assms(1) by (auto simp: initialize_crypto_def Let_def split: Option.bind_splits if_splits)
  moreover obtain self' rj' where "initialize_crypto 0 self rj (Some (base64 key)) i = Some (self', rj')"
    "operational self' rj'" "r_encrypt rj' = key_cipher key" "m_pad self' = key_pad key"
    by (rule initialize_crypto_operational [OF assms(2-4)])
  ultimately show ?thesis using assms(1) by (auto simp: keyed_with_def)
qed

lemma init_cores_keyed:
  assumes "init_cores stack (base64 key) i data n = Some data'" and "\<forall>c. shaped (m_expandedKey (snd (data c i)))"
    and "length key = 32" and "i < MAX_INTERFACES" and "c < n"
  shows "keyed_with (data' c i) key"
  using assms(1,5)
proof (induction n arbitrary: data')
  case (Suc n)
  obtain data1 c1 where 1: "init_cores stack (base64 key) i data n = Some data1"
    "initialize_crypto (stack n i) (fst (data1 n i)) (snd (data1 n i)) (Some (base64 key)) i = Some c1"
    "data' = data1(n := (data1 n)(i := c1))"
    using Suc.prems(1) by (auto simp: Let_def split_def split: Option.bind_splits if_splits)
  have "data1 n i = data n i" using init_cores_frame [OF 1(1)] by simp
  then have "keyed_with c1 key" using initialize_crypto_keyed [OF 1(2) _ assms(3,4)] assms(2) by simp
  then show ?case using Suc.IH [OF 1(1)] Suc.prems(2) 1(3) by (cases "c = n") auto
qed simp

text \<open>A port whose settings ask for translation with the base 64 text of a key.\<close>

definition has_key :: "out_interface_sett \<Rightarrow> u8 list \<Rightarrow> bool" where
  "has_key s key \<longleftrightarrow> anon_ip_enabled s = 1 \<and> anon_ip_key_mode s = static_str \<and> anon_ip_key s = base64 key \<and> length key = 32"

lemma init_port_frame: "init_port_data inet fs stack cores s i p = Some p' \<Longrightarrow> i' \<noteq> i \<Longrightarrow> p_crypto p' c i' = p_crypto p c i'"
  by (auto simp: init_port_data_def Let_def split_def init_cores_frame split: Option.bind_splits if_splits)

lemma init_ports_frame: "init_ports inet fs stack cores ss i p = Some p' \<Longrightarrow> i' < i \<Longrightarrow> p_crypto p' c i' = p_crypto p c i'"
  by (induction ss arbitrary: i p) (auto split: Option.bind_splits, metis init_port_frame less_irrefl)

lemma init_port_keyed:
  assumes "init_port_data inet fs stack cores s i p = Some p'" and "has_key s key"
    and "\<forall>c. shaped (m_expandedKey (snd (p_crypto p c i)))" and "i < MAX_INTERFACES" and "c < cores"
  shows "keyed_with (p_crypto p' c i) key"
  using assms(1,2) init_cores_keyed [where data = "p_crypto p", OF _ assms(3) _ assms(4,5), of stack key]
  by (auto simp: init_port_data_def has_key_def Let_def split_def split: Option.bind_splits if_splits)

lemma init_ports_keyed:
  assumes "init_ports inet fs stack cores ss i0 p = Some p'" and "k < length ss" and "has_key (ss ! k) key"
    and "\<forall>c i. i0 \<le> i \<longrightarrow> shaped (m_expandedKey (snd (p_crypto p c i)))" and "i0 + length ss \<le> MAX_INTERFACES" and "c < cores"
  shows "keyed_with (p_crypto p' c (i0 + k)) key"
  using assms(1-5)
proof (induction ss arbitrary: i0 p k)
  case (Cons s ss)
  obtain p1 where 1: "init_port_data inet fs stack cores s i0 p = Some p1" "init_ports inet fs stack cores ss (Suc i0) p1 = Some p'"
    using Cons.prems(1) by (auto split: Option.bind_splits)
  show ?case
  proof (cases k)
    case 0
    have "keyed_with (p_crypto p1 c i0) key"
      by (rule init_port_keyed [OF 1(1) _ _ _ assms(6)]) (use Cons.prems(3-5) 0 in simp_all)
    then show ?thesis using init_ports_frame [OF 1(2), of i0 c] 0 by simp
  next
    case (Suc k')
    have "\<forall>c i. Suc i0 \<le> i \<longrightarrow> shaped (m_expandedKey (snd (p_crypto p1 c i)))"
      using Cons.prems(4) init_port_frame [OF 1(1)] by (metis Suc_le_eq less_imp_le less_irrefl)
    then show ?thesis using Cons.IH [OF 1(2), of k'] Cons.prems(2,3,5) Suc by simp
  qed
qed simp

lemma init_ports_world: "init_ports inet fs stack cores ss i p = Some p' \<Longrightarrow> p_world p' = p_world p"
  by (induction ss arbitrary: i p)
    (auto simp: init_port_data_def Let_def split_def split: Option.bind_splits if_splits)

text \<open>The networks that the files of a port name.\<close>

definition networks_of :: "inet \<Rightarrow> (u8 list \<Rightarrow> u8 list option) \<Rightarrow> out_interface_sett \<Rightarrow> nets" where
  "networks_of inet fs s =
     (let (_, nets4, nets6) = ParseNetFile inet (the (fs (anon_subnet_file s))) MAX_SUBNETS;
          (_, no_nets4, no_nets6) = ParseNetFile inet (the (fs (no_anon_subnet_file s))) MAX_SUBNETS
      in \<lparr>anon_nets = nets4, anon_nets6 = nets6, no_anon_nets = no_nets4, no_anon_nets6 = no_nets6\<rparr>)"

lemma init_ports_nets:
  assumes "init_ports inet fs stack cores ss i p = Some p'"
  shows "p_nets p' = (case filter (\<lambda>s. anon_ip_enabled s = 1) ss of [] \<Rightarrow> p_nets p | l \<Rightarrow> networks_of inet fs (last l))"
  using assms
proof (induction ss arbitrary: i p)
  case (Cons s ss)
  obtain p1 where 1: "init_port_data inet fs stack cores s i p = Some p1" "init_ports inet fs stack cores ss (Suc i) p1 = Some p'"
    using Cons.prems by (auto split: Option.bind_splits)
  have "p_nets p1 = (if anon_ip_enabled s = 1 then networks_of inet fs s else p_nets p)"
    using 1(1) by (auto simp: init_port_data_def networks_of_def Let_def split_def split: Option.bind_splits if_splits)
  then show ?case using Cons.IH [OF 1(2)] by (auto split: list.splits)
qed simp

text \<open>The image of an address under the key of a port, if it is in the networks to anonymise.\<close>

definition crypto_pan_in :: "nets \<Rightarrow> u8 list \<Rightarrow> u32 \<Rightarrow> u32" where
  "crypto_pan_in nets key a =
     (if anon_ip_check nets a then htonl (cryptopan (key_cipher key) (key_pad key) (htonl a)) else a)"

lemma init_images:
  assumes "process_packet_init inet fs stack fails mem mem_flows cores conf p = Some p'" and "core < cores"
    and "\<forall>port \<in> set ports. port < length (out_interface conf) \<and> addresses_only (out_interface conf ! port)
      \<and> has_key (out_interface conf ! port) (keys port)"
    and "length (out_interface conf) \<le> MAX_INTERFACES" and "\<forall>c i. shaped (m_expandedKey (snd (p_crypto p c i)))"
    and "port \<in> set ports"
  shows "plain_port conf p' core port" and "image_at p' core port = crypto_pan_in (p_nets p') (keys port)"
proof -
  have k: "keyed_with (p_crypto p' core port) (keys port)"
    using init_ports_keyed [of inet fs stack cores "out_interface conf" 0 p _ port "keys port" core] assms
    by (auto simp: process_packet_init_def split: Option.bind_splits)
  then show "plain_port conf p' core port" using assms(3,6) by (auto simp: plain_port_def port_ok_def keyed_with_def)
  have "r_encrypt (snd (p_crypto p' core port)) = key_cipher (keys port)"
    "m_pad (fst (p_crypto p' core port)) = key_pad (keys port)"
    using k by (simp_all add: keyed_with_def)
  then show "image_at p' core port = crypto_pan_in (p_nets p') (keys port)"
    by (intro ext) (simp add: image_at_def crypto_pan_in_def port_image_def translate_def)
qed

text \<open>What is sent to a port under its key.\<close>

definition under_key :: "nets \<Rightarrow> (nat \<Rightarrow> u8 list) \<Rightarrow> nat \<times> mbuf \<Rightarrow> nat \<times> mbuf \<Rightarrow> bool" where
  "under_key nets keys x y \<longleftrightarrow> fst y = fst x \<and> pkt_len (snd y) = pkt_len (snd x)
     \<and> source_of (snd y) = unless_exempt nets (snd x) (crypto_pan_in nets (keys (fst x))) (source_of (snd x))
     \<and> destination_of (snd y) = unless_exempt nets (snd x) (crypto_pan_in nets (keys (fst x))) (destination_of (snd x))
     \<and> (\<forall>i < unat (pkt_len (snd x)). i < 26 \<or> 34 \<le> i \<longrightarrow> room (snd y) ! i = room (snd x) ! i)"

lemma to_port_under_key:
  "image_at p core (fst x) = crypto_pan_in (p_nets p) (keys (fst x)) \<Longrightarrow> to_port p core x y \<Longrightarrow> under_key (p_nets p) keys x y"
  by (simp add: to_port_def delivered_def under_key_def)

text \<open>
  Functional correctness from the settings on.  When process_packet_init returns, a burst of IPv4
  packets for ports whose settings hold the base 64 text of a 32-byte key is delivered to every one of them
  with each address, if it is in the networks that were read and the packet is not exempt, replaced by its
  Crypto-PAn image under the key of that port, on every core that was initialised.
\<close>

theorem configured_keys_translate:
  assumes "process_packet_init inet fs stack fails mem mem_flows cores conf p = Some p'" and "core < cores"
    and "\<forall>port \<in> set ports. port < length (out_interface conf) \<and> addresses_only (out_interface conf ! port)
      \<and> has_key (out_interface conf ! port) (keys port)"
    and "length (out_interface conf) \<le> MAX_INTERFACES" and "\<forall>c i. shaped (m_expandedKey (snd (p_crypto p c i)))"
    and "\<forall>m \<in> set ms. plain_packet m"
  shows "\<exists>p'' sent. dispatch conf p' core ports ms fresh clock n = Some (p'', sent)
    \<and> list_all2 (under_key (p_nets p') keys) (List.product ports ms) sent"
proof -
  note i = init_images [OF assms(1-5)]
  obtain p'' sent where d: "dispatch conf p' core ports ms fresh clock n = Some (p'', sent)"
    "list_all2 (to_port p' core) (List.product ports ms) sent"
    using dispatch_delivers [of ports conf p' core ms fresh clock n] i(1) assms(6) by blast
  have "list_all2 (under_key (p_nets p') keys) (List.product ports ms) sent"
  proof (rule list.rel_mono_strong [OF d(2)])
    fix x y assume x: "x \<in> set (List.product ports ms)" and t: "to_port p' core x y"
    have "fst x \<in> set ports" using x by auto
    then have "image_at p' core (fst x) = crypto_pan_in (p_nets p') (keys (fst x))" by (rule i(2))
    then show "under_key (p_nets p') keys x y" using t by (rule to_port_under_key)
  qed
  then show ?thesis using d(1) by blast
qed

section \<open>Rounds\<close>

text \<open>What the input ports \<open>es\<close> have to send of their bursts, with the ports.\<close>

definition due :: "nat list list \<Rightarrow> mbuf list list \<Rightarrow> (nat \<times> mbuf) list" where
  "due outs bursts = concat (map2 List.product outs bursts)"

lemma due_port: "x \<in> set (due (map destinations es) bursts) \<Longrightarrow> \<exists>e \<in> set es. fst x \<in> set (destinations e)"
  by (auto simp: due_def dest!: set_zip_leftD)

lemma poll_delivers:
  assumes "\<forall>e \<in> set es. \<forall>port \<in> set (destinations e). plain_port conf p core port"
    and "\<forall>ms \<in> set bursts. \<forall>m \<in> set ms. plain_packet m"
  shows "\<exists>p' sent n'. poll conf p core es bursts fresh clock n = Some (p', sent, n') \<and> same_keys core p p'
    \<and> list_all2 (to_port p core) (due (map destinations es) bursts) sent"
  using assms
proof (induction conf p core es bursts fresh clock n rule: poll.induct)
  case (1 conf p core e es ms bursts fresh clock n)
  let ?d = "if ms = [] then Some (p, []) else dispatch conf p core (destinations e) ms fresh clock n"
  obtain p1 sent where d: "?d = Some (p1, sent)" "same_keys core p p1" "list_all2 (to_port p core) (List.product (destinations e) ms) sent"
    using dispatch_delivers [of "destinations e" conf p core ms fresh clock n] 1(2,3)
    by (cases "ms = []") (auto simp: product_concat_map concat_eq_Nil_conv)
  have "\<forall>e \<in> set es. \<forall>port \<in> set (destinations e). plain_port conf p1 core port"
    "\<forall>ms \<in> set bursts. \<forall>m \<in> set ms. plain_packet m"
    using 1(2,3) plain_port_same_keys [OF d(2)] d(2) by (auto simp: same_keys_def)
  then obtain p' sent' n' where r: "poll conf p1 core es bursts fresh clock (n + length sent) = Some (p', sent', n')"
    "same_keys core p1 p'" "list_all2 (to_port p1 core) (due (map destinations es) bursts) sent'"
    using 1(1) [OF d(1) refl] by blast
  have "list_all2 (to_port p core) (due (map destinations es) bursts) sent'"
  proof (rule list.rel_mono_strong [OF r(3)])
    fix x y assume x: "x \<in> set (due (map destinations es) bursts)" and t: "to_port p1 core x y"
    have "plain_port conf p core (fst x)" using due_port [OF x] 1(2) by auto
    then show "to_port p core x y" using t delivered_same_keys [OF d(2)] by (simp add: to_port_def plain_port_def)
  qed
  then show ?case using d r same_keys_trans [OF d(2) r(2)] by (auto simp: due_def intro!: list_all2_appendI)
qed (auto simp: due_def)

lemma main_loop_delivers:
  assumes "\<forall>e \<in> set (take (in_interface_cnt conf) (in_interface conf)). \<forall>port \<in> set (destinations e). plain_port conf p core port"
    and "\<forall>bursts \<in> set rounds. \<forall>ms \<in> set bursts. \<forall>m \<in> set ms. plain_packet m"
  shows "\<exists>p' sent. main_loop conf p core rounds fresh clock n = Some (p', sent)
    \<and> list_all2 (to_port p core) (concat (map (due (map destinations (take (in_interface_cnt conf) (in_interface conf)))) rounds)) sent"
  using assms
proof (induction rounds arbitrary: p n)
  case (Cons bursts rounds)
  let ?es = "take (in_interface_cnt conf) (in_interface conf)"
  obtain p1 sent n1 where 1: "poll conf p core ?es bursts fresh clock n = Some (p1, sent, n1)" "same_keys core p p1"
    "list_all2 (to_port p core) (due (map destinations ?es) bursts) sent"
    using poll_delivers [of ?es conf p core bursts fresh clock n] Cons.prems by auto
  have "\<forall>e \<in> set ?es. \<forall>port \<in> set (destinations e). plain_port conf p1 core port"
    "\<forall>bursts \<in> set rounds. \<forall>ms \<in> set bursts. \<forall>m \<in> set ms. plain_packet m"
    using Cons.prems plain_port_same_keys [OF 1(2)] 1(2) by (auto simp: same_keys_def)
  then obtain p' sent' where 2: "main_loop conf p1 core rounds fresh clock n1 = Some (p', sent')"
    "list_all2 (to_port p1 core) (concat (map (due (map destinations ?es)) rounds)) sent'"
    using Cons.IH by blast
  have "list_all2 (to_port p core) (concat (map (due (map destinations ?es)) rounds)) sent'"
  proof (rule list.rel_mono_strong [OF 2(2)])
    fix x y assume x: "x \<in> set (concat (map (due (map destinations ?es)) rounds))" and t: "to_port p1 core x y"
    obtain bursts where "x \<in> set (due (map destinations ?es) bursts)" using x by auto
    then have "plain_port conf p core (fst x)" using due_port Cons.prems(1) by blast
    then show "to_port p core x y" using t delivered_same_keys [OF 1(2)] by (simp add: to_port_def plain_port_def)
  qed
  then show ?case using 1 2 by (auto intro!: list_all2_appendI)
qed simp

text \<open>The same from the initialisation on, with the image of an address under the key of its port.\<close>

lemma main_loop_under_keys:
  assumes "process_packet_init inet fs stack fails mem mem_flows cores conf p = Some p'" and "core < cores"
    and es: "es = take (in_interface_cnt conf) (in_interface conf)"
    and "\<forall>e \<in> set es. \<forall>port \<in> set (destinations e). port < length (out_interface conf)
      \<and> addresses_only (out_interface conf ! port) \<and> has_key (out_interface conf ! port) (keys port)"
    and "length (out_interface conf) \<le> MAX_INTERFACES" and "\<forall>c i. shaped (m_expandedKey (snd (p_crypto p c i)))"
    and "\<forall>bursts \<in> set rounds. \<forall>ms \<in> set bursts. \<forall>m \<in> set ms. plain_packet m"
  shows "\<exists>p'' sent. main_loop conf p' core rounds fresh clock n = Some (p'', sent)
    \<and> list_all2 (under_key (p_nets p') keys) (concat (map (due (map destinations es)) rounds)) sent"
proof -
  have ports: "\<forall>port \<in> set (concat (map destinations es)). port < length (out_interface conf)
      \<and> addresses_only (out_interface conf ! port) \<and> has_key (out_interface conf ! port) (keys port)"
    using assms(4) by auto
  note i = init_images [OF assms(1,2) ports assms(5,6)]
  have "\<forall>e \<in> set es. \<forall>port \<in> set (destinations e). plain_port conf p' core port" using i(1) by auto
  then obtain p'' sent where s: "main_loop conf p' core rounds fresh clock n = Some (p'', sent)"
    "list_all2 (to_port p' core) (concat (map (due (map destinations es)) rounds)) sent"
    using main_loop_delivers [of conf p' core rounds fresh clock n] assms(7) unfolding es by blast
  have "list_all2 (under_key (p_nets p') keys) (concat (map (due (map destinations es)) rounds)) sent"
  proof (rule list.rel_mono_strong [OF s(2)])
    fix x y assume x: "x \<in> set (concat (map (due (map destinations es)) rounds))" and t: "to_port p' core x y"
    obtain bursts where "x \<in> set (due (map destinations es) bursts)" using x by auto
    then have "fst x \<in> set (concat (map destinations es))" using due_port by fastforce
    then have "image_at p' core (fst x) = crypto_pan_in (p_nets p') (keys (fst x))" by (rule i(2))
    then show "under_key (p_nets p') keys x y" using t by (rule to_port_under_key)
  qed
  then show ?thesis using s(1) by blast
qed

text \<open>One port with a key, and a file that names the network of the office.\<close>

lemma init_cores_works:
  assumes "length key = 32" and "\<forall>c. shaped (m_expandedKey (snd (data c i)))" and "i < MAX_INTERFACES" and "n \<le> MAX_CORES"
  obtains data' where "init_cores (\<lambda>_ _. 0) (base64 key) i data n = Some data'"
  using assms(4)
proof (induction n arbitrary: thesis)
  case (Suc n)
  obtain data1 where 1: "init_cores (\<lambda>_ _. 0) (base64 key) i data n = Some data1" using Suc by fastforce
  have "data1 n i = data n i" using init_cores_frame [OF 1] by simp
  then obtain c where "initialize_crypto 0 (fst (data1 n i)) (snd (data1 n i)) (Some (base64 key)) i = Some c"
    using initialize_crypto_operational [OF _ assms(1,3)] assms(2) by metis
  then show ?case using 1 Suc.prems by (simp add: split_def)
qed simp

text \<open>Settings a port can be initialised with: a key that can be decoded, and files of networks that exist.\<close>

definition initialisable :: "(u8 list \<Rightarrow> u8 list option) \<Rightarrow> out_interface_sett \<Rightarrow> bool" where
  "initialisable fs s \<longleftrightarrow> (anon_ip_enabled s = 1 \<longrightarrow> fs (anon_subnet_file s) \<noteq> None \<and> fs (no_anon_subnet_file s) \<noteq> None
     \<and> (anon_ip_key_mode s = static_str \<longrightarrow> (\<exists>key. anon_ip_key s = base64 key \<and> length key = 32)))"

lemma init_port_works:
  assumes "initialisable fs s" and "\<forall>c. shaped (m_expandedKey (snd (p_crypto p c i)))" and "i < MAX_INTERFACES"
    and "cores \<le> MAX_CORES"
  obtains p' where "init_port_data inet fs (\<lambda>_ _. 0) cores s i p = Some p'"
proof (cases "anon_ip_enabled s = 1 \<and> anon_ip_key_mode s = static_str")
  case True
  then obtain key where key: "anon_ip_key s = base64 key" "length key = 32" using assms(1) by (auto simp: initialisable_def)
  obtain data where "init_cores (\<lambda>_ _. 0) (base64 key) i (p_crypto p) cores = Some data"
    by (rule init_cores_works [where data = "p_crypto p", OF key(2) assms(2-4)])
  then show thesis
    using that assms(1) True key(1) by (auto simp: init_port_data_def initialisable_def Let_def split_def)
next
  case False
  then show thesis
    using that assms(1) by (cases "anon_ip_enabled s = 1") (auto simp: init_port_data_def initialisable_def Let_def split_def)
qed

lemma init_ports_works:
  assumes "\<forall>s \<in> set ss. initialisable fs s" and "\<forall>c i. i0 \<le> i \<longrightarrow> shaped (m_expandedKey (snd (p_crypto p c i)))"
    and "i0 + length ss \<le> MAX_INTERFACES" and "cores \<le> MAX_CORES"
  shows "\<exists>p'. init_ports inet fs (\<lambda>_ _. 0) cores ss i0 p = Some p'"
  using assms(1-3)
proof (induction ss arbitrary: i0 p)
  case (Cons s ss)
  obtain p1 where 1: "init_port_data inet fs (\<lambda>_ _. 0) cores s i0 p = Some p1"
    by (rule init_port_works [of fs s p i0 cores inet]) (use Cons.prems assms(4) in simp_all)
  have "\<forall>c i. Suc i0 \<le> i \<longrightarrow> shaped (m_expandedKey (snd (p_crypto p1 c i)))"
    using Cons.prems(2) init_port_frame [OF 1] by (metis Suc_le_eq less_imp_le less_irrefl)
  then show ?case using Cons.IH [of "Suc i0" p1] Cons.prems(1,3) 1 by simp
qed simp

definition keyed_settings :: out_interface_sett where
  "keyed_settings = address_settings\<lparr>anon_ip_key := base64 (replicate 32 7), no_anon_subnet_file := [110]\<rparr>"

definition keyed_port :: configuration where
  "keyed_port = initial_configuration\<lparr>out_interface := [keyed_settings]\<rparr>"

definition network_files :: "u8 list \<Rightarrow> u8 list option" where
  "network_files f = Some (if f = [110] then [] else prefix_line ([97], 8))"

definition unkeyed :: "world \<Rightarrow> program" where
  "unkeyed w = \<lparr>p_world = w, p_crypto = (\<lambda>_ _. (zero_crypto_ip, zero_rijndael)), p_nets = \<lparr>anon_nets = [], anon_nets6 = [], no_anon_nets = [], no_anon_nets6 = []\<rparr>\<rparr>"

lemma network_files_parsed:
  "ParseNetFile some_inet (prefix_line ([97], 8)) 256 = (True, [(10, 255)], [])" "ParseNetFile some_inet [] 256 = (True, [], [])"
proof -
  have e: "parse_entries some_inet [] 256 nets4 [] = (True, nets4, [])" for nets4
    by (subst parse_entries.simps) (simp add: readline_def)
  then show "ParseNetFile some_inet [] 256 = (True, [], [])" by (simp add: ParseNetFile_def)
  show "ParseNetFile some_inet (prefix_line ([97], 8)) 256 = (True, [(10, 255)], [])"
    using parse_entries_prefixes [of "[([97], 8)]" some_inet "[]" 256 "[]"] some_entries reads_masks_some_inet e
    by (simp add: ParseNetFile_def network_def some_inet_def htonl_def)
qed

theorem configured_keys_translate_witness:
  "\<forall>w mem mem_flows. \<exists>p' p'' m.
      process_packet_init some_inet network_files (\<lambda>_ _. 0) (\<lambda>_. False) mem mem_flows 4 keyed_port (unkeyed w) = Some p'
    \<and> dispatch keyed_port p' 3 [0] [mk_packet office_room 60] (\<lambda>_ _. 0) (\<lambda>_. 0) 0 = Some (p'', [(0, m)])
    \<and> source_of m = htonl (cryptopan (key_cipher (replicate 32 7)) (key_pad (replicate 32 7)) (htonl 0x0100000a))
    \<and> destination_of m = 9"
proof (intro allI)
  fix w mem mem_flows
  let ?p = "unkeyed w" and ?k = "replicate 32 7 :: u8 list" and ?m = "mk_packet office_room 60"
  have sh: "\<forall>c i. shaped (m_expandedKey (snd (p_crypto ?p c i)))" by (simp add: unkeyed_def shaped_zero_key)
  have "length ?k = 32" "\<forall>c. shaped (m_expandedKey (snd (p_crypto ?p c 0)))" "0 < MAX_INTERFACES" "4 \<le> MAX_CORES"
    using sh by (simp_all add: MAX_INTERFACES_def MAX_CORES_def)
  from init_cores_works [where data = "p_crypto ?p" and i = 0, OF this] obtain data where "init_cores (\<lambda>_ _. 0) (base64 ?k) 0 (p_crypto ?p) 4 = Some data" .
  then have "\<exists>p'. process_packet_init some_inet network_files (\<lambda>_ _. 0) (\<lambda>_. False) mem mem_flows 4 keyed_port ?p = Some p'
      \<and> p_nets p' = office\<lparr>no_anon_nets := []\<rparr>"
    by (simp add: process_packet_init_def keyed_port_def init_port_data_def keyed_settings_def address_settings_def
        network_files_def network_files_parsed MAX_SUBNETS_def office_def)
  then obtain p' where i: "process_packet_init some_inet network_files (\<lambda>_ _. 0) (\<lambda>_. False) mem mem_flows 4 keyed_port ?p
      = Some p'" "p_nets p' = office\<lparr>no_anon_nets := []\<rparr>" by blast
  have ports: "\<forall>port \<in> set [0]. port < length (out_interface keyed_port) \<and> addresses_only (out_interface keyed_port ! port)
      \<and> has_key (out_interface keyed_port ! port) ?k"
    by (simp add: keyed_port_def keyed_settings_def address_settings_def addresses_only_def has_key_def)
  have "\<forall>m \<in> set [?m]. plain_packet m"
    by (simp add: plain_packet_def office_packet mbuf_ok_def) (simp add: mk_packet_def office_room_def)
  note d = configured_keys_translate [OF i(1), of 3 "[0]" "\<lambda>_. ?k", OF _ ports _ sh this, of "\<lambda>_ _. 0" "\<lambda>_. 0" 0]
  show "\<exists>p' p'' m. process_packet_init some_inet network_files (\<lambda>_ _. 0) (\<lambda>_. False) mem mem_flows 4 keyed_port ?p = Some p'
    \<and> dispatch keyed_port p' 3 [0] [?m] (\<lambda>_ _. 0) (\<lambda>_. 0) 0 = Some (p'', [(0, m)])
    \<and> source_of m = htonl (cryptopan (key_cipher ?k) (key_pad ?k) (htonl 0x0100000a)) \<and> destination_of m = 9"
    using d i by (auto simp: keyed_port_def MAX_INTERFACES_def list_all2_Cons1 office_packet under_key_def unless_exempt_def
        not_exempt_def no_anon_ip_check_def crypto_pan_in_def anon_ip_check_def office_def)
qed

text \<open>
  C34.  The networks are shared.  Whatever files the ports name, after process_packet_init the networks in
  force for every port are those of the last port with address anonymisation.
\<close>

theorem last_networks_apply:
  assumes "process_packet_init inet fs stack fails mem mem_flows cores conf p = Some p'"
    and "filter (\<lambda>s. anon_ip_enabled s = 1) (out_interface conf) = ss @ [s]"
  shows "p_nets p' = networks_of inet fs s"
proof -
  obtain p0 where p0: "init_ports inet fs stack cores (out_interface conf) 0 p = Some p0" "p_nets p' = p_nets p0"
    using assms(1) by (auto simp: process_packet_init_def split: Option.bind_splits)
  show ?thesis using init_ports_nets [OF p0(1)] p0(2) assms(2) by (cases ss) simp_all
qed

definition two_files :: configuration where
  "two_files = initial_configuration\<lparr>out_interface := [keyed_settings, keyed_settings\<lparr>anon_subnet_file := [110]\<rparr>]\<rparr>"

theorem last_networks_apply_witness:
  "\<forall>w mem mem_flows. \<exists>p'. process_packet_init some_inet network_files (\<lambda>_ _. 0) (\<lambda>_. False) mem mem_flows 4 two_files (unkeyed w) = Some p'
    \<and> anon_nets (networks_of some_inet network_files (out_interface two_files ! 0)) = [(10, 255)] \<and> anon_nets (p_nets p') = []"
proof (intro allI)
  fix w mem mem_flows
  have s: "\<forall>s \<in> set (out_interface two_files). initialisable network_files s"
    by (auto simp: two_files_def initialisable_def network_files_def keyed_settings_def intro!: exI [of _ "replicate 32 7"])
  obtain p0 where "init_ports some_inet network_files (\<lambda>_ _. 0) 4 (out_interface two_files) 0 (unkeyed w) = Some p0"
    using init_ports_works [OF s, of 0 "unkeyed w" 4 some_inet]
    by (auto simp: unkeyed_def shaped_zero_key two_files_def MAX_INTERFACES_def MAX_CORES_def)
  then have p: "process_packet_init some_inet network_files (\<lambda>_ _. 0) (\<lambda>_. False) mem mem_flows 4 two_files (unkeyed w)
      = Some (p0\<lparr>p_world := proto_init (\<lambda>_. False) mem mem_flows (p_world p0)\<rparr>)"
    by (simp add: process_packet_init_def)
  have "filter (\<lambda>s. anon_ip_enabled s = 1) (out_interface two_files) = [keyed_settings] @ [keyed_settings\<lparr>anon_subnet_file := [110]\<rparr>]"
    by (simp add: two_files_def keyed_settings_def address_settings_def)
  from last_networks_apply [OF p this] p
  show "\<exists>p'. process_packet_init some_inet network_files (\<lambda>_ _. 0) (\<lambda>_. False) mem mem_flows 4 two_files (unkeyed w) = Some p'
    \<and> anon_nets (networks_of some_inet network_files (out_interface two_files ! 0)) = [(10, 255)] \<and> anon_nets (p_nets p') = []"
    by (simp add: networks_of_def two_files_def keyed_settings_def address_settings_def network_files_def network_files_parsed MAX_SUBNETS_def)
qed

end
