(* ===== verification/Deployment.thy ===== *)
theory Deployment
  imports Setup_Properties Program_Properties
begin

text \<open>
  The program from its start to the packets it sends: the file of settings, the mappings, the keys, the set-up
  of the ports and the handling of the packets together.
\<close>

text \<open>The settings of a port according to a file.\<close>

definition port_settings :: "machine \<Rightarrow> entry list \<Rightarrow> nat \<Rightarrow> out_interface_sett \<Rightarrow> bool" where
  "port_settings mc es port s \<longleftrightarrow> (\<exists>before n v after. es = before @ (str ''interface_conf'', n, v) # after \<and> port_of mc n = port
     \<and> (\<forall>e \<in> set after. \<not> configures mc port e)
     \<and> s = group_settings (memory mc (nat (atoi v))) (group_lines (atoi v) before))"

lemma configured_port:
  assumes "settings_file mc fs f k es" and "\<not> malloc_fails mc" and "port_settings mc es port s"
    and "parse_args mc fs [Inl f] initial_configuration = Some (conf, 0)"
  shows "out_interface conf ! port = s \<and> port < length (out_interface conf)"
proof -
  obtain before n v after where e: "es = before @ (str ''interface_conf'', n, v) # after" "port_of mc n = port"
    "\<forall>e \<in> set after. \<not> configures mc port e" "s = group_settings (memory mc (nat (atoi v))) (group_lines (atoi v) before)"
    using assms(3) by (auto simp: port_settings_def)
  have "port < MAX_INTERFACES" using assms(1) e(1,2) by (auto simp: settings_file_def entry_fits_def is_port_def)
  then show ?thesis using port_settings_loaded [OF assms(1) [unfolded e(1)] assms(2)] e assms(4) by auto
qed

lemma table_of_outputs:
  assumes "settings_file mc fs f k es" and "\<not> malloc_fails mc"
    and "parse_args mc fs [Inl f] initial_configuration = Some (conf, 0)"
  shows "length (out_interface conf) = MAX_INTERFACES"
proof -
  obtain st conf' where c: "parse_args mc fs [Inl f] initial_configuration = Some (conf', 0)"
    "load_all mc es st = Some conf'" "loaded (map (memory mc) [0..<k]) [] st"
    "\<forall>e \<in> set es. entry_fits mc k e" "length (mappings es) \<le> MAX_INTERFACES"
    by (rule settings_file_loads [OF assms(1,2)])
  obtain conf'' where "load_all mc es st = Some conf''" "loaded (map (memory mc) [0..<k]) es conf''"
    by (rule load_fits [OF c(3), of es mc]) (use c(4,5) in simp_all)
  then show ?thesis using c(1,2) assms(3) by (simp add: loaded_def tables_ok_def)
qed

lemma ports_initialisable:
  assumes "settings_file mc fs f k es" and "\<not> malloc_fails mc"
    and "parse_args mc fs [Inl f] initial_configuration = Some (conf, 0)"
    and "\<forall>port s. port_settings mc es port s \<longrightarrow> initialisable fs s"
  shows "\<forall>s \<in> set (out_interface conf). initialisable fs s"
proof -
  have len: "length (out_interface conf) = MAX_INTERFACES" by (rule table_of_outputs [OF assms(1-3)])
  have "initialisable fs (out_interface conf ! port)" if "port < length (out_interface conf)" for port
  proof (cases "\<exists>e \<in> set es. configures mc port e")
    case True
    then obtain before e after where e: "es = before @ e # after" "configures mc port e" "\<forall>e \<in> set after. \<not> configures mc port e"
      using split_list_last_prop [of es "configures mc port"] by auto
    obtain n v where n: "e = (str ''interface_conf'', n, v)" "port_of mc n = port"
      using e(2) by (cases e) (auto simp: configures_def)
    have "port_settings mc es port (group_settings (memory mc (nat (atoi v))) (group_lines (atoi v) before))"
      using e n unfolding port_settings_def by blast
    then show ?thesis using configured_port [OF assms(1,2) _ assms(3)] assms(4) by metis
  next
    case False
    then have "out_interface conf ! port = zero_sett"
      using unconfigured_port [OF assms(1,2) _ _ assms(3)] that len by auto
    then show ?thesis by (simp add: initialisable_def zero_sett_def)
  qed
  then show ?thesis by (simp add: all_set_conv_all_nth)
qed

text \<open>A machine on which the set-up succeeds.\<close>

definition dpdk_works :: "dpdk \<Rightarrow> bool" where
  "dpdk_works d \<longleftrightarrow> 0 \<le> eal_init d \<and> lcore_count d \<le> MAX_CORES \<and> 0 < dev_count d \<and> dev_count d \<le> MAX_INTERFACES
     \<and> pools d 0 \<and> pools d 1 \<and> (\<forall>i < dev_count d. port_works d i)"

lemma program_starts:
  assumes "settings_file mc fs f k es" and "\<not> malloc_fails mc" and "\<forall>port s. port_settings mc es port s \<longrightarrow> initialisable fs s"
    and "\<forall>c i. shaped (m_expandedKey (snd (p_crypto p c i)))" and "dpdk_works d"
    and conf: "parse_args mc fs [Inl f] initial_configuration = Some (conf, 0)"
  shows "\<exists>p' cs. process_packet_init inet fs (\<lambda>_ _. 0) fails mem mem_flows (lcore_count d) conf p = Some p'
    \<and> main d mc inet fs (\<lambda>_ _. 0) fails mem mem_flows [Inl f] p = Some (Running conf p' cs)"
proof -
  have len: "length (out_interface conf) \<le> MAX_INTERFACES" using table_of_outputs [OF assms(1,2) conf] by simp
  obtain p' where p': "process_packet_init inet fs (\<lambda>_ _. 0) fails mem mem_flows (lcore_count d) conf p = Some p'"
    using init_ports_works [OF ports_initialisable [OF assms(1,2) conf assms(3)], of 0 p "lcore_count d" inet] assms(4,5) len
    by (auto simp: process_packet_init_def dpdk_works_def)
  have "\<forall>i \<in> set [0..<dev_count d]. i < length (used_ports conf) \<and> (used_ports conf ! i = 1 \<longrightarrow> port_works d i)"
    using used_loaded [OF assms(1,2) conf] assms(5) by (auto simp: dpdk_works_def)
  then obtain s' where "init_used d (lcore_count d) (used_ports conf) [0..<dev_count d] \<lparr>fast_free = False, calls = []\<rparr> = Some (Inr s')"
    using used_set_up by blast
  then show ?thesis using assms(5) conf p' by (simp add: main_def dpdk_works_def)
qed

text \<open>
  C1.  From the file of settings to the packets.  Let a file fit, with port 0 the first input port or none,
  let the ports it configures be initialisable, and let the settings it gives to the output ports of its
  mappings ask for the translation of addresses only, each with a key of 32 bytes.  Let the set-up succeed on
  the machine, and the unassigned pointer that initialize_crypto frees happen to be null.  Then the program
  gets to its main loop without a fault, and for any number of rounds, on each core, every burst of IPv4
  packets that contain the header of IP is sent to all the output ports the file maps its input port to, in
  that order, and to no other.  Of a packet without an address in the exempt networks, every copy has each
  address that lies in the networks to anonymise replaced by its Crypto-PAn image under the key of the port it
  is sent to, and every other byte as it was received; a packet with an exempt address is sent as it was received.
\<close>

theorem deployed_anonymisation:
  assumes "settings_file mc fs f k es" and "\<not> malloc_fails mc" and "zero_first (inputs mc (mappings es))"
    and "\<forall>port s. port_settings mc es port s \<longrightarrow> initialisable fs s"
    and "outs = map (outputs mc (mappings es)) (inputs mc (mappings es))"
    and "\<forall>port \<in> set (concat outs). \<exists>s. port_settings mc es port s \<and> addresses_only s \<and> has_key s (keys port)"
    and "\<forall>c i. shaped (m_expandedKey (snd (p_crypto p c i)))" and "dpdk_works d"
  shows "\<exists>conf p' cs. main d mc inet fs (\<lambda>_ _. 0) fails mem mem_flows [Inl f] p = Some (Running conf p' cs)
    \<and> (\<forall>core < lcore_count d. \<forall>rounds. (\<forall>bursts \<in> set rounds. \<forall>ms \<in> set bursts. \<forall>m \<in> set ms. plain_packet m) \<longrightarrow>
        (\<exists>p'' sent. main_loop conf p' core rounds fresh clock n = Some (p'', sent)
          \<and> list_all2 (under_key (p_nets p') keys) (concat (map (due outs) rounds)) sent))"
proof -
  obtain conf where c: "parse_args mc fs [Inl f] initial_configuration = Some (conf, 0)"
    "forwards conf = table_of mc (mappings es)"
    using forwards_loaded [OF assms(1-3)] by blast
  let ?es = "take (in_interface_cnt conf) (in_interface conf)"
  have "map destinations ?es = map snd (forwards conf)" by (simp add: forwards_def)
  then have outs: "map destinations ?es = outs" by (simp add: c(2) table_of_def assms(5))
  then have "concat outs = concat (map destinations ?es)" by simp
  then have ports: "\<forall>e \<in> set ?es. \<forall>port \<in> set (destinations e). port < length (out_interface conf)
      \<and> addresses_only (out_interface conf ! port) \<and> has_key (out_interface conf ! port) (keys port)"
    using assms(6) configured_port [OF assms(1,2) _ c(1)] by fastforce
  have len: "length (out_interface conf) \<le> MAX_INTERFACES" using table_of_outputs [OF assms(1,2) c(1)] by simp
  obtain p' cs where p': "process_packet_init inet fs (\<lambda>_ _. 0) fails mem mem_flows (lcore_count d) conf p = Some p'"
    "main d mc inet fs (\<lambda>_ _. 0) fails mem mem_flows [Inl f] p = Some (Running conf p' cs)"
    using program_starts [OF assms(1,2,4,7,8) c(1)] by blast
  then show ?thesis
    using main_loop_under_keys [OF p'(1) _ refl ports len assms(7)] p'(2) unfolding outs by blast
qed

text \<open>A file with one group and one mapping.\<close>

definition key_text :: "u8 list" where
  "key_text = str ''BwcHBwcHBwcHBwcHBwcHBwcHBwcHBwcHBwcHBwcHBwc=''"

lemma key_text: "key_text = base64 (replicate 32 7)"
proof -
  have r: "replicate 32 (7 :: u8) = [7, 7, 7, 7, 7, 7, 7, 7, 7, 7, 7, 7, 7, 7, 7, 7, 7, 7, 7, 7, 7, 7, 7, 7, 7, 7, 7, 7, 7, 7, 7, 7]"
    by (simp add: eval_nat_numeral)
  have c: "b64_char 1 = 66" "b64_char 0x30 = 119" "b64_char 0x1C = 99" "b64_char 7 = 72"
    by (simp_all add: b64_char_def b64_def)
  show ?thesis unfolding r key_text_def str_def by (simp add: c)
qed

definition group_entries :: "(string \<times> u8 list) list" where
  "group_entries = [(''anon_mac'', str ''0''), (''anon_ip'', str ''1''), (''key_mode'', str ''static''), (''key'', key_text),
     (''anon_subnet_file'', str ''networks''), (''no_anon_subnet_file'', str ''none''), (''payload_drop'', str ''0''), (''engine'', str ''0'')]"

definition deployed_items :: "item list" where
  "deployed_items = [Section (str ''general''), Entry (str ''num_config'') (str ''1''), Section (str ''group_0'')]
     @ map (\<lambda>(n, v). Entry (str n) v) group_entries
     @ [Section (str ''interfaces_mappings''), Entry (str ''p1'') (str ''p2''), Section (str ''interface_conf''),
        Entry (str ''p2'') (str ''0''), Section (str ''end'')]"

definition deployed_entries :: "entry list" where
  "deployed_entries = map (\<lambda>(n, v). (str ''group_0'', str n, v)) group_entries @ [(str ''interfaces_mappings'', str ''p1'', str ''p2'')]"

definition deployed_files :: "u8 list \<Rightarrow> u8 list option" where
  "deployed_files f = (if f = str ''ini'' then Some (file_text deployed_items)
     else if f = str ''networks'' then Some (prefix_line ([97], 8)) else Some [])"

lemma deployed_items_ok: "\<forall>i \<in> set deployed_items. item_ok i"
  by (simp add: deployed_items_def group_entries_def key_text_def plain_text_def trimmed_def is_space_def INI_MAX_LINE_def
      MAX_SECTION_def str_def word_le_nat_alt)

lemma deployed_file:
  "settings_file some_machine deployed_files (str ''ini'') 1 (deployed_entries @ [(str ''interface_conf'', str ''p2'', str ''0'')])"
  unfolding settings_file_def
  by (rule exI [of _ deployed_items], rule exI [of _ "[]"], rule exI [of _ "str ''1''"],
      use deployed_items_ok in \<open>simp add: deployed_entries_def group_entries_def entry_fits_def group_of_0 mappings_def
        preamble_def atoi_examples is_port_def some_ports MAX_INTERFACES_def MAX_STR_def key_text_def deployed_files_def\<close>)
    (simp add: deployed_items_def group_entries_def key_text_def)

definition deployed_settings :: out_interface_sett where
  "deployed_settings = zero_sett\<lparr>anon_ip_enabled := 1, anon_ip_key_mode := static_str, anon_ip_key := key_text,
     anon_subnet_file := str ''networks'', no_anon_subnet_file := str ''none'', s_delta := 77\<rparr>"

lemma deployed_port:
  "port_settings some_machine (deployed_entries @ [(str ''interface_conf'', str ''p2'', str ''0'')]) port s
     \<longleftrightarrow> port = 2 \<and> s = deployed_settings"
proof -
  have none: "\<forall>e \<in> set deployed_entries. fst e \<noteq> str ''interface_conf''" by (simp add: deployed_entries_def group_entries_def)
  have split: "deployed_entries @ [y] = before @ x # after \<longleftrightarrow> before = deployed_entries \<and> x = y \<and> after = []"
    if "fst x = str ''interface_conf''" for x y before after
  proof -
    have "x \<notin> set deployed_entries" using that none by blast
    then show ?thesis by (cases after rule: rev_cases) (auto simp: in_set_conv_decomp)
  qed
  have "group_settings (memory some_machine 0) (group_lines 0 deployed_entries) = deployed_settings"
    by (simp add: some_machine_def zero_sett_def deployed_settings_def group_settings_def last_value_def group_lines_def
        deployed_entries_def group_entries_def group_of_0 atoi_examples int_or_def text_or_def)
      (simp add: static_str_def str_def)
  then show ?thesis
    by (auto simp: port_settings_def split some_ports atoi_examples)
qed

lemma deployed_outputs:
  assumes "parse_args some_machine deployed_files [Inl (str ''ini'')] initial_configuration = Some (conf, 0)"
  shows "out_interface conf = (replicate MAX_INTERFACES zero_sett)[2 := deployed_settings]"
proof (rule nth_equalityI)
  show l: "length (out_interface conf) = length ((replicate MAX_INTERFACES zero_sett)[2 := deployed_settings])"
    using table_of_outputs [OF deployed_file _ assms] by simp
  fix port assume p: "port < length (out_interface conf)"
  show "out_interface conf ! port = (replicate MAX_INTERFACES zero_sett)[2 := deployed_settings] ! port"
  proof (cases "port = 2")
    case True
    then show ?thesis using configured_port [OF deployed_file _ _ assms, of 2 deployed_settings] p l by (simp add: deployed_port)
  next
    case False
    then have "\<forall>e \<in> set (deployed_entries @ [(str ''interface_conf'', str ''p2'', str ''0'')]). \<not> configures some_machine port e"
      by (simp add: configures_def some_ports deployed_entries_def group_entries_def)
    then show ?thesis using unconfigured_port [OF deployed_file _ _ _ assms, of port] False p l by simp
  qed
qed

lemma deployed_nets:
  assumes "parse_args some_machine deployed_files [Inl (str ''ini'')] initial_configuration = Some (conf, 0)"
    and "process_packet_init some_inet deployed_files (\<lambda>_ _. 0) (\<lambda>_. False) mem mem_flows 4 conf (unkeyed w) = Some p'"
  shows "p_nets p' = \<lparr>anon_nets = [(10, 255)], anon_nets6 = [], no_anon_nets = [], no_anon_nets6 = []\<rparr>"
proof -
  have "(replicate MAX_INTERFACES zero_sett)[2 := deployed_settings] = zero_sett # zero_sett # deployed_settings # replicate 61 zero_sett"
    by (simp add: MAX_INTERFACES_def eval_nat_numeral)
  then have f: "filter (\<lambda>s. anon_ip_enabled s = 1) (out_interface conf) = [deployed_settings]"
    by (simp add: deployed_outputs [OF assms(1)] zero_sett_def deployed_settings_def)
  obtain p0 where "init_ports some_inet deployed_files (\<lambda>_ _. 0) 4 (out_interface conf) 0 (unkeyed w) = Some p0" "p_nets p' = p_nets p0"
    using assms(2) by (auto simp: process_packet_init_def split: Option.bind_splits)
  then show ?thesis
    using init_ports_nets f by (auto simp: networks_of_def deployed_settings_def deployed_files_def network_files_parsed MAX_SUBNETS_def)
qed

lemma deployed_settings_initialisable: "initialisable deployed_files deployed_settings"
  by (auto simp: initialisable_def deployed_settings_def zero_sett_def deployed_files_def key_text intro!: exI [of _ "replicate 32 7"])

text \<open>A machine with three ports and four cores.\<close>

definition some_dpdk :: dpdk where
  "some_dpdk = \<lparr>eal_init = 4, lcore_count = 4, dev_count = 3, pools = (\<lambda>_. True), max_rx_queues = (\<lambda>_. 16),
     fast_free_capa = (\<lambda>i. i = 1), dev_configure = (\<lambda>_ _. 0), adjust_desc = (\<lambda>_. 0), rx_queue_setup = (\<lambda>_ _. 0),
     tx_queue_setup = (\<lambda>_ _. 0), dev_start = (\<lambda>_. 0)\<rparr>"

lemma some_dpdk_works: "dpdk_works some_dpdk"
  by (simp add: dpdk_works_def some_dpdk_def port_works_def MAX_CORES_def MAX_INTERFACES_def)

text \<open>Two rounds: a packet of the office that the input port receives in the second.\<close>

theorem deployed_anonymisation_witness:
  "\<forall>w mem mem_flows. \<exists>conf p' cs p'' m. main some_dpdk some_machine some_inet deployed_files (\<lambda>_ _. 0) (\<lambda>_. False) mem mem_flows
      [Inl (str ''ini'')] (unkeyed w) = Some (Running conf p' cs)
    \<and> main_loop conf p' 3 [[[]], [[mk_packet office_room 60]]] (\<lambda>_ _. 0) (\<lambda>_. 0) 0 = Some (p'', [(2, m)])
    \<and> source_of m = htonl (cryptopan (key_cipher (replicate 32 7)) (key_pad (replicate 32 7)) (htonl 0x0100000a))
    \<and> destination_of m = 9"
proof (intro allI)
  fix w mem mem_flows
  let ?es = "deployed_entries @ [(str ''interface_conf'', str ''p2'', str ''0'')]" and ?k = "replicate 32 7 :: u8 list"
  have ms: "mappings ?es = [(str ''p1'', str ''p2'')]" by (simp add: mappings_def deployed_entries_def group_entries_def)
  have io: "inputs some_machine (mappings ?es) = [1]" "outputs some_machine (mappings ?es) (Suc 0) = [2]"
    by (simp_all add: ms inputs_def outputs_def some_ports)
  have s: "addresses_only deployed_settings" "has_key deployed_settings ?k"
    by (auto simp: deployed_settings_def zero_sett_def addresses_only_def has_key_def key_text)
  have sh: "\<forall>c i. shaped (m_expandedKey (snd (p_crypto (unkeyed w) c i)))" by (simp add: unkeyed_def shaped_zero_key)
  have init: "\<forall>port s. port_settings some_machine ?es port s \<longrightarrow> initialisable deployed_files s"
    by (simp add: deployed_port deployed_settings_initialisable)
  have outs: "\<forall>port \<in> set (concat [[2]]). \<exists>s. port_settings some_machine ?es port s \<and> addresses_only s \<and> has_key s ?k"
    by (simp add: deployed_port s)
  have first: "zero_first (inputs some_machine (mappings ?es))"
    and o: "[[2]] = map (outputs some_machine (mappings ?es)) (inputs some_machine (mappings ?es))"
    by (simp_all add: io zero_first_def)
  obtain conf p' cs where c: "main some_dpdk some_machine some_inet deployed_files (\<lambda>_ _. 0) (\<lambda>_. False) mem mem_flows
      [Inl (str ''ini'')] (unkeyed w) = Some (Running conf p' cs)"
    and d: "\<forall>core < lcore_count some_dpdk. \<forall>rounds. (\<forall>bursts \<in> set rounds. \<forall>ms \<in> set bursts. \<forall>m \<in> set ms. plain_packet m) \<longrightarrow>
        (\<exists>p'' sent. main_loop conf p' core rounds (\<lambda>_ _. 0) (\<lambda>_. 0) 0 = Some (p'', sent)
          \<and> list_all2 (under_key (p_nets p') (\<lambda>_. ?k)) (concat (map (due [[2]]) rounds)) sent)"
    using deployed_anonymisation [OF deployed_file some_machine_malloc first init o outs sh some_dpdk_works,
        of some_inet "\<lambda>_. False" mem mem_flows "\<lambda>_ _. 0" "\<lambda>_. 0" 0] by blast
  have nets: "p_nets p' = \<lparr>anon_nets = [(10, 255)], anon_nets6 = [], no_anon_nets = [], no_anon_nets6 = []\<rparr>"
    using main_running [OF c] by (auto simp: some_dpdk_def intro: deployed_nets)
  let ?rounds = "[[[]], [[mk_packet office_room 60]]]"
  have "plain_packet (mk_packet office_room 60)"
    by (simp add: plain_packet_def office_packet mbuf_ok_def)
      (simp add: mk_packet_def office_room_def)
  then have plain: "\<forall>bursts \<in> set ?rounds. \<forall>ms \<in> set bursts. \<forall>m \<in> set ms. plain_packet m" by simp
  have "3 < lcore_count some_dpdk" by (simp add: some_dpdk_def)
  from d [THEN spec, THEN mp, OF this, THEN spec, THEN mp, OF plain]
  obtain p'' sent where r: "main_loop conf p' 3 ?rounds (\<lambda>_ _. 0) (\<lambda>_. 0) 0 = Some (p'', sent)"
    "list_all2 (under_key (p_nets p') (\<lambda>_. ?k)) (concat (map (due [[2]]) ?rounds)) sent"
    by blast
  have "concat (map (due [[2]]) ?rounds) = [(2, mk_packet office_room 60)]" by (simp add: due_def)
  then obtain m where "sent = [(2, m)]" "under_key (p_nets p') (\<lambda>_. ?k) (2, mk_packet office_room 60) (2, m)"
    using r(2) by (auto simp: list_all2_Cons1 under_key_def)
  then show "\<exists>conf p' cs p'' m. main some_dpdk some_machine some_inet deployed_files (\<lambda>_ _. 0) (\<lambda>_. False) mem mem_flows
      [Inl (str ''ini'')] (unkeyed w) = Some (Running conf p' cs)
    \<and> main_loop conf p' 3 ?rounds (\<lambda>_ _. 0) (\<lambda>_. 0) 0 = Some (p'', [(2, m)])
    \<and> source_of m = htonl (cryptopan (key_cipher ?k) (key_pad ?k) (htonl 0x0100000a)) \<and> destination_of m = 9"
    using c r(1) by (auto simp: under_key_def unless_exempt_def not_exempt_def no_anon_ip_check_def office_packet crypto_pan_in_def anon_ip_check_def nets)
qed

text \<open>The calls to the ports 1 and 2; FAST_FREE is set for port 2 because port 1 supports it.\<close>

theorem ports_started_witness:
  "\<forall>w mem mem_flows. \<exists>conf p' cs. main some_dpdk some_machine some_inet deployed_files (\<lambda>_ _. 0) (\<lambda>_. False) mem mem_flows
      [Inl (str ''ini'')] (unkeyed w) = Some (Running conf p' cs)
    \<and> filter (\<lambda>c. port_of_call c = 0) cs = []
    \<and> filter (\<lambda>c. port_of_call c = 2) cs = [Configure 2 4 4 True rss_seed, Adjust 2, Rx_queue 2 0, Rx_stats 2 0, Tx_queue 2 0, Tx_stats 2 0,
        Rx_queue 2 1, Rx_stats 2 1, Tx_queue 2 1, Tx_stats 2 1, Rx_queue 2 2, Rx_stats 2 2, Tx_queue 2 2, Tx_stats 2 2,
        Rx_queue 2 3, Rx_stats 2 3, Tx_queue 2 3, Tx_stats 2 3, Start 2, Promiscuous 2]"
proof (intro allI)
  fix w mem mem_flows
  let ?es = "deployed_entries @ [(str ''interface_conf'', str ''p2'', str ''0'')]"
  have "\<forall>port s. port_settings some_machine ?es port s \<longrightarrow> initialisable deployed_files s"
    by (simp add: deployed_port deployed_settings_initialisable)
  moreover obtain conf where "parse_args some_machine deployed_files [Inl (str ''ini'')] initial_configuration = Some (conf, 0)"
    by (rule settings_file_loads [OF deployed_file some_machine_malloc])
  moreover have "\<forall>c i. shaped (m_expandedKey (snd (p_crypto (unkeyed w) c i)))" by (simp add: unkeyed_def shaped_zero_key)
  ultimately obtain conf p' cs where c: "main some_dpdk some_machine some_inet deployed_files (\<lambda>_ _. 0) (\<lambda>_. False) mem mem_flows
      [Inl (str ''ini'')] (unkeyed w) = Some (Running conf p' cs)"
    using program_starts [OF deployed_file some_machine_malloc _ _ some_dpdk_works] by blast
  have m: "set (mapped_ports some_machine (mappings ?es)) = {1, 2}"
    by (simp add: mapped_ports_def mappings_def deployed_entries_def group_entries_def some_ports)
  note s = ports_started [OF deployed_file some_machine_malloc c, unfolded m, THEN conjunct2, rule_format]
  show "\<exists>conf p' cs. main some_dpdk some_machine some_inet deployed_files (\<lambda>_ _. 0) (\<lambda>_. False) mem mem_flows
      [Inl (str ''ini'')] (unkeyed w) = Some (Running conf p' cs)
    \<and> filter (\<lambda>c. port_of_call c = 0) cs = []
    \<and> filter (\<lambda>c. port_of_call c = 2) cs = [Configure 2 4 4 True rss_seed, Adjust 2, Rx_queue 2 0, Rx_stats 2 0, Tx_queue 2 0, Tx_stats 2 0,
        Rx_queue 2 1, Rx_stats 2 1, Tx_queue 2 1, Tx_stats 2 1, Rx_queue 2 2, Rx_stats 2 2, Tx_queue 2 2, Tx_stats 2 2,
        Rx_queue 2 3, Rx_stats 2 3, Tx_queue 2 3, Tx_stats 2 3, Start 2, Promiscuous 2]"
    using c s [of 0] s [of 2] by (auto simp: some_dpdk_def port_calls_def queue_calls_def upt_rec numeral_2_eq_2)
qed

end
