(* ===== verification/Spec2Isabelle.thy ===== *)
theory Spec2Isabelle
  imports Cipher_Properties Crypto_Properties Lru_Properties Names_Properties Flow_Properties Packet_Properties
    Handler_Properties Process_Properties Net_Properties Pad_Properties Anonymity Rss Deployment
begin

text \<open>
  Alpha-MON anonymises the packets of a link before it forwards them to a monitoring tool.  This
  development models the C program under \<^verbatim>\<open>src/src\<close> and proves the parts of it on which the
  anonymity rests.

  \<^bold>\<open>The program.\<close>  \<^verbatim>\<open>traffic_anon.c\<close> reads the settings with \<^verbatim>\<open>ini.c\<close>, sets up the ports, and on each core
  polls the input ports and sends every packet to the output ports that the settings map them to.  For
  each of them it hands the packet, or a copy, to \<^verbatim>\<open>process_packet.c\<close>, which overwrites the Ethernet addresses and looks at the version
  of IP.  Packets of exempt networks pass.  Addresses in the networks to anonymise
  (\<^verbatim>\<open>ip_utils.c\<close>) are replaced by their Crypto-PAn images (\<^verbatim>\<open>crypto_ip.c\<close>), computed with the cipher
  of \<^verbatim>\<open>rijndael.c\<close> from a key that the configuration gives in base 64 (\<^verbatim>\<open>base64.h\<close>).  Then the
  payload is removed or the engine runs: \<^verbatim>\<open>multiplexer_proto\<close> of \<^verbatim>\<open>proto_mng.c\<close> finds the
  connection of the packet (\<^verbatim>\<open>flow_mng.c\<close>), detects its protocol (\<^verbatim>\<open>proto_finder.c\<close>) and calls the handlers of
  external addresses (\<^verbatim>\<open>ext-ip_mng.c\<close>), DNS (\<^verbatim>\<open>dns_mng.c\<close>, \<^verbatim>\<open>proto_mng.c\<close>), TLS (\<^verbatim>\<open>tls_mng.c\<close>) and
  HTTP (\<^verbatim>\<open>http_mng.c\<close>).  A name in a message is let pass only when enough clients used it within a
  window of time; the table of names of \<^verbatim>\<open>proto_mng.c\<close> counts the clients of each name in a list of
  recent clients (\<^verbatim>\<open>lru.c\<close>), at slots that \<^verbatim>\<open>hash_calculator.c\<close> chooses.

  \<^bold>\<open>The theories.\<close>
  \<^item> \<^verbatim>\<open>Prelude\<close>: names of the machine integers, columns and blocks of bytes, shared lemmas.
  \<^item> \<^verbatim>\<open>Aes_Spec\<close>: the cipher of FIPS-197, written from the standard, as the specification.
  \<^item> \<^verbatim>\<open>Rijndael_Tables\<close>, \<^verbatim>\<open>Rijndael\<close>: \<^verbatim>\<open>rijndael.c\<close>, the tables as the source has them, the key
    schedule, the two ciphers and the drivers \<^verbatim>\<open>blockEncrypt\<close> and \<^verbatim>\<open>blockDecrypt\<close>.  The context
    is the record \<open>rijndael\<close>; a call returns the new context with the return code, or \<open>None\<close>
    where the code would leave a buffer.
  \<^item> \<^verbatim>\<open>Rijndael_Correct\<close>, \<^verbatim>\<open>Cipher_Properties\<close>: the tables are those of the cipher, the key
    schedule is the key expansion, the drivers compute the cipher and its inverse, errors, and
    what the CBC mode really chains.
  \<^item> \<^verbatim>\<open>Base64\<close>: \<^verbatim>\<open>base64.h\<close> and its round trip.
  \<^item> \<^verbatim>\<open>Pad\<close>, \<^verbatim>\<open>Pad_Properties\<close>: \<^verbatim>\<open>padEncrypt\<close> and \<^verbatim>\<open>padDecrypt\<close> of \<^verbatim>\<open>rijndael.c\<close> and \<^verbatim>\<open>StringEncryptedBase64\<close> of
    \<^verbatim>\<open>crypto_ip.c\<close>, which the program does not call: what padding really does in each mode, and that the
    buffers of \<^verbatim>\<open>StringEncryptedBase64\<close> hold every string up to the length at which its integers overflow.
  \<^item> \<^verbatim>\<open>Crypto_Ip\<close>: \<^verbatim>\<open>crypto_ip.c\<close>; the record \<open>crypto_ip\<close> holds the pad, the two caches and the two
    tables of addresses, which are association lists in the order of the hash tables.
  \<^item> \<^verbatim>\<open>Crypto_Ip_Correct\<close>, \<^verbatim>\<open>Crypto_Properties\<close>: the caches and tables are invisible, translation is
    prefix preserving and injective.  The locales \<open>prefix_pad\<close> and \<open>translation_table\<close> state what
    an anonymiser needs of its source of pads and of its table; both are interpreted on the model.
  \<^item> \<^verbatim>\<open>Hash_Calculator\<close>: \<^verbatim>\<open>hash_calculator.c\<close> with the ranges of the hashes.
  \<^item> \<^verbatim>\<open>Lru\<close>: \<^verbatim>\<open>lru.c\<close> on a heap of list nodes; bad pointers are \<open>None\<close>.
  \<^item> \<^verbatim>\<open>Lru_Correct\<close>, \<^verbatim>\<open>Lru_Properties\<close>: the doubly linked list of a name refines a list of clients
    and times; what the number of entries says about the window.
  \<^item> \<^verbatim>\<open>Names_Table\<close>: \<^verbatim>\<open>table_init\<close> and \<^verbatim>\<open>table_add\<close> of \<^verbatim>\<open>proto_mng.c\<close>; a bucket is a record with its
    counter and its chain of names.
  \<^item> \<^verbatim>\<open>Names_Correct\<close>, \<^verbatim>\<open>Names_Progress\<close>, \<^verbatim>\<open>Names_Properties\<close>: the lists of all names lie apart in one heap,
    the operation on a bucket keeps them so, results never overstate a name, a name used by enough
    clients passes, and what cleaning loses.
  \<^item> \<^verbatim>\<open>Flow_Mng\<close>, \<^verbatim>\<open>Flow_Properties\<close>: the table of connections of \<^verbatim>\<open>flow_mng.c\<close>; which entry a packet
    gets, against a description of the connection as the pairs of its addresses and ports, and the faults of
    garbage collection.
  \<^item> \<^verbatim>\<open>Packet\<close>: the packet buffer as bytes with a length, reads and writes that fault behind the buffer,
    \<^verbatim>\<open>remove_payload\<close>, \<^verbatim>\<open>l4_payload_remover\<close> and \<^verbatim>\<open>process_packet_eth\<close>.
  \<^item> \<^verbatim>\<open>World\<close>: the record \<open>world\<close> of the state that handlers share, with the time stamp counter and
    the values of unassigned variables; C strings and \<^verbatim>\<open>strcasestr\<close>.
  \<^item> \<^verbatim>\<open>Ext_Ip\<close>, \<^verbatim>\<open>Tls_Mng\<close>, \<^verbatim>\<open>Http_Mng\<close>, \<^verbatim>\<open>Dns_Mng\<close>: the handlers.  \<^verbatim>\<open>Proto_Mng\<close>: protocol detection and
    \<^verbatim>\<open>multiplexer_proto\<close>.  \<^verbatim>\<open>Ip_Utils\<close>, \<^verbatim>\<open>Net_File\<close>: lists of networks
    and \<^verbatim>\<open>ParseNetFile\<close>; \<^verbatim>\<open>inet_pton\<close> and \<^verbatim>\<open>inet_aton\<close> are the fields of an argument \<open>inet\<close>.
    \<^verbatim>\<open>Process_Packet\<close>: \<^verbatim>\<open>process_packet_ip\<close> and \<^verbatim>\<open>process_packet\<close>.
  \<^item> \<^verbatim>\<open>Packet_Frame\<close>: no handler changes the length of a packet, handlers of names write letters only.
    The locale \<open>packet_handler\<close> states what the decision of a connection needs of the handler it
    runs; it is interpreted on the three handlers.
  \<^item> \<^verbatim>\<open>Hiding\<close>: what the handlers of names do to the bytes of a name, and names in DNS messages with
    and without compression.
  \<^item> \<^verbatim>\<open>Net_Properties\<close>: files of prefixes are read back as the networks they list; what a bad line does.
  \<^item> \<^verbatim>\<open>Packet_Properties\<close>, \<^verbatim>\<open>Handler_Properties\<close>, \<^verbatim>\<open>Process_Properties\<close>: what is removed from packets and
    what is not, when names are hidden, which names are skipped, and the translation of the addresses
    of a sequence of packets, of IPv4 with the exempt networks and of IPv6, which are not compared with them.
  \<^item> \<^verbatim>\<open>Idle\<close>, \<^verbatim>\<open>Requests\<close>, \<^verbatim>\<open>Tracking\<close>, \<^verbatim>\<open>Anonymity\<close>: which handlers leave the table of names alone, which requests to
    the table a sequence of packets makes, and from whom; so a question that the engine
    shows is for a name that enough clients have used.
  \<^item> \<^verbatim>\<open>Ini\<close>, \<^verbatim>\<open>Ini_Properties\<close>: \<^verbatim>\<open>ini.c\<close> with the options that \<^verbatim>\<open>ini.h\<close> sets, over a reader of lines and a
    handler of entries; reading ends, and gives back the entries of a file or a string.  The locale
    \<open>line_reader\<close> states what the loop needs of a reader and is interpreted on those for files and strings.
  \<^item> \<^verbatim>\<open>Config\<close>: \<^verbatim>\<open>parse_ini\<close> and \<^verbatim>\<open>parse_args\<close> of \<^verbatim>\<open>traffic_anon.c\<close> on the record \<open>configuration\<close> of the global
    variables.  \<^verbatim>\<open>Program\<close>: \<^verbatim>\<open>proto_init\<close>, \<^verbatim>\<open>process_packet_init\<close> and the loops of \<^verbatim>\<open>main_loop\<close> over rounds, input
    ports, output ports and packets, on the record \<open>program\<close>.  \<^verbatim>\<open>Setup\<close>: \<^verbatim>\<open>init_port\<close> and \<^verbatim>\<open>main\<close>, with the
    calls of DPDK recorded and their results in the record \<open>dpdk\<close>.
  \<^item> \<^verbatim>\<open>Config_Properties\<close>, \<^verbatim>\<open>Setup_Properties\<close>, \<^verbatim>\<open>Program_Properties\<close>: which settings a port gets and where the packets of
    an input port go, with what becomes of port 0 when it is not the first, which ports are set up, and what every output port transmits.  \<^verbatim>\<open>Rss\<close>: the seed
    of the ports sends both directions of a connection to one core.
  \<^item> \<^verbatim>\<open>Deployment\<close>: from \<^verbatim>\<open>main\<close> and a file of settings to the packets that are sent.

  \<^bold>\<open>Conventions.\<close>  Machine integers are words, or integers where the code does not let them wrap.
  \<open>None\<close> is a fault or the end of the process; values the code reads before it writes them, the
  time stamp counter and the failures of \<^verbatim>\<open>malloc\<close> are arguments.  There is no fuel: the loops are
  structural, decrease a measure, or are \<^verbatim>\<open>partial_function\<close>s whose termination is part of the
  theorems about them; for these \<open>None\<close> is also a loop that does not end.  A mutex makes an operation on a
  bucket atomic, and one packet is handled at a time.

  \<^bold>\<open>Not modelled.\<close>  Of \<^verbatim>\<open>traffic_anon.c\<close> the printing of settings and statistics, the counters of
  packets per core, and \<^verbatim>\<open>sig_handler\<close>, which prints and exits.  A packet has one segment, and a transmission is
  repeated until the port takes the packet, so that nothing is lost there.  \<^verbatim>\<open>remove_dns_name\<close> is never called
  and changes nothing but a local pointer; \<^verbatim>\<open>remove_dnsquery_name\<close> is declared only.  The code of \<^verbatim>\<open>ini.c\<close> that
  its options leave out is not compiled.  \<^verbatim>\<open>uthash.h\<close> and the headers of ldns are third-party code, and
  \<^verbatim>\<open>rijndael_old.h\<close> is not included anywhere.
\<close>

end
